(* ===== verification/Prelude.thy ===== *)
theory Prelude
  imports Main "HOL-Library.Word"
begin

text \<open>
  Shared notation, automation and lemmas: sums as results of fallible Python code
  (\<open>Inl\<close> is a raised exception), their sequencing \<open>bindE\<close> and folding, the type of
  bytes, generic list facts, and the interface of a transition system with an invariant
  that the state machines of the development instantiate.
\<close>

section \<open>Results of code that may raise\<close>

named_theorems result_simps \<open>equations that evaluate sequenced results\<close>

fun bindE :: "'e + 'a \<Rightarrow> ('a \<Rightarrow> 'e + 'b) \<Rightarrow> 'e + 'b" where
  "bindE (Inl e) f = Inl e"
| "bindE (Inr x) f = f x"

text \<open>\<open>assertE c e\<close> is \<open>if not c: raise e\<close>.\<close>

definition assertE :: "bool \<Rightarrow> 'e \<Rightarrow> 'e + unit" where
  "assertE c e = (if c then Inr () else Inl e)"

text \<open>A sequence of state-passing statements that stops at the first exception.\<close>

fun seqE :: "('s \<Rightarrow> 'e + 's) list \<Rightarrow> 's \<Rightarrow> 'e + 's" where
  "seqE [] s = Inr s"
| "seqE (c # cs) s = bindE (c s) (seqE cs)"

text \<open>A list comprehension whose element expression may raise.\<close>

fun traverseE :: "('a \<Rightarrow> 'e + 'b) \<Rightarrow> 'a list \<Rightarrow> 'e + 'b list" where
  "traverseE f [] = Inr []"
| "traverseE f (x # xs) = bindE (f x) (\<lambda>y. bindE (traverseE f xs) (\<lambda>ys. Inr (y # ys)))"

lemma bindE_Inr_iff [result_simps]:
  "bindE m f = Inr y \<longleftrightarrow> (\<exists>x. m = Inr x \<and> f x = Inr y)"
  by (cases m) auto

lemma bindE_Inl_iff [result_simps]:
  "bindE m f = Inl e \<longleftrightarrow> m = Inl e \<or> (\<exists>x. m = Inr x \<and> f x = Inl e)"
  by (cases m) auto

lemma assertE_Inr_iff [result_simps]: "assertE c e = Inr u \<longleftrightarrow> c"
  by (simp add: assertE_def)

lemma assertE_Inl_iff [result_simps]: "assertE c e = Inl e' \<longleftrightarrow> \<not> c \<and> e' = e"
  by (auto simp: assertE_def)

lemma bindE_assoc: "bindE (bindE m f) g = bindE m (\<lambda>x. bindE (f x) g)"
  by (cases m) auto

lemma bindE_cong [fundef_cong]:
  "m = m' \<Longrightarrow> (\<And>x. m' = Inr x \<Longrightarrow> f x = f' x) \<Longrightarrow> bindE m f = bindE m' f'"
  by (cases m') auto

lemma seqE_append: "seqE (cs @ ds) s = bindE (seqE cs s) (seqE ds)"
proof (induction cs arbitrary: s)
  case (Cons c cs)
  then show ?case by (cases "c s") auto
qed simp

lemma traverseE_Inr_iff: "traverseE f xs = Inr ys \<longleftrightarrow> list_all2 (\<lambda>x y. f x = Inr y) xs ys"
  by (induction xs arbitrary: ys) (auto simp: bindE_Inr_iff list_all2_Cons1)

section \<open>Bytes and slices\<close>

type_synonym byte = "8 word"
type_synonym bytes = "byte list"

text \<open>Python's \<open>xs[i:j]\<close> for \<open>0 \<le> i\<close>, \<open>0 \<le> j\<close>: bounds past the end are clipped.\<close>

definition py_slice :: "nat \<Rightarrow> nat \<Rightarrow> 'a list \<Rightarrow> 'a list" where
  "py_slice i j xs = take (j - i) (drop i xs)"

lemma py_slice_append_mid [simp]:
  "py_slice (length pre) (length pre + length mid) (pre @ mid @ post) = mid"
  by (simp add: py_slice_def)

lemma py_slice_append_mid_n:
  "n = length mid \<Longrightarrow> py_slice (length pre) (length pre + n) (pre @ mid @ post) = mid"
  by simp

lemma length_py_slice_le: "length (py_slice i j xs) \<le> j - i"
  by (simp add: py_slice_def)

lemma length_py_slice: "j \<le> length xs \<Longrightarrow> length (py_slice i j xs) = j - i"
  by (simp add: py_slice_def)

section \<open>Transition systems with an invariant\<close>

text \<open>
  A component whose operations are events: \<open>step e s\<close> is \<open>None\<close> when the event cannot
  happen in \<open>s\<close>, otherwise the state after it.
\<close>

inductive reach :: "'s \<Rightarrow> ('e \<Rightarrow> 's \<Rightarrow> 's option) \<Rightarrow> 's \<Rightarrow> bool"
  for init :: 's and step :: "'e \<Rightarrow> 's \<Rightarrow> 's option" where
  reach_init: "reach init step init"
| reach_step: "reach init step s \<Longrightarrow> step e s = Some t \<Longrightarrow> reach init step t"

fun run :: "('e \<Rightarrow> 's \<Rightarrow> 's option) \<Rightarrow> 'e list \<Rightarrow> 's \<Rightarrow> 's option" where
  "run step [] s = Some s"
| "run step (e # es) s = (case step e s of None \<Rightarrow> None | Some t \<Rightarrow> run step es t)"

lemma run_append:
  "run step (es @ fs) s = (case run step es s of None \<Rightarrow> None | Some t \<Rightarrow> run step fs t)"
  by (induction es arbitrary: s) (auto split: option.splits)

lemma run_reach:
  "run step es s = Some t \<Longrightarrow> reach init step s \<Longrightarrow> reach init step t"
  by (induction es arbitrary: s) (auto split: option.splits intro: reach_step)

locale invariant_system =
  fixes init :: 's and step :: "'e \<Rightarrow> 's \<Rightarrow> 's option" and inv :: "'s \<Rightarrow> bool"
  assumes inv_init: "inv init"
    and inv_step: "inv s \<Longrightarrow> step e s = Some t \<Longrightarrow> inv t"
begin

lemma inv_reach: "reach init step s \<Longrightarrow> inv s"
  by (induction rule: reach.induct) (auto intro: inv_init inv_step)

lemma inv_run: "run step es s = Some t \<Longrightarrow> inv s \<Longrightarrow> inv t"
  by (induction es arbitrary: s) (auto split: option.splits intro: inv_step)

end

text \<open>
  A system in which some events are the component's own progress: each of them makes a
  measure smaller, so without new input the component comes to rest.
\<close>

locale progress_system = invariant_system init step inv
  for init :: 's and step :: "'e \<Rightarrow> 's \<Rightarrow> 's option" and inv :: "'s \<Rightarrow> bool" +
  fixes own :: "'e \<Rightarrow> bool" and work :: "'s \<Rightarrow> nat" and at_rest :: "'s \<Rightarrow> bool"
  assumes own_decreases: "inv s \<Longrightarrow> own e \<Longrightarrow> step e s = Some t \<Longrightarrow> work t < work s"
    and not_stuck: "inv s \<Longrightarrow> \<not> at_rest s \<Longrightarrow> \<exists>e t. own e \<and> step e s = Some t"
begin

lemma own_run_bounded:
  "inv s \<Longrightarrow> list_all own es \<Longrightarrow> run step es s = Some t \<Longrightarrow> length es + work t \<le> work s"
proof (induction es arbitrary: s)
  case Nil
  then show ?case by simp
next
  case (Cons e es)
  then obtain u where u: "step e s = Some u" "run step es u = Some t"
    by (auto split: option.splits)
  with Cons.prems have "inv u" "work u < work s"
    by (auto intro: inv_step own_decreases)
  with Cons.IH[of u] Cons.prems u show ?case by fastforce
qed

lemma comes_to_rest:
  "inv s \<Longrightarrow> \<exists>es t. list_all own es \<and> run step es s = Some t \<and> at_rest t"
proof (induction "work s" arbitrary: s rule: less_induct)
  case less
  show ?case
  proof (cases "at_rest s")
    case True
    then show ?thesis by (intro exI[of _ "[]"]) simp
  next
    case False
    with less.prems obtain e u where e: "own e" "step e s = Some u"
      using not_stuck by blast
    with less.prems less.hyps[of u] obtain es t
      where "list_all own es" "run step es u = Some t" "at_rest t"
      by (metis inv_step own_decreases)
    with e show ?thesis by (intro exI[of _ "e # es"] exI[of _ t]) simp
  qed
qed

end

end
