(* ===== verification/Slow_Ack.thy ===== *)
theory Slow_Ack
  imports Prelude "HOL-Library.Multiset"
begin

text \<open>
  The slow-ack consumer of \<open>slow_ack_consumer.py\<close>: the main thread dispatches deliveries
  and threadsafe callbacks one at a time, and one daemon thread per held message sleeps,
  posts the acknowledgement callback and gives its slot back. The threads interleave at the
  points where the code takes \<open>held_lock\<close>, posts a callback or is dispatched by the
  connection, so the program is a machine whose events are these points. The counter
  \<open>held_count\<close> and its lock, the callback queue of the connection and the open state of
  channel and connection are the state; \<open>acked\<close> and \<open>lost\<close> record what happened to
  every delivery tag the broker handed out.
\<close>

section \<open>State\<close>

definition MAX_HELD :: int where
  "MAX_HELD = 1000"

definition prefetch_count :: int where
  "prefetch_count = MAX_HELD + 100"

text \<open>
  A holding thread sleeps in \<open>hold_and_ack\<close>, or has posted its callback and is about to
  decrement the counter, or died there because \<open>add_callback_threadsafe\<close> raised on a
  closed connection.
\<close>

datatype worker = Sleeping | Posted | Crashed

text \<open>
  The main thread waits for events, or is in \<open>on_message\<close>: it has read the counter under
  the lock, or has taken a slot and is about to start the thread. \<open>Stopped b\<close>: it left
  \<open>main\<close>; \<open>b\<close> says that a slot was taken whose thread was never started.
\<close>

datatype main_pc = Idle | Read_held nat int | Slot_taken nat | Stopped bool

record consumer =
  held_count :: int
  pc :: main_pc
  threads :: "(nat \<times> worker) list"
  ack_callbacks :: "nat list"
  pending :: "nat list"
  acked :: "nat list"
  lost :: "nat list"
  next_tag :: nat
  channel_open :: bool
  connection_open :: bool

definition consumer_init :: consumer where
  "consumer_init = \<lparr>held_count = 0, pc = Idle, threads = [], ack_callbacks = [],
     pending = [], acked = [], lost = [], next_tag = 1,
     channel_open = True, connection_open = True\<rparr>"

section \<open>Operations\<close>

text \<open>\<open>ack_message\<close>: the callback the main thread runs for a held tag.\<close>

definition ack_message :: "nat \<Rightarrow> consumer \<Rightarrow> consumer" where
  "ack_message tag s =
     (if channel_open s then s\<lparr>acked := acked s @ [tag]\<rparr>
      else s\<lparr>lost := lost s @ [tag]\<rparr>)"

definition set_thread :: "nat \<Rightarrow> worker \<Rightarrow> (nat \<times> worker) list \<Rightarrow> (nat \<times> worker) list" where
  "set_thread tag w ts = map (\<lambda>(t, v). if t = tag then (t, w) else (t, v)) ts"

text \<open>
  \<open>hold_and_ack\<close> after its sleep: \<open>add_callback_threadsafe\<close> raises
  \<open>ConnectionWrongStateError\<close> when the connection is closed, which ends the thread before
  it decrements the counter.
\<close>

definition hold_and_ack :: "nat \<Rightarrow> consumer \<Rightarrow> consumer" where
  "hold_and_ack tag s =
     (if connection_open s
      then s\<lparr>ack_callbacks := ack_callbacks s @ [tag],
             threads := set_thread tag Posted (threads s)\<rparr>
      else s\<lparr>threads := set_thread tag Crashed (threads s)\<rparr>)"

text \<open>The rest of \<open>worker\<close>: the slot is given back and the thread ends.\<close>

definition worker_decrement :: "nat \<Rightarrow> consumer \<Rightarrow> consumer" where
  "worker_decrement tag s =
     s\<lparr>held_count := held_count s - 1,
       threads := filter (\<lambda>(t, w). t \<noteq> tag) (threads s)\<rparr>"

text \<open>
  Leaving \<open>main\<close>: \<open>start_consuming\<close> ended by an exception or the user's interrupt and
  \<open>connection.close()\<close> ran. Deliveries not yet dispatched are rejected or dropped.
\<close>

definition leave_main :: "bool \<Rightarrow> nat list \<Rightarrow> consumer \<Rightarrow> consumer" where
  "leave_main slot tags s =
     s\<lparr>pc := Stopped slot, lost := lost s @ tags @ pending s, pending := [],
       channel_open := False, connection_open := False\<rparr>"

text \<open>
  \<open>on_message\<close> up to the release of the first lock, then the branch on the value it read
  and the increment under the second lock, then the start of the thread.
\<close>

definition on_message_read :: "nat \<Rightarrow> consumer \<Rightarrow> consumer" where
  "on_message_read tag s = s\<lparr>pc := Read_held tag (held_count s)\<rparr>"

definition on_message_decide :: "nat \<Rightarrow> int \<Rightarrow> consumer \<Rightarrow> consumer" where
  "on_message_decide tag current s =
     (if current \<ge> MAX_HELD then
        (if channel_open s then s\<lparr>acked := acked s @ [tag], pc := Idle\<rparr>
         else leave_main False [tag] s)
      else s\<lparr>held_count := held_count s + 1, pc := Slot_taken tag\<rparr>)"

definition on_message_start :: "nat \<Rightarrow> consumer \<Rightarrow> consumer" where
  "on_message_start tag s =
     s\<lparr>threads := threads s @ [(tag, Sleeping)], pc := Idle\<rparr>"

section \<open>The machine\<close>

text \<open>
  \<open>Deliver\<close> is the broker: within the prefetch window it delivers the next tag. The events
  of the program are those that \<open>own_event\<close> names; the others are its environment.
\<close>

datatype event =
  Deliver | Take | Decide | Start | Wake nat | Decrement nat | Run_callback
| Close_channel | Lose_connection | Interrupt | Consuming_fails

definition outstanding :: "consumer \<Rightarrow> int" where
  "outstanding s = int (next_tag s) - 1 - int (length (acked s))"

definition pc_slot :: "main_pc \<Rightarrow> bool" where
  "pc_slot p = (case p of Slot_taken _ \<Rightarrow> True | Stopped b \<Rightarrow> b | _ \<Rightarrow> False)"

definition pc_tags :: "main_pc \<Rightarrow> nat list" where
  "pc_tags p = (case p of Read_held t _ \<Rightarrow> [t] | Slot_taken t \<Rightarrow> [t] | _ \<Rightarrow> [])"

definition is_stopped :: "main_pc \<Rightarrow> bool" where
  "is_stopped p = (case p of Stopped _ \<Rightarrow> True | _ \<Rightarrow> False)"

fun consumer_step :: "event \<Rightarrow> consumer \<Rightarrow> consumer option" where
  "consumer_step Deliver s =
     (if channel_open s \<and> outstanding s < prefetch_count
      then Some (s\<lparr>pending := pending s @ [next_tag s], next_tag := next_tag s + 1\<rparr>)
      else None)"
| "consumer_step Take s =
     (case (pc s, pending s) of
        (Idle, tag # tags) \<Rightarrow> Some (on_message_read tag (s\<lparr>pending := tags\<rparr>))
      | _ \<Rightarrow> None)"
| "consumer_step Decide s =
     (case pc s of Read_held tag current \<Rightarrow> Some (on_message_decide tag current s) | _ \<Rightarrow> None)"
| "consumer_step Start s =
     (case pc s of Slot_taken tag \<Rightarrow> Some (on_message_start tag s) | _ \<Rightarrow> None)"
| "consumer_step (Wake tag) s =
     (if map_of (threads s) tag = Some Sleeping then Some (hold_and_ack tag s) else None)"
| "consumer_step (Decrement tag) s =
     (if map_of (threads s) tag = Some Posted then Some (worker_decrement tag s) else None)"
| "consumer_step Run_callback s =
     (case (pc s, ack_callbacks s) of
        (Idle, tag # tags) \<Rightarrow> Some (ack_message tag (s\<lparr>ack_callbacks := tags\<rparr>))
      | _ \<Rightarrow> None)"
| "consumer_step Close_channel s =
     Some (s\<lparr>channel_open := False, lost := lost s @ pending s, pending := []\<rparr>)"
| "consumer_step Lose_connection s =
     Some (s\<lparr>channel_open := False, connection_open := False\<rparr>)"
| "consumer_step Interrupt s =
     (if is_stopped (pc s) then None
      else Some (leave_main (pc_slot (pc s)) (pc_tags (pc s)) s))"
| "consumer_step Consuming_fails s =
     (if pc s = Idle \<and> \<not> channel_open s then Some (leave_main False [] s) else None)"

fun own_event :: "event \<Rightarrow> bool" where
  "own_event Take = True"
| "own_event Decide = True"
| "own_event Start = True"
| "own_event (Wake _) = True"
| "own_event (Decrement _) = True"
| "own_event Run_callback = True"
| "own_event _ = False"

section \<open>Invariant\<close>

text \<open>Threads whose tag is still theirs to acknowledge.\<close>

definition holding :: "consumer \<Rightarrow> nat list" where
  "holding s = map fst (filter (\<lambda>(t, w). w \<noteq> Posted) (threads s))"

definition accounted :: "consumer \<Rightarrow> nat multiset" where
  "accounted s = mset (pending s) + mset (pc_tags (pc s)) + mset (holding s)
     + mset (ack_callbacks s) + mset (acked s) + mset (lost s)"

definition issued :: "nat \<Rightarrow> nat multiset" where
  "issued n = mset [1..<n]"

lemma issued_Suc: "1 \<le> n \<Longrightarrow> issued (Suc n) = add_mset n (issued n)"
  by (simp add: issued_def del: mset_upt)

definition consumer_inv :: "consumer \<Rightarrow> bool" where
  "consumer_inv s \<longleftrightarrow>
     held_count s = int (length (threads s)) + of_bool (pc_slot (pc s))
   \<and> held_count s \<le> MAX_HELD
   \<and> (\<forall>t c. pc s = Read_held t c \<longrightarrow> held_count s \<le> c \<and> c \<le> MAX_HELD)
   \<and> distinct (map fst (threads s))
   \<and> (\<forall>t. (t, Posted) \<in> set (threads s) \<longrightarrow>
          t \<in> set (ack_callbacks s) \<union> set (acked s) \<union> set (lost s))
   \<and> 1 \<le> next_tag s
   \<and> accounted s = issued (next_tag s)
   \<and> (channel_open s \<longrightarrow> lost s = [] \<and> connection_open s)
   \<and> (connection_open s \<longrightarrow> Crashed \<notin> snd ` set (threads s) \<and> \<not> is_stopped (pc s))
   \<and> (is_stopped (pc s) \<longrightarrow> pending s = [])
   \<and> outstanding s \<le> prefetch_count"

lemmas consumer_op_defs = ack_message_def hold_and_ack_def worker_decrement_def leave_main_def
  on_message_read_def on_message_decide_def on_message_start_def

lemmas pc_defs = pc_slot_def pc_tags_def is_stopped_def

lemma consumer_inv_init: "consumer_inv consumer_init"
  by (simp add: consumer_inv_def consumer_init_def accounted_def holding_def pc_defs
      issued_def outstanding_def prefetch_count_def MAX_HELD_def)

text \<open>Every tag is in one place only, because the tags handed out are distinct.\<close>

lemma accounted_distinct:
  assumes "accounted s = issued (next_tag s)"
  shows "distinct (pending s @ pc_tags (pc s) @ holding s @ ack_callbacks s @ acked s @ lost s)"
    and "set (pending s @ pc_tags (pc s) @ holding s @ ack_callbacks s @ acked s @ lost s)
           = {1..<next_tag s}"
proof -
  let ?l = "pending s @ pc_tags (pc s) @ holding s @ ack_callbacks s @ acked s @ lost s"
  have m: "mset ?l = mset [1..<next_tag s]"
    using assms by (simp add: accounted_def issued_def add.assoc)
  then show "distinct ?l" by (metis distinct_upt mset_eq_imp_distinct_iff)
  show "set ?l = {1..<next_tag s}"
    using mset_eq_setD[OF m] by simp
qed

lemma thread_tags:
  assumes "\<forall>t. (t, Posted) \<in> set (threads s) \<longrightarrow>
             t \<in> set (ack_callbacks s) \<union> set (acked s) \<union> set (lost s)"
  shows "fst ` set (threads s) \<subseteq> set (holding s) \<union> set (ack_callbacks s)
           \<union> set (acked s) \<union> set (lost s)"
proof
  fix t
  assume "t \<in> fst ` set (threads s)"
  then obtain w where w: "(t, w) \<in> set (threads s)" by auto
  show "t \<in> set (holding s) \<union> set (ack_callbacks s) \<union> set (acked s) \<union> set (lost s)"
  proof (cases "w = Posted")
    case True
    with w assms show ?thesis by blast
  next
    case False
    with w have "t \<in> set (holding s)" by (force simp: holding_def)
    then show ?thesis by blast
  qed
qed

lemma map_fst_set_thread [simp]: "map fst (set_thread tag w ts) = map fst ts"
  by (auto simp: set_thread_def)

lemma length_set_thread [simp]: "length (set_thread tag w ts) = length ts"
  by (simp add: set_thread_def)

lemma set_thread_absent: "tag \<notin> fst ` set ts \<Longrightarrow> set_thread tag w ts = ts"
  by (induction ts) (auto simp: set_thread_def)

lemma in_set_thread:
  "(t, v) \<in> set (set_thread tag w ts) \<Longrightarrow> (t, v) \<in> set ts \<or> t = tag \<and> v = w"
  by (auto simp: set_thread_def split: if_splits)

lemma split_thread:
  assumes "map_of ts tag = Some w" "distinct (map fst ts)"
  obtains xs ys where "ts = xs @ (tag, w) # ys" "tag \<notin> fst ` set xs" "tag \<notin> fst ` set ys"
proof -
  from assms(1) have "(tag, w) \<in> set ts" by (rule map_of_SomeD)
  then obtain xs ys where ts: "ts = xs @ (tag, w) # ys" by (auto simp: in_set_conv_decomp)
  with assms(2) have "tag \<notin> fst ` set xs" "tag \<notin> fst ` set ys" by auto
  with ts that show thesis by blast
qed

lemmas inv_simps = consumer_inv_def accounted_def holding_def outstanding_def
  consumer_op_defs pc_defs issued_Suc

lemma inv_deliver:
  assumes inv: "consumer_inv s" and step: "consumer_step Deliver s = Some t"
  shows "consumer_inv t"
proof -
  from step have "channel_open s" "outstanding s < prefetch_count"
    "t = s\<lparr>pending := pending s @ [next_tag s], next_tag := next_tag s + 1\<rparr>"
    by (auto split: if_splits)
  with inv show ?thesis by (cases "pc s") (auto simp: inv_simps ac_simps)
qed

lemma inv_take:
  assumes inv: "consumer_inv s" and step: "consumer_step Take s = Some t"
  shows "consumer_inv t"
proof -
  from step obtain tag tags where "pc s = Idle" "pending s = tag # tags"
    "t = on_message_read tag (s\<lparr>pending := tags\<rparr>)"
    by (auto split: main_pc.splits list.splits)
  with inv show ?thesis by (simp add: inv_simps)
qed

lemma inv_decide:
  assumes inv: "consumer_inv s" and step: "consumer_step Decide s = Some t"
  shows "consumer_inv t"
proof -
  from step obtain tag current where "pc s = Read_held tag current"
    "t = on_message_decide tag current s"
    by (auto split: main_pc.splits)
  with inv show ?thesis by (auto simp: inv_simps ac_simps)
qed

lemma inv_start:
  assumes inv: "consumer_inv s" and step: "consumer_step Start s = Some t"
  shows "consumer_inv t"
proof -
  from step obtain tag where pc: "pc s = Slot_taken tag" and t: "t = on_message_start tag s"
    by (auto split: main_pc.splits)
  from inv have "accounted s = issued (next_tag s)" by (simp add: consumer_inv_def)
  note d = accounted_distinct[OF this]
  have "fst ` set (threads s) \<subseteq> set (holding s) \<union> set (ack_callbacks s) \<union> set (acked s) \<union> set (lost s)"
    using inv thread_tags by (simp add: consumer_inv_def)
  moreover have "tag \<notin> set (holding s) \<union> set (ack_callbacks s) \<union> set (acked s) \<union> set (lost s)"
    using d(1) pc by (auto simp: pc_tags_def)
  ultimately have "tag \<notin> fst ` set (threads s)" by blast
  with inv pc t show ?thesis
    by (auto simp: consumer_inv_def accounted_def holding_def outstanding_def consumer_op_defs pc_defs)
qed

lemma inv_wake:
  assumes inv: "consumer_inv s" and step: "consumer_step (Wake tag) s = Some t"
  shows "consumer_inv t"
proof -
  from step have m: "map_of (threads s) tag = Some Sleeping" and t: "t = hold_and_ack tag s"
    by (auto split: if_splits)
  from inv have "distinct (map fst (threads s))" by (simp add: consumer_inv_def)
  from split_thread[OF m this] obtain xs ys where
    ts: "threads s = xs @ (tag, Sleeping) # ys" "tag \<notin> fst ` set xs" "tag \<notin> fst ` set ys" .
  then have st: "\<And>w. set_thread tag w (threads s) = xs @ (tag, w) # ys"
    using set_thread_absent[of tag xs] set_thread_absent[of tag ys] by (simp add: set_thread_def)
  show ?thesis
    using inv t ts st
    by (auto simp: consumer_inv_def accounted_def holding_def outstanding_def consumer_op_defs pc_defs
      split: main_pc.splits)
qed

lemma filter_absent: "tag \<notin> fst ` set ts \<Longrightarrow> filter (\<lambda>(t, w). t \<noteq> tag) ts = ts"
  by (induction ts) auto

lemma inv_decrement:
  assumes inv: "consumer_inv s" and step: "consumer_step (Decrement tag) s = Some t"
  shows "consumer_inv t"
proof -
  from step have m: "map_of (threads s) tag = Some Posted" and t: "t = worker_decrement tag s"
    by (auto split: if_splits)
  from inv have "distinct (map fst (threads s))" by (simp add: consumer_inv_def)
  from split_thread[OF m this] obtain xs ys where
    ts: "threads s = xs @ (tag, Posted) # ys" "tag \<notin> fst ` set xs" "tag \<notin> fst ` set ys" .
  then have st: "filter (\<lambda>(t, w). t \<noteq> tag) (threads s) = xs @ ys"
    by (simp add: filter_absent)
  show ?thesis
    using inv t ts st
    by (auto simp: consumer_inv_def accounted_def holding_def outstanding_def consumer_op_defs pc_defs
      split: main_pc.splits)
qed

lemma inv_callback:
  assumes inv: "consumer_inv s" and step: "consumer_step Run_callback s = Some t"
  shows "consumer_inv t"
proof -
  from step obtain tag tags where "pc s = Idle" "ack_callbacks s = tag # tags"
    "t = ack_message tag (s\<lparr>ack_callbacks := tags\<rparr>)"
    by (auto split: main_pc.splits list.splits)
  with inv show ?thesis by (auto simp: inv_simps)
qed

lemma inv_leave_main:
  assumes "consumer_inv s"  "\<not> is_stopped (pc s)"
  shows "consumer_inv (leave_main (pc_slot (pc s)) (pc_tags (pc s)) s)"
  using assms by (cases "pc s") (auto simp: inv_simps ac_simps)

lemma inv_environment:
  assumes inv: "consumer_inv s" and step: "consumer_step e s = Some t"
    and e: "e \<in> {Close_channel, Lose_connection, Interrupt, Consuming_fails}"
  shows "consumer_inv t"
proof -
  consider "e = Close_channel" | "e = Lose_connection" | "e = Interrupt" | "e = Consuming_fails"
    using e by blast
  then show ?thesis
  proof cases
    case 1
    with step have "t = s\<lparr>channel_open := False, lost := lost s @ pending s, pending := []\<rparr>" by simp
    with inv show ?thesis by (auto simp: inv_simps ac_simps)
  next
    case 2
    with step have "t = s\<lparr>channel_open := False, connection_open := False\<rparr>" by simp
    with inv show ?thesis by (auto simp: inv_simps)
  next
    case 3
    with step inv show ?thesis by (auto split: if_splits intro: inv_leave_main)
  next
    case 4
    with step have "\<not> is_stopped (pc s)" "t = leave_main (pc_slot (pc s)) (pc_tags (pc s)) s"
      by (auto simp: pc_defs split: if_splits)
    with inv show ?thesis using inv_leave_main by blast
  qed
qed

lemma consumer_step_inv:
  assumes "consumer_inv s" "consumer_step e s = Some t"
  shows "consumer_inv t"
  using assms
  by (cases e) (blast intro: inv_deliver inv_take inv_decide inv_start inv_wake inv_decrement
      inv_callback inv_environment)+

section \<open>Progress\<close>

text \<open>
  Every event of the program itself moves one message closer to its acknowledgement: the
  steps a message still has before it, summed over all messages in the program.
\<close>

fun worker_work :: "worker \<Rightarrow> nat" where
  "worker_work Sleeping = 3"
| "worker_work Posted = 1"
| "worker_work Crashed = 0"

definition pc_work :: "main_pc \<Rightarrow> nat" where
  "pc_work p = (case p of Read_held _ _ \<Rightarrow> 5 | Slot_taken _ \<Rightarrow> 4 | _ \<Rightarrow> 0)"

definition consumer_work :: "consumer \<Rightarrow> nat" where
  "consumer_work s = 6 * length (pending s) + pc_work (pc s)
     + sum_list (map (worker_work \<circ> snd) (threads s)) + length (ack_callbacks s)"

definition at_rest :: "consumer \<Rightarrow> bool" where
  "at_rest s \<longleftrightarrow> list_all (\<lambda>(t, w). w = Crashed) (threads s)
     \<and> (is_stopped (pc s) \<or> pc s = Idle \<and> pending s = [] \<and> ack_callbacks s = [])"

lemma own_event_decreases:
  assumes inv: "consumer_inv s" and own: "own_event e" and step: "consumer_step e s = Some t"
  shows "consumer_work t < consumer_work s"
proof -
  have thr: "\<exists>xs ys. threads s = xs @ (tag, w) # ys \<and> tag \<notin> fst ` set xs \<and> tag \<notin> fst ` set ys"
    if "map_of (threads s) tag = Some w" for tag w
    using split_thread[OF that] inv by (metis consumer_inv_def)
  have st: "set_thread tag v (xs @ (tag, w) # ys) = xs @ (tag, v) # ys"
    if "tag \<notin> fst ` set xs" "tag \<notin> fst ` set ys" for tag v w xs ys
    using that set_thread_absent[of tag xs] set_thread_absent[of tag ys]
    by (simp add: set_thread_def)
  show ?thesis
  proof (cases e)
    case (Wake tag)
    with step have m: "map_of (threads s) tag = Some Sleeping" and t: "t = hold_and_ack tag s"
      by (auto split: if_splits)
    from thr[OF m] t show ?thesis by (auto simp: consumer_work_def hold_and_ack_def st)
  next
    case (Decrement tag)
    with step have m: "map_of (threads s) tag = Some Posted" and t: "t = worker_decrement tag s"
      by (auto split: if_splits)
    from thr[OF m] t show ?thesis
      by (auto simp: consumer_work_def worker_decrement_def filter_absent)
  qed (use own step in \<open>auto simp: consumer_work_def consumer_op_defs pc_work_def
          split: main_pc.splits list.splits if_splits\<close>)
qed

lemma own_event_enabled:
  assumes inv: "consumer_inv s" and busy: "\<not> at_rest s"
  shows "\<exists>e t. own_event e \<and> consumer_step e s = Some t"
proof (cases "list_all (\<lambda>(t, w). w = Crashed) (threads s)")
  case False
  then obtain tag w where w: "(tag, w) \<in> set (threads s)" "w \<noteq> Crashed"
    by (auto simp: list_all_iff)
  with inv have m: "map_of (threads s) tag = Some w"
    by (simp add: consumer_inv_def)
  show ?thesis
  proof (cases w)
    case Sleeping
    with m show ?thesis by (intro exI[of _ "Wake tag"]) simp
  next
    case Posted
    with m show ?thesis by (intro exI[of _ "Decrement tag"]) simp
  qed (use w in simp)
next
  case True
  with busy have main: "\<not> is_stopped (pc s)"
    "pc s = Idle \<Longrightarrow> pending s \<noteq> [] \<or> ack_callbacks s \<noteq> []" by (auto simp: at_rest_def)
  show ?thesis
  proof (cases "pc s")
    case Idle
    with main(2) consider x xs where "pending s = x # xs" | x xs where "ack_callbacks s = x # xs"
      by (auto simp: neq_Nil_conv)
    then show ?thesis
    proof cases
      case 1
      with Idle show ?thesis by (intro exI[of _ Take]) simp
    next
      case 2
      with Idle show ?thesis by (intro exI[of _ Run_callback]) simp
    qed
  next
    case (Read_held tag c)
    then show ?thesis by (intro exI[of _ Decide]) simp
  next
    case (Slot_taken tag)
    then show ?thesis by (intro exI[of _ Start]) simp
  qed (use main in \<open>simp add: is_stopped_def\<close>)
qed

text \<open>The machine is a progress system: the bounds and liveness below come from that contract.\<close>

interpretation consumer: progress_system consumer_init consumer_step consumer_inv own_event
    consumer_work at_rest
  by unfold_locales
    (blast intro: consumer_inv_init consumer_step_inv own_event_decreases own_event_enabled)+

text \<open>No event of the program closes the channel while it is open.\<close>

lemma own_event_keeps_open:
  assumes "consumer_inv s" "own_event e" "consumer_step e s = Some t" "channel_open s"
  shows "channel_open t"
  using assms by (cases e) (auto simp: consumer_op_defs split: main_pc.splits list.splits if_splits)

lemma own_event_tags:
  assumes "own_event e" "consumer_step e s = Some t"
  shows "next_tag t = next_tag s"
  using assms by (cases e) (auto simp: consumer_op_defs split: main_pc.splits list.splits if_splits)

lemma own_run_keeps:
  assumes "consumer_inv s" "list_all own_event es" "run consumer_step es s = Some t" "channel_open s"
  shows "channel_open t \<and> next_tag t = next_tag s"
  using assms
proof (induction es arbitrary: s)
  case (Cons e es)
  then obtain u where u: "consumer_step e s = Some u" "run consumer_step es u = Some t"
    by (auto split: option.splits)
  with Cons.prems have "consumer_inv u" "channel_open u" "next_tag u = next_tag s"
    by (auto intro: consumer_step_inv own_event_keeps_open own_event_tags)
  with Cons.IH[of u] u Cons.prems show ?case by simp
qed simp

lemma at_rest_open:
  assumes inv: "consumer_inv s" and rest: "at_rest s" and opn: "channel_open s"
  shows "held_count s = 0 \<and> mset (acked s) = issued (next_tag s)"
proof -
  from inv opn have "connection_open s" "\<not> is_stopped (pc s)" "Crashed \<notin> snd ` set (threads s)" "lost s = []"
    by (auto simp: consumer_inv_def)
  have "threads s = []"
  proof (cases "threads s")
    case (Cons p ps)
    with rest \<open>Crashed \<notin> snd ` set (threads s)\<close> show ?thesis
      by (cases p) (simp add: at_rest_def)
  qed
  moreover from rest \<open>\<not> is_stopped (pc s)\<close>
  have "pc s = Idle" "pending s = []" "ack_callbacks s = []" by (auto simp: at_rest_def)
  ultimately show ?thesis using inv \<open>lost s = []\<close>
    by (auto simp: consumer_inv_def accounted_def holding_def pc_defs)
qed

section \<open>Properties\<close>

text \<open>
  C1 (bounds). In every reachable state of the consumer, whatever the interleaving of the
  main thread and the holding threads, \<open>held_count\<close> is between 0 and \<open>MAX_HELD\<close>, and
  it bounds the number of holding threads: the check under the first \<open>held_lock\<close> and the
  increment under the second are separate, but only the main thread increments.
\<close>

theorem held_count_bounded:
  assumes "reach consumer_init consumer_step s"
  shows "0 \<le> held_count s \<and> held_count s \<le> MAX_HELD
    \<and> int (length (threads s)) \<le> held_count s"
  using consumer.inv_reach[OF assms] by (simp add: consumer_inv_def)

text \<open>
  C3 (safety). A delivery tag is acknowledged at most once, and only if the broker delivered
  it: immediate acknowledgement and the posted callback never both happen for a tag.
\<close>

theorem acked_at_most_once:
  assumes "reach consumer_init consumer_step s"
  shows "distinct (acked s) \<and> set (acked s) \<subseteq> {1..<next_tag s}"
proof -
  from consumer.inv_reach[OF assms] have a: "accounted s = issued (next_tag s)"
    by (simp add: consumer_inv_def)
  show ?thesis using accounted_distinct[OF a] by auto
qed

text \<open>
  C2 (safety). While the channel is open no message is lost: every delivered tag is waiting
  for dispatch, in \<open>on_message\<close>, held by a sleeping thread, waiting as a posted callback,
  or acknowledged, in exactly one of these places, and no holding thread has died.
\<close>

theorem no_message_lost_while_open:
  assumes "reach consumer_init consumer_step s" "channel_open s"
  shows "mset (pending s @ pc_tags (pc s) @ holding s @ ack_callbacks s @ acked s)
           = mset [1..<next_tag s]
    \<and> (\<forall>(t, w) \<in> set (threads s). w \<noteq> Crashed)"
proof -
  from consumer.inv_reach[OF assms(1)] assms(2)
  have "accounted s = issued (next_tag s)" "lost s = []" "Crashed \<notin> snd ` set (threads s)"
    by (auto simp: consumer_inv_def)
  then show ?thesis by (force simp: accounted_def issued_def add.assoc simp del: mset_upt)
qed

text \<open>
  C4 (liveness). If the broker stops delivering and the channel stays open, the program
  drains: every run of its own events has at most \<open>consumer_work s\<close> of them, and when none
  is left to do, every message delivered so far is acknowledged and \<open>held_count\<close> is 0;
  such a run exists from every reachable state.
\<close>

theorem held_messages_drain:
  assumes reach: "reach consumer_init consumer_step s" and opn: "channel_open s"
  shows "(\<forall>es t. list_all own_event es \<and> run consumer_step es s = Some t \<longrightarrow>
            length es \<le> consumer_work s
          \<and> ((\<forall>e. own_event e \<longrightarrow> consumer_step e t = None) \<longrightarrow>
               held_count t = 0 \<and> mset (acked t) = mset [1..<next_tag s]))
    \<and> (\<exists>es t. list_all own_event es \<and> run consumer_step es s = Some t
          \<and> held_count t = 0 \<and> mset (acked t) = mset [1..<next_tag s])"
proof -
  have inv: "consumer_inv s" using reach by (rule consumer.inv_reach)
  have rest: "held_count t = 0 \<and> mset (acked t) = mset [1..<next_tag s]"
    if "list_all own_event es" "run consumer_step es s = Some t" "at_rest t" for es t
    using own_run_keeps[OF inv that(1,2) opn] at_rest_open[OF consumer.inv_run[OF that(2) inv] that(3)]
    by (simp add: issued_def)
  have bound: "length es \<le> consumer_work s"
    if "list_all own_event es" "run consumer_step es s = Some t" for es t
    using consumer.own_run_bounded[OF inv that] by simp
  have stuck: "at_rest t"
    if "list_all own_event es" "run consumer_step es s = Some t"
      "\<forall>e. own_event e \<longrightarrow> consumer_step e t = None" for es t
    using consumer.not_stuck[OF consumer.inv_run[OF that(2) inv]] that(3) by force
  show ?thesis using rest bound stuck consumer.comes_to_rest[OF inv] by blast
qed

text \<open>
  A message is acknowledged at once exactly when the counter read by
  \<open>on_message\<close> is \<open>MAX_HELD\<close>, and then the counter and the holding threads stay as they
  are; otherwise a slot is taken and nothing is acknowledged. The counter never reads more
  than \<open>MAX_HELD\<close>.
\<close>

theorem immediate_ack_iff_full:
  assumes "reach consumer_init consumer_step s" "pc s = Read_held tag current"
    and "channel_open s" "consumer_step Decide s = Some t"
  shows "current \<le> MAX_HELD
    \<and> (acked t = acked s @ [tag] \<longleftrightarrow> current = MAX_HELD)
    \<and> (current = MAX_HELD \<longrightarrow> held_count t = held_count s \<and> threads t = threads s \<and> pc t = Idle)
    \<and> (current < MAX_HELD \<longrightarrow> acked t = acked s \<and> held_count t = held_count s + 1
         \<and> pc t = Slot_taken tag)"
proof -
  from consumer.inv_reach[OF assms(1)] assms(2) have "current \<le> MAX_HELD"
    by (simp add: consumer_inv_def)
  with assms(2-4) show ?thesis by (auto simp: on_message_decide_def split: if_splits)
qed

section \<open>Witnesses\<close>

text \<open>One message held by a sleeping thread, a second one read by \<open>on_message\<close>.\<close>

definition sample :: consumer where
  "sample = consumer_init\<lparr>held_count := 1, pc := Read_held 2 1, threads := [(1, Sleeping)],
     next_tag := 3\<rparr>"

lemma sample_run:
  "run consumer_step [Deliver, Take, Decide, Start, Deliver, Take] consumer_init = Some sample"
  by (simp add: sample_def consumer_init_def consumer_op_defs outstanding_def
      prefetch_count_def MAX_HELD_def)

lemma sample_reach: "reach consumer_init consumer_step sample"
  using run_reach[OF sample_run reach_init] .

lemma held_count_bounded_witness:
  "held_count sample = 1 \<and> 0 \<le> held_count sample \<and> held_count sample \<le> MAX_HELD
    \<and> int (length (threads sample)) \<le> held_count sample"
  using held_count_bounded[OF sample_reach] by (simp add: sample_def)

lemma acked_at_most_once_witness:
  "distinct (acked sample) \<and> set (acked sample) \<subseteq> {1..<next_tag sample}"
  using acked_at_most_once[OF sample_reach] .

lemma no_message_lost_while_open_witness:
  "mset (pending sample @ pc_tags (pc sample) @ holding sample @ ack_callbacks sample
     @ acked sample) = mset [1..<3]"
proof -
  have "channel_open sample" by (simp add: sample_def consumer_init_def)
  from no_message_lost_while_open[OF sample_reach this] show ?thesis by (simp add: sample_def)
qed

lemma held_messages_drain_witness:
  "\<exists>es t. list_all own_event es \<and> run consumer_step es sample = Some t
     \<and> held_count t = 0 \<and> mset (acked t) = mset [1..<3]"
proof -
  have "channel_open sample" by (simp add: sample_def consumer_init_def)
  from held_messages_drain[OF sample_reach this] show ?thesis by (simp add: sample_def)
qed

lemma immediate_ack_iff_full_witness:
  "\<exists>t. consumer_step Decide sample = Some t \<and> held_count t = 2 \<and> pc t = Slot_taken 2"
proof -
  define t where "t = on_message_decide 2 1 sample"
  have s: "channel_open sample" "pc sample = Read_held 2 1" "consumer_step Decide sample = Some t"
    by (simp_all add: sample_def consumer_init_def t_def)
  from immediate_ack_iff_full[OF sample_reach s(2,1,3)] s(3) show ?thesis
    by (simp add: MAX_HELD_def) (simp add: sample_def)
qed

end
