(* ===== verification/Transport.thy ===== *)
theory Transport
  imports Prelude
begin

text \<open>
  The transports of \<open>pika/adapters/utils/io_services_utils.py\<close>: what \<open>_AsyncPlaintextTransport\<close> and
  \<open>_AsyncSSLTransport\<close> do between a non-blocking socket, the event loop and the protocol. The
  socket's answers and the protocol's reactions, which may write to the transport or abort it,
  are arguments; the callbacks posted to the event loop run in their order.
\<close>

section \<open>State\<close>

datatype tr_state = ACTIVE | FAILED | ABORTED_BY_USER | COMPLETED

text \<open>\<open>Raised\<close> is an exception of the protocol.\<close>

datatype sock_error = Try_again | Want_read | Want_write | Broken nat
datatype tr_error = Assertion_failed | Empty_write | Rx_end_of_file | Socket sock_error | Raised nat

datatype ssl_action = Consume | Produce

datatype posted_call = Connection_lost_notify "tr_error option" | On_socket_readable

text \<open>
  \<open>reader\<close> and \<open>writer\<close>: whether the event loop watches the socket. \<open>written\<close>, \<open>wire\<close>, \<open>received\<close> and
  \<open>lost\<close> record the data accepted from the protocol, the data taken by the socket, the data
  given to the protocol, and the calls of its \<open>connection_lost\<close>.
\<close>

record transport =
  state :: tr_state
  tx_buffers :: "bytes list"
  tx_buffered_byte_count :: int
  reader :: bool
  writer :: bool
  posted :: "posted_call list"
  ssl_readable_action :: "ssl_action option"
  ssl_writable_action :: "ssl_action option"
  written :: bytes
  wire :: bytes
  received :: "bytes list"
  lost :: "tr_error option list"

text \<open>The socket's answers, and what the protocol does: calls of the transport, then perhaps an exception.\<close>

datatype recv_answer = Recv bytes | Recv_error sock_error
datatype send_answer = Sent nat | Send_error sock_error
datatype protocol_call = Call_write bytes | Call_abort

record protocol =
  data_received :: "bytes list \<Rightarrow> bytes \<Rightarrow> protocol_call list \<times> nat option"
  eof_received :: "bytes list \<Rightarrow> nat + bool"
  connection_lost :: "tr_error option \<Rightarrow> nat option"

type_synonym tr_act = "transport \<Rightarrow> (tr_error + unit) \<times> transport"

definition proceed :: "tr_act \<Rightarrow> tr_act \<Rightarrow> tr_act" where
  "proceed m k t = (case m t of (Inl e, t') \<Rightarrow> (Inl e, t') | (Inr _, t') \<Rightarrow> k t')"

definition MAX_CONSUME_BYTES :: nat where
  "MAX_CONSUME_BYTES = 1024 * 100"

section \<open>\<open>_AsyncTransportBase\<close>\<close>

definition new_transport :: transport where
  "new_transport = \<lparr>state = ACTIVE, tx_buffers = [], tx_buffered_byte_count = 0, reader = False, writer = False,
     posted = [], ssl_readable_action = None, ssl_writable_action = None, written = [], wire = [], received = [], lost = []\<rparr>"

definition buffer_tx_data :: "bytes \<Rightarrow> tr_act" where
  "buffer_tx_data data t =
     (if data = [] then (Inl Empty_write, t)
      else if state t \<noteq> ACTIVE then (Inr (), t)
      else (Inr (), t\<lparr>tx_buffers := tx_buffers t @ [data],
              tx_buffered_byte_count := tx_buffered_byte_count t + int (length data), written := written t @ data\<rparr>))"

definition deactivate :: "transport \<Rightarrow> transport" where
  "deactivate t = (if state t = ACTIVE then t\<lparr>reader := False, writer := False, tx_buffers := []\<rparr> else t)"

definition close_and_finalize :: "transport \<Rightarrow> transport" where
  "close_and_finalize t = (if state t \<noteq> COMPLETED then t\<lparr>state := COMPLETED\<rparr> else t)"

definition add_callback_threadsafe :: "posted_call \<Rightarrow> transport \<Rightarrow> transport" where
  "add_callback_threadsafe c t = t\<lparr>posted := posted t @ [c]\<rparr>"

definition initiate_abort :: "tr_error option \<Rightarrow> tr_act" where
  "initiate_abort error t =
     (if state t = COMPLETED then (Inl Assertion_failed, t)
      else let was = state t; t = deactivate t in
        case error of
          None \<Rightarrow>
            if was = ABORTED_BY_USER then (Inr (), t)
            else (Inr (), add_callback_threadsafe (Connection_lost_notify None) (t\<lparr>state := ABORTED_BY_USER\<rparr>))
        | Some e \<Rightarrow>
            if was = ACTIVE
            then (Inr (), add_callback_threadsafe (Connection_lost_notify (Some e)) (t\<lparr>state := FAILED\<rparr>))
            else if was = ABORTED_BY_USER then (Inr (), t)
            else (Inl Assertion_failed, t))"

definition abort :: tr_act where
  "abort = initiate_abort None"

definition connection_lost_notify_async :: "protocol \<Rightarrow> tr_error option \<Rightarrow> tr_act" where
  "connection_lost_notify_async P error t =
     (if state t = COMPLETED then (Inr (), t)
      else if error \<noteq> None \<and> state t \<noteq> FAILED
      then (if state t = ABORTED_BY_USER then (Inr (), t) else (Inl Assertion_failed, t))
      else let t = close_and_finalize (t\<lparr>lost := lost t @ [error]\<rparr>) in
        case connection_lost P error of None \<Rightarrow> (Inr (), t) | Some n \<Rightarrow> (Inl (Raised n), t))"

text \<open>\<open>data_received\<close> of the protocol, with the transport's \<open>write\<close>\<close>

fun protocol_calls :: "(bytes \<Rightarrow> tr_act) \<Rightarrow> protocol_call list \<Rightarrow> tr_act" where
  "protocol_calls write [] t = (Inr (), t)"
| "protocol_calls write (c # cs) t =
     proceed (case c of Call_write data \<Rightarrow> write data | Call_abort \<Rightarrow> abort) (protocol_calls write cs) t"

definition give :: "(bytes \<Rightarrow> tr_act) \<Rightarrow> protocol \<Rightarrow> bytes \<Rightarrow> tr_act" where
  "give write P data t =
     (case data_received P (received t) data of
        (cs, failure) \<Rightarrow>
          proceed (protocol_calls write cs) (\<lambda>t. case failure of None \<Rightarrow> (Inr (), t) | Some n \<Rightarrow> (Inl (Raised n), t))
            (t\<lparr>received := received t @ [data]\<rparr>))"

text \<open>\<open>_consume\<close> and \<open>_produce\<close>. A socket without a further answer would block, which it says with
  \<open>block\<close>.\<close>

fun base_consume :: "sock_error \<Rightarrow> (bytes \<Rightarrow> tr_act) \<Rightarrow> protocol \<Rightarrow> nat \<Rightarrow> recv_answer list \<Rightarrow> tr_act" where
  "base_consume block write P bytes_consumed [] t =
     (if state t = ACTIVE \<and> bytes_consumed < MAX_CONSUME_BYTES then (Inl (Socket block), t) else (Inr (), t))"
| "base_consume block write P bytes_consumed (r # rs) t =
     (if state t = ACTIVE \<and> bytes_consumed < MAX_CONSUME_BYTES
      then (case r of
          Recv_error e \<Rightarrow> (Inl (Socket e), t)
        | Recv data \<Rightarrow>
            if data = [] then (Inl Rx_end_of_file, t)
            else proceed (give write P data) (base_consume block write P (bytes_consumed + length data) rs) t)
      else (Inr (), t))"

fun base_produce :: "sock_error \<Rightarrow> send_answer list \<Rightarrow> tr_act" where
  "base_produce block [] t = (if tx_buffers t = [] then (Inr (), t) else (Inl (Socket block), t))"
| "base_produce block (r # rs) t =
     (case tx_buffers t of
        [] \<Rightarrow> (Inr (), t)
      | chunk # rest \<Rightarrow>
          (case r of
             Send_error e \<Rightarrow> (Inl (Socket e), t)
           | Sent n \<Rightarrow>
               let num_bytes_sent = min n (length chunk);
                   t = t\<lparr>tx_buffers := (if num_bytes_sent < length chunk then drop num_bytes_sent chunk # rest else rest),
                     tx_buffered_byte_count := tx_buffered_byte_count t - int num_bytes_sent,
                     wire := wire t @ take num_bytes_sent chunk\<rparr>
               in if tx_buffered_byte_count t < 0 then (Inl Assertion_failed, t) else base_produce block rs t))"

section \<open>\<open>_AsyncPlaintextTransport\<close>\<close>

definition new_plaintext :: transport where
  "new_plaintext = new_transport\<lparr>reader := True\<rparr>"

definition plaintext_write :: "bytes \<Rightarrow> tr_act" where
  "plaintext_write data t =
     (if state t \<noteq> ACTIVE then (Inr (), t)
      else if data = [] then (Inl Assertion_failed, t)
      else let tx_buffer_was_empty = (tx_buffered_byte_count t = 0) in
        proceed (buffer_tx_data data) (\<lambda>t. (Inr (), if tx_buffer_was_empty then t\<lparr>writer := True\<rparr> else t)) t)"

definition plaintext_readable :: "protocol \<Rightarrow> recv_answer list \<Rightarrow> tr_act" where
  "plaintext_readable P rs t =
     (if state t \<noteq> ACTIVE then (Inr (), t)
      else case base_consume Try_again plaintext_write P 0 rs t of
        (Inr _, t) \<Rightarrow> (Inr (), t)
      | (Inl Rx_end_of_file, t) \<Rightarrow>
          (case eof_received P (received t) of
             Inl n \<Rightarrow> initiate_abort (Some (Raised n)) t
           | Inr keep_open \<Rightarrow> if keep_open then (Inr (), t\<lparr>reader := False\<rparr>) else initiate_abort None t)
      | (Inl e, t) \<Rightarrow> if e = Socket Try_again then (Inr (), t) else initiate_abort (Some e) t)"

definition plaintext_writable :: "send_answer list \<Rightarrow> tr_act" where
  "plaintext_writable rs t =
     (if state t \<noteq> ACTIVE then (Inr (), t)
      else if tx_buffers t = [] then (Inl Assertion_failed, t)
      else case base_produce Try_again rs t of
        (Inr _, t) \<Rightarrow> (Inr (), if tx_buffers t = [] then t\<lparr>writer := False\<rparr> else t)
      | (Inl e, t) \<Rightarrow> if e = Socket Try_again then (Inr (), t) else initiate_abort (Some e) t)"

section \<open>\<open>_AsyncSSLTransport\<close>\<close>

definition new_ssl :: transport where
  "new_ssl = new_transport\<lparr>ssl_readable_action := Some Consume, reader := True, posted := [On_socket_readable]\<rparr>"

definition ssl_write :: "bytes \<Rightarrow> tr_act" where
  "ssl_write data t =
     (if state t \<noteq> ACTIVE then (Inr (), t)
      else if data = [] then (Inl Assertion_failed, t)
      else let tx_buffer_was_empty = (tx_buffered_byte_count t = 0) in
        proceed (buffer_tx_data data) (\<lambda>t. (Inr (),
          if tx_buffer_was_empty \<and> ssl_writable_action t = None
          then t\<lparr>ssl_writable_action := Some Produce, writer := True\<rparr> else t)) t)"

text \<open>The part of \<open>_consume\<close> after the exception has been sorted out.\<close>

definition reschedule_consume :: "bool \<Rightarrow> transport \<Rightarrow> transport" where
  "reschedule_consume next_consume_on_readable t =
     (let t =
       (if next_consume_on_readable
        then let t = (if ssl_readable_action t = None then t\<lparr>reader := True\<rparr> else t);
                 t = t\<lparr>ssl_readable_action := Some Consume\<rparr>
             in if ssl_writable_action t = Some Consume then t\<lparr>writer := False, ssl_writable_action := None\<rparr> else t
        else let t = (if ssl_writable_action t = None then t\<lparr>writer := True\<rparr> else t);
                 t = t\<lparr>ssl_writable_action := Some Consume\<rparr>
             in if ssl_readable_action t \<noteq> None then t\<lparr>reader := False, ssl_readable_action := None\<rparr> else t)
      in if tx_buffers t \<noteq> [] \<and> ssl_writable_action t = None
         then t\<lparr>ssl_writable_action := Some Produce, writer := True\<rparr> else t)"

definition ssl_consume :: "protocol \<Rightarrow> recv_answer list \<Rightarrow> tr_act" where
  "ssl_consume P rs t =
     (case base_consume Want_read ssl_write P 0 rs t of
        (Inr _, t) \<Rightarrow>
          if state t \<noteq> ACTIVE then (Inr (), t)
          else (Inr (), reschedule_consume True (add_callback_threadsafe On_socket_readable t))
      | (Inl (Socket Want_read), t) \<Rightarrow> (Inr (), reschedule_consume True t)
      | (Inl (Socket Want_write), t) \<Rightarrow> (Inr (), reschedule_consume False t)
      | (Inl e, t) \<Rightarrow> (Inl e, t))"

text \<open>\<open>self._sock.pending()\<close> is the last argument.\<close>

definition reschedule_produce :: "bool option \<Rightarrow> bool \<Rightarrow> tr_act" where
  "reschedule_produce next_produce_on_writable sock_pending =
     proceed
       (\<lambda>t. if tx_buffers t \<noteq> [] then
          (case next_produce_on_writable of
             None \<Rightarrow> (Inl Assertion_failed, t)
           | Some True \<Rightarrow>
               let t = (if ssl_writable_action t = None then t\<lparr>writer := True\<rparr> else t);
                   t = t\<lparr>ssl_writable_action := Some Produce\<rparr>
               in (Inr (), if ssl_readable_action t = Some Produce then t\<lparr>reader := False, ssl_readable_action := None\<rparr> else t)
           | Some False \<Rightarrow>
               let t = (if ssl_readable_action t = None then t\<lparr>reader := True\<rparr> else t);
                   t = t\<lparr>ssl_readable_action := Some Produce\<rparr>
               in (Inr (), if ssl_writable_action t \<noteq> None then t\<lparr>writer := False, ssl_writable_action := None\<rparr> else t))
        else if ssl_readable_action t = Some Produce then
          (let t = t\<lparr>reader := False, ssl_readable_action := None\<rparr>
           in if ssl_writable_action t = Some Produce then (Inl Assertion_failed, t) else (Inr (), t))
        else if ssl_writable_action t \<noteq> Some Produce then (Inl Assertion_failed, t)
        else (Inr (), t\<lparr>ssl_writable_action := None, writer := False\<rparr>))
       (\<lambda>t. (Inr (),
          if ssl_readable_action t = None
          then add_callback_threadsafe On_socket_readable (t\<lparr>ssl_readable_action := Some Consume, reader := True\<rparr>)
          else if sock_pending then add_callback_threadsafe On_socket_readable t else t))"

definition ssl_produce :: "send_answer list \<Rightarrow> bool \<Rightarrow> tr_act" where
  "ssl_produce rs sock_pending t =
     (case base_produce Want_write rs t of
        (Inr _, t) \<Rightarrow> if tx_buffers t \<noteq> [] then (Inl Assertion_failed, t) else reschedule_produce None sock_pending t
      | (Inl (Socket Want_read), t) \<Rightarrow> reschedule_produce (Some False) sock_pending t
      | (Inl (Socket Want_write), t) \<Rightarrow> reschedule_produce (Some True) sock_pending t
      | (Inl e, t) \<Rightarrow> (Inl e, t))"

text \<open>What the socket answers while a callback runs.\<close>

record answers =
  recvs :: "recv_answer list"
  sends :: "send_answer list"
  pending :: bool

definition ssl_run :: "protocol \<Rightarrow> answers \<Rightarrow> ssl_action option \<Rightarrow> tr_act" where
  "ssl_run P a act t =
     (case act of
        None \<Rightarrow> (Inr (), t)
      | Some x \<Rightarrow>
          (case (case x of Consume \<Rightarrow> ssl_consume P (recvs a) t | Produce \<Rightarrow> ssl_produce (sends a) (pending a) t) of
             (Inr _, t) \<Rightarrow> (Inr (), t)
           | (Inl e, t) \<Rightarrow> initiate_abort (Some e) t))"

definition ssl_readable :: "protocol \<Rightarrow> answers \<Rightarrow> tr_act" where
  "ssl_readable P a t = (if state t \<noteq> ACTIVE then (Inr (), t) else ssl_run P a (ssl_readable_action t) t)"

definition ssl_writable :: "protocol \<Rightarrow> answers \<Rightarrow> tr_act" where
  "ssl_writable P a t = (if state t \<noteq> ACTIVE then (Inr (), t) else ssl_run P a (ssl_writable_action t) t)"

section \<open>The event loop's view\<close>

datatype flavour = Plaintext | Tls

definition new_stream :: "flavour \<Rightarrow> transport" where
  "new_stream f = (case f of Plaintext \<Rightarrow> new_plaintext | Tls \<Rightarrow> new_ssl)"

definition write_on :: "flavour \<Rightarrow> bytes \<Rightarrow> tr_act" where
  "write_on f = (case f of Plaintext \<Rightarrow> plaintext_write | Tls \<Rightarrow> ssl_write)"

definition socket_readable :: "flavour \<Rightarrow> protocol \<Rightarrow> answers \<Rightarrow> tr_act" where
  "socket_readable f P a = (case f of Plaintext \<Rightarrow> plaintext_readable P (recvs a) | Tls \<Rightarrow> ssl_readable P a)"

definition socket_writable :: "flavour \<Rightarrow> protocol \<Rightarrow> answers \<Rightarrow> tr_act" where
  "socket_writable f P a = (case f of Plaintext \<Rightarrow> plaintext_writable (sends a) | Tls \<Rightarrow> ssl_writable P a)"

datatype tr_event = Write bytes | Abort | Readable answers | Writable answers | Run_posted answers

text \<open>
  The protocol gives up the transport in \<open>connection_lost\<close>, so it does not abort one that is
  completed; it writes no empty data.
\<close>

fun tr_step :: "flavour \<Rightarrow> protocol \<Rightarrow> tr_event \<Rightarrow> transport \<Rightarrow> transport option" where
  "tr_step f P (Write data) t = (if data = [] then None else Some (snd (write_on f data t)))"
| "tr_step f P Abort t = (if state t = COMPLETED then None else Some (snd (abort t)))"
| "tr_step f P (Readable a) t = (if reader t then Some (snd (socket_readable f P a t)) else None)"
| "tr_step f P (Writable a) t = (if writer t then Some (snd (socket_writable f P a t)) else None)"
| "tr_step f P (Run_posted a) t =
     (case posted t of
        [] \<Rightarrow> None
      | c # cs \<Rightarrow> Some (snd ((case c of
            Connection_lost_notify error \<Rightarrow> connection_lost_notify_async P error
          | On_socket_readable \<Rightarrow> socket_readable f P a) (t\<lparr>posted := cs\<rparr>))))"

section \<open>The invariant\<close>

text \<open>Of what has been accepted, a first part is on the wire and, while the stream lives, the rest is buffered.\<close>

definition stream_ok :: "transport \<Rightarrow> bool" where
  "stream_ok t \<longleftrightarrow> (\<exists>rest. written t = wire t @ rest)
     \<and> (state t = ACTIVE \<longrightarrow> written t = wire t @ concat (tx_buffers t)
          \<and> tx_buffered_byte_count t = int (length (concat (tx_buffers t))) \<and> [] \<notin> set (tx_buffers t))"

text \<open>The end is reported once: it has not begun, it is posted, or it has been reported.\<close>

definition end_ok :: "transport \<Rightarrow> bool" where
  "end_ok t \<longleftrightarrow> (case state t of
     ACTIVE \<Rightarrow> lost t = [] \<and> (\<forall>e. Connection_lost_notify e \<notin> set (posted t))
   | FAILED \<Rightarrow> lost t = [] \<and> Connection_lost_notify None \<notin> set (posted t) \<and> (\<exists>e. Connection_lost_notify (Some e) \<in> set (posted t))
   | ABORTED_BY_USER \<Rightarrow> lost t = [] \<and> Connection_lost_notify None \<in> set (posted t)
   | COMPLETED \<Rightarrow> length (lost t) = 1)"

text \<open>What is buffered waits for an event that the loop watches.\<close>

definition watch_ok :: "flavour \<Rightarrow> transport \<Rightarrow> bool" where
  "watch_ok f t \<longleftrightarrow> (state t = ACTIVE \<longrightarrow> (case f of
     Plaintext \<Rightarrow> writer t = (tx_buffers t \<noteq> [])
   | Tls \<Rightarrow> reader t = (ssl_readable_action t \<noteq> None) \<and> writer t = (ssl_writable_action t \<noteq> None)
       \<and> (case (ssl_readable_action t, ssl_writable_action t) of
            (Some Consume, None) \<Rightarrow> tx_buffers t = []
          | (Some Consume, Some Produce) \<Rightarrow> tx_buffers t \<noteq> []
          | (Some Produce, None) \<Rightarrow> tx_buffers t \<noteq> []
          | (None, Some Consume) \<Rightarrow> True
          | _ \<Rightarrow> False)))"

definition transport_inv :: "flavour \<Rightarrow> transport \<Rightarrow> bool" where
  "transport_inv f t \<longleftrightarrow> stream_ok t \<and> end_ok t \<and> watch_ok f t"

named_theorems inv_simps \<open>the parts of the invariant\<close>
lemmas [inv_simps] = transport_inv_def stream_ok_def end_ok_def watch_ok_def

text \<open>While a callback runs, the transport may be aborted by the user but not fail or complete.\<close>

definition running :: "transport \<Rightarrow> bool" where
  "running t \<longleftrightarrow> state t \<in> {ACTIVE, ABORTED_BY_USER}"

lemma write_inv:
  assumes "transport_inv f t" "data \<noteq> []"
  shows "\<exists>t'. write_on f data t = (Inr (), t') \<and> transport_inv f t' \<and> state t' = state t"
proof (cases "state t = ACTIVE")
  case True
  with assms(1) have "tx_buffered_byte_count t = int (length (concat (tx_buffers t)))" "[] \<notin> set (tx_buffers t)"
    by (simp_all add: inv_simps)
  moreover have "[] \<notin> set bs \<Longrightarrow> (length (concat bs) = 0) = (bs = [])" for bs :: "bytes list" by (cases bs) auto
  ultimately have "(tx_buffered_byte_count t = 0) = (tx_buffers t = [])" by (simp del: length_concat length_0_conv)
  with True assms show ?thesis
    by (cases f; simp add: write_on_def plaintext_write_def ssl_write_def buffer_tx_data_def proceed_def Let_def)
      (auto simp: inv_simps split: option.splits ssl_action.splits)
next
  case False
  with assms show ?thesis by (cases f) (simp_all add: write_on_def plaintext_write_def ssl_write_def)
qed

lemma initiate_abort_inv:
  assumes "transport_inv f t" "running t \<or> error = None \<and> state t = FAILED"
  shows "\<exists>t'. initiate_abort error t = (Inr (), t') \<and> transport_inv f t' \<and> state t' \<noteq> ACTIVE
    \<and> (error = None \<longrightarrow> state t' = ABORTED_BY_USER)"
  using assms
  by (cases "state t"; cases error)
    (auto simp: inv_simps initiate_abort_def running_def deactivate_def add_callback_threadsafe_def Let_def)

section \<open>Receiving\<close>

text \<open>A protocol that writes no empty data.\<close>

definition sane :: "protocol \<Rightarrow> bool" where
  "sane P \<longleftrightarrow> (\<forall>ds d. Call_write [] \<notin> set (fst (data_received P ds d)))"

lemma protocol_calls_inv:
  assumes "transport_inv f t" "running t" "Call_write [] \<notin> set cs"
  shows "\<exists>t'. protocol_calls (write_on f) cs t = (Inr (), t') \<and> transport_inv f t' \<and> running t'"
  using assms
proof (induction cs arbitrary: t)
  case (Cons c cs)
  have "\<exists>t1. (case c of Call_write data \<Rightarrow> write_on f data | Call_abort \<Rightarrow> abort) t = (Inr (), t1) \<and> transport_inv f t1 \<and> running t1"
  proof (cases c)
    case (Call_write data)
    with Cons.prems(3) have "data \<noteq> []" by auto
    from write_inv[OF Cons.prems(1) this] Call_write Cons.prems(2) show ?thesis by (auto simp: running_def)
  next
    case Call_abort
    with initiate_abort_inv[OF Cons.prems(1), of None] Cons.prems(2) show ?thesis by (auto simp: running_def abort_def)
  qed
  then obtain t1 where t1: "(case c of Call_write data \<Rightarrow> write_on f data | Call_abort \<Rightarrow> abort) t = (Inr (), t1)"
    "transport_inv f t1" "running t1" by blast
  with Cons.IH[OF t1(2,3)] Cons.prems(3) show ?case by (simp add: proceed_def)
qed simp

lemma inv_received: "transport_inv f (t\<lparr>received := ds\<rparr>) = transport_inv f t"
  by (cases "state t"; cases f; cases "ssl_readable_action t"; cases "ssl_writable_action t")
    (auto simp: inv_simps split: ssl_action.splits)

lemma give_inv:
  assumes "transport_inv f t" "running t" "sane P"
  shows "\<exists>r t'. give (write_on f) P data t = (r, t') \<and> transport_inv f t' \<and> running t' \<and> (r = Inr () \<or> (\<exists>n. r = Inl (Raised n)))"
proof -
  obtain cs failure where d: "data_received P (received t) data = (cs, failure)" by (metis surj_pair)
  let ?t = "t\<lparr>received := received t @ [data]\<rparr>"
  have "transport_inv f ?t" "running ?t" using assms(1,2) by (simp_all add: inv_received running_def)
  moreover have "Call_write [] \<notin> set cs" using assms(3) d by (metis sane_def fst_conv)
  ultimately obtain t' where "protocol_calls (write_on f) cs ?t = (Inr (), t')" "transport_inv f t'" "running t'"
    using protocol_calls_inv by blast
  with d show ?thesis by (cases failure) (auto simp: give_def proceed_def)
qed

definition expected :: "tr_error \<Rightarrow> bool" where
  "expected e \<longleftrightarrow> e \<noteq> Assertion_failed \<and> e \<noteq> Empty_write"

lemma base_consume_inv:
  assumes "transport_inv f t" "running t" "sane P"
  shows "\<exists>r t'. base_consume block (write_on f) P n rs t = (r, t') \<and> transport_inv f t' \<and> running t'
    \<and> (\<forall>e. r = Inl e \<longrightarrow> expected e)"
  using assms
proof (induction rs arbitrary: n t)
  case Nil
  then show ?case by (auto simp: expected_def)
next
  case (Cons r rs)
  show ?case
  proof (cases "state t = ACTIVE \<and> n < MAX_CONSUME_BYTES \<and> (\<exists>data. r = Recv data \<and> data \<noteq> [])")
    case True
    then obtain data where r: "r = Recv data" "data \<noteq> []" by blast
    obtain r1 t1 where 1: "give (write_on f) P data t = (r1, t1)" "transport_inv f t1" "running t1"
      "r1 = Inr () \<or> (\<exists>n. r1 = Inl (Raised n))" using give_inv[OF Cons.prems] by blast
    from 1(4) show ?thesis
    proof
      assume "r1 = Inr ()"
      with Cons.IH[OF 1(2,3) Cons.prems(3), of "n + length data"] 1(1) True r show ?thesis by (auto simp: proceed_def)
    next
      assume "\<exists>n. r1 = Inl (Raised n)"
      with 1 True r show ?thesis by (auto simp: proceed_def expected_def)
    qed
  next
    case False
    with Cons.prems show ?thesis by (cases r) (auto simp: expected_def)
  qed
qed

section \<open>Sending\<close>

text \<open>What a run of \<open>_produce\<close> may change.\<close>

definition produced :: "tr_error + unit \<Rightarrow> transport \<Rightarrow> transport \<Rightarrow> bool" where
  "produced r t t' \<longleftrightarrow> (\<exists>bufs n out. t' = t\<lparr>tx_buffers := bufs, tx_buffered_byte_count := n, wire := out\<rparr>
     \<and> written t = out @ concat bufs \<and> n = int (length (concat bufs)) \<and> [] \<notin> set bufs
     \<and> (if bufs = [] then r = Inr () else \<exists>e. r = Inl (Socket e)))"

definition buffered_ok :: "transport \<Rightarrow> bool" where
  "buffered_ok t \<longleftrightarrow> written t = wire t @ concat (tx_buffers t)
     \<and> tx_buffered_byte_count t = int (length (concat (tx_buffers t))) \<and> [] \<notin> set (tx_buffers t)"

lemma produced_refl:
  "\<lbrakk>buffered_ok t; if tx_buffers t = [] then r = Inr () else \<exists>e. r = Inl (Socket e)\<rbrakk> \<Longrightarrow> produced r t t"
  unfolding produced_def buffered_ok_def
  by (intro exI[of _ "tx_buffers t"] exI[of _ "tx_buffered_byte_count t"] exI[of _ "wire t"]) (simp del: length_concat)

lemma base_produce_sends:
  assumes "base_produce block rs t = (r, t')" "buffered_ok t"
  shows "produced r t t'"
  using assms
proof (induction rs arbitrary: t)
  case Nil
  then have "t' = t" "if tx_buffers t = [] then r = Inr () else \<exists>e. r = Inl (Socket e)" by (auto split: if_splits)
  with Nil.prems(2) show ?case by (simp add: produced_refl)
next
  case (Cons x rs)
  show ?case
  proof (cases "tx_buffers t")
    case Nil
    with Cons.prems have "t' = t" "r = Inr ()" by simp_all
    with Cons.prems(2) Nil show ?thesis by (simp add: produced_refl)
  next
    case (Cons chunk rest)
    show ?thesis
    proof (cases x)
      case (Send_error e)
      with Cons Cons.prems have "t' = t" "r = Inl (Socket e)" by simp_all
      with Cons.prems(2) Cons show ?thesis by (simp add: produced_refl)
    next
      case (Sent n)
      let ?n = "min n (length chunk)"
      let ?bufs = "if ?n < length chunk then drop ?n chunk # rest else rest"
      let ?t = "t\<lparr>tx_buffers := ?bufs, tx_buffered_byte_count := tx_buffered_byte_count t - int ?n, wire := wire t @ take ?n chunk\<rparr>"
      have c: "concat (tx_buffers t) = take ?n chunk @ concat ?bufs" using Cons by simp
      have ok: "buffered_ok ?t"
        using Cons.prems(2) c Cons by (auto simp: buffered_ok_def simp del: length_concat)
      then have "base_produce block rs ?t = (r, t')"
        using Cons.prems(1) Cons Sent by (simp add: Let_def buffered_ok_def)
      from Cons.IH[OF this ok] show ?thesis by (simp add: produced_def)
    qed
  qed
qed

section \<open>The callbacks\<close>

lemma runningI: "\<lbrakk>transport_inv f t; running t; initiate_abort (Some e) t = (r, t')\<rbrakk> \<Longrightarrow> r = Inr () \<and> transport_inv f t'"
  using initiate_abort_inv[of f t "Some e"] by auto

text \<open>What can be the reason of an end: nothing that an assertion has found.\<close>

definition clean :: "transport \<Rightarrow> bool" where
  "clean t \<longleftrightarrow> (\<forall>e. Connection_lost_notify (Some e) \<in> set (posted t) \<or> Some e \<in> set (lost t) \<longrightarrow> expected e)"

definition step_ok :: "flavour \<Rightarrow> transport \<Rightarrow> (tr_error + unit) \<times> transport \<Rightarrow> bool" where
  "step_ok f t rt \<longleftrightarrow> (case rt of (r, t') \<Rightarrow> r = Inr () \<and> transport_inv f t' \<and> (clean t \<longrightarrow> clean t'))"

lemma abort_ok:
  assumes "transport_inv f t" "running t \<or> error = None \<and> state t = FAILED" "\<forall>e. error = Some e \<longrightarrow> expected e"
  shows "step_ok f t (initiate_abort error t)"
proof -
  obtain t' where "initiate_abort error t = (Inr (), t')" "transport_inv f t'" using initiate_abort_inv[OF assms(1,2)] by blast
  moreover have "clean t \<longrightarrow> clean (snd (initiate_abort error t))"
    using assms(3) by (cases error) (auto simp: clean_def initiate_abort_def deactivate_def add_callback_threadsafe_def Let_def)
  ultimately show ?thesis by (simp add: step_ok_def)
qed

text \<open>Neither writing nor receiving changes what is known of the end, except that the user may abort.\<close>

lemma clean_trans: "\<lbrakk>clean t \<longrightarrow> clean t1; step_ok f t1 rt\<rbrakk> \<Longrightarrow> step_ok f t rt"
  by (auto simp: step_ok_def)

lemma clean_write: "clean (snd (write_on f data t)) = clean t"
  by (cases f) (auto simp: clean_def write_on_def plaintext_write_def ssl_write_def buffer_tx_data_def proceed_def Let_def)

lemma clean_abort: "clean (snd (abort t)) = clean t"
  by (auto simp: clean_def abort_def initiate_abort_def deactivate_def add_callback_threadsafe_def Let_def)

lemma clean_calls: "clean (snd (protocol_calls (write_on f) cs t)) = clean t"
proof (induction cs arbitrary: t)
  case (Cons c cs)
  obtain r t1 where 1: "(case c of Call_write data \<Rightarrow> write_on f data | Call_abort \<Rightarrow> abort) t = (r, t1)" by (metis surj_pair)
  have "clean t1 = clean t"
    using clean_write[of f _ t] clean_abort[of t] 1 by (cases c) (metis protocol_call.case snd_conv)+
  with 1 Cons.IH[of t1] show ?case by (cases r) (simp_all add: proceed_def)
qed simp

lemma clean_give: "clean (snd (give write P data t)) = clean t" if "write = write_on f"
proof -
  obtain cs failure where d: "data_received P (received t) data = (cs, failure)" by (metis surj_pair)
  obtain r t1 where 1: "protocol_calls write cs (t\<lparr>received := received t @ [data]\<rparr>) = (r, t1)" by (metis surj_pair)
  have "clean t1 = clean t" using clean_calls[of f cs "t\<lparr>received := received t @ [data]\<rparr>"] 1 that by (simp add: clean_def)
  with d 1 show ?thesis by (cases r; cases failure) (simp_all add: give_def proceed_def)
qed

lemma clean_consume: "clean (snd (base_consume block (write_on f) P n rs t)) = clean t"
proof (induction rs arbitrary: n t)
  case (Cons r rs)
  show ?case
  proof (cases r)
    case (Recv data)
    obtain r1 t1 where 1: "give (write_on f) P data t = (r1, t1)" by (metis surj_pair)
    have "clean t1 = clean t" using clean_give[OF refl, of f P data t] 1 by simp
    with Cons.IH[of "n + length data" t1] 1 Recv show ?thesis by (cases r1) (simp_all add: proceed_def)
  qed simp
qed simp

lemma plaintext_readable_ok:
  assumes "transport_inv Plaintext t" "sane P"
  shows "step_ok Plaintext t (plaintext_readable P rs t)"
proof (cases "state t = ACTIVE")
  case True
  then have run: "running t" by (simp add: running_def)
  obtain r t1 where 1: "base_consume Try_again (write_on Plaintext) P 0 rs t = (r, t1)" "transport_inv Plaintext t1" "running t1"
    "\<forall>e. r = Inl e \<longrightarrow> expected e" using base_consume_inv[OF assms(1) run assms(2)] by blast
  have c: "clean t \<longrightarrow> clean t1" using clean_consume[of Try_again Plaintext P 0 rs t] 1(1) by simp
  have w: "write_on Plaintext = plaintext_write" by (simp add: write_on_def)
  have keep: "transport_inv Plaintext (t1\<lparr>reader := False\<rparr>)" "clean (t1\<lparr>reader := False\<rparr>) = clean t1"
    using 1(2) by (cases "state t1"; simp add: inv_simps clean_def)+
  note ab = abort_ok[OF 1(2), THEN clean_trans[OF c]]
  show ?thesis
  proof (cases r)
    case (Inr u)
    with True 1 w c show ?thesis by (simp add: plaintext_readable_def step_ok_def)
  next
    case (Inl e)
    show ?thesis
    proof (cases "e = Rx_end_of_file")
      case True': True
      show ?thesis
      proof (cases "eof_received P (received t1)")
        case (Inl n)
        with True True' \<open>r = Inl e\<close> 1 w ab[of "Some (Raised n)"] show ?thesis
          by (simp add: plaintext_readable_def expected_def)
      next
        case (Inr k)
        with True True' \<open>r = Inl e\<close> 1 w c keep ab[of None] show ?thesis
          by (simp add: plaintext_readable_def step_ok_def)
      qed
    next
      case False
      then have "plaintext_readable P rs t = (if e = Socket Try_again then (Inr (), t1) else initiate_abort (Some e) t1)"
        using True 1(1) w Inl by (cases e) (simp_all add: plaintext_readable_def)
      with 1 c Inl ab[of "Some e"] show ?thesis by (simp add: step_ok_def)
    qed
  qed
next
  case False
  with assms show ?thesis by (simp add: plaintext_readable_def step_ok_def)
qed

lemma produced_inv:
  assumes "produced r t t'" "transport_inv f t" "state t = ACTIVE"
  shows "buffered_ok t'" "stream_ok t'" "end_ok t'" "clean t' = clean t" "state t' = ACTIVE"
    "reader t' = reader t" "writer t' = writer t" "ssl_readable_action t' = ssl_readable_action t"
    "ssl_writable_action t' = ssl_writable_action t" "if tx_buffers t' = [] then r = Inr () else \<exists>e. r = Inl (Socket e)"
  using assms by (auto simp: produced_def inv_simps clean_def buffered_ok_def) metis

lemma active_buffered: "\<lbrakk>transport_inv f t; state t = ACTIVE\<rbrakk> \<Longrightarrow> buffered_ok t"
  by (simp add: inv_simps buffered_ok_def)

lemma plaintext_writable_ok:
  assumes "transport_inv Plaintext t" "writer t"
  shows "step_ok Plaintext t (plaintext_writable rs t)"
proof (cases "state t = ACTIVE")
  case True
  with assms have tx: "tx_buffers t \<noteq> []" by (simp add: inv_simps)
  obtain r t1 where 1: "base_produce Try_again rs t = (r, t1)" by (metis surj_pair)
  note p = produced_inv[OF base_produce_sends[OF 1 active_buffered[OF assms(1) True]] assms(1) True]
  show ?thesis
  proof (cases "tx_buffers t1 = []")
    case True': True
    with p have "transport_inv Plaintext (t1\<lparr>writer := False\<rparr>)" "clean (t1\<lparr>writer := False\<rparr>) = clean t1"
      by (simp_all add: inv_simps clean_def)
    with p True True' tx 1 show ?thesis by (simp add: plaintext_writable_def step_ok_def)
  next
    case False
    with p(10) obtain e where e: "r = Inl (Socket e)" by auto
    have inv: "transport_inv Plaintext t1" using p False assms(2) by (simp add: inv_simps)
    from abort_ok[OF inv, of "Some (Socket e)"] p have "step_ok Plaintext t (initiate_abort (Some (Socket e)) t1)"
      by (simp add: running_def expected_def step_ok_def)
    with e tx True 1 inv p show ?thesis by (simp add: plaintext_writable_def step_ok_def)
  qed
next
  case False
  with assms show ?thesis by (simp add: plaintext_writable_def step_ok_def)
qed

lemma reschedule_consume_inv:
  assumes "transport_inv Tls t"
  shows "transport_inv Tls (reschedule_consume b t)" "clean (reschedule_consume b t) = clean t"
    "state (reschedule_consume b t) = state t"
  using assms
  by (cases "state t"; cases "ssl_readable_action t"; cases "ssl_writable_action t"; cases b;
      auto simp: reschedule_consume_def inv_simps clean_def Let_def split: ssl_action.splits)+

lemma posted_readable: "transport_inv f (add_callback_threadsafe On_socket_readable t) = transport_inv f t"
    "clean (add_callback_threadsafe On_socket_readable t) = clean t"
    "state (add_callback_threadsafe On_socket_readable t) = state t"
  by (cases "state t"; cases f; cases "ssl_readable_action t"; cases "ssl_writable_action t";
      auto simp: add_callback_threadsafe_def inv_simps clean_def split: ssl_action.splits)+

text \<open>Both halves of the Tls transport end well, or with an exception that aborts it.\<close>

definition half_ok :: "transport \<Rightarrow> (tr_error + unit) \<times> transport \<Rightarrow> bool" where
  "half_ok t rt \<longleftrightarrow> (case rt of (r, t') \<Rightarrow> transport_inv Tls t' \<and> running t' \<and> (clean t \<longrightarrow> clean t')
     \<and> (\<forall>e. r = Inl e \<longrightarrow> expected e))"

lemma ssl_consume_ok:
  assumes "transport_inv Tls t" "state t = ACTIVE" "sane P"
  shows "half_ok t (ssl_consume P rs t)"
proof -
  have run: "running t" using assms(2) by (simp add: running_def)
  obtain r t1 where 1: "base_consume Want_read (write_on Tls) P 0 rs t = (r, t1)" "transport_inv Tls t1" "running t1"
    "\<forall>e. r = Inl e \<longrightarrow> expected e" using base_consume_inv[OF assms(1) run assms(3)] by blast
  have c: "clean t \<longrightarrow> clean t1" using clean_consume[of Want_read Tls P 0 rs t] 1(1) by simp
  have w: "write_on Tls = ssl_write" by (simp add: write_on_def)
  note re = reschedule_consume_inv[OF 1(2)]
  have post: "transport_inv Tls (add_callback_threadsafe On_socket_readable t1)" using 1(2) by (simp add: posted_readable)
  note re' = reschedule_consume_inv[OF post]
  show ?thesis
  proof (cases r)
    case (Inr u)
    with 1 c w re' show ?thesis by (auto simp: ssl_consume_def half_ok_def running_def posted_readable)
  next
    case (Inl e)
    show ?thesis
    proof (cases "e = Socket Want_read \<or> e = Socket Want_write")
      case True
      with Inl 1 c w re show ?thesis by (auto simp: ssl_consume_def half_ok_def running_def)
    next
      case False
      then have "ssl_consume P rs t = (Inl e, t1)"
        using Inl 1(1) w by (cases e) (auto simp: ssl_consume_def split: sock_error.splits)
      with Inl 1 c show ?thesis by (simp add: half_ok_def)
    qed
  qed
qed

lemma ssl_produce_ok:
  assumes "transport_inv Tls t" "state t = ACTIVE"
    "ssl_readable_action t = Some Produce \<or> ssl_writable_action t = Some Produce"
  shows "half_ok t (ssl_produce rs sock_pending t)"
proof -
  obtain r t1 where 1: "base_produce Want_write rs t = (r, t1)" by (metis surj_pair)
  note p = produced_inv[OF base_produce_sends[OF 1 active_buffered[OF assms(1,2)]] assms(1,2)]
  have modes: "ssl_readable_action t1 = Some Consume \<and> ssl_writable_action t1 = Some Produce \<and> reader t1 \<and> writer t1
      \<or> ssl_readable_action t1 = Some Produce \<and> ssl_writable_action t1 = None \<and> reader t1 \<and> \<not> writer t1"
    using assms p(6-9) by (auto simp: inv_simps split: option.splits ssl_action.splits)
  have re: "half_ok t (reschedule_produce next sock_pending t1)" if "tx_buffers t1 = [] \<or> next \<noteq> None" for "next"
  proof (cases "next")
    case None
    with that modes p(2-5) show ?thesis
      by (auto simp: half_ok_def reschedule_produce_def proceed_def Let_def add_callback_threadsafe_def inv_simps clean_def running_def)
  next
    case (Some b)
    with modes p(2-5) show ?thesis
      by (cases b; cases "tx_buffers t1 = []")
        (auto simp: half_ok_def reschedule_produce_def proceed_def Let_def add_callback_threadsafe_def inv_simps clean_def running_def)
  qed
  show ?thesis
  proof (cases "tx_buffers t1 = []")
    case True
    with p(10) 1 re[of None] show ?thesis by (simp add: ssl_produce_def)
  next
    case False
    with p(10) obtain e where e: "r = Inl (Socket e)" by auto
    have inv: "half_ok t (Inl (Socket e), t1)"
      using modes p(2-9) False by (auto simp: half_ok_def inv_simps running_def expected_def)
    with e 1 re[of "Some True"] re[of "Some False"] show ?thesis
      by (cases e) (simp_all add: ssl_produce_def)
  qed
qed

lemma ssl_run_ok:
  assumes "transport_inv Tls t" "state t = ACTIVE" "sane P"
    "act = ssl_readable_action t \<or> act = ssl_writable_action t"
  shows "step_ok Tls t (ssl_run P a act t)"
proof (cases act)
  case None
  with assms(1) show ?thesis by (simp add: ssl_run_def step_ok_def)
next
  case (Some x)
  let ?half = "case x of Consume \<Rightarrow> ssl_consume P (recvs a) t | Produce \<Rightarrow> ssl_produce (sends a) (pending a) t"
  obtain r t1 where 1: "?half = (r, t1)" by (metis surj_pair)
  have "half_ok t ?half"
    using ssl_consume_ok[OF assms(1-3)] ssl_produce_ok[OF assms(1,2)] assms(4) Some by (cases x) auto
  with 1 have h: "transport_inv Tls t1" "running t1" "clean t \<longrightarrow> clean t1" "\<forall>e. r = Inl e \<longrightarrow> expected e"
    by (simp_all add: half_ok_def)
  show ?thesis
  proof (cases r)
    case (Inr u)
    with 1 h Some show ?thesis by (simp add: ssl_run_def step_ok_def)
  next
    case (Inl e)
    have "step_ok Tls t (initiate_abort (Some e) t1)"
      by (rule clean_trans[OF h(3) abort_ok[OF h(1)]]) (use h Inl in auto)
    with 1 Inl Some show ?thesis by (simp add: ssl_run_def)
  qed
qed

lemma readable_ok: "\<lbrakk>transport_inv f t; sane P\<rbrakk> \<Longrightarrow> step_ok f t (socket_readable f P a t)"
  using plaintext_readable_ok ssl_run_ok
  by (cases f) (auto simp: socket_readable_def ssl_readable_def step_ok_def)

lemma writable_ok: "\<lbrakk>transport_inv f t; sane P; writer t\<rbrakk> \<Longrightarrow> step_ok f t (socket_writable f P a t)"
  using plaintext_writable_ok ssl_run_ok
  by (cases f) (auto simp: socket_writable_def ssl_writable_def step_ok_def)

section \<open>Over time\<close>

lemma run_notify:
  assumes "transport_inv f t" "posted t = Connection_lost_notify error # cs"
  shows "transport_inv f (snd (connection_lost_notify_async P error (t\<lparr>posted := cs\<rparr>)))"
    "clean t \<longrightarrow> clean (snd (connection_lost_notify_async P error (t\<lparr>posted := cs\<rparr>)))"
  using assms
  by (cases "state t"; cases error; cases "connection_lost P error";
      auto simp: connection_lost_notify_async_def close_and_finalize_def inv_simps clean_def split: if_splits)+

lemma run_readable:
  assumes "transport_inv f t" "posted t = On_socket_readable # cs"
  shows "transport_inv f (t\<lparr>posted := cs\<rparr>)" "clean (t\<lparr>posted := cs\<rparr>) = clean t"
  using assms
  by (cases "state t"; cases f; cases "ssl_readable_action t"; cases "ssl_writable_action t";
      auto simp: inv_simps clean_def split: ssl_action.splits)+

definition stream_inv :: "flavour \<Rightarrow> transport \<Rightarrow> bool" where
  "stream_inv f t \<longleftrightarrow> transport_inv f t \<and> clean t"

lemma tr_step_inv:
  assumes "sane P" "stream_inv f t" "tr_step f P ev t = Some t'"
  shows "stream_inv f t'"
proof -
  have inv: "transport_inv f t" "clean t" using assms(2) by (simp_all add: stream_inv_def)
  show ?thesis
  proof (cases ev)
    case (Write data)
    with assms(3) write_inv[OF inv(1), of data] clean_write[of f data t] inv(2) show ?thesis
      by (auto simp: stream_inv_def split: if_splits)
  next
    case Abort
    with assms(3) have "state t \<noteq> COMPLETED" "t' = snd (abort t)" by (auto split: if_splits)
    moreover from this(1) have "running t \<or> state t = FAILED" by (cases "state t") (simp_all add: running_def)
    ultimately show ?thesis using abort_ok[OF inv(1), of None] inv(2) by (auto simp: step_ok_def stream_inv_def abort_def)
  next
    case (Readable a)
    with assms(3) readable_ok[OF inv(1) assms(1), of a] inv(2) show ?thesis
      by (auto simp: step_ok_def stream_inv_def split: if_splits)
  next
    case (Writable a)
    with assms(3) writable_ok[OF inv(1) assms(1), of a] inv(2) show ?thesis
      by (auto simp: step_ok_def stream_inv_def split: if_splits)
  next
    case (Run_posted a)
    with assms(3) obtain c cs where c: "posted t = c # cs" by (cases "posted t") auto
    show ?thesis
    proof (cases c)
      case (Connection_lost_notify error)
      with assms(3) c Run_posted run_notify[OF inv(1), of error cs P] inv(2) show ?thesis by (simp add: stream_inv_def)
    next
      case On_socket_readable
      note r = run_readable[OF inv(1) c[unfolded On_socket_readable]]
      from assms(3) c Run_posted On_socket_readable readable_ok[OF r(1) assms(1), of a] r(2) inv(2) show ?thesis
        by (auto simp: stream_inv_def step_ok_def)
    qed
  qed
qed

lemma new_stream_inv: "stream_inv f (new_stream f)"
  by (cases f) (simp_all add: stream_inv_def new_stream_def new_plaintext_def new_ssl_def new_transport_def inv_simps clean_def)

interpretation stream: invariant_system "new_stream f" "tr_step f P" "\<lambda>t. sane P \<longrightarrow> stream_inv f t" for f P
  by unfold_locales (use new_stream_inv tr_step_inv in blast)+



text \<open>Once the stream has ended, each posted callback that runs leaves one less.\<close>

lemma posted_step:
  assumes "transport_inv f t" "state t \<noteq> ACTIVE" "posted t = c # cs"
  shows "\<exists>t'. tr_step f P (Run_posted a) t = Some t' \<and> posted t' = cs \<and> state t' \<noteq> ACTIVE \<and> transport_inv f t'"
proof (cases c)
  case (Connection_lost_notify error)
  let ?t = "snd (connection_lost_notify_async P error (t\<lparr>posted := cs\<rparr>))"
  have "posted ?t = cs" "state ?t \<noteq> ACTIVE"
    using assms(2) by (cases "connection_lost P error"; simp add: connection_lost_notify_async_def close_and_finalize_def)+
  with run_notify(1)[OF assms(1), of error cs P] assms(3) Connection_lost_notify show ?thesis by simp
next
  case On_socket_readable
  have "socket_readable f P a (t\<lparr>posted := cs\<rparr>) = (Inr (), t\<lparr>posted := cs\<rparr>)"
    using assms(2) by (cases f) (simp_all add: socket_readable_def plaintext_readable_def ssl_readable_def)
  with run_readable(1)[OF assms(1), of cs] assms(2,3) On_socket_readable show ?thesis by simp
qed

lemma posted_run:
  assumes "transport_inv f t" "state t \<noteq> ACTIVE"
  shows "\<exists>t'. run (tr_step f P) (replicate (length (posted t)) (Run_posted a)) t = Some t' \<and> state t' = COMPLETED \<and> transport_inv f t'"
  using assms
proof (induction "length (posted t)" arbitrary: t)
  case 0
  then have "state t = COMPLETED" by (cases "state t") (auto simp: inv_simps)
  with 0 show ?case by simp
next
  case (Suc n)
  then obtain c cs where c: "posted t = c # cs" by (cases "posted t") auto
  obtain t1 where t1: "tr_step f P (Run_posted a) t = Some t1" "posted t1 = cs" "state t1 \<noteq> ACTIVE" "transport_inv f t1"
    using posted_step[OF Suc.prems c] by blast
  with Suc.hyps(1)[of t1] Suc.hyps(2) c show ?case by (simp del: tr_step.simps)
qed

text \<open>
  Once the stream has failed or been aborted, the callbacks that are posted are
  enough: when the loop has run them, the protocol has been told of the end, once.
\<close>

theorem transport_end_gets_reported:
  assumes "sane P" "reach (new_stream f) (tr_step f P) t" "state t \<in> {FAILED, ABORTED_BY_USER}"
  shows "\<exists>t'. run (tr_step f P) (replicate (length (posted t)) (Run_posted a)) t = Some t'
    \<and> state t' = COMPLETED \<and> length (lost t') = 1"
proof -
  from stream.inv_reach[OF assms(2)] assms(1) have "transport_inv f t" by (simp add: stream_inv_def)
  with assms(3) obtain t' where "run (tr_step f P) (replicate (length (posted t)) (Run_posted a)) t = Some t'"
    "state t' = COMPLETED" "transport_inv f t'" using posted_run[of f t P a] by auto
  then show ?thesis by (auto simp: inv_simps)
qed

section \<open>An echoing peer\<close>

definition echo :: protocol where
  "echo = \<lparr>data_received = \<lambda>_ d. (if d = [] then [] else [Call_write d], None), eof_received = \<lambda>_. Inr False,
     connection_lost = \<lambda>_. None\<rparr>"

lemma echo_sane: "sane echo"
  by (simp add: sane_def echo_def)

definition quiet_socket :: answers where
  "quiet_socket = \<lparr>recvs = [], sends = [], pending = False\<rparr>"

text \<open>Data go out in part, the send wants to read, data come in that are echoed, and the user aborts.\<close>

definition echo_events :: "tr_event list" where
  "echo_events = [Write [1, 2, 3], Writable (quiet_socket\<lparr>sends := [Sent 2, Send_error Want_read]\<rparr>),
     Readable (quiet_socket\<lparr>sends := [Sent 5]\<rparr>), Readable (quiet_socket\<lparr>recvs := [Recv [7, 8]]\<rparr>)]"

lemma echo_run: "case run (tr_step Tls echo) echo_events (new_stream Tls) of
    None \<Rightarrow> False | Some t \<Rightarrow> wire t = [1, 2, 3] \<and> state t = ACTIVE \<and> tx_buffers t = [[7, 8]]"
  by (simp add: echo_events_def quiet_socket_def echo_def new_stream_def new_ssl_def new_transport_def write_on_def
      ssl_write_def buffer_tx_data_def proceed_def socket_writable_def socket_readable_def ssl_writable_def ssl_readable_def
      ssl_run_def ssl_produce_def ssl_consume_def reschedule_produce_def reschedule_consume_def give_def
      add_callback_threadsafe_def MAX_CONSUME_BYTES_def)


lemma aborted_run: "case run (tr_step Plaintext echo) [Write [1], Abort] (new_stream Plaintext) of
    None \<Rightarrow> False | Some t \<Rightarrow> state t = ABORTED_BY_USER \<and> length (posted t) = 1"
  by code_simp


lemma transport_end_gets_reported_witness:
  "\<exists>t t'. run (tr_step Plaintext echo) [Write [1], Abort] (new_stream Plaintext) = Some t
     \<and> run (tr_step Plaintext echo) [Run_posted quiet_socket] t = Some t' \<and> length (lost t') = 1"
proof -
  obtain t where t: "run (tr_step Plaintext echo) [Write [1], Abort] (new_stream Plaintext) = Some t" "state t = ABORTED_BY_USER"
    "length (posted t) = 1" using aborted_run by (auto split: option.splits)
  from run_reach[OF t(1) reach_init] have r: "reach (new_stream Plaintext) (tr_step Plaintext echo) t" .
  from transport_end_gets_reported[OF echo_sane r, of quiet_socket] t show ?thesis by auto
qed

end
