(* ===== verification/Async_Tasks.thy ===== *)
theory Async_Tasks
  imports Prelude
begin

text \<open>
  The cancellable tasks of the asynchronous services: \<open>_AddressResolver\<close> of \<open>selector_ioloop_adapter.py\<close>,
  whose thread runs beside the loop, and \<open>_AsyncSocketConnector\<close> and \<open>_AsyncStreamConnector\<close> of
  \<open>io_services_utils.py\<close>. What they share is the locale \<open>one_shot_task\<close>: a task that is no longer active
  stays so, has let go of what it held, and reports nothing more.
\<close>

section \<open>Tasks that report once\<close>

datatype task_state = NOT_STARTED | ACTIVE | CANCELED | COMPLETED

locale one_shot_task = invariant_system init step inv
  for init :: 's and step :: "'e \<Rightarrow> 's \<Rightarrow> 's option" and inv :: "'s \<Rightarrow> bool" +
  fixes phase :: "'s \<Rightarrow> task_state" and reports :: "'s \<Rightarrow> 'r list" and released :: "'s \<Rightarrow> bool"
  assumes settled_step: "inv s \<Longrightarrow> phase s \<in> {CANCELED, COMPLETED} \<Longrightarrow> step e s = Some t \<Longrightarrow> phase t = phase s \<and> reports t = reports s"
    and reports_when: "inv s \<Longrightarrow> length (reports s) = (if phase s = COMPLETED then 1 else 0)"
    and settled_released: "inv s \<Longrightarrow> phase s \<in> {CANCELED, COMPLETED} \<Longrightarrow> released s"
begin

lemma settled_run:
  "run step es s = Some t \<Longrightarrow> inv s \<Longrightarrow> phase s \<in> {CANCELED, COMPLETED} \<Longrightarrow> phase t = phase s \<and> reports t = reports s \<and> released t"
proof (induction es arbitrary: s)
  case Nil
  then show ?case by (simp add: settled_released)
next
  case (Cons e es)
  then obtain u where u: "step e s = Some u" "run step es u = Some t" by (auto split: option.splits)
  with Cons.prems have "inv u" "phase u = phase s" "reports u = reports s" by (auto dest: inv_step settled_step)
  with Cons.IH [OF u(2)] Cons.prems(3) show ?case by auto
qed

lemma reports_at_most_once:
  "reach init step s \<Longrightarrow> length (reports s) \<le> 1 \<and> (phase s = CANCELED \<longrightarrow> reports s = [])"
  using inv_reach [of s] reports_when [of s] by (auto split: if_splits)

end

section \<open>\<open>_AddressResolver\<close>\<close>

text \<open>The thread of the timer: waiting for its time, resolving, about to take the mutex, finished\<close>

datatype resolver_thread = No_thread | Timer_pending | In_getaddrinfo | Has_result | Finished

record 'r resolver =
  rs_state :: task_state
  rs_result :: "'r option"
  rs_thread :: resolver_thread
  rs_posted :: nat
  cleaned_up :: bool
  rs_reports :: "'r list"
  none_called :: bool

definition new_resolver :: "'r resolver" where
  "new_resolver = \<lparr>rs_state = NOT_STARTED, rs_result = None, rs_thread = No_thread, rs_posted = 0, cleaned_up = False,
     rs_reports = [], none_called = False\<rparr>"

definition rs_cleanup :: "'r resolver \<Rightarrow> 'r resolver" where
  "rs_cleanup s = s\<lparr>cleaned_up := True\<rparr>"

definition rs_start :: "'r resolver \<Rightarrow> 'r resolver option" where
  "rs_start s = (if rs_state s = NOT_STARTED then Some (s\<lparr>rs_state := ACTIVE, rs_thread := Timer_pending\<rparr>) else None)"

text \<open>A timer that has begun cannot be cancelled any more.\<close>

definition rs_cancel :: "'r resolver \<Rightarrow> bool \<times> 'r resolver" where
  "rs_cancel s =
     (if rs_state s = ACTIVE
      then (True, rs_cleanup (s\<lparr>rs_state := CANCELED, rs_thread := (if rs_thread s = Timer_pending then Finished else rs_thread s)\<rparr>))
      else (False, s))"

text \<open>\<open>_resolve\<close>, in the thread: the call of \<open>getaddrinfo\<close>, then what is done under the mutex\<close>

definition rs_begin :: "'r resolver \<Rightarrow> 'r resolver option" where
  "rs_begin s = (if rs_thread s = Timer_pending then Some (s\<lparr>rs_thread := In_getaddrinfo\<rparr>) else None)"

definition rs_resolved :: "'r \<Rightarrow> 'r resolver \<Rightarrow> 'r resolver option" where
  "rs_resolved r s = (if rs_thread s = In_getaddrinfo then Some (s\<lparr>rs_thread := Has_result, rs_result := Some r\<rparr>) else None)"

definition rs_post :: "'r resolver \<Rightarrow> 'r resolver option" where
  "rs_post s =
     (if rs_thread s \<noteq> Has_result then None
      else let s = s\<lparr>rs_thread := Finished\<rparr> in
        if rs_state s \<noteq> ACTIVE then Some s
        else if cleaned_up s then Some (s\<lparr>none_called := True\<rparr>) else Some (s\<lparr>rs_posted := rs_posted s + 1\<rparr>))"

definition dispatch_result :: "'r resolver \<Rightarrow> 'r resolver option" where
  "dispatch_result s =
     (if rs_posted s = 0 then None
      else let s = s\<lparr>rs_posted := rs_posted s - 1\<rparr> in
        if rs_state s \<noteq> ACTIVE then Some s
        else let s = s\<lparr>rs_state := COMPLETED\<rparr> in
          (case rs_result s of
             None \<Rightarrow> Some (rs_cleanup (s\<lparr>none_called := True\<rparr>))
           | Some r \<Rightarrow> Some (rs_cleanup (if cleaned_up s then s\<lparr>none_called := True\<rparr> else s\<lparr>rs_reports := rs_reports s @ [r]\<rparr>))))"

datatype 'r resolver_event = Rs_start | Rs_cancel | Rs_begin | Rs_resolved 'r | Rs_post | Rs_dispatch

fun resolver_step :: "'r resolver_event \<Rightarrow> 'r resolver \<Rightarrow> 'r resolver option" where
  "resolver_step Rs_start s = rs_start s"
| "resolver_step Rs_cancel s = Some (snd (rs_cancel s))"
| "resolver_step Rs_begin s = rs_begin s"
| "resolver_step (Rs_resolved r) s = rs_resolved r s"
| "resolver_step Rs_post s = rs_post s"
| "resolver_step Rs_dispatch s = dispatch_result s"

lemmas resolver_defs = rs_start_def rs_cancel_def rs_begin_def rs_resolved_def rs_post_def dispatch_result_def rs_cleanup_def

definition resolver_ok :: "'r resolver \<Rightarrow> bool" where
  "resolver_ok s \<longleftrightarrow> \<not> none_called s
     \<and> (case rs_state s of
          NOT_STARTED \<Rightarrow> rs_thread s = No_thread \<and> rs_posted s = 0 \<and> rs_reports s = [] \<and> \<not> cleaned_up s
        | ACTIVE \<Rightarrow> rs_reports s = [] \<and> \<not> cleaned_up s \<and> rs_thread s \<noteq> No_thread
            \<and> (rs_thread s = Has_result \<or> rs_posted s > 0 \<longrightarrow> rs_result s \<noteq> None)
            \<and> (if rs_thread s = Finished then rs_posted s = 1 else rs_posted s = 0)
        | CANCELED \<Rightarrow> rs_reports s = [] \<and> cleaned_up s
        | COMPLETED \<Rightarrow> (\<exists>r. rs_reports s = [r]) \<and> cleaned_up s \<and> rs_thread s = Finished)"

lemma resolver_step_ok: "resolver_ok s \<Longrightarrow> resolver_step e s = Some t \<Longrightarrow> resolver_ok t"
  by (cases e; cases "rs_state s"; cases "rs_thread s")
    (auto simp: resolver_defs resolver_ok_def Let_def split: if_splits option.splits)

interpretation resolver: one_shot_task new_resolver resolver_step resolver_ok rs_state rs_reports cleaned_up
proof
  show "resolver_ok (new_resolver :: 'a resolver)" by (simp add: resolver_ok_def new_resolver_def)
  show "resolver_ok s \<Longrightarrow> resolver_step e s = Some t \<Longrightarrow> resolver_ok t" for s t :: "'a resolver" and e
    by (rule resolver_step_ok)
  show "resolver_ok s \<Longrightarrow> rs_state s \<in> {CANCELED, COMPLETED} \<Longrightarrow> resolver_step e s = Some t \<Longrightarrow>
      rs_state t = rs_state s \<and> rs_reports t = rs_reports s" for s t :: "'a resolver" and e
    by (cases e) (auto simp: resolver_defs Let_def split: if_splits option.splits)
  show "resolver_ok s \<Longrightarrow> length (rs_reports s) = (if rs_state s = COMPLETED then 1 else 0)" for s :: "'a resolver"
    by (cases "rs_state s") (auto simp: resolver_ok_def)
  show "resolver_ok s \<Longrightarrow> rs_state s \<in> {CANCELED, COMPLETED} \<Longrightarrow> cleaned_up s" for s :: "'a resolver"
    by (auto simp: resolver_ok_def)
qed

section \<open>\<open>_AsyncSocketConnector\<close>\<close>

text \<open>\<open>writer_set\<close> is whether the services watch the socket for writability.\<close>

record socket_connector =
  sc_state :: task_state
  watching_socket_events :: bool
  writer_set :: bool
  sc_posted :: bool
  sc_reports :: "nat option list"
  sc_failed :: bool

definition new_socket_connector :: socket_connector where
  "new_socket_connector = \<lparr>sc_state = NOT_STARTED, watching_socket_events = False, writer_set = False, sc_posted = False,
     sc_reports = [], sc_failed = False\<rparr>"

definition sc_cleanup :: "socket_connector \<Rightarrow> socket_connector" where
  "sc_cleanup s = (if watching_socket_events s then s\<lparr>watching_socket_events := False, writer_set := False\<rparr> else s)"

definition sc_start :: "socket_connector \<Rightarrow> socket_connector option" where
  "sc_start s = (if sc_state s = NOT_STARTED then Some (s\<lparr>sc_state := ACTIVE, sc_posted := True\<rparr>) else None)"

definition sc_cancel :: "socket_connector \<Rightarrow> bool \<times> socket_connector" where
  "sc_cancel s = (if sc_state s = ACTIVE then (True, sc_cleanup (s\<lparr>sc_state := CANCELED\<rparr>)) else (False, s))"

text \<open>\<open>_report_completion\<close>; \<open>sc_failed\<close> records a failed assertion.\<close>

definition sc_report :: "nat option \<Rightarrow> socket_connector \<Rightarrow> socket_connector" where
  "sc_report r s =
     (if sc_state s \<noteq> ACTIVE then s\<lparr>sc_failed := True\<rparr>
      else let s = sc_cleanup (s\<lparr>sc_state := COMPLETED\<rparr>) in s\<lparr>sc_reports := sc_reports s @ [r]\<rparr>)"

text \<open>
  \<open>_start_async\<close>: \<open>connect\<close> has succeeded or is in progress (\<open>None\<close>), or has failed; likewise \<open>set_writer\<close>.
\<close>

definition sc_start_async :: "nat option \<Rightarrow> nat option \<Rightarrow> socket_connector \<Rightarrow> socket_connector option" where
  "sc_start_async connect_error set_writer_error s =
     (if \<not> sc_posted s then None
      else let s = s\<lparr>sc_posted := False\<rparr> in
        if sc_state s \<noteq> ACTIVE then Some s
        else case connect_error of
          Some e \<Rightarrow> Some (sc_report (Some e) s)
        | None \<Rightarrow>
            (case set_writer_error of
               Some e \<Rightarrow> Some (sc_report (Some e) s)
             | None \<Rightarrow> Some (s\<lparr>writer_set := True, watching_socket_events := True\<rparr>)))"

text \<open>\<open>_on_writable\<close> with the socket's pending error, 0 for none\<close>

definition sc_on_writable :: "nat \<Rightarrow> socket_connector \<Rightarrow> socket_connector option" where
  "sc_on_writable error_code s =
     (if \<not> writer_set s then None
      else if sc_state s \<noteq> ACTIVE then Some s
      else Some (sc_report (if error_code = 0 then None else Some error_code) s))"

datatype socket_connector_event = Sc_start | Sc_cancel | Sc_start_async "nat option" "nat option" | Sc_on_writable nat

fun socket_connector_step :: "socket_connector_event \<Rightarrow> socket_connector \<Rightarrow> socket_connector option" where
  "socket_connector_step Sc_start s = sc_start s"
| "socket_connector_step Sc_cancel s = Some (snd (sc_cancel s))"
| "socket_connector_step (Sc_start_async c w) s = sc_start_async c w s"
| "socket_connector_step (Sc_on_writable e) s = sc_on_writable e s"

lemmas socket_connector_defs =
  sc_start_def sc_cancel_def sc_start_async_def sc_on_writable_def sc_report_def sc_cleanup_def

definition socket_connector_ok :: "socket_connector \<Rightarrow> bool" where
  "socket_connector_ok s \<longleftrightarrow> \<not> sc_failed s \<and> (writer_set s \<longleftrightarrow> watching_socket_events s)
     \<and> (writer_set s \<longrightarrow> sc_state s = ACTIVE \<and> \<not> sc_posted s)
     \<and> (sc_state s = ACTIVE \<longrightarrow> sc_posted s \<or> writer_set s)
     \<and> length (sc_reports s) = (if sc_state s = COMPLETED then 1 else 0)
     \<and> (sc_state s = NOT_STARTED \<longrightarrow> \<not> sc_posted s)"

lemma socket_connector_step_ok:
  "socket_connector_ok s \<Longrightarrow> socket_connector_step e s = Some t \<Longrightarrow> socket_connector_ok t"
  by (cases e)
    (auto simp: socket_connector_defs socket_connector_ok_def Let_def split: if_splits option.splits)

interpretation socket_connector: one_shot_task new_socket_connector socket_connector_step socket_connector_ok
  sc_state sc_reports "\<lambda>s. \<not> writer_set s"
proof
  show "socket_connector_ok new_socket_connector" by (simp add: socket_connector_ok_def new_socket_connector_def)
  show "socket_connector_ok s \<Longrightarrow> socket_connector_step e s = Some t \<Longrightarrow> socket_connector_ok t" for s t e
    by (rule socket_connector_step_ok)
  show "socket_connector_ok s \<Longrightarrow> sc_state s \<in> {CANCELED, COMPLETED} \<Longrightarrow> socket_connector_step e s = Some t \<Longrightarrow>
      sc_state t = sc_state s \<and> sc_reports t = sc_reports s" for s t e
    by (cases e) (auto simp: socket_connector_defs Let_def split: if_splits option.splits)
  show "socket_connector_ok s \<Longrightarrow> length (sc_reports s) = (if sc_state s = COMPLETED then 1 else 0)" for s
    by (auto simp: socket_connector_ok_def)
  show "socket_connector_ok s \<Longrightarrow> sc_state s \<in> {CANCELED, COMPLETED} \<Longrightarrow> \<not> writer_set s" for s
    by (auto simp: socket_connector_ok_def)
qed

section \<open>\<open>_AsyncStreamConnector\<close>\<close>

text \<open>
  \<open>sock_held\<close> is whether \<open>_sock\<close> is not \<open>None\<close>. Closing the socket is taken to succeed.
  \<open>st_failed\<close> counts the assertions that failed.
\<close>

record stream_connector =
  st_state :: task_state
  with_ssl :: bool
  watching_socket :: bool
  ready_reader :: bool
  ready_writer :: bool
  st_posted :: bool
  sock_held :: bool
  sock_closed :: bool
  st_reports :: "nat option list"
  st_failed :: nat

definition new_stream_connector :: "bool \<Rightarrow> stream_connector" where
  "new_stream_connector ssl = \<lparr>st_state = NOT_STARTED, with_ssl = ssl, watching_socket = False, ready_reader = False,
     ready_writer = False, st_posted = False, sock_held = True, sock_closed = False, st_reports = [], st_failed = 0\<rparr>"

definition st_cleanup :: "bool \<Rightarrow> stream_connector \<Rightarrow> stream_connector" where
  "st_cleanup close s =
     (let s = (if watching_socket s then s\<lparr>watching_socket := False, ready_reader := False, ready_writer := False\<rparr> else s)
      in s\<lparr>sock_closed := sock_closed s \<or> close, sock_held := False\<rparr>)"

definition st_start :: "stream_connector \<Rightarrow> stream_connector option" where
  "st_start s = (if st_state s = NOT_STARTED then Some (s\<lparr>st_state := ACTIVE, st_posted := True\<rparr>) else None)"

definition st_cancel :: "stream_connector \<Rightarrow> bool \<times> stream_connector" where
  "st_cancel s = (if st_state s = ACTIVE then (True, st_cleanup True (s\<lparr>st_state := CANCELED\<rparr>)) else (False, s))"

text \<open>\<open>_report_completion\<close>; the cleanup comes after \<open>on_done\<close>, whether that raises or not.\<close>

definition st_report :: "nat option \<Rightarrow> stream_connector \<Rightarrow> stream_connector" where
  "st_report r s =
     (if st_state s \<noteq> ACTIVE then s\<lparr>st_failed := st_failed s + 1\<rparr>
      else st_cleanup (r \<noteq> None) (s\<lparr>st_state := COMPLETED, st_reports := st_reports s @ [r]\<rparr>))"

text \<open>
  \<open>_linkup\<close>: the protocol factory and \<open>connection_made\<close> run application code, which may cancel this very
  connector, and may fail.
\<close>

definition linkup :: "bool \<Rightarrow> nat option \<Rightarrow> stream_connector \<Rightarrow> stream_connector" where
  "linkup cancels error s = st_report error (if cancels then snd (st_cancel s) else s)"

datatype handshake = Want_read | Want_write | Handshake_failed nat | Handshake_ok

definition do_ssl_handshake :: "handshake \<Rightarrow> bool \<Rightarrow> nat option \<Rightarrow> stream_connector \<Rightarrow> stream_connector" where
  "do_ssl_handshake h cancels error s =
     (if st_state s \<noteq> ACTIVE then s
      else case h of
        Want_read \<Rightarrow> s\<lparr>watching_socket := True, ready_reader := True, ready_writer := False\<rparr>
      | Want_write \<Rightarrow> s\<lparr>watching_socket := True, ready_writer := True, ready_reader := False\<rparr>
      | Handshake_failed e \<Rightarrow> st_report (Some e) s
      | Handshake_ok \<Rightarrow> linkup cancels error (s\<lparr>ready_reader := False, ready_writer := False, watching_socket := False\<rparr>))"

definition st_start_async :: "nat option \<Rightarrow> handshake \<Rightarrow> bool \<Rightarrow> nat option \<Rightarrow> stream_connector \<Rightarrow> stream_connector option" where
  "st_start_async wrap_error h cancels error s =
     (if \<not> st_posted s then None
      else let s = s\<lparr>st_posted := False\<rparr> in
        if st_state s \<noteq> ACTIVE then Some s
        else if \<not> with_ssl s then Some (linkup cancels error s)
        else case wrap_error of
          Some e \<Rightarrow> Some (st_report (Some e) s)
        | None \<Rightarrow> Some (do_ssl_handshake h cancels error s))"

datatype stream_connector_event =
  St_start | St_cancel | St_start_async "nat option" handshake bool "nat option" | St_ready handshake bool "nat option"

fun stream_connector_step :: "stream_connector_event \<Rightarrow> stream_connector \<Rightarrow> stream_connector option" where
  "stream_connector_step St_start s = st_start s"
| "stream_connector_step St_cancel s = Some (snd (st_cancel s))"
| "stream_connector_step (St_start_async w h c e) s = st_start_async w h c e s"
| "stream_connector_step (St_ready h c e) s =
     (if ready_reader s \<or> ready_writer s then Some (do_ssl_handshake h c e s) else None)"

lemmas stream_connector_defs =
  st_start_def st_cancel_def st_start_async_def do_ssl_handshake_def linkup_def st_report_def st_cleanup_def

definition stream_connector_ok :: "stream_connector \<Rightarrow> bool" where
  "stream_connector_ok s \<longleftrightarrow>
     (ready_reader s \<or> ready_writer s \<longleftrightarrow> watching_socket s) \<and>
     (case st_state s of
        NOT_STARTED \<Rightarrow> \<not> st_posted s \<and> \<not> watching_socket s \<and> st_reports s = [] \<and> sock_held s \<and> \<not> sock_closed s
      | ACTIVE \<Rightarrow> st_reports s = [] \<and> sock_held s \<and> \<not> sock_closed s \<and> (st_posted s \<longleftrightarrow> \<not> watching_socket s)
      | CANCELED \<Rightarrow> st_reports s = [] \<and> \<not> sock_held s \<and> sock_closed s \<and> \<not> watching_socket s
      | COMPLETED \<Rightarrow> (\<exists>r. st_reports s = [r] \<and> (sock_closed s \<longleftrightarrow> r \<noteq> None)) \<and> \<not> sock_held s \<and> \<not> watching_socket s)"

lemma stream_connector_step_ok:
  "stream_connector_ok s \<Longrightarrow> stream_connector_step e s = Some t \<Longrightarrow> stream_connector_ok t"
  by (cases e; cases "st_state s")
    (auto simp: stream_connector_defs stream_connector_ok_def Let_def split: if_splits option.splits handshake.splits)

interpretation stream_connector: one_shot_task "new_stream_connector ssl" stream_connector_step stream_connector_ok
  st_state st_reports "\<lambda>s. \<not> sock_held s \<and> \<not> ready_reader s \<and> \<not> ready_writer s"
  for ssl
proof
  show "stream_connector_ok (new_stream_connector ssl)" by (simp add: stream_connector_ok_def new_stream_connector_def)
  show "stream_connector_ok s \<Longrightarrow> stream_connector_step e s = Some t \<Longrightarrow> stream_connector_ok t" for s t e
    by (rule stream_connector_step_ok)
  show "stream_connector_ok s \<Longrightarrow> st_state s \<in> {CANCELED, COMPLETED} \<Longrightarrow> stream_connector_step e s = Some t \<Longrightarrow>
      st_state t = st_state s \<and> st_reports t = st_reports s" for s t e
    by (cases e) (auto simp: stream_connector_defs Let_def split: if_splits option.splits)
  show "stream_connector_ok s \<Longrightarrow> length (st_reports s) = (if st_state s = COMPLETED then 1 else 0)" for s
    by (cases "st_state s") (auto simp: stream_connector_ok_def)
  show "stream_connector_ok s \<Longrightarrow> st_state s \<in> {CANCELED, COMPLETED} \<Longrightarrow>
      \<not> sock_held s \<and> \<not> ready_reader s \<and> \<not> ready_writer s" for s
    by (auto simp: stream_connector_ok_def)
qed

text \<open>The assertion of \<open>_report_completion\<close> fails just when the code that \<open>_linkup\<close> calls cancels the connector.\<close>

lemma assertion_fails_only_if_cancelled:
  assumes "stream_connector_ok s" "stream_connector_step e s = Some t" "st_failed t \<noteq> st_failed s"
  shows "\<exists>w h err. e = St_start_async w h True err \<or> e = St_ready h True err"
  using assms
  by (cases e)
    (auto simp: stream_connector_defs stream_connector_ok_def Let_def split: if_splits option.splits handshake.splits)

section \<open>Properties\<close>

text \<open>
  C30 (safety). \<open>cancel\<close> of a resolver that returns \<open>True\<close> silences it: its callback is never called
  afterwards, however far its thread has come and whenever that ends; nor does the thread or
  the loop ever touch what the cancellation has set to \<open>None\<close>.
\<close>

theorem cancelled_resolver_silent:
  assumes "reach new_resolver resolver_step s" "rs_cancel s = (True, t)" "run resolver_step es t = Some u"
  shows "rs_reports u = [] \<and> rs_state u = CANCELED \<and> \<not> none_called u"
proof -
  from assms(1) have s: "resolver_ok s" by (rule resolver.inv_reach)
  have t: "resolver_step Rs_cancel s = Some t" using assms(2) by simp
  from resolver_step_ok [OF s t] have ok: "resolver_ok t" .
  have "rs_state t = CANCELED" using assms(2) by (auto simp: rs_cancel_def rs_cleanup_def split: if_splits)
  moreover from ok this have "rs_reports t = []" by (simp add: resolver_ok_def)
  moreover have "resolver_ok u" using resolver.inv_run [OF assms(3) ok] .
  ultimately show ?thesis
    using resolver.settled_run [OF assms(3) ok] by (auto simp: resolver_ok_def)
qed

text \<open>
  C31 (safety). A stream connector reports at most once, and never after it was cancelled. In the end
  it watches nothing and has let go of its socket, which is left open only for the transport of
  a success; also when the application cancels it, or fails, in the middle of the link-up.
\<close>

theorem stream_connector_settles:
  assumes "reach (new_stream_connector ssl) stream_connector_step s"
  shows "length (st_reports s) \<le> 1
    \<and> (if st_state s \<in> {CANCELED, COMPLETED}
       then \<not> ready_reader s \<and> \<not> ready_writer s \<and> \<not> sock_held s \<and> (sock_closed s \<longleftrightarrow> st_reports s \<noteq> [None])
         \<and> (st_state s = CANCELED \<longleftrightarrow> st_reports s = [])
       else st_reports s = [] \<and> sock_held s \<and> \<not> sock_closed s)"
proof -
  from assms have "stream_connector_ok s" by (rule stream_connector.inv_reach)
  then show ?thesis
    by (cases "st_state s") (auto simp: stream_connector_ok_def)
qed

text \<open>
  A started socket connector that is neither cancelled nor done waits for its first turn
  or for the socket; when that comes, the one after the other, it reports, whatever the outcomes.
\<close>

theorem socket_connector_reports:
  assumes "reach new_socket_connector socket_connector_step s" "sc_state s = ACTIVE"
  shows "\<exists>t. socket_connector_step (Sc_start_async c w) s = Some t \<and> sc_state t \<in> {ACTIVE, COMPLETED}
      \<and> (sc_state t = ACTIVE \<longrightarrow> (\<exists>u. socket_connector_step (Sc_on_writable e) t = Some u
           \<and> sc_reports u = [if e = 0 then None else Some e]))
    \<or> socket_connector_step (Sc_on_writable e) s = Some t \<and> sc_reports t = [if e = 0 then None else Some e]"
proof -
  from assms(1) have ok: "socket_connector_ok s" by (rule socket_connector.inv_reach)
  show ?thesis
  proof (cases "sc_posted s")
    case True
    with ok assms(2) show ?thesis
      by (auto simp: socket_connector_defs socket_connector_ok_def Let_def split: option.splits)
  next
    case False
    with ok assms(2) show ?thesis
      by (auto simp: socket_connector_defs socket_connector_ok_def Let_def)
  qed
qed

section \<open>The properties applied\<close>

text \<open>The thread is in \<open>getaddrinfo\<close> when the resolver is cancelled.\<close>

definition resolving :: "nat resolver" where
  "resolving = the (run resolver_step [Rs_start, Rs_begin] new_resolver)"

lemma cancelled_resolver_silent_witness:
  "case run resolver_step [Rs_resolved 1, Rs_post, Rs_cancel] (snd (rs_cancel resolving)) of
     None \<Rightarrow> False | Some u \<Rightarrow> rs_reports u = [] \<and> rs_thread u = Finished"
proof -
  have "run resolver_step [Rs_start, Rs_begin] new_resolver = Some resolving"
    by (simp add: resolving_def resolver_defs new_resolver_def)
  then have r: "reach new_resolver resolver_step resolving" by (rule run_reach) (rule reach_init)
  have "fst (rs_cancel resolving)" by code_simp
  then have c: "rs_cancel resolving = (True, snd (rs_cancel resolving))" by (simp add: prod_eq_iff)
  have "(case run resolver_step [Rs_resolved 1, Rs_post, Rs_cancel] (snd (rs_cancel resolving)) of
     None \<Rightarrow> False | Some u \<Rightarrow> rs_thread u = Finished)" by code_simp
  then obtain u where u: "run resolver_step [Rs_resolved 1, Rs_post, Rs_cancel] (snd (rs_cancel resolving)) = Some u"
    "rs_thread u = Finished" by (auto split: option.splits)
  with cancelled_resolver_silent [OF r c u(1)] show ?thesis by simp
qed

lemma stream_connector_settles_witness:
  "case run stream_connector_step [St_start, St_start_async None Want_read False None, St_ready Handshake_ok True None]
      (new_stream_connector True) of
     None \<Rightarrow> False | Some s \<Rightarrow> st_state s = CANCELED \<and> st_reports s = [] \<and> sock_closed s \<and> st_failed s = 1"
proof -
  have "(case run stream_connector_step [St_start, St_start_async None Want_read False None, St_ready Handshake_ok True None]
      (new_stream_connector True) of None \<Rightarrow> False | Some s \<Rightarrow> st_state s = CANCELED \<and> st_failed s = 1)" by code_simp
  then obtain s where s: "run stream_connector_step [St_start, St_start_async None Want_read False None,
      St_ready Handshake_ok True None] (new_stream_connector True) = Some s" "st_state s = CANCELED" "st_failed s = 1"
    by (auto split: option.splits)
  from stream_connector_settles [OF run_reach [OF s(1) reach_init]] s show ?thesis by simp
qed

lemma socket_connector_reports_witness:
  "\<exists>t. socket_connector_step (Sc_on_writable 111) (the (run socket_connector_step [Sc_start, Sc_start_async None None]
      new_socket_connector)) = Some t \<and> sc_reports t = [Some 111]"
proof -
  define s where "s = the (run socket_connector_step [Sc_start, Sc_start_async None None] new_socket_connector)"
  have run: "run socket_connector_step [Sc_start, Sc_start_async None None] new_socket_connector = Some s"
    by (simp add: s_def socket_connector_defs new_socket_connector_def Let_def)
  have s: "sc_state s = ACTIVE" "socket_connector_step (Sc_start_async None None) s = None"
    by (simp_all add: s_def socket_connector_defs new_socket_connector_def Let_def)
  from socket_connector_reports [OF run_reach [OF run reach_init] s(1), of None None 111] s(2)
  show ?thesis unfolding s_def by simp
qed

end
