(* ===== verification/Heapq.thy ===== *)
theory Heapq
  imports Prelude "HOL-Library.Multiset"
begin

text \<open>
  Python's \<open>heapq\<close>, which the timers of the I/O loop keep their timeouts in: \<open>heappush\<close>,
  \<open>heappop\<close> and \<open>heapify\<close> on a list ordered by a key, with the two sifting loops of the
  library. The laws a client relies on are the locale \<open>priority_queue\<close>.
\<close>

section \<open>The operations\<close>

definition parent :: "nat \<Rightarrow> nat" where
  "parent i = (i - 1) div 2"

definition exchange :: "nat \<Rightarrow> nat \<Rightarrow> 'a list \<Rightarrow> 'a list" where
  "exchange i j xs = xs[i := xs ! j, j := xs ! i]"

text \<open>\<open>_siftdown\<close>: the item at \<open>pos\<close> moves towards \<open>start\<close> past every larger parent.\<close>

function siftdown :: "('a \<Rightarrow> int) \<Rightarrow> nat \<Rightarrow> nat \<Rightarrow> 'a list \<Rightarrow> 'a list" where
  "siftdown key start pos xs =
     (if start < pos \<and> key (xs ! pos) < key (xs ! parent pos)
      then siftdown key start (parent pos) (exchange pos (parent pos) xs)
      else xs)"
  by pat_completeness auto
termination
  by (relation "measure (\<lambda>(_, _, pos, _). pos)") (auto simp: parent_def)

text \<open>\<open>_siftup\<close>: the smaller child moves up until a leaf is free; the item sifts down from there.\<close>

definition smaller_child :: "('a \<Rightarrow> int) \<Rightarrow> nat \<Rightarrow> 'a list \<Rightarrow> nat" where
  "smaller_child key pos xs =
     (if 2 * pos + 2 < length xs \<and> \<not> key (xs ! (2 * pos + 1)) < key (xs ! (2 * pos + 2))
      then 2 * pos + 2 else 2 * pos + 1)"

function to_leaf :: "('a \<Rightarrow> int) \<Rightarrow> nat \<Rightarrow> 'a list \<Rightarrow> nat \<times> 'a list" where
  "to_leaf key pos xs =
     (if 2 * pos + 1 < length xs
      then to_leaf key (smaller_child key pos xs) (exchange pos (smaller_child key pos xs) xs)
      else (pos, xs))"
  by pat_completeness auto
termination
  by (relation "measure (\<lambda>(_, pos, xs). length xs - pos)")
    (auto simp: smaller_child_def exchange_def)

declare siftdown.simps [simp del] to_leaf.simps [simp del]

definition siftup :: "('a \<Rightarrow> int) \<Rightarrow> nat \<Rightarrow> 'a list \<Rightarrow> 'a list" where
  "siftup key start xs = (let (pos, xs) = to_leaf key start xs in siftdown key start pos xs)"

definition heappush :: "('a \<Rightarrow> int) \<Rightarrow> 'a \<Rightarrow> 'a list \<Rightarrow> 'a list" where
  "heappush key x xs = siftdown key 0 (length xs) (xs @ [x])"

definition heappop :: "('a \<Rightarrow> int) \<Rightarrow> 'a list \<Rightarrow> 'a \<times> 'a list" where
  "heappop key xs =
     (let lastelt = last xs; xs = butlast xs in
      if xs = [] then (lastelt, []) else (hd xs, siftup key 0 (xs[0 := lastelt])))"

definition heapify :: "('a \<Rightarrow> int) \<Rightarrow> 'a list \<Rightarrow> 'a list" where
  "heapify key xs = fold (siftup key) (rev [0..<length xs div 2]) xs"

section \<open>Order\<close>

definition heap_from :: "('a \<Rightarrow> int) \<Rightarrow> nat \<Rightarrow> 'a list \<Rightarrow> bool" where
  "heap_from key s xs \<longleftrightarrow>
     (\<forall>i. 0 < i \<and> i < length xs \<and> s \<le> parent i \<longrightarrow> key (xs ! parent i) \<le> key (xs ! i))"

text \<open>In order but for the item at \<open>p\<close>, which is not compared with its neighbours.\<close>

definition hole :: "('a \<Rightarrow> int) \<Rightarrow> nat \<Rightarrow> nat \<Rightarrow> 'a list \<Rightarrow> bool" where
  "hole key s p xs \<longleftrightarrow>
     (\<forall>i. 0 < i \<and> i < length xs \<and> s \<le> parent i \<longrightarrow>
        (i \<noteq> p \<and> parent i \<noteq> p \<longrightarrow> key (xs ! parent i) \<le> key (xs ! i)) \<and>
        (parent i = p \<and> 0 < p \<and> s \<le> parent p \<longrightarrow> key (xs ! parent p) \<le> key (xs ! i)))"

definition below :: "('a \<Rightarrow> int) \<Rightarrow> nat \<Rightarrow> 'a list \<Rightarrow> bool" where
  "below key p xs \<longleftrightarrow>
     (\<forall>i. 0 < i \<and> i < length xs \<and> parent i = p \<longrightarrow> key (xs ! p) \<le> key (xs ! i))"

inductive desc :: "nat \<Rightarrow> nat \<Rightarrow> bool" for s where
  desc_refl: "desc s s"
| desc_child: "\<lbrakk>desc s (parent p); 0 < p\<rbrakk> \<Longrightarrow> desc s p"

lemma parent_less: "0 < p \<Longrightarrow> parent p < p"
  by (simp add: parent_def)

lemma desc_le: "desc s p \<Longrightarrow> s \<le> p"
proof (induction rule: desc.induct)
  case (desc_child p)
  then show ?case using parent_less[of p] by simp
qed simp

lemma desc_parent: "\<lbrakk>desc s p; s < p\<rbrakk> \<Longrightarrow> desc s (parent p)"
  by (erule desc.cases) auto

lemma desc_0: "desc 0 p"
proof (induction p rule: less_induct)
  case (less p)
  then show ?case using desc_child[of 0 p] desc_refl[of 0] parent_less[of p] by (cases "p = 0") auto
qed

lemma nth_exchange:
  "\<lbrakk>i < length xs; j < length xs\<rbrakk> \<Longrightarrow>
   exchange i j xs ! k = (if k = j then xs ! i else if k = i then xs ! j else xs ! k)"
  by (simp add: exchange_def nth_list_update)

lemma exchange_facts [simp]:
  "length (exchange i j xs) = length xs"
  "\<lbrakk>i < length xs; j < length xs\<rbrakk> \<Longrightarrow> mset (exchange i j xs) = mset xs"
  by (simp_all add: exchange_def mset_swap)

lemma parent_child: "parent i = p \<and> 0 < i \<longleftrightarrow> i = 2 * p + 1 \<or> i = 2 * p + 2"
  by (auto simp: parent_def)

lemma siftdown_heap:
  assumes "hole key s p xs" "below key p xs" "desc s p" "p < length xs"
  shows "heap_from key s (siftdown key s p xs) \<and> mset (siftdown key s p xs) = mset xs"
  using assms
proof (induction key s p xs rule: siftdown.induct)
  case (1 key s p xs)
  let ?q = "parent p" and ?xs = "exchange p (parent p) xs"
  show ?case
  proof (cases "s < p \<and> key (xs ! p) < key (xs ! ?q)")
    case True
    then have q: "?q < p" "desc s ?q" "s \<le> ?q" "0 < p"
      using 1 desc_parent[of s p] desc_le[of s ?q] parent_less[of p] by auto
    note nth = nth_exchange[of p xs ?q]
    have "hole key s ?q ?xs"
      unfolding hole_def
    proof (intro allI impI conjI, goal_cases)
      case (1 i)
      then show ?case using "1.prems" True q
        by (cases "parent i = p") (auto simp: nth hole_def below_def)
    next
      case (2 i)
      with "1.prems"(1)[unfolded hole_def, rule_format, of ?q] "1.prems"(4) q parent_less[of ?q]
      have "key (xs ! parent ?q) \<le> key (xs ! ?q)" by auto
      moreover from 2 "1.prems"(1)[unfolded hole_def, rule_format, of i] q
      have "i \<noteq> p \<Longrightarrow> key (xs ! ?q) \<le> key (xs ! i)" by auto
      ultimately show ?case using 2 "1.prems"(4) q
        by (cases "i = p") (auto simp: nth dest!: parent_less)
    qed
    moreover have "below key ?q ?xs"
      unfolding below_def
    proof (intro allI impI)
      fix i assume i: "0 < i \<and> i < length ?xs \<and> parent i = ?q"
      with "1.prems"(1) q have "i \<noteq> p \<Longrightarrow> key (xs ! ?q) \<le> key (xs ! i)"
        by (auto simp: hole_def)
      with i True "1.prems"(4) q show "key (?xs ! ?q) \<le> key (?xs ! i)"
        by (cases "i = p") (auto simp: nth)
    qed
    ultimately have "heap_from key s (siftdown key s ?q ?xs) \<and> mset (siftdown key s ?q ?xs) = mset ?xs"
      using 1 True q by simp
    with True "1.prems"(4) q show ?thesis by (subst (1 2) siftdown.simps) simp
  next
    case False
    then have s: "siftdown key s p xs = xs" by (subst siftdown.simps) (simp only: if_False)
    have "heap_from key s xs"
      unfolding heap_from_def
    proof (intro allI impI)
      fix i assume i: "0 < i \<and> i < length xs \<and> s \<le> parent i"
      show "key (xs ! parent i) \<le> key (xs ! i)"
      proof (cases "i = p")
        case True
        with i have "s < p" using parent_less[of p] by auto
        with True False show ?thesis by auto
      next
        case F: False
        with i "1.prems" show ?thesis by (cases "parent i = p") (auto simp: hole_def below_def)
      qed
    qed
    with s show ?thesis by simp
  qed
qed

lemma to_leaf_hole:
  assumes "hole key s p xs" "desc s p" "p < length xs" "to_leaf key p xs = (p', xs')"
  shows "hole key s p' xs' \<and> below key p' xs' \<and> desc s p' \<and> p' < length xs'
    \<and> mset xs' = mset xs"
  using assms
proof (induction key p xs rule: to_leaf.induct)
  case (1 key p xs)
  let ?c = "smaller_child key p xs" and ?xs = "exchange p (smaller_child key p xs) xs"
  show ?case
  proof (cases "2 * p + 1 < length xs")
    case True
    have c: "parent ?c = p" "?c < length xs" "p < ?c" "0 < ?c"
      using True by (auto simp: smaller_child_def parent_def)
    have least: "key (xs ! ?c) \<le> key (xs ! i)" if "0 < i" "i < length xs" "parent i = p" for i
      using that parent_child[of i p] True by (auto simp: smaller_child_def)
    have dc: "desc s ?c" using desc_child[of s ?c] "1.prems"(2) c by simp
    note nth = nth_exchange[of p xs ?c]
    have "hole key s ?c ?xs"
      unfolding hole_def
    proof (intro allI impI conjI, goal_cases)
      case (1 i)
      then show ?case using "1.prems"(3) c least[of i] parent_less[of p]
          "1.prems"(1)[unfolded hole_def, rule_format, of ?c] "1.prems"(1)[unfolded hole_def, rule_format, of i]
        by (cases "parent i = p"; cases "i = p") (auto simp: nth)
    next
      case (2 i)
      then have "i \<noteq> p" "parent i \<noteq> p" "i \<noteq> ?c" using c parent_less[of i] by auto
      with 2 "1.prems"(1,3) c show ?case by (auto simp: nth hole_def)
    qed
    moreover have "to_leaf key p xs = to_leaf key ?c ?xs"
      using True by (subst to_leaf.simps) (simp only: if_True)
    with "1.prems"(4) have "to_leaf key ?c ?xs = (p', xs')" by (simp only:)
    ultimately have "hole key s p' xs' \<and> below key p' xs' \<and> desc s p' \<and> p' < length xs' \<and> mset xs' = mset ?xs"
      using "1.IH"[OF True _ dc] c by simp
    with "1.prems"(3) c show ?thesis by simp
  next
    case False
    then have "to_leaf key p xs = (p, xs)" by (subst to_leaf.simps) (simp only: if_False)
    with "1.prems"(4) have "p' = p" "xs' = xs" by simp_all
    moreover have "below key p xs"
      unfolding below_def
    proof (intro allI impI)
      fix i assume i: "0 < i \<and> i < length xs \<and> parent i = p"
      then have "i = 2 * p + 1 \<or> i = 2 * p + 2" using parent_child[of i p] by blast
      with i False show "key (xs ! p) \<le> key (xs ! i)" by linarith
    qed
    ultimately show ?thesis using "1.prems"(1-3) by simp
  qed
qed

lemma siftup_heap:
  assumes "heap_from key (Suc s) xs" "s < length xs"
  shows "heap_from key s (siftup key s xs) \<and> mset (siftup key s xs) = mset xs"
proof -
  obtain p ys where p: "to_leaf key s xs = (p, ys)" by fastforce
  have "hole key s s xs"
    using assms(1) parent_less[of s] by (auto simp: hole_def heap_from_def)
  from to_leaf_hole[OF this desc_refl assms(2) p] siftdown_heap[of key s p ys]
  show ?thesis by (simp add: siftup_def p)
qed

lemma heap_from_mono: "\<lbrakk>heap_from key s xs; s \<le> t\<rbrakk> \<Longrightarrow> heap_from key t xs"
  by (auto simp: heap_from_def)

lemma heappush_heap:
  assumes "heap_from key 0 xs"
  shows "heap_from key 0 (heappush key x xs)" "mset (heappush key x xs) = add_mset x (mset xs)"
proof -
  let ?p = "length xs" and ?xs = "xs @ [x]"
  have "hole key 0 ?p ?xs" "below key ?p ?xs"
    using assms parent_less by (auto simp: hole_def below_def heap_from_def nth_append)
      (metis less_SucI less_trans_Suc not_less_eq parent_less)+
  from siftdown_heap[OF this desc_0] show "heap_from key 0 (heappush key x xs)"
    "mset (heappush key x xs) = add_mset x (mset xs)"
    by (auto simp: heappush_def)
qed

lemma heap_least:
  assumes "heap_from key 0 xs" "i < length xs"
  shows "key (xs ! 0) \<le> key (xs ! i)"
  using assms(2)
proof (induction i rule: less_induct)
  case (less i)
  show ?case
  proof (cases "i = 0")
    case False
    with less.IH[of "parent i"] parent_less[of i] less.prems have "key (xs ! 0) \<le> key (xs ! parent i)" by simp
    with assms(1) False less.prems show ?thesis by (force simp: heap_from_def)
  qed simp
qed

lemma heap_butlast:
  assumes "heap_from key 0 xs"
  shows "heap_from key 1 ((butlast xs)[0 := x])"
  unfolding heap_from_def
proof (intro allI impI)
  fix i assume i: "0 < i \<and> i < length ((butlast xs)[0 := x]) \<and> 1 \<le> parent i"
  then have "key (xs ! parent i) \<le> key (xs ! i)" using assms by (auto simp: heap_from_def)
  with i parent_less[of i] show "key ((butlast xs)[0 := x] ! parent i) \<le> key ((butlast xs)[0 := x] ! i)"
    by (simp add: nth_butlast nth_list_update)
qed

lemma heappop_heap:
  assumes "heap_from key 0 xs" "xs \<noteq> []"
  shows "heap_from key 0 (snd (heappop key xs))"
    "fst (heappop key xs) = hd xs"
    "add_mset (hd xs) (mset (snd (heappop key xs))) = mset xs"
proof -
  have l: "xs = butlast xs @ [last xs]" using assms(2) by simp
  have *: "heap_from key 0 (snd (heappop key xs)) \<and> fst (heappop key xs) = hd xs
    \<and> add_mset (hd xs) (mset (snd (heappop key xs))) = mset xs"
  proof (cases "butlast xs")
    case Nil
    with l obtain z where "xs = [z]" by (metis append_Nil)
    then show ?thesis by (simp add: heappop_def heap_from_def)
  next
    case (Cons y ys)
    have "heap_from key (Suc 0) ((butlast xs)[0 := last xs])"
      using heap_butlast[OF assms(1)] by simp
    from siftup_heap[OF this] Cons l have "heap_from key 0 (snd (heappop key xs))"
      "mset (snd (heappop key xs)) = add_mset (last xs) (mset ys)" "fst (heappop key xs) = y"
      by (simp_all add: heappop_def)
    moreover have "xs = y # ys @ [last xs]" using Cons l by simp
    then have "mset xs = add_mset y (add_mset (last xs) (mset ys))" "hd xs = y"
      by (metis add_mset_commute mset.simps(2) mset_append mset_single_iff_right union_mset_add_mset_right add.right_neutral mset.simps(1), metis list.sel(1))
    ultimately show ?thesis by simp
  qed
  from * show "heap_from key 0 (snd (heappop key xs))" "fst (heappop key xs) = hd xs"
    "add_mset (hd xs) (mset (snd (heappop key xs))) = mset xs" by auto
qed

lemma heapify_heap:
  "heap_from key 0 (heapify key xs)" "mset (heapify key xs) = mset xs"
proof -
  have "heap_from key 0 (fold (siftup key) (rev [0..<n]) ys) \<and> mset (fold (siftup key) (rev [0..<n]) ys) = mset ys"
    if "heap_from key n ys" "n \<le> length ys" for n and ys :: "'a list"
    using that
  proof (induction n arbitrary: ys)
    case (Suc n)
    then have *: "heap_from key n (siftup key n ys)" "mset (siftup key n ys) = mset ys"
      using siftup_heap[of key n ys] by auto
    moreover from *(2) have "length (siftup key n ys) = length ys" by (rule mset_eq_length)
    ultimately show ?case using Suc.IH[of "siftup key n ys"] Suc.prems(2) by (simp del: upt_Suc add: upt_Suc_append)
  next
    case 0
    then show ?case by simp
  qed
  moreover have "heap_from key (length xs div 2) xs"
    by (auto simp: heap_from_def parent_def)
  ultimately show "heap_from key 0 (heapify key xs)" "mset (heapify key xs) = mset xs"
    unfolding heapify_def by auto
qed

section \<open>The contract\<close>

locale priority_queue =
  fixes key :: "'a \<Rightarrow> int"
    and push :: "'a \<Rightarrow> 'a list \<Rightarrow> 'a list"
    and pop :: "'a list \<Rightarrow> 'a \<times> 'a list"
    and build :: "'a list \<Rightarrow> 'a list"
    and ordered :: "'a list \<Rightarrow> bool"
  assumes ordered_Nil: "ordered []"
    and push: "ordered q \<Longrightarrow> ordered (push x q) \<and> mset (push x q) = add_mset x (mset q)"
    and pop: "\<lbrakk>ordered q; q \<noteq> []\<rbrakk> \<Longrightarrow> ordered (snd (pop q)) \<and> fst (pop q) = hd q
        \<and> add_mset (hd q) (mset (snd (pop q))) = mset q"
    and build: "ordered (build q) \<and> mset (build q) = mset q"
    and least: "\<lbrakk>ordered q; x \<in> set q\<rbrakk> \<Longrightarrow> key (hd q) \<le> key x"
begin

lemma set_push: "ordered q \<Longrightarrow> set (push x q) = insert x (set q)"
  using push[of q x] by (metis set_mset_add_mset_insert set_mset_mset)

lemma distinct_push: "ordered q \<Longrightarrow> distinct (push x q) \<longleftrightarrow> x \<notin> set q \<and> distinct q"
  using push[of q x] by (metis distinct.simps(2) mset.simps(2) mset_eq_imp_distinct_iff)

lemma set_pop: "\<lbrakk>ordered q; q \<noteq> []\<rbrakk> \<Longrightarrow> set q = insert (hd q) (set (snd (pop q)))"
  using pop[of q] by (metis set_mset_add_mset_insert set_mset_mset)

lemma distinct_pop:
  "\<lbrakk>ordered q; q \<noteq> []\<rbrakk> \<Longrightarrow> distinct q \<longleftrightarrow> hd q \<notin> set (snd (pop q)) \<and> distinct (snd (pop q))"
  using pop[of q] by (metis distinct.simps(2) mset.simps(2) mset_eq_imp_distinct_iff)

lemma set_build: "set (build q) = set q"
  using build[of q] by (metis set_mset_mset)

lemma distinct_build: "distinct (build q) = distinct q"
  using build[of q] by (metis mset_eq_imp_distinct_iff)

lemma length_build: "length (build q) = length q"
  using build[of q] by (metis size_mset)

text \<open>Popping while the least key is not beyond a bound takes out exactly those.\<close>

lemma nothing_below: "\<lbrakk>ordered q; q = [] \<or> b < key (hd q); x \<in> set q\<rbrakk> \<Longrightarrow> b < key x"
  using least[of q x] by auto

end

interpretation heapq: priority_queue key "heappush key" "heappop key" "heapify key" "heap_from key 0"
  for key :: "'a \<Rightarrow> int"
proof unfold_locales
  show "heap_from key 0 []" by (simp add: heap_from_def)
next
  fix q :: "'a list" and x assume "heap_from key 0 q"
  then show "heap_from key 0 (heappush key x q) \<and> mset (heappush key x q) = add_mset x (mset q)"
    by (simp add: heappush_heap)
next
  fix q :: "'a list" assume "heap_from key 0 q" "q \<noteq> []"
  then show "heap_from key 0 (snd (heappop key q)) \<and> fst (heappop key q) = hd q
      \<and> add_mset (hd q) (mset (snd (heappop key q))) = mset q"
    using heappop_heap by blast
next
  fix q :: "'a list"
  show "heap_from key 0 (heapify key q) \<and> mset (heapify key q) = mset q" by (simp add: heapify_heap)
next
  fix q :: "'a list" and x assume "heap_from key 0 q" "x \<in> set q"
  then show "key (hd q) \<le> key x"
    using heap_least[of key q] by (metis hd_conv_nth in_set_conv_nth length_pos_if_in_set less_numeral_extra(3) list.size(3))
qed

lemma length_siftdown: "length (siftdown key s p xs) = length xs"
  by (induction key s p xs rule: siftdown.induct) (subst siftdown.simps, simp)

lemma length_to_leaf: "length (snd (to_leaf key p xs)) = length xs"
  by (induction key p xs rule: to_leaf.induct) (subst to_leaf.simps, simp)

lemma length_heappop: "xs \<noteq> [] \<Longrightarrow> length (snd (heappop key xs)) < length xs"
  using length_to_leaf[of key 0] by (auto simp: heappop_def Let_def siftup_def length_siftdown split: prod.splits)
    (metis diff_less length_butlast length_greater_0_conv length_list_update less_numeral_extra(1) snd_conv)

text \<open>The order depends on the keys of the items in the queue only.\<close>

lemma heap_from_cong:
  "(\<And>x. x \<in> set xs \<Longrightarrow> key x = key' x) \<Longrightarrow> heap_from key s xs = heap_from key' s xs"
  unfolding heap_from_def by (metis (no_types, lifting) less_trans nth_mem parent_less)

end
