(* ===== verification/Py_Struct.thy ===== *)
theory Py_Struct
  imports Prelude
begin

text \<open>
  What the encoders use of Python and its standard library: the dynamic values that AMQP
  fields hold, the exceptions raised on the way, \<open>str.encode('utf-8')\<close> and
  \<open>bytes.decode('utf8')\<close>, and \<open>struct.pack\<close> / \<open>struct.unpack_from\<close> for the big-endian
  formats in the source. Python 3 is modelled; the branches under \<open>PY2\<close> are not taken.
\<close>

section \<open>Values and exceptions\<close>

text \<open>
  \<open>PStr\<close> is a list of code points. \<open>PLong\<close> is an instance of \<open>pika.compat.long\<close>, the
  marker subclass of \<open>int\<close>. \<open>PDecimal c e\<close> is the finite decimal \<open>c * 10 ^ e\<close>,
  \<open>PDecimalSpecial\<close> an infinity or a quiet NaN. \<open>PDatetime s u\<close> is the naive UTC
  datetime \<open>s\<close> seconds and \<open>u\<close> microseconds after the epoch. \<open>PDict\<close> keeps insertion
  order. \<open>POther\<close> is an object of any other type, such as a float.
\<close>

datatype pyval =
  PNone
| PBool bool
| PInt int
| PLong int
| PStr "nat list"
| PBytes bytes
| PDecimal int int
| PDecimalSpecial
| PDatetime int int
| PDict "(pyval \<times> pyval) list"
| PList "pyval list"
| POther nat

text \<open>
  \<open>TimestampError\<close> stands for the \<open>ValueError\<close>, \<open>OSError\<close> or \<open>OverflowError\<close> that
  \<open>datetime.utcfromtimestamp\<close> raises after the year 9999, depending on magnitude and
  platform. \<open>OutOfFuel\<close> is no exception of Python; no function with enough fuel returns it.
\<close>

datatype py_error =
  StructError
| AssertionError
| AttributeError
| TypeError
| ValueError
| OverflowError
| KeyError
| IndexError
| UnicodeEncodeError
| ShortStringTooLong bytes
| UnsupportedAMQPFieldException pyval
| InvalidFieldTypeException bytes
| InvalidFrameError string
| TimestampError
| OutOfFuel

text \<open>A Python string written as an ASCII literal.\<close>

definition pystr :: "string \<Rightarrow> nat list" where
  "pystr s = map of_char s"

text \<open>Truth value testing, \<open>bool(x)\<close>.\<close>

fun truthy :: "pyval \<Rightarrow> bool" where
  "truthy PNone = False"
| "truthy (PBool b) = b"
| "truthy (PInt i) = (i \<noteq> 0)"
| "truthy (PLong i) = (i \<noteq> 0)"
| "truthy (PStr s) = (s \<noteq> [])"
| "truthy (PBytes b) = (b \<noteq> [])"
| "truthy (PDecimal c e) = (c \<noteq> 0)"
| "truthy (PDict d) = (d \<noteq> [])"
| "truthy (PList l) = (l \<noteq> [])"
| "truthy _ = True"

text \<open>\<open>d[k] = v\<close> on an insertion-ordered dict.\<close>

fun dict_set :: "'k \<Rightarrow> 'v \<Rightarrow> ('k \<times> 'v) list \<Rightarrow> ('k \<times> 'v) list" where
  "dict_set k v [] = [(k, v)]"
| "dict_set k v ((k', v') # d) = (if k' = k then (k, v) # d else (k', v') # dict_set k v d)"

lemma map_of_dict_set: "map_of (dict_set k v d) = (map_of d)(k \<mapsto> v)"
  by (induction d) auto

lemma map_fst_dict_set:
  "map fst (dict_set k v d) = (if k \<in> set (map fst d) then map fst d else map fst d @ [k])"
  by (induction d) (auto simp del: set_map)

lemma distinct_dict_set: "distinct (map fst d) \<Longrightarrow> distinct (map fst (dict_set k v d))"
  by (simp add: map_fst_dict_set del: set_map)

lemma dict_set_new: "k \<notin> fst ` set d \<Longrightarrow> dict_set k v d = d @ [(k, v)]"
  by (induction d) auto

section \<open>Big-endian integers\<close>

fun be_bytes :: "nat \<Rightarrow> int \<Rightarrow> bytes" where
  "be_bytes 0 v = []"
| "be_bytes (Suc n) v = be_bytes n (v div 256) @ [word_of_int (v mod 256)]"

definition be_int :: "bytes \<Rightarrow> int" where
  "be_int bs = foldl (\<lambda>a b. 256 * a + uint b) 0 bs"

definition be_sint :: "bytes \<Rightarrow> int" where
  "be_sint bs =
     (let u = be_int bs; m = 256 ^ length bs in if u \<ge> m div 2 then u - m else u)"

lemma length_be_bytes [simp]: "length (be_bytes n v) = n"
  by (induction n arbitrary: v) auto

lemma be_int_Nil [simp]: "be_int [] = 0"
  by (simp add: be_int_def)

lemma be_int_snoc [simp]: "be_int (bs @ [b]) = 256 * be_int bs + uint b"
  by (simp add: be_int_def)

lemma uint_byte: "0 \<le> uint (b :: byte)" "uint (b :: byte) < 256"
  using uint_lt2p[of b] by auto

lemma uint_word_of_int_byte: "0 \<le> v \<Longrightarrow> v < 256 \<Longrightarrow> uint (word_of_int v :: byte) = v"
  by (simp add: uint_word_of_int)

lemma be_int_bounds: "0 \<le> be_int bs \<and> be_int bs < 256 ^ length bs"
proof (induction bs rule: rev_induct)
  case (snoc b bs)
  then show ?case using uint_byte[of b] by simp
qed simp

lemma be_int_be_bytes: "be_int (be_bytes n v) = v mod 256 ^ n"
proof (induction n arbitrary: v)
  case (Suc n)
  have "uint (word_of_int (v mod 256) :: byte) = v mod 256"
    by (simp add: uint_word_of_int)
  with Suc[of "v div 256"] show ?case by (simp add: zmod_zmult2_eq)
qed simp

lemma be_bytes_be_int: "be_bytes (length bs) (be_int bs) = bs"
proof (induction bs rule: rev_induct)
  case (snoc b bs)
  have "(256 * be_int bs + uint b) div 256 = be_int bs"
    "(256 * be_int bs + uint b) mod 256 = uint b" using uint_byte[of b] by auto
  with snoc show ?case by simp
qed simp

section \<open>The struct module\<close>

text \<open>The integer that \<open>struct.pack\<close> reads from its argument.\<close>

fun as_index :: "pyval \<Rightarrow> py_error + int" where
  "as_index (PInt i) = Inr i"
| "as_index (PLong i) = Inr i"
| "as_index (PBool b) = Inr (of_bool b)"
| "as_index _ = Inl StructError"

definition pack_uint :: "nat \<Rightarrow> int \<Rightarrow> py_error + bytes" where
  "pack_uint n v = (if 0 \<le> v \<and> v < 256 ^ n then Inr (be_bytes n v) else Inl StructError)"

definition pack_sint :: "nat \<Rightarrow> int \<Rightarrow> py_error + bytes" where
  "pack_sint n v =
     (if - (256 ^ n div 2) \<le> v \<and> v < 256 ^ n div 2 then Inr (be_bytes n v) else Inl StructError)"

text \<open>\<open>struct.unpack_from\<close> at an offset: the buffer must hold the whole item.\<close>

definition unpack_from :: "nat \<Rightarrow> bytes \<Rightarrow> nat \<Rightarrow> py_error + bytes" where
  "unpack_from n encoded offset =
     (if offset + n \<le> length encoded then Inr (py_slice offset (offset + n) encoded)
      else Inl StructError)"

definition unpack_uint :: "nat \<Rightarrow> bytes \<Rightarrow> nat \<Rightarrow> py_error + int" where
  "unpack_uint n encoded offset = bindE (unpack_from n encoded offset) (\<lambda>bs. Inr (be_int bs))"

definition unpack_sint :: "nat \<Rightarrow> bytes \<Rightarrow> nat \<Rightarrow> py_error + int" where
  "unpack_sint n encoded offset = bindE (unpack_from n encoded offset) (\<lambda>bs. Inr (be_sint bs))"

lemma pack_uint_length: "pack_uint n v = Inr bs \<Longrightarrow> length bs = n"
  by (auto simp: pack_uint_def split: if_splits)

lemma pack_sint_length: "pack_sint n v = Inr bs \<Longrightarrow> length bs = n"
  by (auto simp: pack_sint_def split: if_splits)

lemma unpack_from_append:
  "n = length bs \<Longrightarrow> offset = length pre \<Longrightarrow> unpack_from n (pre @ bs @ post) offset = Inr bs"
  by (simp add: unpack_from_def)

lemma unpack_uint_pack:
  assumes "pack_uint n v = Inr bs"
  shows "unpack_uint n (pre @ bs @ post) (length pre) = Inr v"
proof -
  from assms have "bs = be_bytes n v" "v mod 256 ^ n = v"
    by (auto simp: pack_uint_def split: if_splits)
  then show ?thesis
    by (simp add: unpack_uint_def unpack_from_append be_int_be_bytes)
qed

lemma be_sint_be_bytes:
  assumes "- (256 ^ n div 2) \<le> v" "v < 256 ^ n div 2"
  shows "be_sint (be_bytes n v) = v"
proof (cases "n = 0")
  case False
  then have ev: "2 * (256 ^ n div 2) = (256 ^ n :: int)" by (simp add: even_two_times_div_two)
  show ?thesis
  proof (cases "0 \<le> v")
    case True
    with assms ev have "v mod 256 ^ n = v" by auto
    with True assms show ?thesis by (simp add: be_sint_def Let_def be_int_be_bytes)
  next
    case neg: False
    have "v mod 256 ^ n = (v + 256 ^ n) mod 256 ^ n" by simp
    also from neg assms ev have "\<dots> = v + 256 ^ n" by (intro mod_pos_pos_trivial) auto
    finally have "v mod 256 ^ n = v + 256 ^ n" .
    with neg assms ev show ?thesis by (auto simp: be_sint_def Let_def be_int_be_bytes)
  qed
qed (use assms in auto)

lemma pack_uint_be_int: "pack_uint n v = Inr bs \<Longrightarrow> be_int bs = v"
  unfolding pack_uint_def by (auto simp: be_int_be_bytes simp del: be_bytes.simps split: if_splits)

lemma pack_sint_be_sint: "pack_sint n v = Inr bs \<Longrightarrow> be_sint bs = v"
  unfolding pack_sint_def by (auto simp: be_sint_be_bytes simp del: be_bytes.simps split: if_splits)

lemma unpack_sint_pack:
  assumes "pack_sint n v = Inr bs"
  shows "unpack_sint n (pre @ bs @ post) (length pre) = Inr v"
proof -
  from assms have "bs = be_bytes n v" "be_sint (be_bytes n v) = v"
    by (auto simp: pack_sint_def be_sint_be_bytes split: if_splits)
  then show ?thesis
    by (simp add: unpack_sint_def unpack_from_append)
qed

text \<open>
  The IEEE 754 number in \<open>bs\<close> with \<open>e\<close> exponent and \<open>m\<close> mantissa bits, converted by
  \<open>int()\<close>: towards zero, with \<open>OverflowError\<close> for infinities and \<open>ValueError\<close> for NaN.
\<close>

definition ieee_to_int :: "nat \<Rightarrow> nat \<Rightarrow> bytes \<Rightarrow> py_error + int" where
  "ieee_to_int e m bs =
     (let u = be_int bs;
          sgn = u div 2 ^ (e + m); ex = (u div 2 ^ m) mod 2 ^ e; man = u mod 2 ^ m;
          sig = (if ex = 0 then man else man + 2 ^ m);
          sc = max ex 1 - (2 ^ (e - 1) - 1) - int m;
          mag = (if sc \<ge> 0 then sig * 2 ^ nat sc else sig div 2 ^ nat (- sc))
      in if ex = 2 ^ e - 1 then Inl (if man = 0 then OverflowError else ValueError)
         else Inr (if sgn = 1 then - mag else mag))"

lemma ieee_to_int_examples:
  "ieee_to_int 8 23 [64, 73, 15, 219] = Inr 3"
  "ieee_to_int 8 23 [192, 73, 15, 219] = Inr (- 3)"
  "ieee_to_int 11 52 [64, 9, 33, 251, 84, 68, 45, 24] = Inr 3"
  "ieee_to_int 8 23 [127, 128, 0, 0] = Inl OverflowError"
  by (simp_all add: ieee_to_int_def be_int_def)

section \<open>UTF-8\<close>

definition is_surrogate :: "nat \<Rightarrow> bool" where
  "is_surrogate c \<longleftrightarrow> 55296 \<le> c \<and> c < 57344"

definition utf8_char :: "nat \<Rightarrow> nat list option" where
  "utf8_char c =
     (if c < 128 then Some [c]
      else if c < 2048 then Some [192 + c div 64, 128 + c mod 64]
      else if is_surrogate c then None
      else if c < 65536 then Some [224 + c div 4096, 128 + c div 64 mod 64, 128 + c mod 64]
      else if c < 1114112
        then Some [240 + c div 262144, 128 + c div 4096 mod 64, 128 + c div 64 mod 64, 128 + c mod 64]
      else None)"

fun utf8_chars :: "nat list \<Rightarrow> nat list option" where
  "utf8_chars [] = Some []"
| "utf8_chars (c # cs) =
     (case utf8_char c of None \<Rightarrow> None
      | Some bs \<Rightarrow> map_option (\<lambda>bs'. bs @ bs') (utf8_chars cs))"

text \<open>\<open>s.encode('utf-8')\<close>: lone surrogates are not encodable.\<close>

definition utf8_encode :: "nat list \<Rightarrow> py_error + bytes" where
  "utf8_encode s =
     (case utf8_chars s of None \<Rightarrow> Inl UnicodeEncodeError | Some ns \<Rightarrow> Inr (map of_nat ns))"

definition is_cont :: "nat \<Rightarrow> bool" where
  "is_cont b \<longleftrightarrow> 128 \<le> b \<and> b < 192"

text \<open>The strict decoder: no overlong forms, no surrogates, nothing above U+10FFFF.\<close>

fun utf8_parse :: "nat list \<Rightarrow> nat list option" where
  "utf8_parse [] = Some []"
| "utf8_parse (a # bs) =
     (if a < 128 then map_option (Cons a) (utf8_parse bs)
      else if a < 194 then None
      else if a < 224 then
        (case bs of b # bs' \<Rightarrow>
           if is_cont b then map_option (Cons ((a - 192) * 64 + (b - 128))) (utf8_parse bs') else None
         | _ \<Rightarrow> None)
      else if a < 240 then
        (case bs of b # c # bs' \<Rightarrow>
           (let cp = (a - 224) * 4096 + (b - 128) * 64 + (c - 128)
            in if is_cont b \<and> is_cont c \<and> 2048 \<le> cp \<and> \<not> is_surrogate cp
               then map_option (Cons cp) (utf8_parse bs') else None)
         | _ \<Rightarrow> None)
      else if a < 245 then
        (case bs of b # c # d # bs' \<Rightarrow>
           (let cp = (a - 240) * 262144 + (b - 128) * 4096 + (c - 128) * 64 + (d - 128)
            in if is_cont b \<and> is_cont c \<and> is_cont d \<and> 65536 \<le> cp \<and> cp < 1114112
               then map_option (Cons cp) (utf8_parse bs') else None)
         | _ \<Rightarrow> None)
      else None)"

definition utf8_decode :: "bytes \<Rightarrow> nat list option" where
  "utf8_decode bs = utf8_parse (map unat bs)"

text \<open>Base 64 digits.\<close>

lemma base64_step: "(c::nat) = 64 * (c div 64) + c mod 64"
  by simp

lemma div_4096: "(c::nat) div 4096 = c div 64 div 64"
  by (simp add: div_mult2_eq[symmetric])

lemma div_262144: "(c::nat) div 262144 = c div 64 div 64 div 64"
  by (simp add: div_mult2_eq[symmetric])

lemma base64_digit: "z < 64 \<Longrightarrow> (64 * q + z) div 64 = q" "z < 64 \<Longrightarrow> (64 * q + z) mod 64 = (z::nat)"
  by simp_all

lemma utf8_parse_char:
  assumes "utf8_char c = Some bs"
  shows "utf8_parse (bs @ rest) = map_option (Cons c) (utf8_parse rest)"
proof -
  consider (1) "c < 128" | (2) "128 \<le> c" "c < 2048" | (3) "2048 \<le> c" "c < 65536" "\<not> is_surrogate c"
    | (4) "65536 \<le> c" "c < 1114112"
    using assms by (fastforce simp: utf8_char_def split: if_splits)
  then show ?thesis
  proof cases
    case 1
    with assms show ?thesis by (auto simp: utf8_char_def)
  next
    case 2
    define x y where "x = c div 64" and "y = c mod 64"
    then have c: "c = x * 64 + y" "y < 64" by simp_all
    with 2 have "2 \<le> x" "x < 32" by auto
    moreover from 2 assms have "bs = [192 + x, 128 + y]"
      by (auto simp: utf8_char_def x_def y_def)
    ultimately show ?thesis using c by (simp add: is_cont_def)
  next
    case 3
    define x y z where "x = c div 4096" and "y = c div 64 mod 64" and "z = c mod 64"
    have c: "c = x * 4096 + y * 64 + z" "y < 64" "z < 64"
      unfolding x_def y_def z_def div_4096
      using base64_step[of c] base64_step[of "c div 64"] by (linarith, simp_all)
    with 3 have "x < 16" by auto
    moreover from 3 assms have "bs = [224 + x, 128 + y, 128 + z]"
      by (auto simp: utf8_char_def x_def y_def z_def)
    ultimately show ?thesis using c 3 by (simp add: is_cont_def Let_def)
  next
    case 4
    define w x y z where "w = c div 262144" and "x = c div 4096 mod 64" and "y = c div 64 mod 64"
      and "z = c mod 64"
    have c: "c = w * 262144 + x * 4096 + y * 64 + z" "x < 64" "y < 64" "z < 64"
      unfolding w_def x_def y_def z_def div_4096 div_262144
      using base64_step[of c] base64_step[of "c div 64"] base64_step[of "c div 64 div 64"]
      by (linarith, simp_all)
    with 4 have "w < 5" by auto
    moreover from 4 assms have "bs = [240 + w, 128 + x, 128 + y, 128 + z]"
      by (auto simp: utf8_char_def is_surrogate_def w_def x_def y_def z_def)
    ultimately show ?thesis using c 4 by (simp add: is_cont_def Let_def)
  qed
qed

lemma utf8_char_bytes: "utf8_char c = Some bs \<Longrightarrow> b \<in> set bs \<Longrightarrow> b < 256"
  by (auto simp: utf8_char_def split: if_splits)

lemma utf8_chars_bytes: "utf8_chars s = Some ns \<Longrightarrow> b \<in> set ns \<Longrightarrow> b < 256"
  by (induction s arbitrary: ns) (auto split: option.splits dest: utf8_char_bytes)

lemma utf8_parse_chars: "utf8_chars s = Some ns \<Longrightarrow> utf8_parse ns = Some s"
  by (induction s arbitrary: ns) (auto split: option.splits simp: utf8_parse_char)

lemma utf8_decode_encode:
  assumes "utf8_encode s = Inr bs"
  shows "utf8_decode bs = Some s"
proof -
  from assms obtain ns where ns: "utf8_chars s = Some ns" "bs = map of_nat ns"
    by (auto simp: utf8_encode_def split: option.splits)
  have "map unat bs = ns"
    using ns utf8_chars_bytes[OF ns(1)]
    by (auto simp: unat_of_nat intro!: map_idI)
  with ns show ?thesis by (simp add: utf8_decode_def utf8_parse_chars)
qed

text \<open>Decoding accepts the image of encoding only: there is one byte form per string.\<close>

lemma utf8_chars_parse: "utf8_parse ns = Some s \<Longrightarrow> utf8_chars s = Some ns"
proof (induction ns arbitrary: s rule: utf8_parse.induct)
  case (2 a bs)
  consider (1) "a < 128" | (2) "194 \<le> a" "a < 224" | (3) "224 \<le> a" "a < 240" | (4) "240 \<le> a" "a < 245"
    using "2.prems" unfolding utf8_parse.simps(2) by (simp split: if_splits; linarith)
  then show ?case
  proof cases
    case c1: 1
    with "2.prems" obtain s' where "utf8_parse bs = Some s'" "s = a # s'" by auto
    moreover from this c1 have "utf8_chars s' = Some bs" by (intro "2.IH"(1))
    ultimately show ?thesis using c1 by (simp add: utf8_char_def)
  next
    case c2: 2
    with "2.prems" obtain b bs' where bs: "bs = b # bs'"
      by (simp split: list.splits)
    with c2 "2.prems" obtain s' where b: "bs = b # bs'" "is_cont b" "utf8_parse bs' = Some s'"
      "s = ((a - 192) * 64 + (b - 128)) # s'"
      by (auto split: if_splits)
    define x y where "x = a - 192" and "y = b - 128"
    with c2 b have xy: "a = 192 + x" "b = 128 + y" "2 \<le> x" "x < 32" "y < 64"
      by (auto simp: is_cont_def)
    then have "utf8_char (x * 64 + y) = Some [a, b]" by (simp add: utf8_char_def)
    moreover have "utf8_chars s' = Some bs'"
      using "2.IH"(2)[OF _ _ _ b(1,2,3)] c2 by simp
    ultimately show ?thesis using b by (simp add: x_def y_def)
  next
    case c3: 3
    with "2.prems" obtain b c bs' where bs: "bs = b # c # bs'"
      by (simp split: list.splits)
    with c3 "2.prems" obtain s' where b: "bs = b # c # bs'" "is_cont b" "is_cont c"
      "utf8_parse bs' = Some s'" "2048 \<le> (a - 224) * 4096 + (b - 128) * 64 + (c - 128)"
      "\<not> is_surrogate ((a - 224) * 4096 + (b - 128) * 64 + (c - 128))"
      "s = ((a - 224) * 4096 + (b - 128) * 64 + (c - 128)) # s'"
      by (auto simp: Let_def split: if_splits)
    define x y z where "x = a - 224" and "y = b - 128" and "z = c - 128"
    have xy: "a = 224 + x" "b = 128 + y" "c = 128 + z" "x < 16" "y < 64" "z < 64"
      using c3 b(2,3) unfolding x_def y_def z_def is_cont_def by linarith+
    define cp where "cp = 64 * (64 * x + y) + z"
    have dig: "cp div 4096 = x" "cp div 64 mod 64 = y" "cp mod 64 = z"
      using xy(5,6) unfolding cp_def div_4096 by (simp_all only: base64_digit)
    have cp: "cp = (a - 224) * 4096 + (b - 128) * 64 + (c - 128)"
      unfolding cp_def xy(1-3) add_diff_cancel_left' by (simp add: algebra_simps)
    have rng: "2048 \<le> cp" "\<not> is_surrogate cp" using b(5,6) unfolding cp by blast+
    moreover have "cp < 65536" using xy(4-6) unfolding cp_def by simp
    ultimately have "utf8_char cp = Some [a, b, c]"
      unfolding utf8_char_def dig xy(1-3) by simp
    moreover have "utf8_chars s' = Some bs'"
      using "2.IH"(3)[OF _ _ _ _ b(1) refl refl _ b(4)] c3 b(2,3) rng unfolding cp[symmetric] by simp
    ultimately show ?thesis unfolding b(1) b(7) cp[symmetric] by simp
  next
    case c4: 4
    with "2.prems" obtain b c d bs' where bs: "bs = b # c # d # bs'"
      by (simp split: list.splits)
    with c4 "2.prems" obtain s' where b: "bs = b # c # d # bs'" "is_cont b" "is_cont c" "is_cont d"
      "utf8_parse bs' = Some s'"
      "65536 \<le> (a - 240) * 262144 + (b - 128) * 4096 + (c - 128) * 64 + (d - 128)"
      "(a - 240) * 262144 + (b - 128) * 4096 + (c - 128) * 64 + (d - 128) < 1114112"
      "s = ((a - 240) * 262144 + (b - 128) * 4096 + (c - 128) * 64 + (d - 128)) # s'"
      by (auto simp: Let_def simp del: One_nat_def split: if_splits)
    define w x y z where "w = a - 240" and "x = b - 128" and "y = c - 128" and "z = d - 128"
    have xy: "a = 240 + w" "b = 128 + x" "c = 128 + y" "d = 128 + z" "w < 5"
      "x < 64" "y < 64" "z < 64"
      using c4 b(2-4) unfolding w_def x_def y_def z_def is_cont_def by linarith+
    define cp where "cp = 64 * (64 * (64 * w + x) + y) + z"
    have dig: "cp div 262144 = w" "cp div 4096 mod 64 = x" "cp div 64 mod 64 = y" "cp mod 64 = z"
      using xy(6-8) unfolding cp_def div_4096 div_262144 by (simp_all only: base64_digit)
    have cp: "cp = (a - 240) * 262144 + (b - 128) * 4096 + (c - 128) * 64 + (d - 128)"
      unfolding cp_def xy(1-4) add_diff_cancel_left' by (simp add: algebra_simps)
    have rng: "65536 \<le> cp" "cp < 1114112" using b(6,7) unfolding cp by blast+
    then have "\<not> cp < 128" "\<not> cp < 2048" "\<not> is_surrogate cp" "\<not> cp < 65536"
      by (simp_all add: is_surrogate_def)
    with rng have "utf8_char cp = Some [a, b, c, d]"
      by (simp only: utf8_char_def dig xy(1-4) if_False if_True)
    moreover have "utf8_chars s' = Some bs'"
      using "2.IH"(4)[OF _ _ _ _ _ b(1) refl refl refl _ b(5)] c4 b(2-4) rng unfolding cp[symmetric] by simp
    ultimately show ?thesis unfolding b(1) b(8) cp[symmetric] by simp
  qed
qed simp

lemma utf8_encode_decode:
  assumes "utf8_decode bs = Some s"
  shows "utf8_encode s = Inr bs"
  using utf8_chars_parse[of "map unat bs" s] assms
  by (simp add: utf8_encode_def utf8_decode_def o_def)

end
