(* ===== verification/Timer.thy ===== *)
theory Timer
  imports Heapq Py_Struct "HOL-Library.Sublist"
begin

text \<open>
  \<open>_Timeout\<close> and \<open>_Timer\<close> of \<open>adapters/select_connection.py\<close>: the timeouts of the I/O loop.
  The \<open>_Timeout\<close> objects are shared between the heap and the handles given out, so they live in
  a store: \<open>deadline\<close> and \<open>action\<close> (the attribute \<open>callback\<close>) by identity. Times are integers
  in one fixed unit. What a callback does is a parameter \<open>perform\<close> on a world \<open>'w\<close> and the timer,
  with the exception it ends with, if any.
\<close>

section \<open>State and operations\<close>

record 'c timer =
  timeout_heap :: "nat list option"
  num_cancellations :: int
  deadline :: "nat \<Rightarrow> int"
  action :: "nat \<Rightarrow> 'c option"
  next_timeout :: nat

definition GC_CANCELLATION_THRESHOLD :: int where
  "GC_CANCELLATION_THRESHOLD = 1024"

definition new_timer :: "'c timer" where
  "new_timer = \<lparr>timeout_heap = Some [], num_cancellations = 0, deadline = (\<lambda>_. 0),
     action = (\<lambda>_. None), next_timeout = 0\<rparr>"

text \<open>\<open>_Timeout.__init__\<close>\<close>

definition new_timeout :: "int \<Rightarrow> 'c \<Rightarrow> 'c timer \<Rightarrow> py_error + nat \<times> 'c timer" where
  "new_timeout d cb t =
     (if d < 0 then Inl ValueError
      else Inr (next_timeout t, t\<lparr>deadline := (deadline t)(next_timeout t := d),
             action := (action t)(next_timeout t := Some cb), next_timeout := Suc (next_timeout t)\<rparr>))"

definition call_later :: "int \<Rightarrow> int \<Rightarrow> 'c \<Rightarrow> 'c timer \<Rightarrow> py_error + nat \<times> 'c timer" where
  "call_later now delay cb t =
     (case timeout_heap t of
        None \<Rightarrow> Inl ValueError
      | Some heap \<Rightarrow>
          if delay < 0 then Inl ValueError
          else bindE (new_timeout (now + delay) cb t) (\<lambda>(timeout, t).
               Inr (timeout, t\<lparr>timeout_heap := Some (heappush (deadline t) timeout heap)\<rparr>)))"

definition remove_timeout :: "nat \<Rightarrow> 'c timer \<Rightarrow> 'c timer" where
  "remove_timeout timeout t =
     (if action t timeout = None then t
      else t\<lparr>action := (action t)(timeout := None), num_cancellations := num_cancellations t + 1\<rparr>)"

definition close_timer :: "'c timer \<Rightarrow> 'c timer" where
  "close_timer t =
     (case timeout_heap t of
        None \<Rightarrow> t
      | Some heap \<Rightarrow> t\<lparr>action := (\<lambda>i. if i \<in> set heap then None else action t i), timeout_heap := None\<rparr>)"

definition get_remaining_interval :: "int \<Rightarrow> 'c timer \<Rightarrow> int option" where
  "get_remaining_interval now t =
     (case timeout_heap t of
        None \<Rightarrow> None
      | Some heap \<Rightarrow> if heap = [] then None else Some (max 0 (deadline t (hd heap) - now)))"

section \<open>Processing\<close>

text \<open>The first loop of \<open>process_timeouts\<close>: the due timeouts leave the heap.\<close>

function take_due :: "int \<Rightarrow> (nat \<Rightarrow> int) \<Rightarrow> (nat \<Rightarrow> 'c option) \<Rightarrow> nat list \<Rightarrow> int \<Rightarrow> nat list \<times> nat list \<times> int" where
  "take_due now dl act heap n =
     (if heap \<noteq> [] \<and> dl (hd heap) \<le> now then
        let (timeout, heap') = heappop dl heap in
        if act timeout \<noteq> None
        then (let (ready, heap'', n') = take_due now dl act heap' n in (timeout # ready, heap'', n'))
        else take_due now dl act heap' (n - 1)
      else ([], heap, n))"
  by pat_completeness auto
termination
  by (relation "measure (\<lambda>(_, _, _, heap, _). length heap)")
    (use length_heappop in \<open>force simp: prod_eq_iff\<close>)+

declare take_due.simps [simp del]

type_synonym ('e, 'c, 'w) runner = "'c \<Rightarrow> 'w \<times> 'c timer \<Rightarrow> 'e option \<times> 'w \<times> 'c timer"

text \<open>The second loop; the list is what has been called, the exception what left the loop.\<close>

fun call_ready :: "('e, 'c, 'w) runner \<Rightarrow> nat list \<Rightarrow> 'w \<times> 'c timer \<Rightarrow>
    'e option \<times> nat list \<times> 'w \<times> 'c timer" where
  "call_ready perform [] s = (None, [], s)"
| "call_ready perform (timeout # ready) (w, t) =
     (case action t timeout of
        None \<Rightarrow> call_ready perform ready (w, t\<lparr>num_cancellations := num_cancellations t - 1\<rparr>)
      | Some cb \<Rightarrow>
          (case perform cb (w, t) of
             (Some e, s) \<Rightarrow> (Some e, [timeout], s)
           | (None, w, t) \<Rightarrow>
               let (e, called, s) = call_ready perform ready (w, t\<lparr>action := (action t)(timeout := None)\<rparr>)
               in (e, timeout # called, s)))"

definition collect_garbage :: "'c timer \<Rightarrow> py_error + 'c timer" where
  "collect_garbage t =
     (if num_cancellations t \<ge> GC_CANCELLATION_THRESHOLD then
        (case timeout_heap t of
           None \<Rightarrow> Inl TypeError
         | Some heap \<Rightarrow>
             if num_cancellations t > int (drop_bit 1 (length heap))
             then Inr (t\<lparr>num_cancellations := 0,
                    timeout_heap := Some (heapify (deadline t) (filter (\<lambda>i. action t i \<noteq> None) heap))\<rparr>)
             else Inr t)
      else Inr t)"

definition process_timeouts :: "('e, 'c, 'w) runner \<Rightarrow> int \<Rightarrow> 'w \<times> 'c timer \<Rightarrow>
    ('e + py_error) option \<times> nat list \<times> 'w \<times> 'c timer" where
  "process_timeouts perform now s =
     (let (w, t) = s in
      case timeout_heap t of
        None \<Rightarrow> (None, [], s)
      | Some heap \<Rightarrow>
          if heap = [] then (None, [], s)
          else let (ready, heap, n) = take_due now (deadline t) (action t) heap (num_cancellations t) in
               case call_ready perform ready (w, t\<lparr>timeout_heap := Some heap, num_cancellations := n\<rparr>) of
                 (Some e, called, s) \<Rightarrow> (Some (Inl e), called, s)
               | (None, called, w, t) \<Rightarrow>
                   (case collect_garbage t of
                      Inl e \<Rightarrow> (Some (Inr e), called, w, t)
                    | Inr t \<Rightarrow> (None, called, w, t)))"

section \<open>The heap and the store\<close>

text \<open>
  \<open>R\<close> are timeouts that have left the heap while they wait to be called, \<open>L\<close> those lost when
  an exception left a round. A timeout with a callback is in one of the three places, and the
  count of cancellations is never too low.
\<close>

definition cancelled :: "'c timer \<Rightarrow> nat set \<Rightarrow> nat set" where
  "cancelled t A = {i \<in> A. action t i = None}"

definition timer_inv :: "nat set \<Rightarrow> nat set \<Rightarrow> 'c timer \<Rightarrow> bool" where
  "timer_inv L R t \<longleftrightarrow>
     (\<exists>heap. timeout_heap t = Some heap \<and> heap_from (deadline t) 0 heap \<and> distinct heap
        \<and> finite R \<and> set heap \<inter> (R \<union> L) = {} \<and> R \<inter> L = {} \<and> (\<forall>i \<in> set heap \<union> R \<union> L. i < next_timeout t)
        \<and> (\<forall>i. action t i \<noteq> None \<longrightarrow> i \<in> set heap \<union> R \<union> L)
        \<and> int (card (cancelled t (set heap \<union> R))) \<le> num_cancellations t)"

definition on_heap :: "'c timer \<Rightarrow> nat set" where
  "on_heap t = (case timeout_heap t of None \<Rightarrow> {} | Some heap \<Rightarrow> set heap)"

lemma timer_invE:
  assumes "timer_inv L R t"
  obtains heap where "timeout_heap t = Some heap" "heap_from (deadline t) 0 heap" "distinct heap"
    "finite R" "set heap \<inter> (R \<union> L) = {}" "R \<inter> L = {}" "\<forall>i \<in> set heap \<union> R \<union> L. i < next_timeout t"
    "\<forall>i. action t i \<noteq> None \<longrightarrow> i \<in> set heap \<union> R \<union> L"
    "int (card (cancelled t (set heap \<union> R))) \<le> num_cancellations t"
  using assms unfolding timer_inv_def by blast

lemma timer_inv_new: "timer_inv {} {} new_timer"
  by (simp add: timer_inv_def new_timer_def cancelled_def heap_from_def)

lemma call_later_open:
  assumes "timer_inv L R t" "call_later now d cb t = Inr (i, t')"
  shows "i = next_timeout t" "0 \<le> d" "0 \<le> now + d"
    "timeout_heap t' = map_option (heappush (deadline t') i) (timeout_heap t)"
    "deadline t' = (deadline t)(i := now + d)" "action t' = (action t)(i := Some cb)"
    "next_timeout t' = Suc i" "num_cancellations t' = num_cancellations t"
  using assms(2) by (auto simp: call_later_def new_timeout_def result_simps split: option.splits if_splits)

lemma call_later_inv:
  assumes "timer_inv L R t" "call_later now d cb t = Inr (i, t')"
  shows "timer_inv L R t' \<and> on_heap t' = insert i (on_heap t)"
proof -
  from assms(1) obtain heap where h: "timeout_heap t = Some heap" "heap_from (deadline t) 0 heap" "distinct heap"
    "finite R" "set heap \<inter> (R \<union> L) = {}" "R \<inter> L = {}" "\<forall>i \<in> set heap \<union> R \<union> L. i < next_timeout t"
    "\<forall>i. action t i \<noteq> None \<longrightarrow> i \<in> set heap \<union> R \<union> L"
    "int (card (cancelled t (set heap \<union> R))) \<le> num_cancellations t" by (rule timer_invE)
  note t' = call_later_open[OF assms]
  have new: "i \<notin> set heap \<union> R \<union> L" using h(7) t'(1) by blast
  have "heap_from (deadline t) 0 heap = heap_from (deadline t') 0 heap"
    by (rule heap_from_cong) (use new t'(5) in auto)
  with h(2) have ok: "heap_from (deadline t') 0 heap" by simp
  let ?h = "heappush (deadline t') i heap"
  have "set ?h = insert i (set heap)" "distinct ?h" "heap_from (deadline t') 0 ?h"
    using heapq.set_push[OF ok, of i] heapq.distinct_push[OF ok, of i] heapq.push[OF ok, of i] new h(3) by auto
  moreover have "cancelled t' (set ?h \<union> R) = cancelled t (set heap \<union> R)"
    using new t'(6) calculation(1) by (auto simp: cancelled_def)
  ultimately show ?thesis
    unfolding timer_inv_def using t' h new
    by (intro conjI exI[of _ ?h]) (auto simp: less_Suc_eq on_heap_def split: if_splits)
qed

lemma remove_timeout_inv:
  assumes "timer_inv L R t"
  shows "timer_inv L R (remove_timeout i t)"
proof (cases "action t i = None")
  case False
  from assms obtain heap where h: "timeout_heap t = Some heap" "heap_from (deadline t) 0 heap" "distinct heap"
    "finite R" "set heap \<inter> (R \<union> L) = {}" "R \<inter> L = {}" "\<forall>i \<in> set heap \<union> R \<union> L. i < next_timeout t"
    "\<forall>i. action t i \<noteq> None \<longrightarrow> i \<in> set heap \<union> R \<union> L"
    "int (card (cancelled t (set heap \<union> R))) \<le> num_cancellations t" by (rule timer_invE)
  let ?A = "set heap \<union> R" and ?t = "remove_timeout i t"
  have "cancelled ?t ?A \<subseteq> insert i (cancelled t ?A)" and fin: "finite (cancelled t ?A)"
    using False h(4) by (auto simp: cancelled_def remove_timeout_def)
  then have "card (cancelled ?t ?A) \<le> Suc (card (cancelled t ?A))"
    using card_mono[of "insert i (cancelled t ?A)" "cancelled ?t ?A"] card_insert_if[of "cancelled t ?A" i]
    by (auto split: if_splits)
  with h False show ?thesis
    unfolding timer_inv_def by (intro exI[of _ heap]) (auto simp: remove_timeout_def split: if_splits)
qed (use assms in \<open>simp add: remove_timeout_def\<close>)

text \<open>What a callback may do to the timer: use its two operations, any number of times.\<close>

inductive acts :: "'c timer \<Rightarrow> 'c timer \<Rightarrow> bool" for t where
  acts_refl: "acts t t"
| acts_later: "\<lbrakk>acts t t'; call_later now d cb t' = Inr (i, t'')\<rbrakk> \<Longrightarrow> acts t t''"
| acts_remove: "acts t t' \<Longrightarrow> acts t (remove_timeout i t')"

definition keeps :: "'c timer \<Rightarrow> 'c timer \<Rightarrow> bool" where
  "keeps t t' \<longleftrightarrow> next_timeout t \<le> next_timeout t' \<and>
     (\<forall>i < next_timeout t. deadline t' i = deadline t i \<and> (action t' i = action t i \<or> action t' i = None)
        \<and> (i \<in> on_heap t' \<longrightarrow> i \<in> on_heap t))"

lemma acts_keeps:
  assumes "acts t t'" "timer_inv L R t"
  shows "timer_inv L R t' \<and> keeps t t'"
  using assms(1)
proof (induction rule: acts.induct)
  case acts_refl
  show ?case using assms(2) by (simp add: keeps_def)
next
  case (acts_later t' now d cb i t'')
  then have i: "timer_inv L R t'" and k: "keeps t t'" by auto
  from call_later_open[OF i acts_later.hyps(2)] call_later_inv[OF i acts_later.hyps(2)] k have "keeps t t''"
    by (auto simp: keeps_def)
  with call_later_inv[OF i acts_later.hyps(2)] show ?case by simp
next
  case (acts_remove t' i)
  then show ?case using remove_timeout_inv[of L R t' i] by (auto simp: keeps_def remove_timeout_def on_heap_def)
qed

lemma keeps_trans: "\<lbrakk>keeps t t'; keeps t' t''\<rbrakk> \<Longrightarrow> keeps t t''"
  unfolding keeps_def by (metis dual_order.trans order_less_le_trans)

lemma keeps_None: "\<lbrakk>keeps t t'; i < next_timeout t; action t i = None\<rbrakk> \<Longrightarrow> action t' i = None"
  unfolding keeps_def by metis

lemma keeps_Some: "\<lbrakk>keeps t t'; i < next_timeout t; action t' i \<noteq> None\<rbrakk> \<Longrightarrow> action t i = action t' i"
  unfolding keeps_def by metis

lemma keeps_next: "\<lbrakk>keeps t t'; i < next_timeout t\<rbrakk> \<Longrightarrow> i < next_timeout t'"
  by (simp add: keeps_def)

section \<open>Which timeouts are called\<close>

lemma take_due:
  assumes "heap_from dl 0 heap" "distinct heap" "take_due now dl act heap n = (ready, heap', n')"
  shows "heap_from dl 0 heap' \<and> distinct heap' \<and> distinct ready
    \<and> set ready = {i \<in> set heap. dl i \<le> now \<and> act i \<noteq> None}
    \<and> set heap' = {i \<in> set heap. now < dl i} \<and> sorted (map dl ready)
    \<and> n' = n - int (card {i \<in> set heap. dl i \<le> now \<and> act i = None})"
  using assms
proof (induction now dl act heap n arbitrary: ready heap' n' rule: take_due.induct)
  case (1 now dl act heap n)
  show ?case
  proof (cases "heap \<noteq> [] \<and> dl (hd heap) \<le> now")
    case True
    obtain h2 where p: "heappop dl heap = (hd heap, h2)"
      using heapq.pop[of dl heap] "1.prems"(1) True by (metis prod.collapse)
    have s: "set heap = insert (hd heap) (set h2)" "hd heap \<notin> set h2" "distinct h2" "heap_from dl 0 h2"
      using heapq.set_pop[of dl heap] heapq.distinct_pop[of dl heap] heapq.pop[of dl heap] "1.prems" True p by auto
    have least: "dl (hd heap) \<le> dl i" if "i \<in> set h2" for i
      using heapq.least[OF "1.prems"(1), of i] that s(1) by simp
    show ?thesis
    proof (cases "act (hd heap) = None")
      case None: True
      have "take_due now dl act heap n = take_due now dl act h2 (n - 1)"
        using True None p by (subst take_due.simps) simp
      from "1.IH"(2)[OF True p[symmetric] refl _ s(4,3)] None "1.prems"(3)[unfolded this]
      have IH: "heap_from dl 0 heap' \<and> distinct heap' \<and> distinct ready
        \<and> set ready = {i \<in> set h2. dl i \<le> now \<and> act i \<noteq> None}
        \<and> set heap' = {i \<in> set h2. now < dl i} \<and> sorted (map dl ready)
        \<and> n' = n - 1 - int (card {i \<in> set h2. dl i \<le> now \<and> act i = None})" by blast
      have "{i \<in> set heap. dl i \<le> now \<and> act i = None}
          = insert (hd heap) {i \<in> set h2. dl i \<le> now \<and> act i = None}"
        using s(1) True None by auto
      with s(2) have "card {i \<in> set heap. dl i \<le> now \<and> act i = None}
          = Suc (card {i \<in> set h2. dl i \<le> now \<and> act i = None})" by simp
      with IH s True None show ?thesis by auto
    next
      case Some: False
      obtain r2 where r2: "take_due now dl act h2 n = (r2, heap', n')" "ready = hd heap # r2"
        using "1.prems"(3) True Some p by (subst (asm) take_due.simps) (auto split: prod.splits)
      from "1.IH"(1)[OF True p[symmetric] refl Some s(4,3) r2(1)]
      have IH: "heap_from dl 0 heap' \<and> distinct heap' \<and> distinct r2
        \<and> set r2 = {i \<in> set h2. dl i \<le> now \<and> act i \<noteq> None}
        \<and> set heap' = {i \<in> set h2. now < dl i} \<and> sorted (map dl r2)
        \<and> n' = n - int (card {i \<in> set h2. dl i \<le> now \<and> act i = None})" .
      moreover have "{i \<in> set heap. dl i \<le> now \<and> act i = None} = {i \<in> set h2. dl i \<le> now \<and> act i = None}"
        using s(1) Some by auto
      ultimately show ?thesis using s r2(2) True Some least by auto
    qed
  next
    case False
    then have "take_due now dl act heap n = ([], heap, n)" by (subst take_due.simps) (simp only: if_False)
    moreover have "now < dl i" if "i \<in> set heap" for i
      using False heapq.nothing_below[OF "1.prems"(1) _ that, of now] that by auto
    then have "\<forall>i \<in> set heap. now < dl i" by blast
    then have none: "{i \<in> set heap. dl i \<le> now \<and> act i \<noteq> None} = {}" "{i \<in> set heap. dl i \<le> now \<and> act i = None} = {}"
      "{i \<in> set heap. now < dl i} = set heap" by force+
    ultimately show ?thesis using "1.prems" unfolding none by simp
  qed
qed


text \<open>What the heap loop does to the invariant.\<close>

definition off_heap :: "int \<Rightarrow> 'c timer \<Rightarrow> nat list \<times> 'c timer" where
  "off_heap now t =
     (case timeout_heap t of
        None \<Rightarrow> ([], t)
      | Some heap \<Rightarrow>
          (let (ready, heap, n) = take_due now (deadline t) (action t) heap (num_cancellations t)
           in (ready, t\<lparr>timeout_heap := Some heap, num_cancellations := n\<rparr>)))"

definition due :: "int \<Rightarrow> 'c timer \<Rightarrow> nat \<Rightarrow> bool" where
  "due now t i \<longleftrightarrow> action t i \<noteq> None \<and> deadline t i \<le> now"

lemma off_heap:
  assumes "timer_inv L {} t" "off_heap now t = (ready, t')"
  shows "timer_inv L (set ready) t'" "distinct ready" "sorted (map (deadline t) ready)"
    "set ready = {i \<in> on_heap t. due now t i}" "deadline t' = deadline t" "action t' = action t"
    "next_timeout t' = next_timeout t" "on_heap t' = {i \<in> on_heap t. now < deadline t i}"
proof -
  from assms(1) obtain heap where h: "timeout_heap t = Some heap" "heap_from (deadline t) 0 heap" "distinct heap"
    "set heap \<inter> L = {}" "\<forall>i \<in> set heap \<union> L. i < next_timeout t" "\<forall>i. action t i \<noteq> None \<longrightarrow> i \<in> set heap \<union> L"
    "int (card (cancelled t (set heap))) \<le> num_cancellations t" unfolding timer_inv_def by auto
  obtain heap2 n where td: "take_due now (deadline t) (action t) heap (num_cancellations t) = (ready, heap2, n)"
    and t': "t' = t\<lparr>timeout_heap := Some heap2, num_cancellations := n\<rparr>"
    using assms(2) h(1) by (auto simp: off_heap_def split: prod.splits)
  note d = take_due[OF h(2,3) td]
  show eq: "set ready = {i \<in> on_heap t. due now t i}" using d h(1) by (auto simp: due_def on_heap_def)
  have c: "cancelled t (set heap2 \<union> set ready) = cancelled t (set heap) - {i \<in> set heap. deadline t i \<le> now \<and> action t i = None}"
    using d by (auto simp: cancelled_def)
  have "card (cancelled t (set heap2 \<union> set ready))
      = card (cancelled t (set heap)) - card {i \<in> set heap. deadline t i \<le> now \<and> action t i = None}"
    unfolding c by (rule card_Diff_subset) (auto simp: cancelled_def)
  moreover have "card {i \<in> set heap. deadline t i \<le> now \<and> action t i = None} \<le> card (cancelled t (set heap))"
    by (rule card_mono) (auto simp: cancelled_def)
  ultimately have n: "int (card (cancelled t (set heap2 \<union> set ready))) \<le> n" using d h(7) by simp
  have part: "i \<in> set heap \<longleftrightarrow> i \<in> set heap2 \<or> i \<in> set ready \<or> (i \<in> set heap \<and> action t i = None \<and> deadline t i \<le> now)"
    "\<not> (i \<in> set heap2 \<and> i \<in> set ready)" for i using d by auto
  show "timer_inv L (set ready) t'"
    unfolding timer_inv_def t'
  proof (intro exI[of _ heap2] conjI)
    show "set heap2 \<inter> (set ready \<union> L) = {}" "set ready \<inter> L = {}" using part h(4) by blast+
    show "\<forall>i\<in>set heap2 \<union> set ready \<union> L. i < next_timeout (t\<lparr>timeout_heap := Some heap2, num_cancellations := n\<rparr>)"
      using part(1) h(5) by auto
    show "\<forall>i. action (t\<lparr>timeout_heap := Some heap2, num_cancellations := n\<rparr>) i \<noteq> None \<longrightarrow> i \<in> set heap2 \<union> set ready \<union> L"
    proof (intro allI impI)
      fix i assume a: "action (t\<lparr>timeout_heap := Some heap2, num_cancellations := n\<rparr>) i \<noteq> None"
      with h(6) have "i \<in> set heap \<or> i \<in> L" by simp
      with part(1)[of i] a show "i \<in> set heap2 \<union> set ready \<union> L" by auto
    qed
  qed (use d n in \<open>auto simp: cancelled_def\<close>)
  show "distinct ready" "sorted (map (deadline t) ready)" using d by auto
  show "deadline t' = deadline t" "action t' = action t" "next_timeout t' = next_timeout t"
    by (simp_all add: t')
  show "on_heap t' = {i \<in> on_heap t. now < deadline t i}" using d h(1) by (simp add: t' on_heap_def)
qed

lemma process_timeouts_eq:
  assumes "timeout_heap t = Some heap" "heap \<noteq> []" "off_heap now t = (ready, t')"
  shows "process_timeouts perform now (w, t) =
    (case call_ready perform ready (w, t') of
       (Some e, called, s) \<Rightarrow> (Some (Inl e), called, s)
     | (None, called, w, t) \<Rightarrow>
         (case collect_garbage t of Inl e \<Rightarrow> (Some (Inr e), called, w, t) | Inr t \<Rightarrow> (None, called, w, t)))"
  using assms by (auto simp: process_timeouts_def off_heap_def split: prod.splits)

lemma collect_garbage_inv:
  assumes "timer_inv L {} t"
  shows "\<exists>t'. collect_garbage t = Inr t' \<and> timer_inv L {} t' \<and> action t' = action t
    \<and> deadline t' = deadline t \<and> next_timeout t' = next_timeout t \<and> keeps t t' \<and> on_heap t' \<subseteq> on_heap t"
proof (cases "collect_garbage t = Inr t")
  case False
  from assms obtain heap where h: "timeout_heap t = Some heap" "heap_from (deadline t) 0 heap" "distinct heap"
    "set heap \<inter> L = {}" "\<forall>i \<in> set heap \<union> L. i < next_timeout t" "\<forall>i. action t i \<noteq> None \<longrightarrow> i \<in> set heap \<union> L"
    unfolding timer_inv_def by auto
  let ?h = "heapify (deadline t) (filter (\<lambda>i. action t i \<noteq> None) heap)"
  have "collect_garbage t = Inr (t\<lparr>num_cancellations := 0, timeout_heap := Some ?h\<rparr>)"
    using False h(1) by (auto simp: collect_garbage_def split: if_splits)
  moreover have s: "set ?h = {i \<in> set heap. action t i \<noteq> None}" "distinct ?h"
    using h(3) by (simp_all add: heapq.set_build heapq.distinct_build del: not_None_eq)
  moreover have "cancelled t (set ?h) = {}" unfolding s by (auto simp: cancelled_def)
  ultimately show ?thesis
    using h heapq.build[of "deadline t" "filter (\<lambda>i. action t i \<noteq> None) heap"]
    by (auto simp: timer_inv_def cancelled_def keeps_def on_heap_def)
qed (use assms in \<open>auto simp: keeps_def\<close>)


section \<open>Callbacks\<close>

lemma subseq_set: "subseq xs ys \<Longrightarrow> set xs \<subseteq> set ys"
  by (auto simp: subseq_conv_nths dest: in_set_nthsD)

lemma subseq_distinct: "\<lbrakk>subseq xs ys; distinct ys\<rbrakk> \<Longrightarrow> distinct xs"
  by (auto simp: subseq_conv_nths)

lemma subseq_sorted: "\<lbrakk>subseq xs ys; sorted (map f ys)\<rbrakk> \<Longrightarrow> sorted (map f xs)"
  using subseq_map[of xs ys f] by (auto simp: subseq_conv_nths[of "map f xs"] sorted_nths)

locale timer_client =
  fixes perform :: "('e, 'c, 'w) runner"
  assumes uses_api: "acts t (snd (snd (perform cb (w, t))))"
begin

lemma perform_keeps:
  assumes "timer_inv L R t" "perform cb (w, t) = (e, w', t')"
  shows "timer_inv L R t' \<and> keeps t t'"
  using acts_keeps[OF _ assms(1), of t'] uses_api[of t cb w] assms(2) by simp

lemma done_inv:
  assumes "timer_inv L (insert i R) t" "i \<notin> R"
  shows "timer_inv L R (t\<lparr>action := (action t)(i := None)\<rparr>)"
    "action t i = None \<Longrightarrow> timer_inv L R (t\<lparr>num_cancellations := num_cancellations t - 1\<rparr>)"
proof -
  from assms(1) obtain heap where h: "timeout_heap t = Some heap" "heap_from (deadline t) 0 heap" "distinct heap"
    "finite (insert i R)" "set heap \<inter> (insert i R \<union> L) = {}" "insert i R \<inter> L = {}"
    "\<forall>j \<in> set heap \<union> insert i R \<union> L. j < next_timeout t"
    "\<forall>j. action t j \<noteq> None \<longrightarrow> j \<in> set heap \<union> insert i R \<union> L"
    "int (card (cancelled t (set heap \<union> insert i R))) \<le> num_cancellations t"
    by (rule timer_invE)
  let ?A = "set heap \<union> R" and ?t = "t\<lparr>action := (action t)(i := None)\<rparr>"
  have i: "i \<notin> ?A" and fin: "finite (cancelled t (set heap \<union> insert i R))" "finite (cancelled t ?A)"
    using h(4,5) assms(2) by (auto simp: cancelled_def)
  have "card (cancelled ?t ?A) \<le> card (cancelled t (set heap \<union> insert i R))"
    by (rule card_mono[OF fin(1)]) (use i in \<open>auto simp: cancelled_def\<close>)
  with h show "timer_inv L R ?t"
    unfolding timer_inv_def by (intro exI[of _ heap]) (auto split: if_splits)
  assume none: "action t i = None"
  then have "cancelled t (set heap \<union> insert i R) = insert i (cancelled t ?A)" "i \<notin> cancelled t ?A"
    using i by (auto simp: cancelled_def)
  with fin have "card (cancelled t (set heap \<union> insert i R)) = Suc (card (cancelled t ?A))" by simp
  with h none show "timer_inv L R (t\<lparr>num_cancellations := num_cancellations t - 1\<rparr>)"
    unfolding timer_inv_def by (intro exI[of _ heap]) (auto simp: cancelled_def)
qed

lemma call_ready_inv:
  assumes "timer_inv L (set ready \<union> R) t" "distinct ready" "set ready \<inter> R = {}"
    "call_ready perform ready (w, t) = (e, called, w', t')"
  shows "keeps t t' \<and> subseq called ready \<and> (\<forall>i \<in> set called. action t i \<noteq> None)
    \<and> (\<exists>rest \<subseteq> set ready. timer_inv L (rest \<union> R) t' \<and> (e = None \<longrightarrow> rest = {}))
    \<and> (e = None \<longrightarrow> (\<forall>i \<in> set ready. action t' i = None))"
  using assms
proof (induction ready arbitrary: w t e called w' t')
  case (Cons i ready)
  have inv: "timer_inv L (insert i (set ready \<union> R)) t" and i: "i \<notin> set ready \<union> R"
    and d: "distinct ready" "set ready \<inter> R = {}" using Cons.prems by auto
  have lt: "\<forall>j \<in> insert i (set ready \<union> R). j < next_timeout t"
    using inv by (auto simp: timer_inv_def)
  show ?case
  proof (cases "action t i")
    case None
    let ?t = "t\<lparr>num_cancellations := num_cancellations t - 1\<rparr>"
    have "call_ready perform ready (w, ?t) = (e, called, w', t')" using Cons.prems(4) None by simp
    note IH = Cons.IH[OF done_inv(2)[OF inv i None] d this]
    have k: "keeps t t'" using IH by (auto simp: keeps_def on_heap_def)
    then have "action t' i = None" using None lt by (auto simp: keeps_def)
    with IH k show ?thesis by (auto simp: subseq_Cons' intro: subset_insertI2)
  next
    case (Some cb)
    obtain e1 w1 t1 where p: "perform cb (w, t) = (e1, w1, t1)" by (cases "perform cb (w, t)") auto
    note k1 = perform_keeps[OF inv p]
    show ?thesis
    proof (cases e1)
      case e: (Some x)
      then have "e = Some x" "called = [i]" "t' = t1" using Cons.prems(4) Some p by auto
      with k1 Some show ?thesis by (auto intro!: exI[of _ "insert i (set ready)"])
    next
      case None
      let ?t = "t1\<lparr>action := (action t1)(i := None)\<rparr>"
      obtain c2 where c2: "call_ready perform ready (w1, ?t) = (e, c2, w', t')" "called = i # c2"
        using Cons.prems(4) Some p None by (auto split: prod.splits)
      note IH = Cons.IH[OF done_inv(1)[OF k1[THEN conjunct1] i] d c2(1)]
      have k2: "keeps t ?t" using k1 by (auto simp: keeps_def on_heap_def)
      with IH have k: "keeps t t'" by (blast intro: keeps_trans)
      have "action t' i = None"
        by (rule keeps_None[OF IH[THEN conjunct1]]) (use keeps_next[OF k1[THEN conjunct2]] lt in auto)
      have "action t j \<noteq> None" if "j \<in> set c2" for j
      proof -
        have "j \<in> set ready" using that IH subseq_set by blast
        then have "j < next_timeout t" using lt by simp
        moreover have "action ?t j \<noteq> None" using that IH by blast
        ultimately show ?thesis using keeps_None[OF k2] by metis
      qed
      with Some have called: "\<forall>j \<in> set called. action t j \<noteq> None" unfolding c2(2) by fastforce
      from IH obtain rest where rest: "rest \<subseteq> set ready" "timer_inv L (rest \<union> R) t'" "e = None \<longrightarrow> rest = {}"
        by blast
      from IH \<open>action t' i = None\<close> have "e = None \<longrightarrow> (\<forall>j \<in> set (i # ready). action t' j = None)" by simp
      moreover have "subseq called (i # ready)" using IH c2(2) by simp
      moreover have "\<exists>rest \<subseteq> set (i # ready). timer_inv L (rest \<union> R) t' \<and> (e = None \<longrightarrow> rest = {})"
        using rest by (intro exI[of _ rest]) auto
      ultimately show ?thesis using k called by (intro conjI)
    qed
  qed
qed (auto simp: keeps_def)

lemma give_up: "timer_inv L R t \<Longrightarrow> timer_inv (L \<union> R) {} t"
proof -
  assume "timer_inv L R t"
  then obtain heap where h: "timeout_heap t = Some heap" "heap_from (deadline t) 0 heap" "distinct heap"
    "finite R" "set heap \<inter> (R \<union> L) = {}" "R \<inter> L = {}" "\<forall>i \<in> set heap \<union> R \<union> L. i < next_timeout t"
    "\<forall>i. action t i \<noteq> None \<longrightarrow> i \<in> set heap \<union> R \<union> L"
    "int (card (cancelled t (set heap \<union> R))) \<le> num_cancellations t" by (rule timer_invE)
  have "card (cancelled t (set heap)) \<le> card (cancelled t (set heap \<union> R))"
    by (rule card_mono) (use h(4) in \<open>auto simp: cancelled_def\<close>)
  with h show "timer_inv (L \<union> R) {} t" unfolding timer_inv_def by (intro exI[of _ heap]) auto
qed

text \<open>A round of \<open>process_timeouts\<close> as its client sees it.\<close>

lemma round:
  assumes "timer_inv L {} t" "process_timeouts perform now (w, t) = (e, called, w', t')"
  shows "distinct called \<and> sorted (map (deadline t) called) \<and> set called \<subseteq> {i \<in> on_heap t. due now t i}
    \<and> keeps t t' \<and> (\<exists>rest. timer_inv (L \<union> rest) {} t' \<and> rest \<subseteq> {i \<in> on_heap t. due now t i} \<and> (e = None \<longrightarrow> rest = {}))
    \<and> on_heap t' \<inter> {i \<in> on_heap t. due now t i} = {}
    \<and> (e = None \<longrightarrow> (\<forall>i \<in> on_heap t. due now t i \<longrightarrow> action t' i = None)) \<and> (\<forall>x. e \<noteq> Some (Inr x))"
proof (cases "timeout_heap t = Some []")
  case True
  with assms have "e = None" "called = []" "t' = t" "on_heap t = {}"
    by (auto simp: process_timeouts_def on_heap_def)
  with assms(1) show ?thesis by (auto simp: due_def keeps_def intro: exI[of _ "{}"])
next
  case False
  with assms(1) obtain heap where h: "timeout_heap t = Some heap" "heap \<noteq> []" by (auto simp: timer_inv_def)
  obtain ready t1 where o: "off_heap now t = (ready, t1)" by fastforce
  note off = off_heap[OF assms(1) o]
  obtain e2 called2 w2 t2 where c: "call_ready perform ready (w, t1) = (e2, called2, w2, t2)"
    by (metis prod_cases4)
  have inv: "timer_inv L (set ready \<union> {}) t1" using off(1) by simp
  note cr = call_ready_inv[OF inv off(2) _ c, simplified]
  have k: "keeps t t1"
    using off(5-8) by (auto simp: keeps_def)
  have e2: "e2 = None \<Longrightarrow> \<exists>t3. collect_garbage t2 = Inr t3 \<and> timer_inv L {} t3 \<and> action t3 = action t2
    \<and> deadline t3 = deadline t2 \<and> next_timeout t3 = next_timeout t2 \<and> keeps t2 t3 \<and> on_heap t3 \<subseteq> on_heap t2"
    using cr collect_garbage_inv[of L t2] by auto
  have "(case (e2, called2, w2, t2) of
       (Some e, called, s) \<Rightarrow> (Some (Inl e), called, s)
     | (None, called, w, t) \<Rightarrow>
         (case collect_garbage t of Inl e \<Rightarrow> (Some (Inr e), called, w, t) | Inr t \<Rightarrow> (None, called, w, t)))
     = (e, called, w', t')"
    using assms(2) unfolding process_timeouts_eq[OF h o, of perform w] c .
  then have eqs: "called = called2" "(e = None \<and> e2 = None \<and> collect_garbage t2 = Inr t') \<or> (\<exists>x. e2 = Some x \<and> e = Some (Inl x) \<and> t' = t2)"
    using e2 by (cases e2; simp split: sum.splits)+
  have called: "distinct called" "sorted (map (deadline t) called)" "set called \<subseteq> set ready"
    using cr eqs(1) off(2,3) subseq_distinct subseq_sorted subseq_set[of called2 ready] by blast+
  have k2: "keeps t t2" using k cr keeps_trans by blast
  have off_heap: "on_heap t2 \<inter> set ready = {}"
  proof -
    have "i < next_timeout t1 \<and> i \<notin> on_heap t1" if "i \<in> set ready" for i
      using that off(1) by (auto simp: timer_inv_def on_heap_def)
    then show ?thesis using cr by (auto simp: keeps_def)
  qed
  from eqs(2) show ?thesis
  proof (elim disjE conjE exE)
    assume n: "e = None" "e2 = None" "collect_garbage t2 = Inr t'"
    with e2 have g: "timer_inv L {} t'" "keeps t2 t'" "action t' = action t2" "on_heap t' \<subseteq> on_heap t2" by auto
    then have "keeps t t'" using k2 keeps_trans by blast
    moreover have "action t' i = None" if "i \<in> on_heap t" "due now t i" for i
      using that cr n(2) g(3) off(4) by auto
    ultimately show ?thesis using n g off_heap called unfolding off(4)[symmetric] by auto
  next
    fix x assume x: "e2 = Some x" "e = Some (Inl x)" "t' = t2"
    from cr obtain rest where "rest \<subseteq> set ready" "timer_inv L rest t2" by blast
    then have "timer_inv (L \<union> rest) {} t2" by (blast intro: give_up)
    with x called k2 off_heap \<open>rest \<subseteq> set ready\<close> show ?thesis unfolding off(4)[symmetric] by auto
  qed
qed

text \<open>
  The rule for a client that keeps an invariant \<open>J R\<close> of its world and the timers, where \<open>R\<close>
  are the timeouts taken off the heap and not yet called, and whose callbacks do not raise.
\<close>

lemma call_ready_rule:
  assumes none: "\<And>R i w t. \<lbrakk>J (insert i R) (w, t); i \<notin> R; action t i = None\<rbrakk> \<Longrightarrow>
      J R (w, t\<lparr>num_cancellations := num_cancellations t - 1\<rparr>)"
    and some: "\<And>R i w t cb e w' t'. \<lbrakk>J (insert i R) (w, t); i \<notin> R; action t i = Some cb; perform cb (w, t) = (e, w', t')\<rbrakk> \<Longrightarrow>
      e = None \<and> J R (w', t'\<lparr>action := (action t')(i := None)\<rparr>)"
    and "J (set ready) (w, t)" "distinct ready" "call_ready perform ready (w, t) = (e, called, s)"
  shows "e = None \<and> J {} s"
  using assms(3-5)
proof (induction ready arbitrary: w t e called)
  case (Cons i ready)
  show ?case
  proof (cases "action t i")
    case None
    with Cons.prems have c: "call_ready perform ready (w, t\<lparr>num_cancellations := num_cancellations t - 1\<rparr>) = (e, called, s)"
      by simp
    have "J (set ready) (w, t\<lparr>num_cancellations := num_cancellations t - 1\<rparr>)"
      using none[of i "set ready" w t] Cons.prems(1,2) None by simp
    from Cons.IH[OF this _ c] Cons.prems(2) show ?thesis by simp
  next
    case (Some cb)
    obtain e1 w1 t1 where p: "perform cb (w, t) = (e1, w1, t1)" by (cases "perform cb (w, t)") auto
    from some[OF _ _ Some p, of "set ready"] Cons.prems(1,2) have e1: "e1 = None"
      and J: "J (set ready) (w1, t1\<lparr>action := (action t1)(i := None)\<rparr>)" by auto
    from Cons.prems(3) Some p e1 obtain c2 where
      "call_ready perform ready (w1, t1\<lparr>action := (action t1)(i := None)\<rparr>) = (e, c2, s)"
      by (auto split: prod.splits)
    from Cons.IH[OF J _ this] Cons.prems(2) show ?thesis by simp
  qed
qed simp

lemma round_rule:
  assumes none: "\<And>R i w t. \<lbrakk>J (insert i R) (w, t); i \<notin> R; action t i = None\<rbrakk> \<Longrightarrow>
      J R (w, t\<lparr>num_cancellations := num_cancellations t - 1\<rparr>)"
    and some: "\<And>R i w t cb e w' t'. \<lbrakk>J (insert i R) (w, t); i \<notin> R; action t i = Some cb; perform cb (w, t) = (e, w', t')\<rbrakk> \<Longrightarrow>
      e = None \<and> J R (w', t'\<lparr>action := (action t')(i := None)\<rparr>)"
    and inv: "\<And>R w t. J R (w, t) \<Longrightarrow> timer_inv L R t"
    and off: "\<And>ready t'. off_heap now t = (ready, t') \<Longrightarrow> J (set ready) (w, t')"
    and gc: "\<And>w t t'. \<lbrakk>J {} (w, t); collect_garbage t = Inr t'\<rbrakk> \<Longrightarrow> J {} (w, t')"
    and J: "J {} (w, t)" and p: "process_timeouts perform now (w, t) = (e, called, s)"
  shows "e = None \<and> J {} s"
proof (cases "timeout_heap t = Some []")
  case True
  with J p show ?thesis by (simp add: process_timeouts_def)
next
  case False
  with inv[OF J] obtain heap where h: "timeout_heap t = Some heap" "heap \<noteq> []" by (auto simp: timer_inv_def)
  obtain ready t1 where o: "off_heap now t = (ready, t1)" by fastforce
  obtain e2 called2 w2 t2 where c: "call_ready perform ready (w, t1) = (e2, called2, w2, t2)"
    by (metis prod_cases4)
  have "e2 = None \<and> J {} (w2, t2)"
    by (rule call_ready_rule[where J = J, OF none some off[OF o] off_heap(2)[OF inv[OF J] o] c])
  then have e2: "e2 = None" "J {} (w2, t2)" by blast+
  from collect_garbage_inv[OF inv[OF e2(2)]] obtain t3 where t3: "collect_garbage t2 = Inr t3" by blast
  from p have "e = None" "s = (w2, t3)"
    unfolding process_timeouts_eq[OF h o, of perform w] c by (simp_all add: e2(1) t3)
  with gc[OF e2(2) t3] show ?thesis by simp
qed

text \<open>If the callbacks leave the other timeouts alone, a round calls all that are due.\<close>

lemma call_ready_all:
  assumes "\<And>cb w t i. action t i \<noteq> None \<Longrightarrow> action (snd (snd (perform cb (w, t)))) i \<noteq> None"
    "\<forall>i \<in> set ready. action t i \<noteq> None" "distinct ready"
    "call_ready perform ready (w, t) = (None, called, w', t')"
  shows "called = ready"
  using assms(2-4)
proof (induction ready arbitrary: w t called)
  case (Cons i ready)
  then obtain cb where cb: "action t i = Some cb" by auto
  obtain e1 w1 t1 where p: "perform cb (w, t) = (e1, w1, t1)" by (cases "perform cb (w, t)") auto
  with Cons.prems(3) cb obtain c2 where c2: "called = i # c2"
    "call_ready perform ready (w1, t1\<lparr>action := (action t1)(i := None)\<rparr>) = (None, c2, w', t')"
    by (auto split: option.splits prod.splits)
  have "\<forall>j \<in> set ready. action (t1\<lparr>action := (action t1)(i := None)\<rparr>) j \<noteq> None"
    using assms(1)[of t _ cb w] p Cons.prems(1,2) by auto
  from Cons.IH[OF this _ c2(2)] Cons.prems(2) c2(1) show ?case by simp
qed simp

lemma round_all:
  assumes "\<And>cb w t i. action t i \<noteq> None \<Longrightarrow> action (snd (snd (perform cb (w, t)))) i \<noteq> None"
    "timer_inv L {} t" "process_timeouts perform now (w, t) = (None, called, w', t')"
  shows "set called = {i \<in> on_heap t. due now t i}"
proof (cases "timeout_heap t = Some []")
  case True
  with assms(3) show ?thesis by (simp add: process_timeouts_def on_heap_def)
next
  case False
  with assms(2) obtain heap where h: "timeout_heap t = Some heap" "heap \<noteq> []" by (auto simp: timer_inv_def)
  obtain ready t1 where o: "off_heap now t = (ready, t1)" by fastforce
  note off = off_heap[OF assms(2) o]
  obtain e2 called2 w2 t2 where c: "call_ready perform ready (w, t1) = (e2, called2, w2, t2)"
    by (metis prod_cases4)
  from assms(3) have "e2 = None" "called = called2"
    unfolding process_timeouts_eq[OF h o, of perform w] c by (cases e2; simp split: sum.splits)+
  with call_ready_all[OF assms(1) _ off(2), of t1 w called2 w2 t2] c off(4,6)
  have "called = ready" by (auto simp: due_def)
  with off(4) show ?thesis by simp
qed

end

section \<open>The timers over time\<close>

datatype 'c timer_event = Later int int 'c | Cancel nat | Round int

fun timer_step :: "('e, 'c, 'w) runner \<Rightarrow> 'c timer_event \<Rightarrow> 'w \<times> 'c timer \<Rightarrow> ('w \<times> 'c timer) option" where
  "timer_step perform (Later now delay cb) (w, t) =
     (case call_later now delay cb t of Inl _ \<Rightarrow> Some (w, t) | Inr (_, t') \<Rightarrow> Some (w, t'))"
| "timer_step perform (Cancel i) (w, t) = Some (w, remove_timeout i t)"
| "timer_step perform (Round now) s =
     (let (_, _, s') = process_timeouts perform now s in Some s')"

definition sane :: "'w \<times> 'c timer \<Rightarrow> bool" where
  "sane s \<longleftrightarrow> (\<exists>L. timer_inv L {} (snd s))"

text \<open>A timeout that is not on the heap stays off it: it is never called again.\<close>

definition gone :: "nat \<Rightarrow> 'w \<times> 'c timer \<Rightarrow> bool" where
  "gone i s \<longleftrightarrow> sane s \<and> i < next_timeout (snd s) \<and> i \<notin> on_heap (snd s)"

context timer_client begin

lemma step_keeps:
  assumes "sane s" "timer_step perform ev s = Some s'"
  shows "sane s' \<and> keeps (snd s) (snd s')"
proof -
  obtain w t where s: "s = (w, t)" by (cases s)
  with assms(1) obtain L where L: "timer_inv L {} t" by (auto simp: sane_def)
  show ?thesis
  proof (cases ev)
    case (Later now delay cb)
    show ?thesis
    proof (cases "call_later now delay cb t")
      case (Inr r)
      then obtain i t' where r: "call_later now delay cb t = Inr (i, t')" by (cases r) auto
      with assms(2) Later s have "s' = (w, t')" by simp
      with acts_keeps[OF acts_later[OF acts_refl r] L] show ?thesis by (auto simp: sane_def s)
    qed (use assms Later s in \<open>auto simp: keeps_def\<close>)
  next
    case (Cancel i)
    with assms(2) s have "s' = (w, remove_timeout i t)" by simp
    with acts_keeps[OF acts_remove[OF acts_refl, of t i] L] show ?thesis by (auto simp: sane_def s)
  next
    case (Round now)
    obtain e called w' t' where p: "process_timeouts perform now (w, t) = (e, called, w', t')"
      by (metis prod_cases4)
    with assms(2) Round s have "s' = (w', t')" by simp
    with round[OF L p] show ?thesis by (auto simp: sane_def s)
  qed
qed

lemma gone_step: "\<lbrakk>gone i s; timer_step perform ev s = Some s'\<rbrakk> \<Longrightarrow> gone i s'"
  using step_keeps[of s ev s'] by (auto simp: gone_def keeps_def)

lemma gone_not_called:
  assumes "gone i (w, t)"
  shows "i \<notin> set (fst (snd (process_timeouts perform now (w, t))))"
proof -
  obtain L e called w' t' where "timer_inv L {} t" "process_timeouts perform now (w, t) = (e, called, w', t')"
    using assms by (auto simp: gone_def sane_def) (metis prod_cases4)
  with round[of L t now w e called w' t'] assms show ?thesis by (auto simp: gone_def)
qed

end

sublocale timer_client < timers: invariant_system "(w, new_timer)" "timer_step perform" sane for w
proof unfold_locales
  show "sane (w, new_timer)" using timer_inv_new by (auto simp: sane_def)
qed (use step_keeps in blast)

sublocale timer_client < gone: invariant_system s "timer_step perform" "\<lambda>s'. gone i s \<longrightarrow> gone i s'" for s i
  by unfold_locales (use gone_step in blast)+

context timer_client begin

lemma sane_reach: "reach (w0, new_timer) (timer_step perform) s \<Longrightarrow> sane s"
  by (rule timers.inv_reach)

lemma gone_run: "\<lbrakk>gone i s; run (timer_step perform) evs s = Some s'\<rbrakk> \<Longrightarrow> gone i s'"
  using gone.inv_run[of evs s s' i s] by blast

end

section \<open>Properties\<close>

text \<open>
  C34 (safety). Whatever has been scheduled, cancelled and processed before, and whatever the
  callbacks do to the timers: a round of \<open>process_timeouts\<close> calls timeouts in the order of their
  deadlines, each at most once, and only such that are due and not cancelled; what was due is off
  the heap afterwards, and, unless a callback has raised, called or cancelled.
\<close>

theorem round_calls_due_only:
  assumes "timer_client perform" "reach (w0, new_timer) (timer_step perform) (w, t)"
    "process_timeouts perform now (w, t) = (e, called, w', t')"
  shows "distinct called \<and> sorted (map (deadline t) called)
    \<and> (\<forall>i \<in> set called. i \<in> on_heap t \<and> action t i \<noteq> None \<and> deadline t i \<le> now)
    \<and> (\<forall>i \<in> on_heap t. action t i \<noteq> None \<and> deadline t i \<le> now \<longrightarrow>
         i \<notin> on_heap t' \<and> (e = None \<longrightarrow> action t' i = None))"
proof -
  from timer_client.sane_reach[OF assms(1,2)] obtain L where "timer_inv L {} t" by (auto simp: sane_def)
  from timer_client.round[OF assms(1) this assms(3)] show ?thesis by (auto simp: due_def)
qed

lemma passive_client: "timer_client (\<lambda>(cb :: 'c) s. (x :: 'e option, s :: 'w \<times> 'c timer))"
  by unfold_locales (simp add: acts_refl)

definition one_later :: "unit \<times> bool timer" where
  "one_later = the (timer_step (\<lambda>cb s. (None :: unit option, s)) (Later 5 3 True) ((), new_timer))"

lemma one_later:
  "timer_step perform (Later 5 3 True) ((), new_timer) = Some one_later"
  "one_later = ((), \<lparr>timeout_heap = Some [0], num_cancellations = 0, deadline = (\<lambda>_. 0)(0 := 8),
     action = (\<lambda>_. None)(0 := Some True), next_timeout = 1\<rparr>)"
proof -
  have *: "timer_step perform (Later 5 3 True) ((), new_timer) = Some ((), \<lparr>timeout_heap = Some [0], num_cancellations = 0,
      deadline = (\<lambda>_. 0)(0 := 8), action = (\<lambda>_. None)(0 := Some True), next_timeout = 1\<rparr>)"
    for perform :: "('e, bool, unit) runner"
    by (simp add: call_later_def new_timeout_def new_timer_def heappush_def siftdown.simps)
  show "one_later = ((), \<lparr>timeout_heap = Some [0], num_cancellations = 0, deadline = (\<lambda>_. 0)(0 := 8),
     action = (\<lambda>_. None)(0 := Some True), next_timeout = 1\<rparr>)"
    unfolding one_later_def * by simp
  with * show "timer_step perform (Later 5 3 True) ((), new_timer) = Some one_later" by simp
qed

lemma one_later_reach: "reach ((), new_timer) (timer_step perform) ((), snd one_later)"
proof -
  have "timer_step perform (Later 5 3 True) ((), new_timer) = Some ((), snd one_later)"
    unfolding one_later(1) by (simp add: one_later(2))
  then show ?thesis by (rule reach_step[OF reach_init])
qed

lemma round_one:
  "process_timeouts (\<lambda>cb s. (x :: unit option, s)) 8 one_later =
    (map_option Inl x, [0], (), (snd one_later)\<lparr>timeout_heap := Some [],
       action := if x = None then (\<lambda>_. None) else action (snd one_later)\<rparr>)"
  by (auto simp: one_later(2) process_timeouts_def take_due.simps heappop_def collect_garbage_def
      GC_CANCELLATION_THRESHOLD_def)

lemma round_calls_due_only_witness:
  "reach ((), new_timer) (timer_step (\<lambda>cb s. (None :: unit option, s))) one_later
   \<and> sorted (map (deadline (snd one_later)) (fst (snd (process_timeouts (\<lambda>cb s. (None :: unit option, s)) 8 one_later))))
   \<and> 0 \<notin> on_heap (snd (snd (snd (process_timeouts (\<lambda>cb s. (None :: unit option, s)) 8 one_later))))"
proof -
  let ?p = "\<lambda>(cb :: bool) (s :: unit \<times> bool timer). (None :: unit option, s)"
  from round_calls_due_only[where now = 8, OF passive_client one_later_reach] round_one[of None]
    one_later_reach[of ?p] show ?thesis by (auto simp: one_later(2) on_heap_def)
qed

text \<open>
  When the callbacks cancel nothing and none raises, a round calls exactly the
  timeouts that are due and have not been cancelled, and a timeout that is not yet due stays.
\<close>

theorem round_calls_all_due:
  assumes "timer_client perform" "reach (w0, new_timer) (timer_step perform) (w, t)"
    "\<forall>cb w t i. action t i \<noteq> None \<longrightarrow> action (snd (snd (perform cb (w, t)))) i \<noteq> None"
    "process_timeouts perform now (w, t) = (None, called, w', t')"
  shows "set called = {i \<in> on_heap t. action t i \<noteq> None \<and> deadline t i \<le> now}
    \<and> sorted (map (deadline t) called)"
proof -
  from timer_client.sane_reach[OF assms(1,2)] obtain L where L: "timer_inv L {} t" by (auto simp: sane_def)
  have "set called = {i \<in> on_heap t. due now t i}"
    by (rule timer_client.round_all[OF assms(1) _ L assms(4)]) (use assms(3) in blast)
  with timer_client.round[OF assms(1) L assms(4)] show ?thesis by (auto simp: due_def)
qed

lemma round_calls_all_due_witness:
  "set (fst (snd (process_timeouts (\<lambda>cb s. (None :: unit option, s)) 8 one_later))) = {0}"
proof -
  let ?p = "\<lambda>(cb :: bool) (s :: unit \<times> bool timer). (None :: unit option, s)"
  from round_calls_all_due[where now = 8 and called = "[0]", OF passive_client one_later_reach] round_one[of None]
  show ?thesis by (auto simp: one_later(2) on_heap_def)
qed

text \<open>
  An exception in a callback loses timeouts: whatever was due in the same round and
  had not been called yet is off the heap and is called in no later round, although it has
  not been cancelled.
\<close>

theorem raising_callback_loses_timeouts:
  assumes "timer_client perform" "reach (w0, new_timer) (timer_step perform) (w, t)"
    "process_timeouts perform now (w, t) = (Some e, called, w', t')"
    "i \<in> on_heap t" "action t i \<noteq> None" "deadline t i \<le> now"
    "run (timer_step perform) later (w', t') = Some (w2, t2)"
  shows "i \<notin> on_heap t2 \<and> i \<notin> set (fst (snd (process_timeouts perform now2 (w2, t2))))"
proof -
  from timer_client.sane_reach[OF assms(1,2)] obtain L where L: "timer_inv L {} t" by (auto simp: sane_def)
  have "i < next_timeout t" using L assms(4) by (auto simp: timer_inv_def on_heap_def)
  with timer_client.round[OF assms(1) L assms(3)] assms(4-6) have "gone i (w', t')"
    by (auto simp: gone_def sane_def due_def keeps_def)
  then have "gone i (w2, t2)" by (rule timer_client.gone_run[OF assms(1) _ assms(7)])
  with timer_client.gone_not_called[OF assms(1)] show ?thesis by (auto simp: gone_def)
qed

lemma raising_callback_loses_timeouts_witness:
  "fst (process_timeouts (\<lambda>cb s. (Some (), s)) 8 one_later) = Some (Inl ())
   \<and> 0 \<notin> on_heap (snd (snd (snd (process_timeouts (\<lambda>cb s. (Some (), s)) 8 one_later))))"
proof -
  let ?p = "\<lambda>(cb :: bool) (s :: unit \<times> bool timer). (Some (), s)"
  from raising_callback_loses_timeouts[where now = 8 and e = "Inl ()" and called = "[0]" and i = 0 and later = "[]", OF passive_client one_later_reach] round_one[of "Some ()"]
  show ?thesis by (auto simp: one_later(2) on_heap_def)
qed

text \<open>
  The I/O loop never sleeps past a timeout: with timeouts on the heap the remaining
  interval is not negative and no longer than the time to the deadline of any of them (or zero
  when it has passed); there is none only if nothing is scheduled. The count of cancellations
  is at least the number of cancelled timeouts on the heap.
\<close>

theorem never_sleeps_past_deadline:
  assumes "timer_client perform" "reach (w0, new_timer) (timer_step perform) (w, t)"
  shows "(case get_remaining_interval now t of
       None \<Rightarrow> on_heap t = {}
     | Some d \<Rightarrow> 0 \<le> d \<and> (\<forall>i \<in> on_heap t. d \<le> max 0 (deadline t i - now)))
    \<and> int (card {i \<in> on_heap t. action t i = None}) \<le> num_cancellations t"
proof -
  from timer_client.sane_reach[OF assms(1,2)] obtain L heap where h: "timeout_heap t = Some heap"
    "heap_from (deadline t) 0 heap" "int (card (cancelled t (set heap))) \<le> num_cancellations t"
    by (auto simp: sane_def timer_inv_def)
  have "max 0 (deadline t (hd heap) - now) \<le> max 0 (deadline t i - now)" if "i \<in> set heap" for i
    using heapq.least[OF h(2) that] by linarith
  with h show ?thesis by (auto simp: get_remaining_interval_def on_heap_def cancelled_def)
qed

lemma never_sleeps_past_deadline_witness:
  "get_remaining_interval 6 (snd one_later) = Some 2
   \<and> (2::int) \<le> max 0 (deadline (snd one_later) 0 - 6)"
proof -
  let ?p = "\<lambda>(cb :: bool) (s :: unit \<times> bool timer). (None :: unit option, s)"
  from never_sleeps_past_deadline[where now = 6, OF passive_client one_later_reach]
  show ?thesis by (auto simp: one_later(2) get_remaining_interval_def on_heap_def)
qed

end
