(* ===== verification/Poller.thy ===== *)
theory Poller
  imports Timer
begin

unbundle bit_operations_syntax

text \<open>
  \<open>adapters/select_connection.py\<close>: \<open>_PollerBase\<close> with the four pollers, and \<open>IOLoop\<close>. A file
  descriptor is a number, a mask of events an integer. The dicts and sets of the poller are maps
  and lists; the dict \<open>_processing_fd_event_map\<close> is shared by the dispatch that runs and by
  \<open>remove_handler\<close>, so it lives in the state, and \<open>generation\<close> tells whether it is still the dict of
  a given dispatch. The objects of the module \<open>select\<close> are \<open>kernel\<close>: what is registered with them. What
  a handler does is a parameter, as for timers.
\<close>

section \<open>State\<close>

type_synonym fd = nat

datatype poller_kind = SelectPoller | KQueuePoller | PollPoller | EPollPoller

datatype poller_error = Os_error | Key_error | Runtime_error | Type_error | Assertion_error | Attribute_error

definition READ :: int where "READ = 1"
definition WRITE :: int where "WRITE = 4"
definition ERROR :: int where "ERROR = 8"

text \<open>What a \<open>poll\<close> or \<open>epoll\<close> object, or the read and the write filters of a kqueue, are watching\<close>

datatype kernel = Masks "fd \<Rightarrow> int option" | Filters "fd \<Rightarrow> bool" "fd \<Rightarrow> bool"

record 'h poller =
  kind :: poller_kind
  fd_handlers :: "fd \<Rightarrow> 'h option"
  fd_events :: "int \<Rightarrow> fd list"
  processing :: "(fd \<times> int) list"
  generation :: nat
  kernel :: "kernel option"
  running :: bool
  stopping :: bool
  interrupt :: "fd option"

type_synonym 'h poller_act = "'h poller \<Rightarrow> poller_error option \<times> 'h poller"

section \<open>The objects of the module \<open>select\<close>\<close>

definition init_poller :: "'h poller_act" where
  "init_poller s =
     (case kind s of
        SelectPoller \<Rightarrow> (None, s)
      | KQueuePoller \<Rightarrow>
          if kernel s \<noteq> None then (Some Assertion_error, s) else (None, s\<lparr>kernel := Some (Filters (\<lambda>_. False) (\<lambda>_. False))\<rparr>)
      | _ \<Rightarrow> if kernel s \<noteq> None then (Some Assertion_error, s) else (None, s\<lparr>kernel := Some (Masks (\<lambda>_. None))\<rparr>))"

definition uninit_poller :: "'h poller \<Rightarrow> 'h poller" where
  "uninit_poller s = s\<lparr>kernel := None\<rparr>"

text \<open>\<open>kqueue.control\<close> with one filter: deleting one that is not there is an error.\<close>

definition control :: "fd \<Rightarrow> bool \<Rightarrow> bool \<Rightarrow> (fd \<Rightarrow> bool) \<Rightarrow> (fd \<Rightarrow> bool) option" where
  "control fd del_it add_it f =
     (if del_it \<and> \<not> f fd then None
      else Some (if add_it then f(fd := True) else if del_it then f(fd := False) else f))"

definition kqueue_modify :: "fd \<Rightarrow> int \<Rightarrow> int \<Rightarrow> (fd \<Rightarrow> bool) \<Rightarrow> (fd \<Rightarrow> bool) \<Rightarrow> kernel option" where
  "kqueue_modify fd to_clear to_set r w =
     (case (control fd (to_clear AND READ \<noteq> 0) (to_set AND READ \<noteq> 0) r,
            control fd (to_clear AND WRITE \<noteq> 0) (to_set AND WRITE \<noteq> 0) w) of
        (Some r, Some w) \<Rightarrow> Some (Filters r w)
      | _ \<Rightarrow> None)"

text \<open>\<open>poll.register\<close> accepts a descriptor again, \<open>epoll.register\<close> does not.\<close>

definition poll_register :: "poller_kind \<Rightarrow> fd \<Rightarrow> int \<Rightarrow> (fd \<Rightarrow> int option) \<Rightarrow> kernel option" where
  "poll_register k fd events m = (if k = EPollPoller \<and> m fd \<noteq> None then None else Some (Masks (m(fd \<mapsto> events))))"

definition poll_modify :: "fd \<Rightarrow> int \<Rightarrow> (fd \<Rightarrow> int option) \<Rightarrow> kernel option" where
  "poll_modify fd events m = (if m fd = None then None else Some (Masks (m(fd \<mapsto> events))))"

definition poll_unregister :: "fd \<Rightarrow> (fd \<Rightarrow> int option) \<Rightarrow> kernel option" where
  "poll_unregister fd m = (if m fd = None then None else Some (Masks (m(fd := None))))"

definition store_kernel :: "poller_error \<Rightarrow> kernel option \<Rightarrow> 'h poller_act" where
  "store_kernel e k s = (case k of None \<Rightarrow> (Some e, s) | Some k \<Rightarrow> (None, s\<lparr>kernel := Some k\<rparr>))"

text \<open>\<open>_register_fd\<close>, \<open>_modify_fd_events\<close> and \<open>_unregister_fd\<close> of the four classes; an inactive poller does nothing.\<close>

definition modify_fd_events :: "fd \<Rightarrow> int \<Rightarrow> int \<Rightarrow> int \<Rightarrow> 'h poller_act" where
  "modify_fd_events fd events to_clear to_set s =
     (case kernel s of
        None \<Rightarrow> (None, s)
      | Some (Masks m) \<Rightarrow> store_kernel Os_error (poll_modify fd events m) s
      | Some (Filters r w) \<Rightarrow> store_kernel Os_error (kqueue_modify fd to_clear to_set r w) s)"

definition register_fd :: "fd \<Rightarrow> int \<Rightarrow> 'h poller_act" where
  "register_fd fd events s =
     (case kernel s of
        None \<Rightarrow> (None, s)
      | Some (Masks m) \<Rightarrow> store_kernel Os_error (poll_register (kind s) fd events m) s
      | Some (Filters _ _) \<Rightarrow> modify_fd_events fd events 0 events s)"

definition unregister_fd :: "fd \<Rightarrow> int \<Rightarrow> 'h poller_act" where
  "unregister_fd fd to_clear s =
     (case kernel s of
        None \<Rightarrow> (None, s)
      | Some (Masks m) \<Rightarrow> store_kernel (if kind s = PollPoller then Key_error else Os_error) (poll_unregister fd m) s
      | Some (Filters _ _) \<Rightarrow> modify_fd_events fd 0 to_clear 0 s)"

lemmas kernel_calls [simp] = kqueue_modify_def poll_register_def poll_modify_def poll_unregister_def store_kernel_def

section \<open>Handlers\<close>

text \<open>\<open>_set_handler_events\<close>: what was cleared and what was set\<close>

definition set_event :: "fd \<Rightarrow> int \<Rightarrow> int \<Rightarrow> (int \<times> int) \<times> 'h poller \<Rightarrow> (int \<times> int) \<times> 'h poller" where
  "set_event fd events evt = (\<lambda>((events_cleared, events_set), s).
     if events AND evt \<noteq> 0 then
       if fd \<notin> set (fd_events s evt)
       then ((events_cleared, events_set OR evt), s\<lparr>fd_events := (fd_events s)(evt := fd_events s evt @ [fd])\<rparr>)
       else ((events_cleared, events_set), s)
     else
       if fd \<in> set (fd_events s evt)
       then ((events_cleared OR evt, events_set), s\<lparr>fd_events := (fd_events s)(evt := removeAll fd (fd_events s evt))\<rparr>)
       else ((events_cleared, events_set), s))"

definition set_handler_events :: "fd \<Rightarrow> int \<Rightarrow> 'h poller \<Rightarrow> (int \<times> int) \<times> 'h poller" where
  "set_handler_events fd events s = fold (set_event fd events) [READ, WRITE, ERROR] ((0, 0), s)"

text \<open>After \<open>close\<close> the dicts are \<open>None\<close>.\<close>

definition closed :: "'h poller \<Rightarrow> bool" where
  "closed s \<longleftrightarrow> interrupt s = None"

definition add_handler :: "fd \<Rightarrow> 'h \<Rightarrow> int \<Rightarrow> 'h poller_act" where
  "add_handler fd handler events s =
     (if closed s then (Some Type_error, s)
      else let s = s\<lparr>fd_handlers := (fd_handlers s)(fd \<mapsto> handler)\<rparr>;
               (_, s) = set_handler_events fd events s
           in register_fd fd events s)"

definition update_handler :: "fd \<Rightarrow> int \<Rightarrow> 'h poller_act" where
  "update_handler fd events s =
     (if closed s then (Some Type_error, s)
      else let ((events_cleared, events_set), s) = set_handler_events fd events s
           in modify_fd_events fd events events_cleared events_set s)"

definition remove_handler :: "fd \<Rightarrow> 'h poller_act" where
  "remove_handler fd s =
     (if closed s then (Some Type_error, s)
      else let s = s\<lparr>processing := filter (\<lambda>(f, _). f \<noteq> fd) (processing s)\<rparr>;
               ((events_cleared, _), s) = set_handler_events fd 0 s
           in if fd_handlers s fd = None then (Some Key_error, s)
              else unregister_fd fd events_cleared (s\<lparr>fd_handlers := (fd_handlers s)(fd := None)\<rparr>))"

text \<open>The mask of a descriptor\<close>

definition interest :: "'h poller \<Rightarrow> fd \<Rightarrow> int" where
  "interest s fd =
     (if fd \<in> set (fd_events s READ) then READ else 0) OR
     (if fd \<in> set (fd_events s WRITE) then WRITE else 0) OR
     (if fd \<in> set (fd_events s ERROR) then ERROR else 0)"

fun register_all :: "fd list \<Rightarrow> 'h poller_act" where
  "register_all [] s = (None, s)"
| "register_all (fd # fds) s =
     (case register_fd fd (interest s fd) s of (None, s) \<Rightarrow> register_all fds s | (Some e, s) \<Rightarrow> (Some e, s))"

definition activate_poller :: "'h poller_act" where
  "activate_poller s =
     (case init_poller s of
        (Some e, s) \<Rightarrow> (Some e, s)
      | (None, s) \<Rightarrow> register_all (remdups (concat (map (fd_events s) [READ, WRITE, ERROR]))) s)"

definition deactivate_poller :: "'h poller \<Rightarrow> 'h poller" where
  "deactivate_poller s = uninit_poller s"

text \<open>\<open>_PollerBase.__init__\<close>; the pair of sockets for interrupts comes from outside.\<close>

definition new_poller :: "poller_kind \<Rightarrow> fd \<Rightarrow> 'h \<Rightarrow> 'h poller" where
  "new_poller k r_interrupt read_interrupt =
     snd (add_handler r_interrupt read_interrupt READ
       \<lparr>kind = k, fd_handlers = (\<lambda>_. None), fd_events = (\<lambda>_. []), processing = [], generation = 0, kernel = None,
        running = False, stopping = False, interrupt = Some r_interrupt\<rparr>)"

definition close_poller :: "'h poller_act" where
  "close_poller s =
     (if running s then (Some Assertion_error, s)
      else case interrupt s of
        None \<Rightarrow> (None, s)
      | Some fd \<Rightarrow>
          (case remove_handler fd s of
             (Some e, s) \<Rightarrow> (Some e, s)
           | (None, s) \<Rightarrow> (None, (deactivate_poller s)
               \<lparr>fd_handlers := \<lambda>_. None, fd_events := \<lambda>_. [], processing := [], interrupt := None\<rparr>)))"

definition stop_poller :: "'h poller \<Rightarrow> 'h poller" where
  "stop_poller s = s\<lparr>stopping := True\<rparr>"

section \<open>Dispatching\<close>

type_synonym ('e, 'h, 'w) fd_runner =
  "'h \<Rightarrow> fd \<Rightarrow> int \<Rightarrow> 'w \<times> 'h poller \<Rightarrow> 'e option \<times> 'w \<times> 'h poller"

text \<open>The events of interest now; bits other than the three stay.\<close>

definition still_wanted :: "'h poller \<Rightarrow> fd \<Rightarrow> int \<Rightarrow> int" where
  "still_wanted s fd events =
     fold (\<lambda>evt events. if fd \<notin> set (fd_events s evt) then events AND NOT evt else events) [READ, WRITE, ERROR] events"

text \<open>The loop over the keys of the dict of generation \<open>g\<close>; the list is what has been called.\<close>

fun dispatch_loop :: "('e, 'h, 'w) fd_runner \<Rightarrow> nat \<Rightarrow> fd list \<Rightarrow> 'w \<times> 'h poller \<Rightarrow>
    ('e + poller_error) option \<times> (fd \<times> int) list \<times> 'w \<times> 'h poller" where
  "dispatch_loop perform g [] ws = (None, [], ws)"
| "dispatch_loop perform g (fd # fds) (w, s) =
     (case (if generation s = g then map_of (processing s) fd else None) of
        None \<Rightarrow> dispatch_loop perform g fds (w, s)
      | Some events \<Rightarrow>
          let events = still_wanted s fd events in
          if events = 0 then dispatch_loop perform g fds (w, s)
          else case fd_handlers s fd of
            None \<Rightarrow> (Some (Inr Key_error), [], w, s)
          | Some handler \<Rightarrow>
              (case perform handler fd events (w, s) of
                 (Some e, ws) \<Rightarrow> (Some (Inl e), [(fd, events)], ws)
               | (None, ws) \<Rightarrow>
                   let (e, called, ws) = dispatch_loop perform g fds ws in (e, (fd, events) # called, ws)))"

definition dispatch_fd_events :: "('e, 'h, 'w) fd_runner \<Rightarrow> (fd \<times> int) list \<Rightarrow> 'w \<times> 'h poller \<Rightarrow>
    ('e + poller_error) option \<times> (fd \<times> int) list \<times> 'w \<times> 'h poller" where
  "dispatch_fd_events perform fd_event_map = (\<lambda>(w, s).
     dispatch_loop perform (Suc (generation s)) (map fst fd_event_map)
       (w, s\<lparr>processing := fd_event_map, generation := Suc (generation s)\<rparr>))"

section \<open>Invariant\<close>

text \<open>The masks made of the three events\<close>

definition mask_ok :: "int \<Rightarrow> bool" where
  "mask_ok m \<longleftrightarrow> m \<in> {0, READ, WRITE, ERROR, READ OR WRITE, READ OR ERROR, WRITE OR ERROR, READ OR (WRITE OR ERROR)}"

definition agrees :: "'h poller \<Rightarrow> kernel \<Rightarrow> bool" where
  "agrees s k \<longleftrightarrow>
     (case k of
        Masks m \<Rightarrow> (\<forall>fd. m fd = (if fd_handlers s fd = None then None else Some (interest s fd))) \<and> kind s \<in> {PollPoller, EPollPoller}
      | Filters r w \<Rightarrow> (\<forall>fd. r fd = (fd \<in> set (fd_events s READ)) \<and> w fd = (fd \<in> set (fd_events s WRITE)))
          \<and> kind s = KQueuePoller)"

text \<open>
  Every handler waits for something, nothing else is waited for, the operating system watches for
  just that, and the dict being processed has only descriptors with a handler.
\<close>

definition poller_ok :: "'h poller \<Rightarrow> bool" where
  "poller_ok s \<longleftrightarrow> \<not> closed s
     \<and> (\<forall>fd. interest s fd = 0 \<longleftrightarrow> fd_handlers s fd = None)
     \<and> (\<forall>k. kernel s = Some k \<longrightarrow> agrees s k)
     \<and> fst ` set (processing s) \<subseteq> dom (fd_handlers s) \<and> distinct (map fst (processing s))"

text \<open>What is watched for: the abstract view of a poller\<close>

definition watched :: "'h poller \<Rightarrow> fd \<Rightarrow> ('h \<times> int) option" where
  "watched s fd = map_option (\<lambda>h. (h, interest s fd)) (fd_handlers s fd)"

lemmas event_values = READ_def WRITE_def ERROR_def

lemma interest_values:
  "interest s fd = (if fd \<in> set (fd_events s READ) then 1 else 0) + (if fd \<in> set (fd_events s WRITE) then 4 else 0)
    + (if fd \<in> set (fd_events s ERROR) then 8 else 0)"
  by (simp add: interest_def event_values)

lemma interest_mask_ok: "mask_ok (interest s fd)"
  by (simp add: interest_values mask_ok_def event_values)

lemma interest_has:
  "interest s fd AND READ \<noteq> 0 \<longleftrightarrow> fd \<in> set (fd_events s READ)"
  "interest s fd AND WRITE \<noteq> 0 \<longleftrightarrow> fd \<in> set (fd_events s WRITE)"
  by (simp_all add: interest_values event_values)

text \<open>\<open>_set_handler_events\<close> sets the mask of one descriptor and tells what has changed.\<close>

definition with_event :: "fd \<Rightarrow> bool \<Rightarrow> fd list \<Rightarrow> fd list" where
  "with_event fd on fds = (if on then if fd \<in> set fds then fds else fds @ [fd] else removeAll fd fds)"

lemma set_with_event: "f \<in> set (with_event fd on fds) \<longleftrightarrow> (if f = fd then on else f \<in> set fds)"
  by (auto simp: with_event_def)

definition among :: "(int \<Rightarrow> bool) \<Rightarrow> int" where
  "among P = (if P READ then READ else 0) OR (if P WRITE then WRITE else 0) OR (if P ERROR then ERROR else 0)"

lemma among_has: "among P AND READ \<noteq> 0 \<longleftrightarrow> P READ" "among P AND WRITE \<noteq> 0 \<longleftrightarrow> P WRITE"
  by (simp_all add: among_def event_values)

lemma among_mask: "mask_ok m \<Longrightarrow> among (\<lambda>evt. m AND evt \<noteq> 0) = m"
  by (auto simp: among_def mask_ok_def event_values)

lemma interest_among: "interest s fd = among (\<lambda>evt. fd \<in> set (fd_events s evt))"
  by (simp add: interest_def among_def)

lemma set_event_eq:
  "set_event fd m evt ((c, a), s) =
     ((if fd \<in> set (fd_events s evt) \<and> m AND evt = 0 then c OR evt else c,
       if fd \<notin> set (fd_events s evt) \<and> m AND evt \<noteq> 0 then a OR evt else a),
      s\<lparr>fd_events := (fd_events s)(evt := with_event fd (m AND evt \<noteq> 0) (fd_events s evt))\<rparr>)"
  by (simp add: set_event_def with_event_def removeAll_id)

lemma set_handler_events_eq:
  "set_handler_events fd m s =
     ((among (\<lambda>evt. fd \<in> set (fd_events s evt) \<and> m AND evt = 0), among (\<lambda>evt. fd \<notin> set (fd_events s evt) \<and> m AND evt \<noteq> 0)),
      s\<lparr>fd_events := (fd_events s)(READ := with_event fd (m AND READ \<noteq> 0) (fd_events s READ),
         WRITE := with_event fd (m AND WRITE \<noteq> 0) (fd_events s WRITE),
         ERROR := with_event fd (m AND ERROR \<noteq> 0) (fd_events s ERROR))\<rparr>)"
  by (simp add: set_handler_events_def set_event_eq among_def event_values)

lemma set_handler_events:
  assumes "mask_ok m" "set_handler_events fd m s = ((c, a), t)"
  shows "t = s\<lparr>fd_events := fd_events t\<rparr>" "interest t = (interest s)(fd := m)"
    "f \<in> set (fd_events t READ) \<longleftrightarrow> (if f = fd then m AND READ \<noteq> 0 else f \<in> set (fd_events s READ))"
    "f \<in> set (fd_events t WRITE) \<longleftrightarrow> (if f = fd then m AND WRITE \<noteq> 0 else f \<in> set (fd_events s WRITE))"
proof -
  have ne: "READ \<noteq> WRITE" "READ \<noteq> ERROR" "WRITE \<noteq> ERROR" by (simp_all add: event_values)
  have t: "t = s\<lparr>fd_events := (fd_events s)(READ := with_event fd (m AND READ \<noteq> 0) (fd_events s READ),
         WRITE := with_event fd (m AND WRITE \<noteq> 0) (fd_events s WRITE),
         ERROR := with_event fd (m AND ERROR \<noteq> 0) (fd_events s ERROR))\<rparr>"
    using assms(2) by (simp add: set_handler_events_eq)
  then show "t = s\<lparr>fd_events := fd_events t\<rparr>" by simp
  from t ne show "f \<in> set (fd_events t READ) \<longleftrightarrow> (if f = fd then m AND READ \<noteq> 0 else f \<in> set (fd_events s READ))"
    "f \<in> set (fd_events t WRITE) \<longleftrightarrow> (if f = fd then m AND WRITE \<noteq> 0 else f \<in> set (fd_events s WRITE))"
    by (simp_all add: set_with_event)
  have "interest t f = (if f = fd then among (\<lambda>evt. m AND evt \<noteq> 0) else interest s f)" for f
    using ne by (simp add: t interest_among set_with_event among_def)
  then show "interest t = (interest s)(fd := m)" by (auto simp: among_mask [OF assms(1)])
qed

lemma set_handler_events_changes:
  assumes "set_handler_events fd m s = ((c, a), t)"
  shows "c AND READ \<noteq> 0 \<longleftrightarrow> fd \<in> set (fd_events s READ) \<and> m AND READ = 0"
    "c AND WRITE \<noteq> 0 \<longleftrightarrow> fd \<in> set (fd_events s WRITE) \<and> m AND WRITE = 0"
    "a AND READ \<noteq> 0 \<longleftrightarrow> fd \<notin> set (fd_events s READ) \<and> m AND READ \<noteq> 0"
    "a AND WRITE \<noteq> 0 \<longleftrightarrow> fd \<notin> set (fd_events s WRITE) \<and> m AND WRITE \<noteq> 0"
proof -
  from assms have "c = among (\<lambda>evt. fd \<in> set (fd_events s evt) \<and> m AND evt = 0)"
    "a = among (\<lambda>evt. fd \<notin> set (fd_events s evt) \<and> m AND evt \<noteq> 0)"
    by (auto simp: set_handler_events_eq)
  then show "c AND READ \<noteq> 0 \<longleftrightarrow> fd \<in> set (fd_events s READ) \<and> m AND READ = 0"
    "c AND WRITE \<noteq> 0 \<longleftrightarrow> fd \<in> set (fd_events s WRITE) \<and> m AND WRITE = 0"
    "a AND READ \<noteq> 0 \<longleftrightarrow> fd \<notin> set (fd_events s READ) \<and> m AND READ \<noteq> 0"
    "a AND WRITE \<noteq> 0 \<longleftrightarrow> fd \<notin> set (fd_events s WRITE) \<and> m AND WRITE \<noteq> 0"
    by (simp_all only: among_has)
qed

text \<open>\<open>t\<close> comes after \<open>s\<close>: a later dispatch has begun, or the dict has only lost descriptors.\<close>

definition later :: "'h poller \<Rightarrow> 'h poller \<Rightarrow> bool" where
  "later s t \<longleftrightarrow> generation s < generation t \<or>
     generation s = generation t \<and> set (processing t) \<subseteq> set (processing s)"

lemma later_trans: "later s t \<Longrightarrow> later t u \<Longrightarrow> later s u"
  by (auto simp: later_def)

section \<open>The interface of a loop\<close>

text \<open>
  \<open>AbstractSelectorIOLoop\<close>: what a loop promises about its handlers to a client that does not add a
  handler twice, changes and removes only those it has added, and always waits for something.
  \<open>follows\<close> is what the dispatch that is under way relies on.
\<close>

locale selector_loop =
  fixes add :: "fd \<Rightarrow> 'h \<Rightarrow> int \<Rightarrow> 's \<Rightarrow> 'e option \<times> 's" and update :: "fd \<Rightarrow> int \<Rightarrow> 's \<Rightarrow> 'e option \<times> 's"
    and remove :: "fd \<Rightarrow> 's \<Rightarrow> 'e option \<times> 's" and watching :: "'s \<Rightarrow> fd \<Rightarrow> ('h \<times> int) option" and ok :: "'s \<Rightarrow> bool"
    and follows :: "'s \<Rightarrow> 's \<Rightarrow> bool"
  assumes add_watches: "ok s \<Longrightarrow> watching s fd = None \<Longrightarrow> mask_ok m \<Longrightarrow> m \<noteq> 0 \<Longrightarrow> add fd h m s = (e, t) \<Longrightarrow>
      e = None \<and> ok t \<and> follows s t \<and> watching t = (watching s)(fd \<mapsto> (h, m))"
    and update_watches: "ok s \<Longrightarrow> watching s fd = Some (h, m0) \<Longrightarrow> mask_ok m \<Longrightarrow> m \<noteq> 0 \<Longrightarrow> update fd m s = (e, t) \<Longrightarrow>
      e = None \<and> ok t \<and> follows s t \<and> watching t = (watching s)(fd \<mapsto> (h, m))"
    and remove_watches: "ok s \<Longrightarrow> watching s fd = Some (h, m0) \<Longrightarrow> remove fd s = (e, t) \<Longrightarrow>
      e = None \<and> ok t \<and> follows s t \<and> watching t = (watching s)(fd := None)"
    and follows_self: "follows s s"

lemma poller_okD:
  assumes "poller_ok s"
  shows "\<not> closed s" "interest s fd = 0 \<longleftrightarrow> fd_handlers s fd = None" "kernel s = Some k \<Longrightarrow> agrees s k"
    "fst ` set (processing s) \<subseteq> dom (fd_handlers s)" "distinct (map fst (processing s))"
  using assms by (auto simp: poller_ok_def)

lemma kernel_self: "kernel t = None \<Longrightarrow> t\<lparr>kernel := None\<rparr> = t"
  by (cases t) simp

text \<open>Setting a mask and then telling the operating system\<close>

lemma register_fd_ok:
  assumes s: "poller_ok s" "fd_handlers s fd = None" and m: "mask_ok m" "m \<noteq> 0"
    and t: "t = s\<lparr>fd_handlers := (fd_handlers s)(fd \<mapsto> h), fd_events := fd_events t\<rparr>" "interest t = (interest s)(fd := m)"
      "\<And>f. f \<in> set (fd_events t READ) \<longleftrightarrow> (if f = fd then m AND READ \<noteq> 0 else f \<in> set (fd_events s READ))"
      "\<And>f. f \<in> set (fd_events t WRITE) \<longleftrightarrow> (if f = fd then m AND WRITE \<noteq> 0 else f \<in> set (fd_events s WRITE))"
    and r: "register_fd fd m t = (e, u)"
  shows "e = None \<and> poller_ok u \<and> u = t\<lparr>kernel := kernel u\<rparr>"
proof -
  note ok = poller_okD [OF s(1)]
  have flds: "kernel t = kernel s" "kind t = kind s" "closed t = closed s" "processing t = processing s"
    "fd_handlers t = (fd_handlers s)(fd \<mapsto> h)"
    by (subst t(1); simp add: closed_def)+
  have noread: "fd \<notin> set (fd_events s READ)" "fd \<notin> set (fd_events s WRITE)"
    using ok(2) [of fd] s(2) interest_has [of s fd] by auto
  have same: "interest (t\<lparr>kernel := k\<rparr>) = interest t" for k by (simp add: interest_def fun_eq_iff)
  have masks: "poller_ok (t\<lparr>kernel := k\<rparr>)" if "k = None \<or> (\<exists>k'. k = Some k' \<and> agrees (t\<lparr>kernel := k\<rparr>) k')" for k
    using that ok flds t(2) m(2)
    by (auto simp: poller_ok_def same closed_def)
  show ?thesis
  proof (cases "kernel s")
    case None
    with flds masks [of None] have "poller_ok t" by (simp add: kernel_self)
    with r flds None show ?thesis by (auto simp: register_fd_def)
  next
    case (Some k)
    note agr = ok(3) [OF Some]
    show ?thesis
    proof (cases k)
      case (Masks w)
      with r Some flds agr s(2) have "e = None" "u = t\<lparr>kernel := Some (Masks (w(fd \<mapsto> m)))\<rparr>"
        by (auto simp: register_fd_def agrees_def split: if_splits)
      moreover have "agrees (t\<lparr>kernel := Some (Masks (w(fd \<mapsto> m)))\<rparr>) (Masks (w(fd \<mapsto> m)))"
        using agr Masks flds t(2) by (auto simp: agrees_def same)
      ultimately show ?thesis using masks [of "Some (Masks (w(fd \<mapsto> m)))"] by auto
    next
      case (Filters a b)
      define k' where "k' = Filters (if m AND READ \<noteq> 0 then a(fd := True) else a) (if m AND WRITE \<noteq> 0 then b(fd := True) else b)"
      from r Some flds Filters have u: "e = None" "u = t\<lparr>kernel := Some k'\<rparr>"
        by (auto simp: register_fd_def modify_fd_events_def control_def k'_def)
      have "agrees (t\<lparr>kernel := Some k'\<rparr>) k'"
        using agr Filters flds t(3,4) noread by (auto simp: agrees_def k'_def)
      with u masks [of "Some k'"] show ?thesis by auto
    qed
  qed
qed

lemma modify_fd_events_ok:
  assumes s: "poller_ok s" "fd_handlers s fd = Some h" and m: "mask_ok m" "m \<noteq> 0"
    and t: "set_handler_events fd m s = ((c, a), t)" and r: "modify_fd_events fd m c a t = (e, u)"
  shows "e = None \<and> poller_ok u \<and> u = t\<lparr>kernel := kernel u\<rparr>"
proof -
  note ok = poller_okD [OF s(1)] and ev = set_handler_events [OF m(1) t] and ch = set_handler_events_changes [OF t]
  have flds: "kernel t = kernel s" "kind t = kind s" "closed t = closed s" "processing t = processing s"
    "fd_handlers t = fd_handlers s"
    by (subst ev(1); simp add: closed_def)+
  have same: "interest (t\<lparr>kernel := k\<rparr>) = interest t" for k by (simp add: interest_def fun_eq_iff)
  have masks: "poller_ok (t\<lparr>kernel := k\<rparr>)" if "k = None \<or> (\<exists>k'. k = Some k' \<and> agrees (t\<lparr>kernel := k\<rparr>) k')" for k
    using that ok flds ev(2) m(2) s(2)
    by (auto simp: poller_ok_def same closed_def)
  show ?thesis
  proof (cases "kernel s")
    case None
    with flds masks [of None] have "poller_ok t" by (simp add: kernel_self)
    with r flds None show ?thesis by (auto simp: modify_fd_events_def)
  next
    case (Some k)
    note agr = ok(3) [OF Some]
    show ?thesis
    proof (cases k)
      case (Masks w)
      with r Some flds agr s(2) have "e = None" "u = t\<lparr>kernel := Some (Masks (w(fd \<mapsto> m)))\<rparr>"
        by (auto simp: modify_fd_events_def agrees_def split: if_splits)
      moreover have "agrees (t\<lparr>kernel := Some (Masks (w(fd \<mapsto> m)))\<rparr>) (Masks (w(fd \<mapsto> m)))"
        using agr Masks flds ev(2) s(2) by (auto simp: agrees_def same)
      ultimately show ?thesis using masks [of "Some (Masks (w(fd \<mapsto> m)))"] by auto
    next
      case (Filters f g)
      define k' where "k' = Filters (\<lambda>x. x \<in> set (fd_events t READ)) (\<lambda>x. x \<in> set (fd_events t WRITE))"
      from agr Filters have fg: "f x = (x \<in> set (fd_events s READ))" "g x = (x \<in> set (fd_events s WRITE))" for x
        by (auto simp: agrees_def)
      have "control fd (c AND READ \<noteq> 0) (a AND READ \<noteq> 0) f = Some (\<lambda>x. x \<in> set (fd_events t READ))"
        "control fd (c AND WRITE \<noteq> 0) (a AND WRITE \<noteq> 0) g = Some (\<lambda>x. x \<in> set (fd_events t WRITE))"
        unfolding ch by (auto simp: control_def fg ev(3,4) fun_eq_iff)
      with r Some flds Filters have u: "e = None" "u = t\<lparr>kernel := Some k'\<rparr>"
        by (auto simp: modify_fd_events_def k'_def)
      have "agrees (t\<lparr>kernel := Some k'\<rparr>) k'"
        using agr Filters flds by (auto simp: agrees_def k'_def)
      with u masks [of "Some k'"] show ?thesis by auto
    qed
  qed
qed

lemma unregister_fd_ok:
  assumes s: "poller_ok s" "fd_handlers s fd = Some h"
    and s1: "s1 = s\<lparr>processing := filter (\<lambda>(f, _). f \<noteq> fd) (processing s)\<rparr>"
    and t: "set_handler_events fd 0 s1 = ((c, a), t)"
    and r: "unregister_fd fd c (t\<lparr>fd_handlers := (fd_handlers t)(fd := None)\<rparr>) = (e, u)"
  shows "e = None \<and> poller_ok u \<and> u = t\<lparr>fd_handlers := (fd_handlers s)(fd := None), kernel := kernel u\<rparr>"
proof -
  let ?t = "t\<lparr>fd_handlers := (fd_handlers s)(fd := None)\<rparr>"
  have zero: "mask_ok 0" by (simp add: mask_ok_def)
  note ok = poller_okD [OF s(1)] and ev = set_handler_events [OF zero t] and ch = set_handler_events_changes [OF t]
  have flds: "kernel t = kernel s" "kind t = kind s" "closed t = closed s"
    "processing t = filter (\<lambda>(f, _). f \<noteq> fd) (processing s)" "fd_handlers t = fd_handlers s"
    by (subst ev(1); simp add: closed_def s1)+
  have s1_eqs: "interest s1 = interest s" "fd_events s1 = fd_events s" by (simp_all add: s1 interest_def fun_eq_iff)
  have same: "interest (?t\<lparr>kernel := k\<rparr>) = (interest s)(fd := 0)" for k
    using ev(2) unfolding s1_eqs by (simp add: interest_def fun_eq_iff)
  have masks: "poller_ok (?t\<lparr>kernel := k\<rparr>)" if "k = None \<or> (\<exists>k'. k = Some k' \<and> agrees (?t\<lparr>kernel := k\<rparr>) k')" for k
    using that ok flds distinct_map_filter [of fst "processing s"]
    by (auto simp: poller_ok_def same closed_def)
  show ?thesis
  proof (cases "kernel s")
    case None
    with flds masks [of None] have "poller_ok ?t" by (simp add: kernel_self)
    with r flds None show ?thesis by (auto simp: unregister_fd_def)
  next
    case (Some k)
    note agr = ok(3) [OF Some]
    show ?thesis
    proof (cases k)
      case (Masks w)
      with r Some flds agr s(2) have "e = None" "u = ?t\<lparr>kernel := Some (Masks (w(fd := None)))\<rparr>"
        by (auto simp: unregister_fd_def agrees_def split: if_splits)
      moreover have "agrees (?t\<lparr>kernel := Some (Masks (w(fd := None)))\<rparr>) (Masks (w(fd := None)))"
        using agr Masks flds by (auto simp: agrees_def same)
      ultimately show ?thesis using masks [of "Some (Masks (w(fd := None)))"] by auto
    next
      case (Filters f g)
      define k' where "k' = Filters (\<lambda>x. x \<in> set (fd_events t READ)) (\<lambda>x. x \<in> set (fd_events t WRITE))"
      from agr Filters have fg: "f x = (x \<in> set (fd_events s READ))" "g x = (x \<in> set (fd_events s WRITE))" for x
        by (auto simp: agrees_def)
      have "control fd (c AND READ \<noteq> 0) (0 AND READ \<noteq> 0) f = Some (\<lambda>x. x \<in> set (fd_events t READ))"
        "control fd (c AND WRITE \<noteq> 0) (0 AND WRITE \<noteq> 0) g = Some (\<lambda>x. x \<in> set (fd_events t WRITE))"
        unfolding ch s1_eqs by (auto simp: control_def fg ev(3,4) s1_eqs fun_eq_iff)
      with r Some flds Filters have u: "e = None" "u = ?t\<lparr>kernel := Some k'\<rparr>"
        by (auto simp: unregister_fd_def modify_fd_events_def k'_def)
      have "agrees (?t\<lparr>kernel := Some k'\<rparr>) k'"
        using agr Filters flds by (auto simp: agrees_def k'_def)
      with u masks [of "Some k'"] show ?thesis by auto
    qed
  qed
qed

lemma watched_kernel [simp]: "watched (s\<lparr>kernel := k\<rparr>) = watched s"
  by (simp add: watched_def interest_def fun_eq_iff)

lemma add_handler_ok:
  assumes "poller_ok s" "fd_handlers s fd = None" "mask_ok m" "m \<noteq> 0" "add_handler fd h m s = (e, t)"
  shows "e = None \<and> poller_ok t \<and> watched t = (watched s)(fd \<mapsto> (h, m)) \<and> fd_handlers t = (fd_handlers s)(fd \<mapsto> h)
    \<and> generation t = generation s \<and> processing t = processing s"
proof -
  let ?s = "s\<lparr>fd_handlers := (fd_handlers s)(fd \<mapsto> h)\<rparr>"
  obtain c a s2 where s2: "set_handler_events fd m ?s = ((c, a), s2)" by (metis prod.exhaust)
  note ev = set_handler_events [OF assms(3) s2]
  have i: "interest ?s = interest s" by (simp add: interest_def fun_eq_iff)
  from ev(1) have s2_eq: "s2 = ?s\<lparr>fd_events := fd_events s2\<rparr>" .
  from assms(5) s2 poller_okD(1) [OF assms(1)] have r: "register_fd fd m s2 = (e, t)" by (simp add: add_handler_def)
  have "e = None \<and> poller_ok t \<and> t = s2\<lparr>kernel := kernel t\<rparr>"
    by (rule register_fd_ok [OF assms(1-4) s2_eq _ _ _ r]) (use ev(2-4) in \<open>simp_all add: i\<close>)
  then have t: "e = None" "poller_ok t" "t = s2\<lparr>kernel := kernel t\<rparr>" by blast+
  have flds: "fd_handlers t = (fd_handlers s)(fd \<mapsto> h)" "generation t = generation s" "processing t = processing s"
    by (subst t(3), subst s2_eq, simp)+
  have "watched t = watched s2" by (subst t(3)) simp
  moreover have "watched s2 = (watched s)(fd \<mapsto> (h, m))"
    using ev(2) by (subst s2_eq) (auto simp: watched_def i fun_eq_iff interest_def)
  ultimately show ?thesis using t(1,2) flds by simp
qed

lemma update_handler_ok:
  assumes "poller_ok s" "fd_handlers s fd = Some h" "mask_ok m" "m \<noteq> 0" "update_handler fd m s = (e, t)"
  shows "e = None \<and> poller_ok t \<and> watched t = (watched s)(fd \<mapsto> (h, m)) \<and> fd_handlers t = fd_handlers s
    \<and> generation t = generation s \<and> processing t = processing s"
proof -
  obtain c a s2 where s2: "set_handler_events fd m s = ((c, a), s2)" by (metis prod.exhaust)
  note ev = set_handler_events [OF assms(3) s2]
  from assms(5) s2 poller_okD(1) [OF assms(1)] have "modify_fd_events fd m c a s2 = (e, t)"
    by (simp add: update_handler_def)
  then have t: "e = None" "poller_ok t" "t = s2\<lparr>kernel := kernel t\<rparr>"
    using modify_fd_events_ok [OF assms(1-4) s2] by blast+
  have flds: "fd_handlers t = fd_handlers s" "generation t = generation s" "processing t = processing s"
    by (subst t(3), subst ev(1), simp)+
  have "watched t = watched s2" by (subst t(3)) simp
  moreover have "watched s2 = (watched s)(fd \<mapsto> (h, m))"
    using ev(2) assms(2) by (subst ev(1)) (auto simp: watched_def fun_eq_iff interest_def)
  ultimately show ?thesis using t(1,2) flds by simp
qed

lemma remove_handler_ok:
  assumes "poller_ok s" "fd_handlers s fd = Some h" "remove_handler fd s = (e, t)"
  shows "e = None \<and> poller_ok t \<and> watched t = (watched s)(fd := None) \<and> fd_handlers t = (fd_handlers s)(fd := None)
    \<and> generation t = generation s \<and> processing t = filter (\<lambda>(f, _). f \<noteq> fd) (processing s)"
proof -
  let ?s = "s\<lparr>processing := filter (\<lambda>(f, _). f \<noteq> fd) (processing s)\<rparr>"
  have zero: "mask_ok 0" by (simp add: mask_ok_def)
  have i: "interest ?s = interest s" by (simp add: interest_def fun_eq_iff)
  obtain c a s2 where s2: "set_handler_events fd 0 ?s = ((c, a), s2)" by (metis prod.exhaust)
  note ev = set_handler_events [OF zero s2]
  have hs: "fd_handlers s2 = fd_handlers s" by (subst ev(1)) simp
  from assms(2,3) s2 poller_okD(1) [OF assms(1)] hs
  have "unregister_fd fd c (s2\<lparr>fd_handlers := (fd_handlers s2)(fd := None)\<rparr>) = (e, t)"
    by (simp add: remove_handler_def)
  then have t: "e = None" "poller_ok t" "t = s2\<lparr>fd_handlers := (fd_handlers s)(fd := None), kernel := kernel t\<rparr>"
    using unregister_fd_ok [OF assms(1,2) refl s2] by blast+
  have flds: "fd_handlers t = (fd_handlers s)(fd := None)"
    "generation t = generation s" "processing t = filter (\<lambda>(f, _). f \<noteq> fd) (processing s)"
    by (subst t(3), simp) (subst t(3), subst ev(1), simp)+
  have "interest t = interest s2" by (subst t(3)) (simp add: interest_def fun_eq_iff)
  then have "watched t = (watched s)(fd := None)"
    using ev(2) flds(1) by (auto simp: watched_def i fun_eq_iff)
  with t(1,2) flds show ?thesis by simp
qed

interpretation poller: selector_loop add_handler update_handler remove_handler watched poller_ok later
proof
  show "poller_ok s \<Longrightarrow> watched s fd = None \<Longrightarrow> mask_ok m \<Longrightarrow> m \<noteq> 0 \<Longrightarrow> add_handler fd h m s = (e, t) \<Longrightarrow>
      e = None \<and> poller_ok t \<and> later s t \<and> watched t = (watched s)(fd \<mapsto> (h, m))"
    for s :: "'a poller" and fd h m e t
    using add_handler_ok [of s fd m h e t] by (simp add: watched_def later_def)
  show "poller_ok s \<Longrightarrow> watched s fd = Some (h, m0) \<Longrightarrow> mask_ok m \<Longrightarrow> m \<noteq> 0 \<Longrightarrow> update_handler fd m s = (e, t) \<Longrightarrow>
      e = None \<and> poller_ok t \<and> later s t \<and> watched t = (watched s)(fd \<mapsto> (h, m))"
    for s :: "'a poller" and fd h m m0 e t
    using update_handler_ok [of s fd h m e t] by (auto simp: watched_def later_def)
  show "poller_ok s \<Longrightarrow> watched s fd = Some (h, m0) \<Longrightarrow> remove_handler fd s = (e, t) \<Longrightarrow>
      e = None \<and> poller_ok t \<and> later s t \<and> watched t = (watched s)(fd := None)"
    for s :: "'a poller" and fd h m0 e t
    using remove_handler_ok [of s fd h e t] by (auto simp: watched_def later_def)
  show "later s s" for s :: "'a poller" by (simp add: later_def)
qed

section \<open>Starting and stopping\<close>

lemma interest_kernel [simp]: "interest (s\<lparr>kernel := k\<rparr>) = interest s"
  by (simp add: interest_def fun_eq_iff)

lemma register_all_masks:
  "kernel s = Some (Masks m) \<Longrightarrow> distinct fds \<Longrightarrow> \<forall>f \<in> set fds. m f = None \<Longrightarrow>
    register_all fds s = (None, s\<lparr>kernel := Some (Masks (\<lambda>f. if f \<in> set fds then Some (interest s f) else m f))\<rparr>)"
proof (induction fds arbitrary: s m)
  case (Cons fd fds)
  let ?s = "s\<lparr>kernel := Some (Masks (m(fd \<mapsto> interest s fd)))\<rparr>"
  have "register_fd fd (interest s fd) s = (None, ?s)"
    using Cons.prems by (simp add: register_fd_def)
  moreover have "register_all fds ?s = (None, ?s\<lparr>kernel := Some (Masks (\<lambda>f. if f \<in> set fds then Some (interest ?s f)
      else (m(fd \<mapsto> interest s fd)) f))\<rparr>)"
    using Cons.prems by (intro Cons.IH) auto
  ultimately show ?case by (auto simp: fun_eq_iff intro!: arg_cong [of _ _ "\<lambda>k. s\<lparr>kernel := Some (Masks k)\<rparr>"])
next
  case Nil
  then show ?case by (cases s) simp
qed

lemma register_all_filters:
  "kernel s = Some (Filters r w) \<Longrightarrow>
    register_all fds s = (None, s\<lparr>kernel := Some (Filters (\<lambda>f. r f \<or> f \<in> set fds \<and> f \<in> set (fd_events s READ))
      (\<lambda>f. w f \<or> f \<in> set fds \<and> f \<in> set (fd_events s WRITE)))\<rparr>)"
proof (induction fds arbitrary: s r w)
  case (Cons fd fds)
  let ?r = "if fd \<in> set (fd_events s READ) then r(fd := True) else r"
    and ?w = "if fd \<in> set (fd_events s WRITE) then w(fd := True) else w"
  have "register_fd fd (interest s fd) s = (None, s\<lparr>kernel := Some (Filters ?r ?w)\<rparr>)"
    using Cons.prems by (simp add: register_fd_def modify_fd_events_def control_def interest_has)
  moreover have "register_all fds (s\<lparr>kernel := Some (Filters ?r ?w)\<rparr>) = (None, (s\<lparr>kernel := Some (Filters ?r ?w)\<rparr>)
      \<lparr>kernel := Some (Filters (\<lambda>f. ?r f \<or> f \<in> set fds \<and> f \<in> set (fd_events s READ))
        (\<lambda>f. ?w f \<or> f \<in> set fds \<and> f \<in> set (fd_events s WRITE)))\<rparr>)"
    by (subst Cons.IH) simp_all
  ultimately show ?case
    by (auto simp: fun_eq_iff intro!: arg_cong2 [of _ _ _ _ "\<lambda>k l. s\<lparr>kernel := Some (Filters k l)\<rparr>"])
next
  case Nil
  then show ?case by (cases s) simp
qed

lemma activate_poller_ok:
  assumes "poller_ok s" "kernel s = None" "activate_poller s = (e, t)"
  shows "e = None \<and> poller_ok t \<and> watched t = watched s \<and> (kernel t = None \<longleftrightarrow> kind s = SelectPoller)"
proof -
  define fds where "fds = remdups (concat (map (fd_events s) [READ, WRITE, ERROR]))"
  note ok = poller_okD [OF assms(1)]
  have fds: "distinct fds" "f \<in> set fds \<longleftrightarrow> fd_handlers s f \<noteq> None" for f
    using ok(2) [of f] by (auto simp: fds_def interest_values split: if_splits)
  have finish: ?thesis if "t = s\<lparr>kernel := k\<rparr>" "e = None" "k = None \<longleftrightarrow> kind s = SelectPoller"
    "\<And>k'. k = Some k' \<Longrightarrow> agrees (s\<lparr>kernel := k\<rparr>) k'" for k
    using that ok by (auto simp: poller_ok_def closed_def)
  have masks: ?thesis if k: "kind s \<in> {PollPoller, EPollPoller}"
  proof -
    define s0 where "s0 = s\<lparr>kernel := Some (Masks (\<lambda>_. None))\<rparr>"
    have i: "interest s0 = interest s" by (simp add: s0_def)
    have "register_all fds s0 = (e, t)"
      using assms k unfolding s0_def by (auto simp: activate_poller_def init_poller_def fds_def)
    moreover have "register_all fds s0 = (None, s0\<lparr>kernel := Some (Masks (\<lambda>f. if f \<in> set fds then Some (interest s0 f) else None))\<rparr>)"
      by (rule register_all_masks) (simp_all add: s0_def fds(1))
    ultimately have t: "e = None" "t = s\<lparr>kernel := Some (Masks (\<lambda>f. if f \<in> set fds then Some (interest s f) else None))\<rparr>"
      unfolding i by (simp_all add: s0_def)
    show ?thesis using k by (intro finish [OF t(2,1)]) (auto simp: agrees_def fds(2))
  qed
  show ?thesis
  proof (cases "kind s")
    case SelectPoller
    have "register_all fds s = (None, s)" for fds
      using assms(2) by (induction fds) (simp_all add: register_fd_def)
    with assms SelectPoller show ?thesis
      by (intro finish [of None]) (auto simp: activate_poller_def init_poller_def kernel_self)
  next
    case KQueuePoller
    define s0 where "s0 = s\<lparr>kernel := Some (Filters (\<lambda>_. False) (\<lambda>_. False))\<rparr>"
    have "register_all fds s0 = (e, t)"
      using assms KQueuePoller unfolding s0_def by (simp add: activate_poller_def init_poller_def fds_def)
    moreover have "register_all fds s0 = (None, s0\<lparr>kernel := Some (Filters (\<lambda>f. False \<or> f \<in> set fds \<and> f \<in> set (fd_events s0 READ))
        (\<lambda>f. False \<or> f \<in> set fds \<and> f \<in> set (fd_events s0 WRITE)))\<rparr>)"
      by (rule register_all_filters) (simp add: s0_def)
    ultimately have t: "e = None" "t = s\<lparr>kernel := Some (Filters (\<lambda>f. f \<in> set fds \<and> f \<in> set (fd_events s READ))
        (\<lambda>f. f \<in> set fds \<and> f \<in> set (fd_events s WRITE)))\<rparr>"
      by (simp_all add: s0_def)
    show ?thesis using KQueuePoller by (intro finish [OF t(2,1)]) (auto simp: agrees_def fds_def)
  qed (use masks in simp_all)
qed

lemma deactivate_poller_ok: "poller_ok s \<Longrightarrow> poller_ok (deactivate_poller s)"
  by (simp add: poller_ok_def deactivate_poller_def uninit_poller_def closed_def)

lemma new_poller_ok: "poller_ok (new_poller k fd h)"
  by (simp add: new_poller_def add_handler_def closed_def set_handler_events_eq with_event_def register_fd_def
      poller_ok_def interest_values event_values)

section \<open>What a handler may do\<close>

text \<open>
  Any sequence of calls that keep to the interface, \<open>stop\<close>, and beginnings of a nested dispatch.
\<close>

inductive poller_acts :: "'h poller \<Rightarrow> 'h poller \<Rightarrow> bool" where
  acts_nothing: "poller_acts s s"
| acts_add: "poller_acts s t \<Longrightarrow> fd_handlers t fd = None \<Longrightarrow> mask_ok m \<Longrightarrow> m \<noteq> 0 \<Longrightarrow> add_handler fd h m t = (e, u) \<Longrightarrow> poller_acts s u"
| acts_update: "poller_acts s t \<Longrightarrow> fd_handlers t fd \<noteq> None \<Longrightarrow> mask_ok m \<Longrightarrow> m \<noteq> 0 \<Longrightarrow> update_handler fd m t = (e, u) \<Longrightarrow> poller_acts s u"
| acts_remove: "poller_acts s t \<Longrightarrow> fd_handlers t fd \<noteq> None \<Longrightarrow> remove_handler fd t = (e, u) \<Longrightarrow> poller_acts s u"
| acts_stop: "poller_acts s t \<Longrightarrow> poller_acts s (stop_poller t)"
| acts_poll: "poller_acts s t \<Longrightarrow> fst ` set ready \<subseteq> dom (fd_handlers t) \<Longrightarrow> distinct (map fst ready) \<Longrightarrow>
    poller_acts s (t\<lparr>processing := ready, generation := Suc (generation t)\<rparr>)"

lemma poller_ok_poll:
  "poller_ok t \<Longrightarrow> fst ` set ready \<subseteq> dom (fd_handlers t) \<Longrightarrow> distinct (map fst ready) \<Longrightarrow>
    poller_ok (t\<lparr>processing := ready, generation := g\<rparr>)"
  by (auto simp: poller_ok_def closed_def interest_def agrees_def split: kernel.splits)

lemma poller_acts_ok: "poller_acts s t \<Longrightarrow> poller_ok s \<Longrightarrow> poller_ok t \<and> later s t"
proof (induction rule: poller_acts.induct)
  case acts_nothing
  then show ?case by (simp add: later_def)
next
  case (acts_add s t fd m h e u)
  then show ?case using add_handler_ok [of t fd m h e u] by (auto simp: later_def)
next
  case (acts_update s t fd m e u)
  then show ?case using update_handler_ok [of t fd _ m e u] by (auto simp: later_def)
next
  case (acts_remove s t fd e u)
  then show ?case using remove_handler_ok [of t fd _ e u] by (auto simp: later_def)
next
  case (acts_stop s t)
  then show ?case
    by (auto simp: stop_poller_def later_def poller_ok_def closed_def interest_def agrees_def split: kernel.splits)
next
  case (acts_poll s t ready)
  then show ?case by (auto simp: later_def intro!: poller_ok_poll)
qed

definition well_behaved_handlers :: "('e, 'h, 'w) fd_runner \<Rightarrow> bool" where
  "well_behaved_handlers perform \<longleftrightarrow> (\<forall>h fd events w s. poller_acts s (snd (snd (perform h fd events (w, s)))))"

lemma performed:
  assumes "well_behaved_handlers perform" "perform h fd events (w, s) = (e, w', t)" "poller_ok s"
  shows "poller_ok t" "later s t"
proof -
  have "poller_acts s (snd (snd (perform h fd events (w, s))))"
    using assms(1) by (simp add: well_behaved_handlers_def)
  with assms(2,3) show "poller_ok t" "later s t" by (simp_all add: poller_acts_ok)
qed

lemma later_lookup:
  assumes "later s t" "poller_ok s" "poller_ok t" "generation t \<le> generation s" "map_of (processing t) fd = Some m"
  shows "map_of (processing s) fd = Some m"
  using assms by (auto simp: later_def map_of_eq_Some_iff dest!: map_of_SomeD poller_okD(5))

text \<open>
  A round never fails in the poller itself, and calls every descriptor at most once; it keeps what
  every handler keeps, and fails only as a handler does.
\<close>

lemma dispatch_loop_rule:
  assumes ok: "\<And>w s. J w s \<Longrightarrow> poller_ok s"
    and keep: "\<And>h fd m w s e w' t. J w s \<Longrightarrow> fd_handlers s fd = Some h \<Longrightarrow> perform h fd m (w, s) = (e, w', t) \<Longrightarrow>
      J w' t \<and> later s t \<and> (\<forall>x. e = Some x \<longrightarrow> Q x)"
    and "J w s" "dispatch_loop perform g fds (w, s) = (e, called, w', t)"
  shows "(\<forall>x. e \<noteq> Some (Inr x)) \<and> (\<forall>x. e = Some (Inl x) \<longrightarrow> Q x) \<and> J w' t \<and> later s t \<and> subseq (map fst called) fds"
  using assms(3,4)
proof (induction fds arbitrary: w s e called)
  case Nil
  then show ?case by (simp add: later_def)
next
  case (Cons fd fds)
  define found where "found = (if generation s = g then map_of (processing s) fd else None)"
  show ?case
  proof (cases "found = None \<or> still_wanted s fd (the found) = 0")
    case True
    with Cons.prems(2) have "dispatch_loop perform g fds (w, s) = (e, called, w', t)"
      by (cases found) (auto simp: found_def [symmetric] Let_def)
    from Cons.IH [OF Cons.prems(1) this] show ?thesis by (auto intro: list_emb_Cons)
  next
    case False
    then obtain m where m: "found = Some m" "still_wanted s fd m \<noteq> 0" by auto
    then have "fd \<in> fst ` set (processing s)" by (auto simp: found_def split: if_splits dest!: map_of_SomeD intro: rev_image_eqI)
    with poller_okD(4) [OF ok [OF Cons.prems(1)]] obtain h where h: "fd_handlers s fd = Some h" by blast
    obtain e1 w1 s1 where p: "perform h fd (still_wanted s fd m) (w, s) = (e1, w1, s1)" by (metis prod_cases3)
    note s1 = keep [OF Cons.prems(1) h p]
    show ?thesis
    proof (cases e1)
      case (Some x)
      with Cons.prems(2) m h p s1 show ?thesis
        by (auto simp: found_def [symmetric] Let_def)
    next
      case None
      obtain e2 called2 w2 t2 where r: "dispatch_loop perform g fds (w1, s1) = (e2, called2, w2, t2)" by (metis prod_cases4)
      with Cons.prems(2) m h p None have eq: "e2 = e" "called = (fd, still_wanted s fd m) # called2" "w2 = w'" "t2 = t"
        by (simp_all add: found_def [symmetric] Let_def)
      from Cons.IH [OF _ r [unfolded eq]] eq s1 show ?thesis
        by (auto intro: later_trans)
    qed
  qed
qed

lemma dispatch_loop_ok:
  assumes "well_behaved_handlers perform" "poller_ok s" "dispatch_loop perform g fds (w, s) = (e, called, w', t)"
  shows "(\<forall>x. e \<noteq> Some (Inr x)) \<and> poller_ok t \<and> later s t \<and> subseq (map fst called) fds"
  using dispatch_loop_rule [where J = "\<lambda>_. poller_ok" and Q = "\<lambda>_. True", OF _ _ assms(2,3)] performed [OF assms(1)]
  by blast

text \<open>A descriptor that has left the dict is not called in the rest of the round.\<close>

lemma dispatch_loop_skips:
  assumes "well_behaved_handlers perform" "poller_ok s" "g \<le> generation s" "generation s = g \<Longrightarrow> fd \<notin> fst ` set (processing s)"
    "dispatch_loop perform g fds (w, s) = (e, called, w', t)"
  shows "fd \<notin> fst ` set called"
  using assms(2-5)
proof (induction fds arbitrary: w s e called)
  case (Cons f fds)
  define found where "found = (if generation s = g then map_of (processing s) f else None)"
  show ?case
  proof (cases "found = None \<or> still_wanted s f (the found) = 0 \<or> fd_handlers s f = None")
    case True
    show ?thesis
    proof (cases "found = None \<or> still_wanted s f (the found) = 0")
      case True
      with Cons.prems(4) have "dispatch_loop perform g fds (w, s) = (e, called, w', t)"
        by (cases found) (auto simp: found_def [symmetric] Let_def)
      from Cons.IH [OF Cons.prems(1-3) this] show ?thesis by blast
    next
      case False
      with True Cons.prems(4) show ?thesis by (auto simp: found_def [symmetric] Let_def)
    qed
  next
    case False
    then obtain m h where m: "found = Some m" "still_wanted s f m \<noteq> 0" "fd_handlers s f = Some h" by auto
    then have "f \<noteq> fd" using Cons.prems(3) by (force simp: found_def split: if_splits dest!: map_of_SomeD)
    obtain e1 w1 s1 where p: "perform h f (still_wanted s f m) (w, s) = (e1, w1, s1)" by (metis prod_cases3)
    note s1 = performed [OF assms(1) p Cons.prems(1)]
    show ?thesis
    proof (cases e1)
      case (Some x)
      with Cons.prems(4) m p \<open>f \<noteq> fd\<close> show ?thesis by (auto simp: found_def [symmetric] Let_def)
    next
      case None
      obtain e2 called2 w2 t2 where r: "dispatch_loop perform g fds (w1, s1) = (e2, called2, w2, t2)" by (metis prod_cases4)
      with Cons.prems(4) m p None have eq: "e2 = e" "called = (f, still_wanted s f m) # called2" "w2 = w'" "t2 = t"
        by (simp_all add: found_def [symmetric] Let_def)
      have "g \<le> generation s1" "generation s1 = g \<Longrightarrow> fd \<notin> fst ` set (processing s1)"
        using s1(2) Cons.prems(2,3) by (auto simp: later_def)
      from Cons.IH [OF s1(1) this r [unfolded eq]] eq \<open>f \<noteq> fd\<close> show ?thesis by auto
    qed
  qed
qed simp

section \<open>A poller over time\<close>

text \<open>
  What a client and the loop do with a poller; \<open>Ready\<close> is a round in which \<open>poll\<close> of the operating
  system returned some of the descriptors that are registered.
\<close>

datatype 'h poller_event =
  Add_handler fd 'h int | Update_handler fd int | Remove_handler fd | Activate | Deactivate | Ready "(fd \<times> int) list"

fun poller_step :: "('e, 'h, 'w) fd_runner \<Rightarrow> 'h poller_event \<Rightarrow> 'w \<times> 'h poller \<Rightarrow> ('w \<times> 'h poller) option" where
  "poller_step perform (Add_handler fd h m) (w, s) =
     (if fd_handlers s fd = None \<and> mask_ok m \<and> m \<noteq> 0 then Some (w, snd (add_handler fd h m s)) else None)"
| "poller_step perform (Update_handler fd m) (w, s) =
     (if fd_handlers s fd \<noteq> None \<and> mask_ok m \<and> m \<noteq> 0 then Some (w, snd (update_handler fd m s)) else None)"
| "poller_step perform (Remove_handler fd) (w, s) =
     (if fd_handlers s fd \<noteq> None then Some (w, snd (remove_handler fd s)) else None)"
| "poller_step perform Activate (w, s) = (if kernel s = None then Some (w, snd (activate_poller s)) else None)"
| "poller_step perform Deactivate (w, s) = Some (w, deactivate_poller s)"
| "poller_step perform (Ready ready) (w, s) =
     (if list_all (\<lambda>(fd, _). fd_handlers s fd \<noteq> None) ready \<and> distinct (map fst ready)
      then (case dispatch_fd_events perform ready (w, s) of (_, _, ws) \<Rightarrow> Some ws) else None)"

lemma dispatch_ok:
  assumes "well_behaved_handlers perform" "poller_ok s" "fst ` set ready \<subseteq> dom (fd_handlers s)" "distinct (map fst ready)"
    "dispatch_fd_events perform ready (w, s) = (e, called, w', t)"
  shows "(\<forall>x. e \<noteq> Some (Inr x)) \<and> poller_ok t \<and> subseq (map fst called) (map fst ready)"
proof -
  have "dispatch_loop perform (Suc (generation s)) (map fst ready)
      (w, s\<lparr>processing := ready, generation := Suc (generation s)\<rparr>) = (e, called, w', t)"
    using assms(5) by (simp add: dispatch_fd_events_def)
  from dispatch_loop_ok [OF assms(1) poller_ok_poll [OF assms(2-4)] this] show ?thesis by blast
qed

lemma poller_step_ok:
  assumes perform: "well_behaved_handlers perform" and s: "poller_ok s" and step: "poller_step perform ev (w, s) = Some (w', t)"
  shows "poller_ok t"
proof (cases ev)
  case (Add_handler fd h m)
  with step s add_handler_ok [of s fd m h] show ?thesis by (auto simp: prod_eq_iff split: if_splits)
next
  case (Update_handler fd m)
  with step s update_handler_ok [of s fd _ m] show ?thesis by (auto simp: prod_eq_iff split: if_splits)
next
  case (Remove_handler fd)
  with step s remove_handler_ok [of s fd] show ?thesis by (auto simp: prod_eq_iff split: if_splits)
next
  case Activate
  with step s activate_poller_ok [of s] show ?thesis by (auto simp: prod_eq_iff split: if_splits)
next
  case Deactivate
  with step s show ?thesis by (auto intro: deactivate_poller_ok)
next
  case (Ready ready)
  obtain e called w2 t2 where d: "dispatch_fd_events perform ready (w, s) = (e, called, w2, t2)" by (metis prod_cases4)
  with step Ready have r: "fst ` set ready \<subseteq> dom (fd_handlers s)" "distinct (map fst ready)" "t2 = t"
    by (auto simp: list_all_iff split: if_splits)
  with dispatch_ok [OF perform s r(1,2) d] show ?thesis by simp
qed

interpretation polling: invariant_system "(w0, new_poller k fd h)" "poller_step perform"
  "\<lambda>(w, s). well_behaved_handlers perform \<longrightarrow> poller_ok s"
  for w0 k fd h perform
  by unfold_locales (auto simp: new_poller_ok dest: poller_step_ok)

section \<open>Properties\<close>


text \<open>
  Handlers may add, change and remove handlers, their own included, and start a nested
  round. Still a round never looks up a handler that is gone, and it calls each descriptor at most
  once, in the order in which the operating system reported them.
\<close>

theorem dispatch_finds_its_handlers:
  assumes "well_behaved_handlers perform" "reach (w0, new_poller k fd0 h0) (poller_step perform) (w, s)"
    and "fst ` set ready \<subseteq> dom (fd_handlers s)" "distinct (map fst ready)"
    and "dispatch_fd_events perform ready (w, s) = (e, called, w', t)"
  shows "e \<noteq> Some (Inr Key_error) \<and> subseq (map fst called) (map fst ready)"
proof -
  from polling.inv_reach [OF assms(2)] assms(1) have "poller_ok s" by simp
  from dispatch_ok [OF assms(1) this assms(3-5)] show ?thesis by blast
qed

text \<open>
  C27 (safety). The handler of a descriptor that has been removed is not called in the rest of the
  round that was under way, whatever happens after the removal, not even when the number has been
  used again for another handler.
\<close>

theorem removed_handler_not_called:
  assumes "well_behaved_handlers perform" "poller_ok s" "remove_handler fd s = (None, t)" "poller_acts t u"
    and "dispatch_loop perform (generation s) fds (w, u) = (e, called, w', v)"
  shows "fd \<notin> fst ` set called"
proof -
  have "fd_handlers s fd \<noteq> None" using assms(3) poller_okD(1) [OF assms(2)]
    by (auto simp: remove_handler_def set_handler_events_eq Let_def split: if_splits)
  then obtain h where "fd_handlers s fd = Some h" by blast
  from remove_handler_ok [OF assms(2) this assms(3)] have r: "poller_ok t" "generation t = generation s"
    "processing t = filter (\<lambda>(f, _). f \<noteq> fd) (processing s)" by blast+
  from poller_acts_ok [OF assms(4) r(1)] r(2,3) have "poller_ok u" "generation s \<le> generation u"
    "generation u = generation s \<Longrightarrow> fd \<notin> fst ` set (processing u)" by (auto simp: later_def)
  from dispatch_loop_skips [OF assms(1) this assms(5)] show ?thesis .
qed

text \<open>Handlers that leave the poller alone\<close>

definition quiet_handlers :: "('e, 'h, 'w) fd_runner \<Rightarrow> bool" where
  "quiet_handlers perform \<longleftrightarrow> (\<forall>h fd events w s. \<exists>w'. perform h fd events (w, s) = (None, w', s))"

lemma quiet_loop:
  assumes "quiet_handlers perform" "poller_ok s" "set fds \<subseteq> fst ` set (processing s)"
    "dispatch_loop perform (generation s) fds (w, s) = (e, called, w', t)"
  shows "e = None \<and> t = s \<and> called = filter (\<lambda>(_, m). m \<noteq> 0) (map (\<lambda>fd. (fd, still_wanted s fd (the (map_of (processing s) fd)))) fds)"
  using assms(3,4)
proof (induction fds arbitrary: w e called)
  case (Cons fd fds)
  then obtain m where m: "map_of (processing s) fd = Some m"
    by (metis domIff dom_map_of_conv_image_fst insert_subset list.simps(15) option.exhaust)
  then have "fd \<in> dom (fd_handlers s)" using poller_okD(4) [OF assms(2)] by (force dest!: map_of_SomeD)
  then obtain h where h: "fd_handlers s fd = Some h" by blast
  obtain w1 where p: "perform h fd (still_wanted s fd m) (w, s) = (None, w1, s)"
    using assms(1) by (metis quiet_handlers_def)
  show ?case
  proof (cases "still_wanted s fd m = 0")
    case True
    with Cons m show ?thesis by simp
  next
    case False
    obtain e2 called2 w2 t2 where "dispatch_loop perform (generation s) fds (w1, s) = (e2, called2, w2, t2)"
      by (metis prod_cases4)
    with Cons.prems Cons.IH [of w1 e2 called2] m h p False show ?thesis by (auto simp: Let_def)
  qed
qed simp

text \<open>
  When the handlers leave the poller alone, a round calls the handler of each descriptor
  that was reported with an event that is still waited for, once, in order, with just those events.
\<close>

theorem dispatch_calls_all_ready:
  assumes "quiet_handlers perform" "poller_ok s"
    and "fst ` set ready \<subseteq> dom (fd_handlers s)" "distinct (map fst ready)"
    and "dispatch_fd_events perform ready (w, s) = (e, called, w', t)"
  shows "e = None \<and> watched t = watched s
    \<and> called = filter (\<lambda>(_, m). m \<noteq> 0) (map (\<lambda>(fd, m). (fd, still_wanted s fd m)) ready)"
proof -
  let ?s = "s\<lparr>processing := ready, generation := Suc (generation s)\<rparr>"
  from assms(5) have d: "dispatch_loop perform (generation ?s) (map fst ready) (w, ?s) = (e, called, w', t)"
    by (simp add: dispatch_fd_events_def)
  have same: "still_wanted ?s = still_wanted s" "watched ?s = watched s"
    by (simp_all add: still_wanted_def watched_def interest_def fun_eq_iff)
  have map_ready: "map (\<lambda>fd. (fd, still_wanted s fd (the (map_of ready fd)))) (map fst ready)
      = map (\<lambda>(fd, m). (fd, still_wanted s fd m)) ready"
    using assms(4) by (auto simp: map_of_is_SomeI)
  have keys: "set (map fst ready) \<subseteq> fst ` set (processing ?s)" and dict: "processing ?s = ready" by simp_all
  note r = quiet_loop [OF assms(1) poller_ok_poll [OF assms(2-4)] keys d, unfolded dict same map_ready]
  then have "e = None" "t = ?s" "called = filter (\<lambda>(_, m). m \<noteq> 0) (map (\<lambda>(fd, m). (fd, still_wanted s fd m)) ready)"
    by blast+
  with same show ?thesis by simp
qed

section \<open>The properties applied\<close>

definition silent :: "(unit, nat, unit) fd_runner" where
  "silent h fd events ws = (None, ws)"

lemma silent: "quiet_handlers silent" "well_behaved_handlers silent"
  by (simp_all add: quiet_handlers_def well_behaved_handlers_def silent_def acts_nothing)

text \<open>A handler that removes the handler of descriptor 5\<close>

definition remover :: "(unit, nat, unit) fd_runner" where
  "remover h fd events = (\<lambda>(w, s). (None, w, if fd_handlers s 5 \<noteq> None then snd (remove_handler 5 s) else s))"

lemma remover: "well_behaved_handlers remover"
  unfolding well_behaved_handlers_def remover_def
  by (auto intro: acts_nothing acts_remove [OF acts_nothing] simp: prod_eq_iff)

definition two_handlers :: "nat poller" where
  "two_handlers = snd (add_handler 5 1 WRITE (snd (add_handler 4 1 READ (snd (activate_poller (new_poller EPollPoller 3 0))))))"

lemma two_handlers_reached: "reach ((), new_poller EPollPoller 3 0) (poller_step perform) ((), two_handlers)"
proof -
  have "run (poller_step perform) [Activate, Add_handler 4 1 READ, Add_handler 5 1 WRITE] ((), new_poller EPollPoller 3 0)
      = Some ((), two_handlers)"
    by (simp add: two_handlers_def new_poller_def add_handler_def closed_def set_handler_events_eq with_event_def
        register_fd_def activate_poller_def init_poller_def mask_ok_def event_values)
  then show ?thesis by (rule run_reach) (rule reach_init)
qed

lemma two_handlers_ok: "poller_ok two_handlers"
  using polling.inv_reach [OF two_handlers_reached [of silent]] silent(2) by simp


lemma dispatch_finds_its_handlers_witness:
  "(let (e, called, _) = dispatch_fd_events remover [(4, READ), (5, WRITE)] ((), two_handlers)
    in e \<noteq> Some (Inr Key_error) \<and> subseq (map fst called) [4, 5] \<and> called = [(4, READ)])"
proof -
  obtain e called w t where d: "dispatch_fd_events remover [(4, READ), (5, WRITE)] ((), two_handlers) = (e, called, w, t)"
    by (metis prod_cases4)
  have "fst (snd (dispatch_fd_events remover [(4, READ), (5, WRITE)] ((), two_handlers))) = [(4, READ)]"
    by code_simp
  moreover have "fd_handlers two_handlers 4 \<noteq> None" "fd_handlers two_handlers 5 \<noteq> None" by code_simp+
  moreover note dispatch_finds_its_handlers [OF remover two_handlers_reached _ _ d]
  ultimately show ?thesis using d by auto
qed

lemma removed_handler_not_called_witness:
  "5 \<notin> fst ` set (fst (snd (dispatch_loop silent (generation two_handlers) [4, 5] ((), snd (remove_handler 5 two_handlers)))))"
proof -
  have "fst (remove_handler 5 two_handlers) = None" by code_simp
  then have r: "remove_handler 5 two_handlers = (None, snd (remove_handler 5 two_handlers))" by (simp add: prod_eq_iff)
  obtain e called w t where d: "dispatch_loop silent (generation two_handlers) [4, 5] ((), snd (remove_handler 5 two_handlers))
      = (e, called, w, t)" by (metis prod_cases4)
  from removed_handler_not_called [OF silent(2) two_handlers_ok r acts_nothing d] d show ?thesis by simp
qed

lemma dispatch_calls_all_ready_witness:
  "fst (snd (dispatch_fd_events silent [(5, WRITE OR ERROR), (4, WRITE)] ((), two_handlers))) = [(5, WRITE)]"
proof -
  obtain e called w t where d: "dispatch_fd_events silent [(5, WRITE OR ERROR), (4, WRITE)] ((), two_handlers) = (e, called, w, t)"
    by (metis prod_cases4)
  have "fd_handlers two_handlers 4 \<noteq> None" "fd_handlers two_handlers 5 \<noteq> None" by code_simp+
  moreover have "filter (\<lambda>(_, m). m \<noteq> 0) (map (\<lambda>(fd, m). (fd, still_wanted two_handlers fd m)) [(5, WRITE OR ERROR), (4, WRITE)])
      = [(5, WRITE)]" by code_simp
  moreover note dispatch_calls_all_ready [OF silent(1) two_handlers_ok _ _ d]
  ultimately show ?thesis using d by auto
qed

end
