(* ===== verification/Fd_Watchers.thy ===== *)
theory Fd_Watchers
  imports Poller
begin

text \<open>
  \<open>adapters/utils/selector_ioloop_adapter.py\<close>: the part of \<open>SelectorIOServicesAdapter\<close> that watches file
  descriptors for a reader and a writer, on top of any loop with the interface
  \<open>AbstractSelectorIOLoop\<close>, here a record of its three operations. The interface's laws (the
  locale \<open>selector_loop\<close>) give those of the adapter; the pollers provide them. Callbacks are
  values of a type \<open>'cb\<close>; what they do is a parameter.
\<close>

section \<open>State and operations\<close>

datatype loop_handler = Read_interrupt | On_reader_writer_fd_events

record 's loop_ops =
  add_op :: "fd \<Rightarrow> loop_handler \<Rightarrow> int \<Rightarrow> 's \<Rightarrow> poller_error option \<times> 's"
  update_op :: "fd \<Rightarrow> int \<Rightarrow> 's \<Rightarrow> poller_error option \<times> 's"
  remove_op :: "fd \<Rightarrow> 's \<Rightarrow> poller_error option \<times> 's"

text \<open>\<open>_FileDescriptorCallbacks\<close>; \<open>ident\<close> is the identity of the object.\<close>

record 'cb fd_callbacks =
  ident :: nat
  reader :: "'cb option"
  writer :: "'cb option"

record 'cb watchers =
  callbacks_of :: "fd \<Rightarrow> 'cb fd_callbacks option"
  next_ident :: nat

definition new_watchers :: "'cb watchers" where
  "new_watchers = \<lparr>callbacks_of = (\<lambda>_. None), next_ident = 0\<rparr>"

definition readable_mask :: int where "readable_mask = READ"
definition writable_mask :: int where "writable_mask = WRITE OR ERROR"

definition put :: "fd \<Rightarrow> 'cb fd_callbacks option \<Rightarrow> 'cb watchers \<Rightarrow> 'cb watchers" where
  "put fd c W = W\<lparr>callbacks_of := (callbacks_of W)(fd := c)\<rparr>"

definition set_reader :: "'s loop_ops \<Rightarrow> fd \<Rightarrow> 'cb \<Rightarrow> 'cb watchers \<times> 's \<Rightarrow> poller_error option \<times> 'cb watchers \<times> 's" where
  "set_reader L fd on_readable = (\<lambda>(W, s).
     case callbacks_of W fd of
       None \<Rightarrow>
         (case add_op L fd On_reader_writer_fd_events readable_mask s of
            (Some e, s) \<Rightarrow> (Some e, W, s)
          | (None, s) \<Rightarrow> (None, (put fd (Some \<lparr>ident = next_ident W, reader = Some on_readable, writer = None\<rparr>) W)
              \<lparr>next_ident := Suc (next_ident W)\<rparr>, s))
     | Some c \<Rightarrow>
         if reader c = None then
           if writer c = None then (Some Assertion_error, W, s)
           else (case update_op L fd (readable_mask OR writable_mask) s of
             (Some e, s) \<Rightarrow> (Some e, W, s)
           | (None, s) \<Rightarrow> (None, put fd (Some (c\<lparr>reader := Some on_readable\<rparr>)) W, s))
         else (None, put fd (Some (c\<lparr>reader := Some on_readable\<rparr>)) W, s))"

definition remove_reader :: "'s loop_ops \<Rightarrow> fd \<Rightarrow> 'cb watchers \<times> 's \<Rightarrow> (poller_error + bool) \<times> 'cb watchers \<times> 's" where
  "remove_reader L fd = (\<lambda>(W, s).
     case callbacks_of W fd of
       None \<Rightarrow> (Inr False, W, s)
     | Some c \<Rightarrow>
         if reader c = None then ((if writer c = None then Inl Assertion_error else Inr False), W, s)
         else let (W, (e, s)) =
           (if writer c = None then (put fd None W, remove_op L fd s)
            else (put fd (Some (c\<lparr>reader := None\<rparr>)) W, update_op L fd writable_mask s))
         in (case e of Some e \<Rightarrow> Inl e | None \<Rightarrow> Inr True, W, s))"

definition set_writer :: "'s loop_ops \<Rightarrow> fd \<Rightarrow> 'cb \<Rightarrow> 'cb watchers \<times> 's \<Rightarrow> poller_error option \<times> 'cb watchers \<times> 's" where
  "set_writer L fd on_writable = (\<lambda>(W, s).
     case callbacks_of W fd of
       None \<Rightarrow>
         (case add_op L fd On_reader_writer_fd_events writable_mask s of
            (Some e, s) \<Rightarrow> (Some e, W, s)
          | (None, s) \<Rightarrow> (None, (put fd (Some \<lparr>ident = next_ident W, reader = None, writer = Some on_writable\<rparr>) W)
              \<lparr>next_ident := Suc (next_ident W)\<rparr>, s))
     | Some c \<Rightarrow>
         let W' = put fd (Some (c\<lparr>writer := Some on_writable\<rparr>)) W in
         if writer c = None then
           if reader c = None then (Some Assertion_error, W, s)
           else let (e, s) = update_op L fd (readable_mask OR writable_mask) s in (e, W', s)
         else (None, W', s))"

definition remove_writer :: "'s loop_ops \<Rightarrow> fd \<Rightarrow> 'cb watchers \<times> 's \<Rightarrow> (poller_error + bool) \<times> 'cb watchers \<times> 's" where
  "remove_writer L fd = (\<lambda>(W, s).
     case callbacks_of W fd of
       None \<Rightarrow> (Inr False, W, s)
     | Some c \<Rightarrow>
         if writer c = None then ((if reader c = None then Inl Assertion_error else Inr False), W, s)
         else let (W, (e, s)) =
           (if reader c = None then (put fd None W, remove_op L fd s)
            else (put fd (Some (c\<lparr>writer := None\<rparr>)) W, update_op L fd readable_mask s))
         in (case e of Some e \<Rightarrow> Inl e | None \<Rightarrow> Inr True, W, s))"

text \<open>
  \<open>_on_reader_writer_fd_events\<close>. After the writer has run, \<open>callbacks.reader\<close> is read from the object that
  was looked up before; an object that has left the dict has neither callback. The list is
  what has been called, \<open>True\<close> for a writer.
\<close>

type_synonym ('e, 'cb, 'w, 's) cb_runner =
  "'cb \<Rightarrow> 'w \<times> 'cb watchers \<times> 's \<Rightarrow> 'e option \<times> 'w \<times> 'cb watchers \<times> 's"

definition reader_now :: "fd \<Rightarrow> nat \<Rightarrow> 'cb watchers \<Rightarrow> 'cb option" where
  "reader_now fd i W = (case callbacks_of W fd of Some c \<Rightarrow> if ident c = i then reader c else None | None \<Rightarrow> None)"

definition on_fd_events :: "('e, 'cb, 'w, 's) cb_runner \<Rightarrow> fd \<Rightarrow> int \<Rightarrow> 'w \<times> 'cb watchers \<times> 's \<Rightarrow>
    ('e + poller_error) option \<times> (bool \<times> 'cb) list \<times> 'w \<times> 'cb watchers \<times> 's" where
  "on_fd_events call fd events = (\<lambda>(w, W, s).
     case callbacks_of W fd of
       None \<Rightarrow> (Some (Inr Key_error), [], w, W, s)
     | Some c \<Rightarrow>
         let (e, called, w, W, s) =
           (if events AND writable_mask = 0 then (None, [], w, W, s)
            else case writer c of
              None \<Rightarrow> (None, [], w, W, s)
            | Some cb \<Rightarrow> let (e, w, W, s) = call cb (w, W, s) in (e, [(True, cb)], w, W, s))
         in case e of
           Some e \<Rightarrow> (Some (Inl e), called, w, W, s)
         | None \<Rightarrow>
             if events AND readable_mask = 0 then (None, called, w, W, s)
             else case reader_now fd (ident c) W of
               None \<Rightarrow> (None, called, w, W, s)
             | Some cb \<Rightarrow> let (e, ws) = call cb (w, W, s) in (map_option Inl e, called @ [(False, cb)], ws))"

section \<open>What the adapter promises\<close>

text \<open>The abstract view: who reads and who writes\<close>

definition readers :: "'cb watchers \<Rightarrow> fd \<Rightarrow> 'cb option" where
  "readers W fd = (case callbacks_of W fd of None \<Rightarrow> None | Some c \<Rightarrow> reader c)"

definition writers :: "'cb watchers \<Rightarrow> fd \<Rightarrow> 'cb option" where
  "writers W fd = (case callbacks_of W fd of None \<Rightarrow> None | Some c \<Rightarrow> writer c)"

definition wanted_mask :: "'cb option \<Rightarrow> 'cb option \<Rightarrow> int" where
  "wanted_mask r w = (if r = None then 0 else readable_mask) OR (if w = None then 0 else writable_mask)"

lemma wanted_mask_ok: "mask_ok (wanted_mask r w)" "wanted_mask r w = 0 \<longleftrightarrow> r = None \<and> w = None"
  by (simp_all add: wanted_mask_def mask_ok_def readable_mask_def writable_mask_def event_values)

text \<open>Nothing is kept without a callback, and the identities are in use once.\<close>

definition watchers_ok :: "'cb watchers \<Rightarrow> bool" where
  "watchers_ok W \<longleftrightarrow> (\<forall>fd c. callbacks_of W fd = Some c \<longrightarrow> (reader c \<noteq> None \<or> writer c \<noteq> None) \<and> ident c < next_ident W)
     \<and> (\<forall>fd fd' c c'. callbacks_of W fd = Some c \<longrightarrow> callbacks_of W fd' = Some c' \<longrightarrow> ident c = ident c' \<longrightarrow> fd = fd')"

lemma watchers_ok_put:
  assumes "watchers_ok W" "c \<noteq> None \<Longrightarrow> callbacks_of W fd \<noteq> None \<and> ident (the c) = ident (the (callbacks_of W fd))
      \<and> (reader (the c) \<noteq> None \<or> writer (the c) \<noteq> None)"
  shows "watchers_ok (put fd c W)"
  using assms unfolding watchers_ok_def put_def
  by (auto split: if_splits)

lemma watchers_ok_new:
  assumes "watchers_ok W" "r \<noteq> None \<or> w \<noteq> None"
  shows "watchers_ok ((put fd (Some \<lparr>ident = next_ident W, reader = r, writer = w\<rparr>) W)\<lparr>next_ident := Suc (next_ident W)\<rparr>)"
  using assms unfolding watchers_ok_def put_def
  by (auto simp: less_Suc_eq split: if_splits) (metis less_irrefl)+

text \<open>
  \<open>watches R Z s\<close>: the loop watches for just the descriptors with a reader or a writer, besides
  descriptors of its own, which are given another handler.
\<close>

definition consistent :: "('s \<Rightarrow> fd \<Rightarrow> (loop_handler \<times> int) option) \<Rightarrow> 'cb watchers \<Rightarrow> 's \<Rightarrow> bool" where
  "consistent watching W s \<longleftrightarrow> watchers_ok W \<and>
     (\<forall>fd m. watching s fd = Some (On_reader_writer_fd_events, m) \<longleftrightarrow>
        m = wanted_mask (readers W fd) (writers W fd) \<and> m \<noteq> 0)"

definition free :: "('s \<Rightarrow> fd \<Rightarrow> (loop_handler \<times> int) option) \<Rightarrow> fd \<Rightarrow> 's \<Rightarrow> bool" where
  "free watching fd s \<longleftrightarrow> (\<forall>m. watching s fd \<noteq> Some (Read_interrupt, m))"

locale fd_services = selector_loop "add_op L" "update_op L" "remove_op L" watching ok follows
  for L :: "'s loop_ops" and watching :: "'s \<Rightarrow> fd \<Rightarrow> (loop_handler \<times> int) option" and ok :: "'s \<Rightarrow> bool"
    and follows :: "'s \<Rightarrow> 's \<Rightarrow> bool"
begin

lemma nothing_watched:
  assumes "consistent watching W s" "free watching fd s" "callbacks_of W fd = None"
  shows "watching s fd = None"
proof (cases "watching s fd")
  case (Some x)
  moreover obtain h m where "x = (h, m)" by (cases x)
  ultimately show ?thesis using assms
    by (cases h) (auto simp: consistent_def free_def readers_def writers_def wanted_mask_def)
qed

lemma something_watched:
  assumes "consistent watching W s" "callbacks_of W fd = Some c"
  shows "watching s fd = Some (On_reader_writer_fd_events, wanted_mask (reader c) (writer c))"
proof -
  have "reader c \<noteq> None \<or> writer c \<noteq> None" using assms by (auto simp: consistent_def watchers_ok_def)
  then have "wanted_mask (reader c) (writer c) \<noteq> 0" by (simp add: wanted_mask_ok)
  with assms show ?thesis by (auto simp: consistent_def readers_def writers_def)
qed

lemma consistentI:
  assumes "consistent watching W s" "watchers_ok W'" "ok t" "free watching fd s"
    and "\<And>f. f \<noteq> fd \<Longrightarrow> callbacks_of W' f = callbacks_of W f"
    and "watching t = (watching s)(fd := (if callbacks_of W' fd = None then None
           else Some (On_reader_writer_fd_events, wanted_mask (readers W' fd) (writers W' fd))))"
  shows "ok t \<and> consistent watching W' t \<and> (\<forall>f. free watching f t \<longleftrightarrow> free watching f s)"
proof -
  have "readers W' f = readers W f" "writers W' f = writers W f" if "f \<noteq> fd" for f
    using assms(5) [OF that] by (simp_all add: readers_def writers_def)
  moreover have "wanted_mask (readers W' fd) (writers W' fd) \<noteq> 0 \<longleftrightarrow> callbacks_of W' fd \<noteq> None"
    using assms(2) by (auto simp: wanted_mask_ok readers_def writers_def watchers_ok_def split: option.splits)
  ultimately have "consistent watching W' t"
    using assms(1,2,6) by (auto simp: consistent_def)
  moreover have "free watching f t \<longleftrightarrow> free watching f s" for f
    using assms(4,6) by (auto simp: free_def)
  ultimately show ?thesis using assms(3) by simp
qed

lemma set_reader_ok:
  assumes W: "ok s" "consistent watching W s" "free watching fd s" and r: "set_reader L fd cb (W, s) = (e, W', t)"
  shows "e = None \<and> ok t \<and> follows s t \<and> consistent watching W' t \<and> (\<forall>f. free watching f t \<longleftrightarrow> free watching f s)
    \<and> readers W' = (readers W)(fd \<mapsto> cb) \<and> writers W' = writers W"
proof (cases "callbacks_of W fd")
  case None
  obtain e1 t1 where a: "add_op L fd On_reader_writer_fd_events readable_mask s = (e1, t1)" by (metis prod.exhaust)
  have "mask_ok readable_mask" "readable_mask \<noteq> 0" by (simp_all add: readable_mask_def mask_ok_def event_values)
  from add_watches [OF W(1) nothing_watched [OF W(2,3) None] this a]
  have add: "e1 = None" "ok t1" "follows s t1" "watching t1 = (watching s)(fd \<mapsto> (On_reader_writer_fd_events, readable_mask))" by blast+
  let ?W = "(put fd (Some \<lparr>ident = next_ident W, reader = Some cb, writer = None\<rparr>) W)\<lparr>next_ident := Suc (next_ident W)\<rparr>"
  from r None a add(1) have eqs: "e = None" "W' = ?W" "t = t1" by (auto simp: set_reader_def)
  have "watchers_ok ?W" using W(2) by (intro watchers_ok_new) (auto simp: consistent_def)
  then have "ok t1 \<and> consistent watching ?W t1 \<and> (\<forall>f. free watching f t1 \<longleftrightarrow> free watching f s)"
    using add(2,4) W by (intro consistentI [where fd = fd and W = W]) (auto simp: put_def readers_def writers_def wanted_mask_def)
  with eqs None add(3) show ?thesis by (auto simp: readers_def writers_def put_def fun_eq_iff)
next
  case (Some c)
  note w = something_watched [OF W(2) Some]
  have W_ok: "watchers_ok W" using W(2) by (simp add: consistent_def)
  then have some: "reader c \<noteq> None \<or> writer c \<noteq> None" using Some by (auto simp: watchers_ok_def)
  let ?W = "put fd (Some (c\<lparr>reader := Some cb\<rparr>)) W"
  have W'_ok: "watchers_ok ?W" using W_ok Some by (intro watchers_ok_put) auto
  show ?thesis
  proof (cases "reader c")
    case None
    obtain e1 t1 where u: "update_op L fd (readable_mask OR writable_mask) s = (e1, t1)" by (metis prod.exhaust)
    have "mask_ok (readable_mask OR writable_mask)" "readable_mask OR writable_mask \<noteq> 0"
      by (simp_all add: readable_mask_def writable_mask_def mask_ok_def event_values)
    from update_watches [OF W(1) w this u]
    have upd: "e1 = None" "ok t1" "follows s t1" "watching t1 = (watching s)(fd \<mapsto> (On_reader_writer_fd_events, readable_mask OR writable_mask))"
      by blast+
    from r Some None u upd(1) some have eqs: "e = None" "W' = ?W" "t = t1" by (auto simp: set_reader_def)
    have "ok t1 \<and> consistent watching ?W t1 \<and> (\<forall>f. free watching f t1 \<longleftrightarrow> free watching f s)"
      using upd(2,4) W W'_ok some None
      by (intro consistentI [where fd = fd and W = W]) (auto simp: put_def readers_def writers_def wanted_mask_def)
    with eqs Some None upd(3) show ?thesis by (auto simp: readers_def writers_def put_def fun_eq_iff)
  next
    case reader: (Some r0)
    with r Some have eqs: "e = None" "W' = ?W" "t = s" by (auto simp: set_reader_def)
    have "ok s \<and> consistent watching ?W s \<and> (\<forall>f. free watching f s \<longleftrightarrow> free watching f s)"
      using W W'_ok w reader
      by (intro consistentI [where fd = fd and W = W]) (auto simp: put_def readers_def writers_def wanted_mask_def fun_eq_iff)
    with eqs Some follows_self show ?thesis by (auto simp: readers_def writers_def put_def fun_eq_iff)
  qed
qed

lemma set_writer_ok:
  assumes W: "ok s" "consistent watching W s" "free watching fd s" and r: "set_writer L fd cb (W, s) = (e, W', t)"
  shows "e = None \<and> ok t \<and> follows s t \<and> consistent watching W' t \<and> (\<forall>f. free watching f t \<longleftrightarrow> free watching f s)
    \<and> writers W' = (writers W)(fd \<mapsto> cb) \<and> readers W' = readers W"
proof (cases "callbacks_of W fd")
  case None
  obtain e1 t1 where a: "add_op L fd On_reader_writer_fd_events writable_mask s = (e1, t1)" by (metis prod.exhaust)
  have "mask_ok writable_mask" "writable_mask \<noteq> 0" by (simp_all add: writable_mask_def mask_ok_def event_values)
  from add_watches [OF W(1) nothing_watched [OF W(2,3) None] this a]
  have add: "e1 = None" "ok t1" "follows s t1" "watching t1 = (watching s)(fd \<mapsto> (On_reader_writer_fd_events, writable_mask))" by blast+
  let ?W = "(put fd (Some \<lparr>ident = next_ident W, reader = None, writer = Some cb\<rparr>) W)\<lparr>next_ident := Suc (next_ident W)\<rparr>"
  from r None a add(1) have eqs: "e = None" "W' = ?W" "t = t1" by (auto simp: set_writer_def)
  have "watchers_ok ?W" using W(2) by (intro watchers_ok_new) (auto simp: consistent_def)
  then have "ok t1 \<and> consistent watching ?W t1 \<and> (\<forall>f. free watching f t1 \<longleftrightarrow> free watching f s)"
    using add(2,4) W by (intro consistentI [where fd = fd and W = W]) (auto simp: put_def readers_def writers_def wanted_mask_def)
  with eqs None add(3) show ?thesis by (auto simp: readers_def writers_def put_def fun_eq_iff)
next
  case (Some c)
  note w = something_watched [OF W(2) Some]
  have W_ok: "watchers_ok W" using W(2) by (simp add: consistent_def)
  then have some: "reader c \<noteq> None \<or> writer c \<noteq> None" using Some by (auto simp: watchers_ok_def)
  let ?W = "put fd (Some (c\<lparr>writer := Some cb\<rparr>)) W"
  have W'_ok: "watchers_ok ?W" using W_ok Some by (intro watchers_ok_put) auto
  show ?thesis
  proof (cases "writer c")
    case None
    obtain e1 t1 where u: "update_op L fd (readable_mask OR writable_mask) s = (e1, t1)" by (metis prod.exhaust)
    have "mask_ok (readable_mask OR writable_mask)" "readable_mask OR writable_mask \<noteq> 0"
      by (simp_all add: readable_mask_def writable_mask_def mask_ok_def event_values)
    from update_watches [OF W(1) w this u]
    have upd: "e1 = None" "ok t1" "follows s t1" "watching t1 = (watching s)(fd \<mapsto> (On_reader_writer_fd_events, readable_mask OR writable_mask))"
      by blast+
    from r Some None u upd(1) some have eqs: "e = None" "W' = ?W" "t = t1" by (auto simp: set_writer_def Let_def)
    have "ok t1 \<and> consistent watching ?W t1 \<and> (\<forall>f. free watching f t1 \<longleftrightarrow> free watching f s)"
      using upd(2,4) W W'_ok some None
      by (intro consistentI [where fd = fd and W = W]) (auto simp: put_def readers_def writers_def wanted_mask_def)
    with eqs Some None upd(3) show ?thesis by (auto simp: readers_def writers_def put_def fun_eq_iff)
  next
    case writer: (Some w0)
    with r Some have eqs: "e = None" "W' = ?W" "t = s" by (auto simp: set_writer_def Let_def)
    have "ok s \<and> consistent watching ?W s \<and> (\<forall>f. free watching f s \<longleftrightarrow> free watching f s)"
      using W W'_ok w writer
      by (intro consistentI [where fd = fd and W = W]) (auto simp: put_def readers_def writers_def wanted_mask_def fun_eq_iff)
    with eqs Some follows_self show ?thesis by (auto simp: readers_def writers_def put_def fun_eq_iff)
  qed
qed

lemma dropped_ok:
  assumes W: "ok s" "consistent watching W s" "callbacks_of W fd = Some c"
    and c': "c' = None \<and> remove_op L fd s = (e, t) \<or> c' = Some d \<and> ident d = ident c \<and> (reader d \<noteq> None \<or> writer d \<noteq> None)
      \<and> update_op L fd (wanted_mask (reader d) (writer d)) s = (e, t)"
  shows "e = None \<and> ok t \<and> follows s t \<and> consistent watching (put fd c' W) t \<and> (\<forall>f. free watching f t \<longleftrightarrow> free watching f s)"
proof -
  note w = something_watched [OF W(2,3)]
  have free: "free watching fd s" using w by (simp add: free_def)
  have "watchers_ok W" using W(2) by (simp add: consistent_def)
  then have W'_ok: "watchers_ok (put fd c' W)" using W(3) c' by (intro watchers_ok_put) auto
  from c' have "e = None \<and> ok t \<and> follows s t \<and> watching t = (watching s)(fd := (case c' of None \<Rightarrow> None
      | Some d \<Rightarrow> Some (On_reader_writer_fd_events, wanted_mask (reader d) (writer d))))"
    using remove_watches [OF W(1) w] update_watches [OF W(1) w, of "wanted_mask (reader d) (writer d)"]
    by (auto simp: wanted_mask_ok)
  then have t: "e = None" "ok t" "follows s t" "watching t = (watching s)(fd := (case c' of None \<Rightarrow> None
      | Some d \<Rightarrow> Some (On_reader_writer_fd_events, wanted_mask (reader d) (writer d))))" by blast+
  have "ok t \<and> consistent watching (put fd c' W) t \<and> (\<forall>f. free watching f t \<longleftrightarrow> free watching f s)"
    by (rule consistentI [OF W(2) W'_ok t(2) free])
      (auto simp: put_def t(4) readers_def writers_def split: option.splits)
  with t(1,3) show ?thesis by blast
qed

lemma remove_reader_ok:
  assumes W: "ok s" "consistent watching W s" and r: "remove_reader L fd (W, s) = (x, W', t)"
  shows "x = Inr (readers W fd \<noteq> None) \<and> ok t \<and> follows s t \<and> consistent watching W' t \<and> (\<forall>f. free watching f t \<longleftrightarrow> free watching f s)
    \<and> readers W' = (readers W)(fd := None) \<and> writers W' = writers W"
proof (cases "callbacks_of W fd")
  case None
  with W r follows_self show ?thesis by (auto simp: remove_reader_def readers_def fun_eq_iff)
next
  case (Some c)
  then have some: "reader c \<noteq> None \<or> writer c \<noteq> None" using W(2) by (auto simp: consistent_def watchers_ok_def)
  show ?thesis
  proof (cases "reader c")
    case None
    with W r Some some follows_self show ?thesis by (auto simp: remove_reader_def readers_def fun_eq_iff)
  next
    case reader: (Some cb)
    define c' where "c' = (if writer c = None then None else Some (c\<lparr>reader := None\<rparr>))"
    obtain e where e: "(if writer c = None then remove_op L fd s else update_op L fd writable_mask s) = (e, t)"
      "W' = put fd c' W" "x = (case e of Some e \<Rightarrow> Inl e | None \<Rightarrow> Inr True)"
      using r Some reader by (auto simp: remove_reader_def c'_def Let_def split: if_splits prod.splits)
    have "e = None \<and> ok t \<and> follows s t \<and> consistent watching (put fd c' W) t \<and> (\<forall>f. free watching f t \<longleftrightarrow> free watching f s)"
      by (rule dropped_ok [OF W Some, of _ _ _ "c\<lparr>reader := None\<rparr>"])
        (use e(1) in \<open>auto simp: c'_def wanted_mask_def split: if_splits\<close>)
    with e(2,3) Some reader show ?thesis
      by (auto simp: c'_def readers_def writers_def put_def fun_eq_iff)
  qed
qed

lemma remove_writer_ok:
  assumes W: "ok s" "consistent watching W s" and r: "remove_writer L fd (W, s) = (x, W', t)"
  shows "x = Inr (writers W fd \<noteq> None) \<and> ok t \<and> follows s t \<and> consistent watching W' t \<and> (\<forall>f. free watching f t \<longleftrightarrow> free watching f s)
    \<and> writers W' = (writers W)(fd := None) \<and> readers W' = readers W"
proof (cases "callbacks_of W fd")
  case None
  with W r follows_self show ?thesis by (auto simp: remove_writer_def writers_def fun_eq_iff)
next
  case (Some c)
  then have some: "reader c \<noteq> None \<or> writer c \<noteq> None" using W(2) by (auto simp: consistent_def watchers_ok_def)
  show ?thesis
  proof (cases "writer c")
    case None
    with W r Some some follows_self show ?thesis by (auto simp: remove_writer_def writers_def fun_eq_iff)
  next
    case writer: (Some cb)
    define c' where "c' = (if reader c = None then None else Some (c\<lparr>writer := None\<rparr>))"
    obtain e where e: "(if reader c = None then remove_op L fd s else update_op L fd readable_mask s) = (e, t)"
      "W' = put fd c' W" "x = (case e of Some e \<Rightarrow> Inl e | None \<Rightarrow> Inr True)"
      using r Some writer by (auto simp: remove_writer_def c'_def Let_def split: if_splits prod.splits)
    have "e = None \<and> ok t \<and> follows s t \<and> consistent watching (put fd c' W) t \<and> (\<forall>f. free watching f t \<longleftrightarrow> free watching f s)"
      by (rule dropped_ok [OF W Some, of _ _ _ "c\<lparr>writer := None\<rparr>"])
        (use e(1) in \<open>auto simp: c'_def wanted_mask_def split: if_splits\<close>)
    with e(2,3) Some writer show ?thesis
      by (auto simp: c'_def readers_def writers_def put_def fun_eq_iff)
  qed
qed

end

section \<open>On the pollers\<close>

definition poller_ops :: "loop_handler poller loop_ops" where
  "poller_ops = \<lparr>add_op = add_handler, update_op = update_handler, remove_op = remove_handler\<rparr>"

interpretation adapter: fd_services poller_ops watched poller_ok later
  by (simp add: fd_services_def poller_ops_def poller.selector_loop_axioms)

type_synonym ('e, 'cb, 'w) callbacks = "('e, 'cb, 'w, loop_handler poller) cb_runner"

text \<open>The loop calls the adapter, or reads what woke it up.\<close>

fun perform_handler :: "('e, 'cb, 'w) callbacks \<Rightarrow> ('e + poller_error, loop_handler, 'w \<times> 'cb watchers) fd_runner" where
  "perform_handler call Read_interrupt fd events (v, s) = (None, v, s)"
| "perform_handler call On_reader_writer_fd_events fd events ((w, W), s) =
     (case on_fd_events call fd events (w, W, s) of (e, _, w, W, s) \<Rightarrow> (e, (w, W), s))"

text \<open>What a callback may do: anything with the adapter, \<open>stop\<close>, and the beginning of a nested round\<close>

inductive adapter_acts :: "'cb watchers \<times> loop_handler poller \<Rightarrow> 'cb watchers \<times> loop_handler poller \<Rightarrow> bool" where
  adapter_nothing: "adapter_acts a a"
| adapter_set_reader: "adapter_acts a (W, s) \<Longrightarrow> free watched fd s \<Longrightarrow> set_reader poller_ops fd cb (W, s) = (e, b) \<Longrightarrow> adapter_acts a b"
| adapter_set_writer: "adapter_acts a (W, s) \<Longrightarrow> free watched fd s \<Longrightarrow> set_writer poller_ops fd cb (W, s) = (e, b) \<Longrightarrow> adapter_acts a b"
| adapter_remove_reader: "adapter_acts a b \<Longrightarrow> remove_reader poller_ops fd b = (x, c) \<Longrightarrow> adapter_acts a c"
| adapter_remove_writer: "adapter_acts a b \<Longrightarrow> remove_writer poller_ops fd b = (x, c) \<Longrightarrow> adapter_acts a c"
| adapter_stop: "adapter_acts a (W, s) \<Longrightarrow> adapter_acts a (W, stop_poller s)"
| adapter_poll: "adapter_acts a (W, s) \<Longrightarrow> fst ` set ready \<subseteq> dom (fd_handlers s) \<Longrightarrow> distinct (map fst ready) \<Longrightarrow>
    adapter_acts a (W, s\<lparr>processing := ready, generation := Suc (generation s)\<rparr>)"

definition well_behaved_callbacks :: "('e, 'cb, 'w) callbacks \<Rightarrow> bool" where
  "well_behaved_callbacks call \<longleftrightarrow> (\<forall>cb w W s. adapter_acts (W, s) (snd (snd (call cb (w, W, s)))))"

definition adapter_ok :: "'cb watchers \<Rightarrow> loop_handler poller \<Rightarrow> bool" where
  "adapter_ok W s \<longleftrightarrow> poller_ok s \<and> consistent watched W s"

lemma watched_fields [simp]:
  "watched (s\<lparr>processing := p, generation := g\<rparr>) = watched s" "watched (stop_poller s) = watched s"
  "watched (deactivate_poller s) = watched s"
  by (simp_all add: watched_def interest_def stop_poller_def deactivate_poller_def uninit_poller_def fun_eq_iff)

lemma same_watched: "watched t = watched s \<Longrightarrow> consistent watched W t = consistent watched W s"
  by (simp add: consistent_def)

lemma stop_poller_ok: "poller_ok s \<Longrightarrow> poller_ok (stop_poller s)"
  using poller_acts_ok [OF acts_stop [OF acts_nothing]] by blast

lemma adapter_acts_ok:
  "adapter_acts a b \<Longrightarrow> adapter_ok (fst a) (snd a) \<Longrightarrow> adapter_ok (fst b) (snd b) \<and> later (snd a) (snd b)"
proof (induction rule: adapter_acts.induct)
  case (adapter_nothing a)
  then show ?case by (simp add: later_def)
next
  case (adapter_set_reader a W s fd cb e b)
  then have "poller_ok s" "consistent watched W s" by (auto simp: adapter_ok_def)
  moreover obtain W' t where b: "b = (W', t)" by (cases b)
  ultimately have "poller_ok t \<and> later s t \<and> consistent watched W' t"
    using adapter.set_reader_ok [OF _ _ adapter_set_reader(2), of W cb e W' t] adapter_set_reader(3) by blast
  with b adapter_set_reader show ?case by (auto simp: adapter_ok_def intro: later_trans)
next
  case (adapter_set_writer a W s fd cb e b)
  then have "poller_ok s" "consistent watched W s" by (auto simp: adapter_ok_def)
  moreover obtain W' t where b: "b = (W', t)" by (cases b)
  ultimately have "poller_ok t \<and> later s t \<and> consistent watched W' t"
    using adapter.set_writer_ok [OF _ _ adapter_set_writer(2), of W cb e W' t] adapter_set_writer(3) by blast
  with b adapter_set_writer show ?case by (auto simp: adapter_ok_def intro: later_trans)
next
  case (adapter_remove_reader a b fd x c)
  obtain W s W' t where eq: "b = (W, s)" "c = (W', t)" by (cases b, cases c)
  with adapter_remove_reader adapter.remove_reader_ok [of s W fd x W' t] show ?case
    by (auto simp: adapter_ok_def intro: later_trans)
next
  case (adapter_remove_writer a b fd x c)
  obtain W s W' t where eq: "b = (W, s)" "c = (W', t)" by (cases b, cases c)
  with adapter_remove_writer adapter.remove_writer_ok [of s W fd x W' t] show ?case
    by (auto simp: adapter_ok_def intro: later_trans)
next
  case (adapter_stop a W s)
  then show ?case
    by (auto simp: adapter_ok_def stop_poller_ok same_watched [of "stop_poller s" s]) (auto simp: later_def stop_poller_def)
next
  case (adapter_poll a W s ready)
  then show ?case
    by (auto simp: adapter_ok_def same_watched [of "s\<lparr>processing := ready, generation := Suc (generation s)\<rparr>" s]
        intro!: poller_ok_poll) (auto simp: later_def)
qed

lemma called_ok:
  assumes "well_behaved_callbacks call" "adapter_ok W s" "call cb (w, W, s) = (e, w', W', t)"
  shows "adapter_ok W' t \<and> later s t"
proof -
  have "adapter_acts (W, s) (snd (snd (call cb (w, W, s))))" using assms(1) by (simp add: well_behaved_callbacks_def)
  from adapter_acts_ok [OF this] assms(2,3) show ?thesis by simp
qed

lemma on_fd_events_ok:
  assumes call: "well_behaved_callbacks call" and ok: "adapter_ok W s" and c: "callbacks_of W fd = Some c"
    and r: "on_fd_events call fd events (w, W, s) = (e, called, w', W', t)"
  shows "adapter_ok W' t \<and> later s t \<and> (\<forall>x. e \<noteq> Some (Inr x))"
proof -
  have id: "later s s" for s :: "loop_handler poller" by (simp add: later_def)
  define after where "after = (if events AND writable_mask = 0 then (None, [], w, W, s)
            else case writer c of
              None \<Rightarrow> (None, [], w, W, s)
            | Some cb \<Rightarrow> let (e, w, W, s) = call cb (w, W, s) in (e, [(True, cb)], w, W, s))"
  obtain e1 c1 w1 W1 s1 where a: "after = (e1, c1, w1, W1, s1)" by (metis prod_cases5)
  have s1: "adapter_ok W1 s1 \<and> later s s1"
    using a ok id called_ok [OF call ok] by (auto simp: after_def split: if_splits option.splits prod.splits)
  from r c have r': "(case after of (e, called, w, W, s) \<Rightarrow>
      (case e of Some e \<Rightarrow> (Some (Inl e), called, w, W, s)
       | None \<Rightarrow> if events AND readable_mask = 0 then (None, called, w, W, s)
           else case reader_now fd (ident c) W of
               None \<Rightarrow> (None, called, w, W, s)
             | Some cb \<Rightarrow> let (e, ws) = call cb (w, W, s) in (map_option Inl e, called @ [(False, cb)], ws)))
      = (e, called, w', W', t)"
    by (simp add: on_fd_events_def after_def)
  show ?thesis
    using r' s1 called_ok [OF call, of W1 s1] unfolding a
    by (auto split: option.splits if_splits prod.splits intro: later_trans)
qed

lemma perform_handler_ok:
  assumes call: "well_behaved_callbacks call" and ok: "adapter_ok (snd v) s" and h: "fd_handlers s fd = Some h"
    and p: "perform_handler call h fd m (v, s) = (e, v', t)"
  shows "adapter_ok (snd v') t \<and> later s t \<and> (\<forall>x. e = Some x \<longrightarrow> (\<exists>y. x = Inl y))"
proof (cases h)
  case Read_interrupt
  with ok p show ?thesis by (auto simp: later_def)
next
  case On_reader_writer_fd_events
  obtain w W where v: "v = (w, W)" by (cases v)
  have "watched s fd = Some (On_reader_writer_fd_events, interest s fd)"
    using h On_reader_writer_fd_events by (simp add: watched_def)
  with ok v have "wanted_mask (readers W fd) (writers W fd) \<noteq> 0" by (auto simp: adapter_ok_def consistent_def)
  then obtain c where c: "callbacks_of W fd = Some c"
    by (cases "callbacks_of W fd") (auto simp: wanted_mask_ok readers_def writers_def)
  obtain e1 called w1 W1 t1 where r: "on_fd_events call fd m (w, W, s) = (e1, called, w1, W1, t1)" by (metis prod_cases5)
  from on_fd_events_ok [OF call _ c r] ok v have t1: "adapter_ok W1 t1" "later s t1" "\<forall>x. e1 \<noteq> Some (Inr x)" by auto
  from p v On_reader_writer_fd_events r have eq: "e = e1" "v' = (w1, W1)" "t = t1" by simp_all
  have "\<exists>y. x = Inl y" if "e1 = Some x" for x using t1(3) that by (cases x) auto
  with t1(1,2) eq show ?thesis by simp
qed

lemma adapter_dispatch_ok:
  fixes call :: "('e, 'cb, 'w) callbacks"
  assumes "well_behaved_callbacks call" "adapter_ok W s" "fst ` set ready \<subseteq> dom (fd_handlers s)" "distinct (map fst ready)"
    "dispatch_fd_events (perform_handler call) ready ((w, W), s) = (e, called, (w', W'), t)"
  shows "adapter_ok W' t \<and> (\<forall>x. e = Some x \<longrightarrow> (\<exists>y. x = Inl (Inl y)))"
proof -
  let ?s = "s\<lparr>processing := ready, generation := Suc (generation s)\<rparr>"
  have s: "adapter_ok W ?s"
    using assms(2) poller_ok_poll [OF _ assms(3,4)] by (simp add: adapter_ok_def same_watched [of ?s s])
  have d: "dispatch_loop (perform_handler call) (Suc (generation s)) (map fst ready) ((w, W), ?s) = (e, called, (w', W'), t)"
    using assms(5) by (simp add: dispatch_fd_events_def)
  have "(\<forall>x. e \<noteq> Some (Inr x)) \<and> (\<forall>x. e = Some (Inl x) \<longrightarrow> (\<exists>y. x = Inl y)) \<and> adapter_ok (snd (w', W')) t
      \<and> later ?s t \<and> subseq (map fst called) (map fst ready)"
  proof (rule dispatch_loop_rule [where J = "\<lambda>v s. adapter_ok (snd v) s" and Q = "\<lambda>x. \<exists>y. x = Inl y", OF _ _ _ d])
    show "adapter_ok (snd v) s \<Longrightarrow> poller_ok s" for v :: "'w \<times> 'cb watchers" and s by (simp add: adapter_ok_def)
    show "adapter_ok (snd (w, W)) ?s" using s by simp
  qed (rule perform_handler_ok [OF assms(1)])
  then have e: "adapter_ok W' t" "\<forall>x. e \<noteq> Some (Inr x)" "\<forall>x. e = Some (Inl x) \<longrightarrow> (\<exists>y. x = Inl y)" by auto
  have "\<exists>y. x = Inl (Inl y)" if "e = Some x" for x using e(2,3) that by (cases x) auto
  with e(1) show ?thesis by blast
qed

section \<open>The adapter over time\<close>

datatype 'cb adapter_event =
  Set_reader fd 'cb | Set_writer fd 'cb | Remove_reader fd | Remove_writer fd | Loop_activate | Loop_deactivate
| Loop_round "(fd \<times> int) list"

type_synonym ('cb, 'w) adapter = "'w \<times> 'cb watchers \<times> loop_handler poller"

text \<open>The descriptor of the interrupt belongs to the loop.\<close>

fun adapter_step :: "('e, 'cb, 'w) callbacks \<Rightarrow> 'cb adapter_event \<Rightarrow> ('cb, 'w) adapter \<Rightarrow> ('cb, 'w) adapter option" where
  "adapter_step call (Set_reader fd cb) (w, W, s) =
     (if fd_handlers s fd = Some Read_interrupt then None else Some (w, snd (set_reader poller_ops fd cb (W, s))))"
| "adapter_step call (Set_writer fd cb) (w, W, s) =
     (if fd_handlers s fd = Some Read_interrupt then None else Some (w, snd (set_writer poller_ops fd cb (W, s))))"
| "adapter_step call (Remove_reader fd) (w, W, s) = Some (w, snd (remove_reader poller_ops fd (W, s)))"
| "adapter_step call (Remove_writer fd) (w, W, s) = Some (w, snd (remove_writer poller_ops fd (W, s)))"
| "adapter_step call Loop_activate (w, W, s) = (if kernel s = None then Some (w, W, snd (activate_poller s)) else None)"
| "adapter_step call Loop_deactivate (w, W, s) = Some (w, W, deactivate_poller s)"
| "adapter_step call (Loop_round ready) (w, W, s) =
     (if list_all (\<lambda>(fd, _). fd_handlers s fd \<noteq> None) ready \<and> distinct (map fst ready)
      then (case dispatch_fd_events (perform_handler call) ready ((w, W), s) of (_, _, (w, W), s) \<Rightarrow> Some (w, W, s))
      else None)"

lemma free_watched: "free watched fd s \<longleftrightarrow> fd_handlers s fd \<noteq> Some Read_interrupt"
  by (auto simp: free_def watched_def)

lemma adapter_step_ok:
  assumes call: "well_behaved_callbacks call" and ok: "adapter_ok W s" and step: "adapter_step call ev (w, W, s) = Some (w', W', t)"
  shows "adapter_ok W' t"
proof (cases ev)
  case (Set_reader fd cb)
  obtain e W1 s1 where r: "set_reader poller_ops fd cb (W, s) = (e, W1, s1)" by (metis prod_cases3)
  with step Set_reader have "free watched fd s" "W1 = W'" "s1 = t" by (auto simp: free_watched split: if_splits)
  with adapter.set_reader_ok [OF _ _ _ r] ok show ?thesis by (simp add: adapter_ok_def)
next
  case (Set_writer fd cb)
  obtain e W1 s1 where r: "set_writer poller_ops fd cb (W, s) = (e, W1, s1)" by (metis prod_cases3)
  with step Set_writer have "free watched fd s" "W1 = W'" "s1 = t" by (auto simp: free_watched split: if_splits)
  with adapter.set_writer_ok [OF _ _ _ r] ok show ?thesis by (simp add: adapter_ok_def)
next
  case (Remove_reader fd)
  obtain x W1 s1 where r: "remove_reader poller_ops fd (W, s) = (x, W1, s1)" by (metis prod_cases3)
  with step Remove_reader have "W1 = W'" "s1 = t" by auto
  with adapter.remove_reader_ok [OF _ _ r] ok show ?thesis by (simp add: adapter_ok_def)
next
  case (Remove_writer fd)
  obtain x W1 s1 where r: "remove_writer poller_ops fd (W, s) = (x, W1, s1)" by (metis prod_cases3)
  with step Remove_writer have "W1 = W'" "s1 = t" by auto
  with adapter.remove_writer_ok [OF _ _ r] ok show ?thesis by (simp add: adapter_ok_def)
next
  case Loop_activate
  obtain e s1 where r: "activate_poller s = (e, s1)" by (metis prod.exhaust)
  with step Loop_activate have "kernel s = None" "s1 = t" "W' = W" by (auto split: if_splits)
  with activate_poller_ok [OF _ _ r] ok show ?thesis by (simp add: adapter_ok_def same_watched [of t s])
next
  case Loop_deactivate
  with step have "t = deactivate_poller s" "W' = W" by auto
  with ok show ?thesis by (simp add: adapter_ok_def deactivate_poller_ok same_watched [of "deactivate_poller s" s])
next
  case (Loop_round ready)
  obtain e called v1 s1 where d: "dispatch_fd_events (perform_handler call) ready ((w, W), s) = (e, called, v1, s1)"
    by (metis prod_cases4)
  with step Loop_round have r: "fst ` set ready \<subseteq> dom (fd_handlers s)" "distinct (map fst ready)" "v1 = (w', W')" "s1 = t"
    by (auto simp: list_all_iff split: if_splits prod.splits)
  from adapter_dispatch_ok [OF call ok r(1,2) d [unfolded r(3)]] r(4) show ?thesis by simp
qed

lemma adapter_start_ok: "adapter_ok new_watchers (new_poller k fd Read_interrupt)"
proof -
  have "watched (new_poller k fd Read_interrupt) f = (if f = fd then Some (Read_interrupt, READ) else None)" for f
    by (simp add: watched_def new_poller_def add_handler_def closed_def set_handler_events_eq with_event_def
        register_fd_def interest_def event_values)
  then show ?thesis
    by (auto simp: adapter_ok_def new_poller_ok consistent_def watchers_ok_def new_watchers_def readers_def writers_def
        wanted_mask_def)
qed

interpretation adapting: invariant_system "(w0, new_watchers, new_poller k fd0 Read_interrupt)" "adapter_step call"
  "\<lambda>(w, W, s). well_behaved_callbacks call \<longrightarrow> adapter_ok W s"
  for w0 k fd0 call
  by unfold_locales (auto simp: adapter_start_ok dest: adapter_step_ok)

section \<open>Properties\<close>

text \<open>
  C28 (invariant). Through any use of the adapter, by callbacks in the middle of a round too, on any
  of the pollers, the poller watches a descriptor for the adapter exactly when it has a reader or a
  writer, for readability if it has a reader and for writability and errors if it has a writer.
\<close>

theorem adapter_watches_what_is_set:
  assumes "well_behaved_callbacks call"
    and "reach (w0, new_watchers, new_poller k fd0 Read_interrupt) (adapter_step call) (w, W, s)"
  shows "watched s fd = Some (On_reader_writer_fd_events, m) \<longleftrightarrow>
      (readers W fd \<noteq> None \<or> writers W fd \<noteq> None)
      \<and> m = (if readers W fd = None then 0 else READ) OR (if writers W fd = None then 0 else WRITE OR ERROR)"
proof -
  from adapting.inv_reach [OF assms(2)] assms(1) have "consistent watched W s" by (simp add: adapter_ok_def)
  then have "watched s fd = Some (On_reader_writer_fd_events, m) \<longleftrightarrow>
      m = wanted_mask (readers W fd) (writers W fd) \<and> (readers W fd \<noteq> None \<or> writers W fd \<noteq> None)"
    unfolding consistent_def using wanted_mask_ok(2) by metis
  then show ?thesis by (auto simp: wanted_mask_def readable_mask_def writable_mask_def)
qed

text \<open>
  C29 (error). In every state of that kind a round of the loop ends with an exception only if a callback
  raises it: neither the loop nor the adapter misses an entry or fails an assertion, although
  callbacks set and remove readers and writers while it runs.
\<close>

theorem round_fails_only_by_callbacks:
  assumes "well_behaved_callbacks call"
    and "reach (w0, new_watchers, new_poller k fd0 Read_interrupt) (adapter_step call) (w, W, s)"
    and "fst ` set ready \<subseteq> dom (fd_handlers s)" "distinct (map fst ready)"
    and "dispatch_fd_events (perform_handler call) ready ((w, W), s) = (e, called, v, t)"
  shows "e = None \<or> (\<exists>x. e = Some (Inl (Inl x)))"
proof -
  obtain w' W' where v: "v = (w', W')" by (cases v)
  from adapting.inv_reach [OF assms(2)] assms(1) have "adapter_ok W s" by simp
  from adapter_dispatch_ok [OF assms(1) this assms(3,4) assms(5) [unfolded v]] show ?thesis
    by (cases e) auto
qed

section \<open>The properties applied\<close>

text \<open>Callback 1 removes the reader of descriptor 5, and raises when it is called a second time.\<close>

definition removing :: "(unit, nat, nat) callbacks" where
  "removing cb = (\<lambda>(n, W, s).
     if cb = 1 then (if n = 0 then None else Some (), Suc n, snd (remove_reader poller_ops 5 (W, s))) else (None, n, W, s))"

lemma removing: "well_behaved_callbacks removing"
  unfolding well_behaved_callbacks_def removing_def
  by (auto intro: adapter_nothing adapter_remove_reader [OF adapter_nothing] simp: prod_eq_iff)

definition two_readers :: "(nat, nat) adapter" where
  "two_readers = the (run (adapter_step removing) [Loop_activate, Set_reader 4 1, Set_reader 5 2, Set_writer 5 3]
     (0, new_watchers, new_poller EPollPoller 3 Read_interrupt))"

lemma two_readers_run:
  "run (adapter_step removing) [Loop_activate, Set_reader 4 1, Set_reader 5 2, Set_writer 5 3]
     (0, new_watchers, new_poller EPollPoller 3 Read_interrupt) = Some two_readers"
proof -
  have "run (adapter_step removing) [Loop_activate, Set_reader 4 1, Set_reader 5 2, Set_writer 5 3]
     (0, new_watchers, new_poller EPollPoller 3 Read_interrupt) \<noteq> None" by code_simp
  then show ?thesis by (auto simp: two_readers_def)
qed

lemma adapter_watches_what_is_set_witness:
  "watched (snd (snd two_readers)) 5 = Some (On_reader_writer_fd_events, 13)"
proof -
  obtain w W s where eq: "two_readers = (w, W, s)" by (cases two_readers)
  have reached: "reach (0, new_watchers, new_poller EPollPoller 3 Read_interrupt) (adapter_step removing) (w, W, s)"
    by (rule run_reach [OF two_readers_run [unfolded eq] reach_init])
  have "readers (fst (snd two_readers)) 5 = Some 2" "writers (fst (snd two_readers)) 5 = Some 3" by code_simp+
  then have "readers W 5 = Some 2" "writers W 5 = Some 3" unfolding eq by simp_all
  with adapter_watches_what_is_set [OF removing reached, of 5 13] show ?thesis
    unfolding eq by (simp add: event_values)
qed

lemma round_fails_only_by_callbacks_witness:
  "(case two_readers of (w, W, s) \<Rightarrow>
      case dispatch_fd_events (perform_handler removing) [(4, READ), (5, READ)] ((w, W), s) of
        (e, called, (n, _), _) \<Rightarrow> (e = None \<or> e = Some (Inl (Inl ()))) \<and> called = [(4, READ)] \<and> n = 1)"
proof -
  obtain w W s where eq: "two_readers = (w, W, s)" by (cases two_readers)
  have reached: "reach (0, new_watchers, new_poller EPollPoller 3 Read_interrupt) (adapter_step removing) (w, W, s)"
    by (rule run_reach [OF two_readers_run [unfolded eq] reach_init])
  obtain e called n W' t where d: "dispatch_fd_events (perform_handler removing) [(4, READ), (5, READ)] ((w, W), s)
      = (e, called, (n, W'), t)" by (metis prod.exhaust)
  have "fd_handlers (snd (snd two_readers)) 4 \<noteq> None" "fd_handlers (snd (snd two_readers)) 5 \<noteq> None" by code_simp+
  then have "fst ` set [(4, READ), (5, READ)] \<subseteq> dom (fd_handlers s)" unfolding eq by auto
  from round_fails_only_by_callbacks [OF removing reached this _ d] have "e = None \<or> e = Some (Inl (Inl ()))" by auto
  moreover have "(case two_readers of (w, W, s) \<Rightarrow>
      case dispatch_fd_events (perform_handler removing) [(4, READ), (5, READ)] ((w, W), s) of
        (e, called, (n, _), _) \<Rightarrow> called = [(4, READ)] \<and> n = 1)" by code_simp
  ultimately show ?thesis unfolding eq by (simp add: d)
qed

end
