(* ===== verification/Ioloop.thy ===== *)
theory Ioloop
  imports Poller
begin

text \<open>
  \<open>IOLoop\<close> of \<open>adapters/select_connection.py\<close>, with \<open>_PollerBase.start\<close> and \<open>_get_max_wait\<close>: the queue of
  callbacks, the timer and the poller together. What happens outside is a list of rounds: for
  each call of \<open>poll\<close> the time after it and the descriptors that are ready; when there are no more, the
  loop waits for ever. Times are in the unit of \<open>Timer\<close>, of which a second has \<open>second\<close>.
\<close>

section \<open>State\<close>

record ('h, 'c) ioloop =
  the_poller :: "'h poller"
  loop_callbacks :: "'c list"
  the_timer :: "'c timer"
  loop_closed :: bool

datatype loop_error = In_poller poller_error | In_timer py_error | Index_error

text \<open>What the handlers and the callbacks do\<close>

type_synonym ('e, 'h, 'c, 'w) loop_handlers = "'h \<Rightarrow> fd \<Rightarrow> int \<Rightarrow> 'w \<times> ('h, 'c) ioloop \<Rightarrow> 'e option \<times> 'w \<times> ('h, 'c) ioloop"
type_synonym ('e, 'h, 'c, 'w) loop_runner = "'c \<Rightarrow> 'w \<times> ('h, 'c) ioloop \<Rightarrow> 'e option \<times> 'w \<times> ('h, 'c) ioloop"

definition new_ioloop :: "poller_kind \<Rightarrow> fd \<Rightarrow> 'h \<Rightarrow> ('h, 'c) ioloop" where
  "new_ioloop k r_interrupt read_interrupt =
     \<lparr>the_poller = new_poller k r_interrupt read_interrupt, loop_callbacks = [], the_timer = new_timer, loop_closed = False\<rparr>"

definition close_ioloop :: "('h, 'c) ioloop \<Rightarrow> poller_error option \<times> ('h, 'c) ioloop" where
  "close_ioloop L =
     (case close_poller (the_poller L) of
        (Some e, p) \<Rightarrow> (Some e, L\<lparr>the_poller := p\<rparr>)
      | (None, p) \<Rightarrow> (None, L\<lparr>the_poller := p, the_timer := close_timer (the_timer L), loop_callbacks := [], loop_closed := True\<rparr>))"

definition add_callback_threadsafe :: "'c \<Rightarrow> ('h, 'c) ioloop \<Rightarrow> ('h, 'c) ioloop" where
  "add_callback_threadsafe cb L = L\<lparr>loop_callbacks := loop_callbacks L @ [cb]\<rparr>"

definition ioloop_call_later :: "int \<Rightarrow> int \<Rightarrow> 'c \<Rightarrow> ('h, 'c) ioloop \<Rightarrow> py_error + nat \<times> ('h, 'c) ioloop" where
  "ioloop_call_later now delay cb L =
     (case call_later now delay cb (the_timer L) of Inl e \<Rightarrow> Inl e | Inr (i, t) \<Rightarrow> Inr (i, L\<lparr>the_timer := t\<rparr>))"

definition ioloop_remove_timeout :: "nat \<Rightarrow> ('h, 'c) ioloop \<Rightarrow> ('h, 'c) ioloop" where
  "ioloop_remove_timeout i L = L\<lparr>the_timer := remove_timeout i (the_timer L)\<rparr>"

definition ioloop_stop :: "('h, 'c) ioloop \<Rightarrow> ('h, 'c) ioloop" where
  "ioloop_stop L = L\<lparr>the_poller := stop_poller (the_poller L)\<rparr>"

section \<open>How long to wait\<close>

definition get_remaining_interval_loop :: "int \<Rightarrow> ('h, 'c) ioloop \<Rightarrow> int option" where
  "get_remaining_interval_loop now L =
     (if loop_callbacks L \<noteq> [] then Some 0 else get_remaining_interval now (the_timer L))"

definition MAX_POLL_TIMEOUT :: int where "MAX_POLL_TIMEOUT = 5"

definition poll_timeout_mult :: "poller_kind \<Rightarrow> int" where
  "poll_timeout_mult k = (if k = PollPoller then 1000 else 1)"

definition get_max_wait :: "int \<Rightarrow> int \<Rightarrow> ('h, 'c) ioloop \<Rightarrow> int" where
  "get_max_wait second now L =
     (case get_remaining_interval_loop now L of
        None \<Rightarrow> MAX_POLL_TIMEOUT * second
      | Some delay \<Rightarrow> min delay (MAX_POLL_TIMEOUT * second)) * poll_timeout_mult (kind (the_poller L))"

section \<open>A turn of the loop\<close>

text \<open>The loop of \<open>process_timeouts\<close> over the callbacks that were queued when it began; the list is what has been called.\<close>

fun call_queued :: "('e, 'h, 'c, 'w) loop_runner \<Rightarrow> nat \<Rightarrow> 'w \<times> ('h, 'c) ioloop \<Rightarrow>
    ('e + loop_error) option \<times> 'c list \<times> 'w \<times> ('h, 'c) ioloop" where
  "call_queued perform 0 s = (None, [], s)"
| "call_queued perform (Suc n) (w, L) =
     (case loop_callbacks L of
        [] \<Rightarrow> (Some (Inr Index_error), [], w, L)
      | cb # cbs \<Rightarrow>
          (case perform cb (w, L\<lparr>loop_callbacks := cbs\<rparr>) of
             (Some e, s) \<Rightarrow> (Some (Inl e), [cb], s)
           | (None, s) \<Rightarrow> let (e, called, s) = call_queued perform n s in (e, cb # called, s)))"

text \<open>A callback of the timer works on the whole loop.\<close>

definition timer_runner :: "('e, 'h, 'c, 'w) loop_runner \<Rightarrow> ('e, 'c, 'w \<times> ('h, 'c) ioloop) runner" where
  "timer_runner perform cb = (\<lambda>((w, L), t).
     let (e, w, L) = perform cb (w, L\<lparr>the_timer := t\<rparr>) in (e, (w, L), the_timer L))"

definition process_timeouts_loop :: "('e, 'h, 'c, 'w) loop_runner \<Rightarrow> int \<Rightarrow> 'w \<times> ('h, 'c) ioloop \<Rightarrow>
    ('e + loop_error) option \<times> 'c list \<times> 'w \<times> ('h, 'c) ioloop" where
  "process_timeouts_loop perform now = (\<lambda>(w, L).
     case call_queued perform (length (loop_callbacks L)) (w, L) of
       (Some e, called, s) \<Rightarrow> (Some e, called, s)
     | (None, called, w, L) \<Rightarrow>
         let (e, _, (w, L), t) = process_timeouts (timer_runner perform) now ((w, L), the_timer L)
         in (case e of None \<Rightarrow> None | Some (Inl e) \<Rightarrow> Some (Inl e) | Some (Inr e) \<Rightarrow> Some (Inr (In_timer e)),
             called, w, L\<lparr>the_timer := t\<rparr>))"

definition poller_runner :: "('e, 'h, 'c, 'w) loop_handlers \<Rightarrow> ('e, 'h, 'w \<times> ('h, 'c) ioloop) fd_runner" where
  "poller_runner handle h fd events = (\<lambda>((w, L), p).
     let (e, w, L) = handle h fd events (w, L\<lparr>the_poller := p\<rparr>) in (e, (w, L), the_poller L))"

definition poll_loop :: "('e, 'h, 'c, 'w) loop_handlers \<Rightarrow> (fd \<times> int) list \<Rightarrow> 'w \<times> ('h, 'c) ioloop \<Rightarrow>
    ('e + loop_error) option \<times> 'w \<times> ('h, 'c) ioloop" where
  "poll_loop handle ready = (\<lambda>(w, L).
     let (e, _, (w, L), p) = dispatch_fd_events (poller_runner handle) ready ((w, L), the_poller L)
     in (case e of None \<Rightarrow> None | Some (Inl e) \<Rightarrow> Some (Inl e) | Some (Inr e) \<Rightarrow> Some (Inr (In_poller e)),
         w, L\<lparr>the_poller := p\<rparr>))"

section \<open>Running\<close>

text \<open>\<open>while not self._stopping: self.poll(); self._process_timeouts()\<close>\<close>

fun turns :: "('e, 'h, 'c, 'w) loop_handlers \<Rightarrow> ('e, 'h, 'c, 'w) loop_runner \<Rightarrow> (int \<times> (fd \<times> int) list) list \<Rightarrow>
    'w \<times> ('h, 'c) ioloop \<Rightarrow> (('e + loop_error) option \<times> 'w \<times> ('h, 'c) ioloop) option" where
  "turns handle perform rounds (w, L) =
     (if stopping (the_poller L) then Some (None, w, L)
      else case rounds of
        [] \<Rightarrow> None
      | (now, ready) # rounds \<Rightarrow>
          (case poll_loop handle ready (w, L) of
             (Some e, s) \<Rightarrow> Some (Some e, s)
           | (None, s) \<Rightarrow>
               (case process_timeouts_loop perform now s of
                  (Some e, _, s) \<Rightarrow> Some (Some e, s)
                | (None, _, s) \<Rightarrow> turns handle perform rounds s)))"

text \<open>\<open>start\<close>, with its two \<open>finally\<close> blocks\<close>

definition ioloop_start :: "('e, 'h, 'c, 'w) loop_handlers \<Rightarrow> ('e, 'h, 'c, 'w) loop_runner \<Rightarrow> (int \<times> (fd \<times> int) list) list \<Rightarrow>
    'w \<times> ('h, 'c) ioloop \<Rightarrow> (('e + loop_error) option \<times> 'w \<times> ('h, 'c) ioloop) option" where
  "ioloop_start handle perform rounds = (\<lambda>(w, L).
     if running (the_poller L) then Some (Some (Inr (In_poller Runtime_error)), w, L)
     else
       let (e, p) = activate_poller ((the_poller L)\<lparr>running := True\<rparr>); L = L\<lparr>the_poller := p\<rparr> in
       case e of
         Some e \<Rightarrow> Some (Some (Inr (In_poller e)), w, L)
       | None \<Rightarrow>
           (case turns handle perform rounds (w, L) of
              None \<Rightarrow> None
            | Some (e, w, L) \<Rightarrow>
                Some (e, w, L\<lparr>the_poller := (deactivate_poller (the_poller L))\<lparr>stopping := False, running := False\<rparr>\<rparr>)))"

section \<open>Properties\<close>

text \<open>A callback that leaves the queue as it is but for what it adds, and does not raise\<close>

definition appends :: "('e, 'h, 'c, 'w) loop_runner \<Rightarrow> bool" where
  "appends perform \<longleftrightarrow> (\<forall>cb w L. \<exists>w' L' new. perform cb (w, L) = (None, w', L') \<and> loop_callbacks L' = loop_callbacks L @ new)"

lemma call_queued_appends:
  assumes "appends perform"
  shows "n \<le> length (loop_callbacks L) \<Longrightarrow> call_queued perform n (w, L) = (e, called, w', L') \<Longrightarrow>
    e = None \<and> called = take n (loop_callbacks L) \<and> (\<exists>new. loop_callbacks L' = drop n (loop_callbacks L) @ new)"
proof (induction n arbitrary: w L e called)
  case (Suc n)
  then obtain cb cbs where q: "loop_callbacks L = cb # cbs" by (cases "loop_callbacks L") auto
  obtain w1 L1 new where p: "perform cb (w, L\<lparr>loop_callbacks := cbs\<rparr>) = (None, w1, L1)" "loop_callbacks L1 = cbs @ new"
    using assms unfolding appends_def by (metis ioloop.select_convs(2) ioloop.surjective ioloop.update_convs(2))
  obtain e2 called2 w2 L2 where r: "call_queued perform n (w1, L1) = (e2, called2, w2, L2)" by (metis prod_cases4)
  with Suc.prems(2) q p have eq: "e = e2" "called = cb # called2" "w' = w2" "L' = L2" by simp_all
  have "n \<le> length (loop_callbacks L1)" using Suc.prems(1) q p(2) by simp
  from Suc.IH [OF this r [folded eq]] Suc.prems(1) q p(2) eq show ?case by auto
qed auto

text \<open>
  A turn of the loop calls the callbacks that are queued when it comes to them, each
  once and in the order in which they were added; what they add waits for the next turn, so callbacks
  that add callbacks do not keep the loop from its descriptors and timers.
\<close>

theorem turn_calls_queued_only:
  assumes "appends perform" "process_timeouts_loop perform now (w, L) = (e, called, w', L')"
  shows "called = loop_callbacks L"
proof -
  obtain e1 called1 w1 L1 where c: "call_queued perform (length (loop_callbacks L)) (w, L) = (e1, called1, w1, L1)"
    by (metis prod_cases4)
  with call_queued_appends [OF assms(1) _ c] have "e1 = None" "called1 = loop_callbacks L" by auto
  with assms(2) c show ?thesis by (auto simp: process_timeouts_loop_def split: prod.splits)
qed

text \<open>
  The loop never waits while a callback is queued, nor past the deadline of the first timeout,
  nor longer than five seconds.
\<close>

theorem wait_is_bounded:
  assumes "0 < second"
  shows "get_max_wait second now L \<le> MAX_POLL_TIMEOUT * second * poll_timeout_mult (kind (the_poller L))
    \<and> (loop_callbacks L \<noteq> [] \<longrightarrow> get_max_wait second now L = 0)
    \<and> (\<forall>i heap. timeout_heap (the_timer L) = Some (i # heap) \<longrightarrow>
        get_max_wait second now L \<le> max 0 (deadline (the_timer L) i - now) * poll_timeout_mult (kind (the_poller L)))
    \<and> 0 \<le> get_max_wait second now L"
proof -
  have m: "0 < poll_timeout_mult (kind (the_poller L))" by (simp add: poll_timeout_mult_def)
  have max: "0 < MAX_POLL_TIMEOUT * second" using assms by (simp add: MAX_POLL_TIMEOUT_def)
  have none: "0 \<le> d" if "get_remaining_interval_loop now L = Some d" for d
    using that by (auto simp: get_remaining_interval_loop_def get_remaining_interval_def split: if_splits option.splits)
  show ?thesis
    using m max none
    by (auto simp: get_max_wait_def get_remaining_interval_loop_def get_remaining_interval_def
        split: option.splits if_splits intro!: mult_right_mono mult_nonneg_nonneg)
qed

text \<open>
  However \<open>start\<close> ends, by \<open>stop\<close> or by an exception of a handler, a callback or the
  loop itself, the poller is left inactive and the loop can be started again; a loop that is running
  refuses to be started.
\<close>

theorem start_leaves_loop_restartable:
  assumes "ioloop_start handle perform rounds (w, L) = Some (e, w', L')" "kernel (the_poller L) = None" "poller_ok (the_poller L)"
  shows "(if running (the_poller L) then e = Some (Inr (In_poller Runtime_error)) \<and> L' = L
      else \<not> running (the_poller L') \<and> \<not> stopping (the_poller L') \<and> kernel (the_poller L') = None)"
proof (cases "running (the_poller L)")
  case True
  with assms(1) show ?thesis by (simp add: ioloop_start_def)
next
  case False
  let ?p = "(the_poller L)\<lparr>running := True\<rparr>"
  have "poller_ok ?p" "kernel ?p = None"
    using assms(2,3) by (auto simp: poller_ok_def closed_def interest_def)
  moreover obtain e1 p1 where a: "activate_poller ?p = (e1, p1)" by (metis prod.exhaust)
  ultimately have "e1 = None" using activate_poller_ok [of ?p e1 p1] by blast
  with assms(1) False a show ?thesis
    by (auto simp: ioloop_start_def deactivate_poller_def uninit_poller_def Let_def split: option.splits prod.splits)
qed

section \<open>The properties applied\<close>

text \<open>Callback 0 stops the loop, callback n + 1 adds callback n.\<close>

definition counting_down :: "(unit, nat, nat, unit) loop_runner" where
  "counting_down cb = (\<lambda>(w, L). (None, w, if cb = 0 then ioloop_stop L else add_callback_threadsafe (cb - 1) L))"

definition idle_handlers :: "(unit, nat, nat, unit) loop_handlers" where
  "idle_handlers h fd events s = (None, s)"

lemma counting_down: "appends counting_down"
  by (auto simp: appends_def counting_down_def ioloop_stop_def add_callback_threadsafe_def)

definition small_loop :: "(nat, nat) ioloop" where
  "small_loop = (add_callback_threadsafe 2 (new_ioloop EPollPoller 3 0))
     \<lparr>the_timer := (new_timer :: nat timer)\<lparr>timeout_heap := Some [0], deadline := (\<lambda>_. 7), action := (\<lambda>_. None)\<rparr>\<rparr>"

lemma turn_calls_queued_only_witness:
  "fst (snd (process_timeouts_loop counting_down 0 ((), small_loop))) = [2]"
proof -
  obtain e called w' L' where p: "process_timeouts_loop counting_down 0 ((), small_loop) = (e, called, w', L')"
    by (metis prod_cases4)
  from turn_calls_queued_only [OF counting_down p] p show ?thesis
    by (simp add: small_loop_def add_callback_threadsafe_def new_ioloop_def)
qed

lemma wait_is_bounded_witness:
  "get_max_wait 10 4 small_loop = 0 \<and> get_max_wait 10 4 (small_loop\<lparr>loop_callbacks := []\<rparr>) \<le> 3"
  using wait_is_bounded [of 10 4 small_loop] wait_is_bounded [of 10 4 "small_loop\<lparr>loop_callbacks := []\<rparr>"]
  by (simp add: small_loop_def add_callback_threadsafe_def new_ioloop_def poll_timeout_mult_def new_poller_def
      add_handler_def closed_def set_handler_events_eq register_fd_def)

lemma start_leaves_loop_restartable_witness:
  "case ioloop_start idle_handlers counting_down [(0, []), (0, []), (0, []), (0, [])] ((), small_loop) of
     None \<Rightarrow> False | Some (e, _, L) \<Rightarrow> e = None \<and> \<not> running (the_poller L) \<and> \<not> stopping (the_poller L) \<and> kernel (the_poller L) = None"
proof -
  have "(case ioloop_start idle_handlers counting_down [(0, []), (0, []), (0, []), (0, [])] ((), small_loop) of
     None \<Rightarrow> False | Some (e, _, L) \<Rightarrow> e = None)" by code_simp
  then obtain L where L: "ioloop_start idle_handlers counting_down [(0, []), (0, []), (0, []), (0, [])] ((), small_loop)
      = Some (None, (), L)" by (auto split: option.splits prod.splits)
  have p: "the_poller small_loop = new_poller EPollPoller 3 0"
    by (simp add: small_loop_def add_callback_threadsafe_def new_ioloop_def)
  have "kernel (the_poller small_loop) = None" "\<not> running (the_poller small_loop)"
    unfolding p by (simp_all add: new_poller_def add_handler_def closed_def set_handler_events_eq register_fd_def)
  with start_leaves_loop_restartable [OF L this(1)] L p show ?thesis by (simp add: new_poller_ok)
qed

end
