(* ===== verification/Amqp_Data.thy ===== *)
theory Amqp_Data
  imports Py_Struct
begin

text \<open>
  \<open>pika/data.py\<close>: the encoding and decoding of AMQP field tables and values. The encoders
  append byte strings to a list of pieces and return the number of bytes; the decoders read
  at an offset and return the value with the offset behind it. The main results: what an
  encoder reports is what it appended, and decoding what was encoded gives back the value
  in its wire form \<open>wire_value\<close>.
\<close>

section \<open>Encoding\<close>

type_synonym pieces = "bytes list"

definition kind :: "char \<Rightarrow> bytes" where
  "kind c = [of_char c]"

text \<open>\<open>pika.compat.as_bytes\<close>: anything that is not \<open>bytes\<close> must have an \<open>encode\<close> method.\<close>

fun as_bytes :: "pyval \<Rightarrow> py_error + bytes" where
  "as_bytes (PBytes b) = Inr b"
| "as_bytes (PStr s) = utf8_encode s"
| "as_bytes _ = Inl AttributeError"

definition encode_short_string :: "pieces \<Rightarrow> pyval \<Rightarrow> py_error + pieces \<times> nat" where
  "encode_short_string pieces val =
     bindE (as_bytes val) (\<lambda>encoded_value.
     let length = length encoded_value in
     if length > 255 then Inl (ShortStringTooLong encoded_value)
     else bindE (pack_uint 1 (int length)) (\<lambda>p. Inr (pieces @ [p, encoded_value], 1 + length)))"

text \<open>
  \<open>Decimal.normalize\<close> in the default context: round to 28 digits, half to even, then strip
  trailing zeros from the coefficient.
\<close>

fun ndigits :: "nat \<Rightarrow> nat" where
  "ndigits n = (if n < 10 then 1 else Suc (ndigits (n div 10)))"

declare ndigits.simps [simp del]

function strip_zeros :: "nat \<Rightarrow> int \<Rightarrow> nat \<times> int" where
  "strip_zeros c e = (if c \<noteq> 0 \<and> c mod 10 = 0 then strip_zeros (c div 10) (e + 1) else (c, e))"
  by pat_completeness auto
termination by (relation "measure fst") auto

declare strip_zeros.simps [simp del]

definition round_half_even :: "nat \<Rightarrow> nat \<Rightarrow> nat" where
  "round_half_even n k =
     (let q = n div 10 ^ k; r = n mod 10 ^ k
      in if 2 * r > 10 ^ k \<or> (2 * r = 10 ^ k \<and> odd q) then q + 1 else q)"

definition dec_normalize :: "int \<Rightarrow> int \<Rightarrow> int \<times> int" where
  "dec_normalize c e =
     (let n = nat \<bar>c\<bar>; d = ndigits n;
          (n', e') = (if d > 28 then (round_half_even n (d - 28), e + int (d - 28)) else (n, e))
      in if n' = 0 then (0, 0)
         else (let (m, f) = strip_zeros n' e' in (sgn c * int m, f)))"

text \<open>The scalar branches of \<open>encode_value\<close>: one packed piece and its size.\<close>

definition encode_long :: "int \<Rightarrow> py_error + bytes" where
  "encode_long v =
     (if v < 0 then bindE (pack_sint 8 v) (\<lambda>p. Inr (kind CHR ''L'' @ p))
      else bindE (pack_uint 8 v) (\<lambda>p. Inr (kind CHR ''l'' @ p)))"

definition encode_int :: "int \<Rightarrow> py_error + bytes \<times> nat" where
  "encode_int v =
     (case pack_sint 4 v of
        Inr p \<Rightarrow> Inr (kind CHR ''I'' @ p, 5)
      | Inl _ \<Rightarrow> bindE (encode_long v) (\<lambda>p. Inr (p, 9)))"

definition encode_decimal :: "int \<Rightarrow> int \<Rightarrow> py_error + bytes" where
  "encode_decimal c e =
     (let (c', e') = dec_normalize c e;
          (decimals, raw) = (if e' < 0 then (- e', c') else (0, c' * 10 ^ nat e'))
      in bindE (pack_uint 1 decimals) (\<lambda>d. bindE (pack_sint 4 raw) (\<lambda>r.
         Inr (kind CHR ''D'' @ d @ r))))"

text \<open>
  \<open>encode_value\<close> and the loops it contains. \<open>encode_dict\<close> is \<open>encode_table\<close> on a dict:
  a placeholder is appended, the items are encoded behind it, and then the piece at
  \<open>length_index\<close> is replaced by the packed size.
\<close>

function (sequential) encode_value :: "pieces \<Rightarrow> pyval \<Rightarrow> py_error + pieces \<times> nat"
  and encode_dict :: "pieces \<Rightarrow> (pyval \<times> pyval) list \<Rightarrow> py_error + pieces \<times> nat"
  and encode_items :: "pieces \<Rightarrow> (pyval \<times> pyval) list \<Rightarrow> nat \<Rightarrow> py_error + pieces \<times> nat"
  and encode_elems :: "pieces \<Rightarrow> pyval list \<Rightarrow> py_error + pieces" where
  "encode_value pieces (PStr s) =
     bindE (utf8_encode s) (\<lambda>val. bindE (pack_uint 4 (int (length val))) (\<lambda>p.
     Inr (pieces @ [kind CHR ''S'' @ p, val], 5 + length val)))"
| "encode_value pieces (PBytes val) =
     bindE (pack_uint 4 (int (length val))) (\<lambda>p.
     Inr (pieces @ [kind CHR ''x'' @ p, val], 5 + length val))"
| "encode_value pieces (PBool b) =
     bindE (pack_uint 1 (of_bool b)) (\<lambda>p. Inr (pieces @ [kind CHR ''t'' @ p], 2))"
| "encode_value pieces (PLong v) =
     bindE (encode_long v) (\<lambda>p. Inr (pieces @ [p], 9))"
| "encode_value pieces (PInt v) =
     bindE (encode_int v) (\<lambda>(p, n). Inr (pieces @ [p], n))"
| "encode_value pieces (PDecimal c e) =
     bindE (encode_decimal c e) (\<lambda>p. Inr (pieces @ [p], 6))"
| "encode_value pieces PDecimalSpecial = Inl TypeError"
| "encode_value pieces (PDatetime s u) =
     bindE (pack_uint 8 s) (\<lambda>p. Inr (pieces @ [kind CHR ''T'' @ p], 9))"
| "encode_value pieces (PDict d) =
     bindE (encode_dict (pieces @ [kind CHR ''F'']) d) (\<lambda>(pieces, n). Inr (pieces, 1 + n))"
| "encode_value pieces (PList l) =
     bindE (encode_elems [] l) (\<lambda>list_pieces.
     let piece = concat list_pieces in
     bindE (pack_uint 4 (int (length piece))) (\<lambda>p.
     Inr (pieces @ [kind CHR ''A'' @ p, piece], 5 + length piece)))"
| "encode_value pieces PNone = Inr (pieces @ [kind CHR ''V''], 1)"
| "encode_value pieces (POther n) = Inl (UnsupportedAMQPFieldException (POther n))"
| "encode_dict pieces d =
     (let length_index = length pieces in
      bindE (encode_items (pieces @ [[]]) d 0) (\<lambda>(pieces, tablesize).
      bindE (pack_uint 4 (int tablesize)) (\<lambda>p.
      Inr (pieces[length_index := p], tablesize + 4))))"
| "encode_items pieces [] tablesize = Inr (pieces, tablesize)"
| "encode_items pieces ((key, val) # items) tablesize =
     bindE (encode_short_string pieces key) (\<lambda>(pieces, n).
     bindE (encode_value pieces val) (\<lambda>(pieces, m).
     encode_items pieces items (tablesize + n + m)))"
| "encode_elems list_pieces [] = Inr list_pieces"
| "encode_elems list_pieces (val # vals) =
     bindE (encode_value list_pieces val) (\<lambda>(list_pieces, _). encode_elems list_pieces vals)"
  by pat_completeness auto
termination
  by (relation "measure (\<lambda>x. case x of
        Inl (Inl (_, v)) \<Rightarrow> 2 * size v
      | Inl (Inr (_, d)) \<Rightarrow> 2 * size_list (size_prod size size) d + 1
      | Inr (Inl (_, d, _)) \<Rightarrow> 2 * size_list (size_prod size size) d
      | Inr (Inr (_, l)) \<Rightarrow> 2 * size_list size l)") auto

text \<open>\<open>encode_table\<close>: \<open>table or {}\<close> must have \<open>items\<close>.\<close>

definition encode_table :: "pieces \<Rightarrow> pyval \<Rightarrow> py_error + pieces \<times> nat" where
  "encode_table pieces table =
     (if truthy table
      then (case table of PDict d \<Rightarrow> encode_dict pieces d | _ \<Rightarrow> Inl AttributeError)
      else encode_dict pieces [])"

section \<open>Decoding\<close>

definition decode_short_string :: "bytes \<Rightarrow> nat \<Rightarrow> py_error + pyval \<times> nat" where
  "decode_short_string encoded offset =
     bindE (unpack_uint 1 encoded offset) (\<lambda>length.
     let offset = offset + 1;
         val = py_slice offset (offset + nat length) encoded;
         offset = offset + nat length
     in Inr (case utf8_decode val of Some s \<Rightarrow> PStr s | None \<Rightarrow> PBytes val, offset))"

text \<open>A branch of \<open>decode_value\<close> that unpacks \<open>n\<close> bytes and converts them.\<close>

definition scalar :: "nat \<Rightarrow> (bytes \<Rightarrow> py_error + pyval) \<Rightarrow> bytes \<Rightarrow> nat \<Rightarrow> py_error + pyval \<times> nat" where
  "scalar n conv encoded offset =
     bindE (unpack_from n encoded offset) (\<lambda>bs. bindE (conv bs) (\<lambda>v. Inr (v, offset + n)))"

definition long_of_float :: "nat \<Rightarrow> nat \<Rightarrow> bytes \<Rightarrow> py_error + pyval" where
  "long_of_float e m bs = bindE (ieee_to_int e m bs) (\<lambda>i. Inr (PLong i))"

text \<open>The last second of the year 9999, the largest that \<open>datetime\<close> can represent.\<close>

definition max_timestamp :: int where
  "max_timestamp = 253402300799"

definition utcfromtimestamp :: "bytes \<Rightarrow> py_error + pyval" where
  "utcfromtimestamp bs =
     (if be_int bs \<le> max_timestamp then Inr (PDatetime (be_int bs) 0) else Inl TimestampError)"

text \<open>\<open>decimal.Decimal(raw) * (decimal.Decimal(10) ** -decimals)\<close>, which is exact.\<close>

definition decode_decimal :: "bytes \<Rightarrow> py_error + pyval" where
  "decode_decimal bs = Inr (PDecimal (be_sint (drop 1 bs)) (- be_int (take 1 bs)))"

text \<open>A long string: a length of four bytes, then a slice that is clipped at the end.\<close>

definition decode_long_bytes :: "bytes \<Rightarrow> nat \<Rightarrow> py_error + bytes \<times> nat" where
  "decode_long_bytes encoded offset =
     bindE (unpack_uint 4 encoded offset) (\<lambda>length.
     let offset = offset + 4
     in Inr (py_slice offset (offset + nat length) encoded, offset + nat length))"

text \<open>
  The scalar kinds of \<open>decode_value\<close>, by the kind byte; \<open>None\<close> for the kinds that recurse
  and for those that are unknown.
\<close>

definition decode_scalar :: "bytes \<Rightarrow> (bytes \<Rightarrow> nat \<Rightarrow> py_error + pyval \<times> nat) option" where
  "decode_scalar k =
     (if k = kind CHR ''t'' then Some (scalar 1 (\<lambda>bs. Inr (PBool (be_int bs \<noteq> 0))))
      else if k = kind CHR ''b'' then Some (scalar 1 (\<lambda>bs. Inr (PInt (be_int bs))))
      else if k = kind CHR ''B'' then Some (scalar 1 (\<lambda>bs. Inr (PInt (be_sint bs))))
      else if k = kind CHR ''U'' then Some (scalar 2 (\<lambda>bs. Inr (PInt (be_sint bs))))
      else if k = kind CHR ''u'' then Some (scalar 2 (\<lambda>bs. Inr (PInt (be_int bs))))
      else if k = kind CHR ''I'' then Some (scalar 4 (\<lambda>bs. Inr (PInt (be_sint bs))))
      else if k = kind CHR ''i'' then Some (scalar 4 (\<lambda>bs. Inr (PInt (be_int bs))))
      else if k = kind CHR ''L'' then Some (scalar 8 (\<lambda>bs. Inr (PLong (be_sint bs))))
      else if k = kind CHR ''l'' then Some (scalar 8 (\<lambda>bs. Inr (PLong (be_int bs))))
      else if k = kind CHR ''f'' then Some (scalar 4 (long_of_float 8 23))
      else if k = kind CHR ''d'' then Some (scalar 8 (long_of_float 11 52))
      else if k = kind CHR ''D'' then Some (scalar 5 decode_decimal)
      else if k = kind CHR ''s'' then Some (scalar 2 (\<lambda>bs. Inr (PInt (be_sint bs))))
      else if k = kind CHR ''S'' then Some (\<lambda>encoded offset.
        bindE (decode_long_bytes encoded offset) (\<lambda>(val, offset).
        Inr (case utf8_decode val of Some s \<Rightarrow> PStr s | None \<Rightarrow> PBytes val, offset)))
      else if k = kind CHR ''x'' then Some (\<lambda>encoded offset.
        bindE (decode_long_bytes encoded offset) (\<lambda>(val, offset). Inr (PBytes val, offset)))
      else if k = kind CHR ''T'' then Some (scalar 8 utcfromtimestamp)
      else if k = kind CHR ''V'' then Some (\<lambda>encoded offset. Inr (PNone, offset))
      else None)"

text \<open>
  The decoder with fuel: \<open>decode_items\<close> is the loop of \<open>decode_table\<close>, \<open>decode_elems\<close>
  that of the field array. Every call reads a byte before it calls on, so as much fuel as
  there are bytes left, and one more, is enough.
\<close>

fun decode_value_fuel :: "nat \<Rightarrow> bytes \<Rightarrow> nat \<Rightarrow> py_error + pyval \<times> nat"
  and decode_items :: "nat \<Rightarrow> bytes \<Rightarrow> nat \<Rightarrow> nat \<Rightarrow> (pyval \<times> pyval) list
      \<Rightarrow> py_error + (pyval \<times> pyval) list \<times> nat"
  and decode_elems :: "nat \<Rightarrow> bytes \<Rightarrow> nat \<Rightarrow> nat \<Rightarrow> pyval list \<Rightarrow> py_error + pyval list \<times> nat" where
  "decode_value_fuel 0 encoded offset = Inl OutOfFuel"
| "decode_value_fuel (Suc f) encoded offset =
     (let k = py_slice offset (offset + 1) encoded; offset = offset + 1 in
      case decode_scalar k of
        Some decode \<Rightarrow> decode encoded offset
      | None \<Rightarrow>
          if k = kind CHR ''A'' then
            bindE (unpack_uint 4 encoded offset) (\<lambda>length.
            let offset = offset + 4 in
            bindE (decode_elems f encoded offset (offset + nat length) []) (\<lambda>(val, offset).
            Inr (PList val, offset)))
          else if k = kind CHR ''F'' then
            bindE (unpack_uint 4 encoded offset) (\<lambda>tablesize.
            let offset = offset + 4 in
            bindE (decode_items f encoded offset (offset + nat tablesize) []) (\<lambda>(val, offset).
            Inr (PDict val, offset)))
          else Inl (InvalidFieldTypeException k))"
| "decode_items 0 encoded offset limit result = Inl OutOfFuel"
| "decode_items (Suc f) encoded offset limit result =
     (if offset < limit then
        bindE (decode_short_string encoded offset) (\<lambda>(key, offset).
        bindE (decode_value_fuel f encoded offset) (\<lambda>(val, offset).
        decode_items f encoded offset limit (dict_set key val result)))
      else Inr (result, offset))"
| "decode_elems 0 encoded offset limit result = Inl OutOfFuel"
| "decode_elems (Suc f) encoded offset limit result =
     (if offset < limit then
        bindE (decode_value_fuel f encoded offset) (\<lambda>(val, offset).
        decode_elems f encoded offset limit (result @ [val]))
      else Inr (result, offset))"

definition decode_value :: "bytes \<Rightarrow> nat \<Rightarrow> py_error + pyval \<times> nat" where
  "decode_value encoded offset = decode_value_fuel (Suc (length encoded)) encoded offset"

definition decode_table :: "bytes \<Rightarrow> nat \<Rightarrow> py_error + pyval \<times> nat" where
  "decode_table encoded offset =
     bindE (unpack_uint 4 encoded offset) (\<lambda>tablesize.
     let offset = offset + 4 in
     bindE (decode_items (Suc (length encoded)) encoded offset (offset + nat tablesize) [])
       (\<lambda>(result, offset). Inr (PDict result, offset)))"

section \<open>What the encoders append\<close>

text \<open>The pieces are extended by byte strings whose total length is the size returned.\<close>

definition appends :: "pieces \<Rightarrow> pieces \<Rightarrow> nat \<Rightarrow> (bytes \<Rightarrow> bool) \<Rightarrow> bool" where
  "appends pieces pieces' n Q \<longleftrightarrow>
     (\<exists>ps. pieces' = pieces @ ps \<and> length (concat ps) = n \<and> Q (concat ps))"

lemma appendsI: "pieces' = pieces @ ps \<Longrightarrow> length (concat ps) = n \<Longrightarrow> Q (concat ps) \<Longrightarrow> appends pieces pieces' n Q"
  by (auto simp: appends_def)

text \<open>A decoder reads \<open>bs\<close> as \<open>v\<close>, whatever stands around it.\<close>

definition reads :: "(bytes \<Rightarrow> nat \<Rightarrow> py_error + 'a \<times> nat) \<Rightarrow> bytes \<Rightarrow> 'a \<Rightarrow> bool" where
  "reads dec bs v \<longleftrightarrow>
     (\<forall>pre post. dec (pre @ bs @ post) (length pre) = Inr (v, length pre + length bs))"

lemma reads_append: "reads dec bs v \<Longrightarrow> dec (pre @ bs @ cs @ post) (length pre) = Inr (v, length pre + length bs)"
  by (simp add: reads_def)

lemma reads_after:
  assumes "reads dec bs v" "off = length pre + length cs"
  shows "dec (pre @ cs @ bs @ post) off = Inr (v, off + length bs)"
  using assms(1)[unfolded reads_def, rule_format, of "pre @ cs" post] assms(2) by simp

lemma reads_scalar:
  assumes "length bs = n" "conv bs = Inr v"
  shows "reads (scalar n conv) bs v"
  using assms by (auto simp: reads_def scalar_def unpack_from_append)

lemma reads_long_bytes:
  assumes "pack_uint 4 (int (length val)) = Inr p"
  shows "reads decode_long_bytes (p @ val) val"
proof -
  have "py_slice (length pre + 4) (length pre + 4 + length val) (pre @ p @ val @ post) = val" for pre post
    using py_slice_append_mid[of "pre @ p" val post] pack_uint_length[OF assms] by simp
  then show ?thesis
    using unpack_uint_pack[OF assms] pack_uint_length[OF assms]
    by (simp add: reads_def decode_long_bytes_def Let_def)
qed

text \<open>Decoding a short string decodes UTF-8 where it can.\<close>

definition text_or_bytes :: "bytes \<Rightarrow> pyval" where
  "text_or_bytes b = (case utf8_decode b of Some s \<Rightarrow> PStr s | None \<Rightarrow> PBytes b)"

lemma text_or_bytes_encode: "utf8_encode s = Inr b \<Longrightarrow> text_or_bytes b = PStr s"
  by (simp add: text_or_bytes_def utf8_decode_encode)

fun wire_key :: "pyval \<Rightarrow> pyval" where
  "wire_key (PBytes b) = text_or_bytes b"
| "wire_key v = v"

lemma reads_short_string:
  assumes "pack_uint 1 (int (length val)) = Inr p"
  shows "reads decode_short_string (p @ val) (text_or_bytes val)"
proof -
  have "py_slice (length pre + 1) (length pre + 1 + length val) (pre @ p @ val @ post) = val" for pre post
    using py_slice_append_mid[of "pre @ p" val post] pack_uint_length[OF assms] by simp
  then show ?thesis
    using unpack_uint_pack[OF assms] pack_uint_length[OF assms]
    by (simp add: reads_def decode_short_string_def Let_def text_or_bytes_def split: option.split)
qed

lemma as_bytes_wire_key: "as_bytes k = Inr b \<Longrightarrow> text_or_bytes b = wire_key k"
  by (cases k) (auto simp: text_or_bytes_encode)

lemma encode_short_string_appends:
  assumes "encode_short_string pieces k = Inr (pieces', n)"
  shows "appends pieces pieces' n (\<lambda>bs. bs \<noteq> [] \<and> reads decode_short_string bs (wire_key k))"
proof -
  from assms obtain b p where b: "as_bytes k = Inr b" "pack_uint 1 (int (length b)) = Inr p"
    "pieces' = pieces @ [p, b]" "n = 1 + length b"
    by (auto simp: encode_short_string_def Let_def result_simps split: if_splits)
  with pack_uint_length[OF b(2)] reads_short_string[OF b(2)] as_bytes_wire_key[OF b(1)]
  show ?thesis by (intro appendsI[where ps = "[p, b]"]) auto
qed

section \<open>The value that comes back\<close>

fun wire_value :: "pyval \<Rightarrow> pyval" where
  "wire_value (PInt v) = (if - (2 ^ 31) \<le> v \<and> v < 2 ^ 31 then PInt v else PLong v)"
| "wire_value (PDecimal c e) =
     (let (c', e') = dec_normalize c e
      in if e' < 0 then PDecimal c' e' else PDecimal (c' * 10 ^ nat e') 0)"
| "wire_value (PDatetime s u) = PDatetime s 0"
| "wire_value (PDict d) =
     PDict (fold (\<lambda>(k, v). dict_set k v) (map (\<lambda>(k, v). (wire_key k, wire_value v)) d) [])"
| "wire_value (PList l) = PList (map wire_value l)"
| "wire_value v = v"

definition wire_items :: "(pyval \<times> pyval) list \<Rightarrow> (pyval \<times> pyval) list \<Rightarrow> (pyval \<times> pyval) list" where
  "wire_items d r = fold (\<lambda>(k, v). dict_set k v) (map (\<lambda>(k, v). (wire_key k, wire_value v)) d) r"

lemma wire_value_dict: "wire_value (PDict d) = PDict (wire_items d [])"
  by (simp add: wire_items_def)

lemma wire_items_simps [simp]:
  "wire_items [] r = r"
  "wire_items ((k, v) # d) r = wire_items d (dict_set (wire_key k) (wire_value v) r)"
  by (simp_all add: wire_items_def)

text \<open>Every \<open>datetime\<close> of Python is before the year 10000.\<close>

fun valid_times :: "pyval \<Rightarrow> bool" where
  "valid_times (PDatetime s u) = (s \<le> max_timestamp)"
| "valid_times (PDict d) = list_all (\<lambda>(k, v). valid_times v) d"
| "valid_times (PList l) = list_all valid_times l"
| "valid_times v = True"

lemma unat_of_char: "unat (of_char c :: byte) = of_char c"
proof -
  have "(of_char c :: byte) = of_nat (of_char c)" by (simp only: of_nat_of_char)
  then have "unat (of_char c :: byte) = of_char c mod 256" by (simp only: unat_of_nat) simp
  then show ?thesis by (simp only: of_char_mod_256)
qed

lemma kind_eq [simp]: "kind c = kind d \<longleftrightarrow> c = d"
proof
  assume "kind c = kind d"
  then have "unat (of_char c :: byte) = unat (of_char d :: byte)"
    unfolding kind_def by (simp only: list.inject)
  then show "c = d" by (simp only: unat_of_char of_char_eq_iff)
qed simp

lemma length_kind [simp]: "length (kind c) = 1"
  by (simp add: kind_def)

definition reads_value :: "bytes \<Rightarrow> pyval \<Rightarrow> bool" where
  "reads_value bs v \<longleftrightarrow> (\<forall>f. length bs < f \<longrightarrow> reads (decode_value_fuel f) bs v)"

definition reads_items :: "bytes \<Rightarrow> (pyval \<times> pyval) list \<Rightarrow> bool" where
  "reads_items bs d \<longleftrightarrow> (\<forall>f r pre post. length bs < f \<longrightarrow>
     decode_items f (pre @ bs @ post) (length pre) (length pre + length bs) r
       = Inr (wire_items d r, length pre + length bs))"

definition reads_elems :: "bytes \<Rightarrow> pyval list \<Rightarrow> bool" where
  "reads_elems bs l \<longleftrightarrow> (\<forall>f r pre post. Suc (length bs) < f \<longrightarrow>
     decode_elems f (pre @ bs @ post) (length pre) (length pre + length bs) r
       = Inr (r @ map wire_value l, length pre + length bs))"

lemma kind_at: "py_slice (length pre) (Suc (length pre)) (pre @ kind c @ bs) = kind c"
  using py_slice_append_mid[of pre "kind c" bs] by simp

lemma reads_value_scalar:
  assumes "decode_scalar (kind c) = Some dec" "reads dec bs v"
  shows "reads_value (kind c @ bs) v"
proof -
  have "reads (decode_value_fuel (Suc f)) (kind c @ bs) v" for f
    using assms(1) reads_after[OF assms(2), of "length pre + 1" pre "kind c" for pre]
    by (auto simp: reads_def Let_def kind_at)
  then show ?thesis
    unfolding reads_value_def by (metis less_nat_zero_code nat.exhaust)
qed

lemma decode_value_table:
  assumes "py_slice off (Suc off) enc = kind CHR ''F''"
  shows "decode_value_fuel (Suc f) enc off =
    bindE (unpack_uint 4 enc (Suc off)) (\<lambda>n.
    bindE (decode_items f enc (off + 5) (off + 5 + nat n) []) (\<lambda>(val, offset). Inr (PDict val, offset)))"
  using assms by (simp add: Let_def decode_scalar_def add.commute[of off 5])

lemma decode_value_array:
  assumes "py_slice off (Suc off) enc = kind CHR ''A''"
  shows "decode_value_fuel (Suc f) enc off =
    bindE (unpack_uint 4 enc (Suc off)) (\<lambda>n.
    bindE (decode_elems f enc (off + 5) (off + 5 + nat n) []) (\<lambda>(val, offset). Inr (PList val, offset)))"
  using assms by (simp add: Let_def decode_scalar_def add.commute[of off 5])

lemma unpack_length_after_kind:
  assumes "pack_uint 4 (int n) = Inr p"
  shows "unpack_uint 4 (pre @ kind c @ p @ post) (Suc (length pre)) = Inr (int n)"
  using unpack_uint_pack[OF assms, of "pre @ kind c" post] by simp

lemma reads_value_table:
  assumes p: "pack_uint 4 (int (length its)) = Inr p" and its: "reads_items its d"
  shows "reads_value (kind CHR ''F'' @ p @ its) (PDict (wire_items d []))"
  unfolding reads_value_def
proof (intro allI impI)
  fix f assume "length (kind CHR ''F'' @ p @ its) < f"
  then obtain f' where f: "f = Suc f'" "length its < f'" by (cases f) auto
  have len: "length p = 4" by (rule pack_uint_length[OF p])
  have "decode_items f' (pre @ kind CHR ''F'' @ p @ its @ post) (length pre + 5)
      (length pre + 5 + length its) [] = Inr (wire_items d [], length pre + 5 + length its)"
    for pre post
    using its[unfolded reads_items_def, rule_format, OF f(2), of "pre @ kind CHR ''F'' @ p" post] len
    by (simp add: add.assoc)
  then show "reads (decode_value_fuel f) (kind CHR ''F'' @ p @ its) (PDict (wire_items d []))"
    unfolding reads_def f(1)
    by (auto simp: decode_value_table unpack_length_after_kind[OF p] kind_at len simp del: decode_value_fuel.simps)
qed

lemma reads_value_array:
  assumes p: "pack_uint 4 (int (length els)) = Inr p" and els: "reads_elems els l"
  shows "reads_value (kind CHR ''A'' @ p @ els) (PList (map wire_value l))"
  unfolding reads_value_def
proof (intro allI impI)
  have len: "length p = 4" by (rule pack_uint_length[OF p])
  fix f assume "length (kind CHR ''A'' @ p @ els) < f"
  with len obtain f' where f: "f = Suc f'" "Suc (length els) < f'" by (cases f) auto
  have "decode_elems f' (pre @ kind CHR ''A'' @ p @ els @ post) (length pre + 5)
      (length pre + 5 + length els) [] = Inr (map wire_value l, length pre + 5 + length els)"
    for pre post
    using els[unfolded reads_elems_def, rule_format, OF f(2), of "pre @ kind CHR ''A'' @ p" post] len
    by (simp add: add.assoc)
  then show "reads (decode_value_fuel f) (kind CHR ''A'' @ p @ els) (PList (map wire_value l))"
    unfolding reads_def f(1)
    by (auto simp: decode_value_array unpack_length_after_kind[OF p] kind_at len simp del: decode_value_fuel.simps)
qed

lemma reads_value_nonempty: "reads_value bs v \<Longrightarrow> bs \<noteq> []"
proof
  assume "reads_value bs v" "bs = []"
  then have "reads (decode_value_fuel 1) [] v" by (simp add: reads_value_def)
  from this[unfolded reads_def, rule_format, of "[]" "[]"]
  have "decode_value_fuel 1 [] 0 = Inr (v, 0)" by simp
  then show False by (simp add: decode_scalar_def py_slice_def kind_def)
qed

lemma reads_items_Nil: "reads_items [] []"
  unfolding reads_items_def
proof (intro allI impI)
  fix f :: nat and r pre post assume "length ([] :: bytes) < f"
  then show "decode_items f (pre @ [] @ post) (length pre) (length pre + length ([] :: bytes)) r
      = Inr (wire_items [] r, length pre + length ([] :: bytes))" by (cases f) auto
qed

lemma reads_items_Cons:
  assumes k: "ks \<noteq> []" "reads decode_short_string ks (wire_key k)"
    and v: "reads_value vs (wire_value v)" and its: "reads_items its d"
  shows "reads_items (ks @ vs @ its) ((k, v) # d)"
  unfolding reads_items_def
proof (intro allI impI)
  fix f :: nat and r pre post assume "length (ks @ vs @ its) < f"
  with k reads_value_nonempty[OF v] obtain f' where f: "f = Suc f'" "length vs < f'" "length its < f'"
    by (cases f; cases ks; cases vs) auto
  let ?enc = "pre @ ks @ vs @ its @ post" and ?lim = "length pre + length (ks @ vs @ its)"
  have 1: "decode_short_string ?enc (length pre) = Inr (wire_key k, length pre + length ks)"
    using k(2) by (simp add: reads_def)
  have 2: "decode_value_fuel f' ?enc (length pre + length ks)
      = Inr (wire_value v, length pre + length ks + length vs)"
    using reads_after[of "decode_value_fuel f'" vs "wire_value v" "length pre + length ks" pre ks] v f(2)
    by (simp add: reads_value_def)
  have 3: "decode_items f' ?enc (length pre + length ks + length vs) ?lim r'
      = Inr (wire_items d r', ?lim)" for r'
    using its[unfolded reads_items_def, rule_format, OF f(3), of "pre @ ks @ vs" post]
    by (simp add: add.assoc)
  show "decode_items f (pre @ (ks @ vs @ its) @ post) (length pre) ?lim r
      = Inr (wire_items ((k, v) # d) r, ?lim)"
    using k(1) 1 2 3 by (simp add: f(1))
qed

lemma reads_elems_Nil: "reads_elems [] []"
  unfolding reads_elems_def
proof (intro allI impI)
  fix f :: nat and r pre post assume "Suc (length ([] :: bytes)) < f"
  then show "decode_elems f (pre @ [] @ post) (length pre) (length pre + length ([] :: bytes)) r
      = Inr (r @ map wire_value [], length pre + length ([] :: bytes))" by (cases f) auto
qed

lemma reads_elems_Cons:
  assumes v: "reads_value vs (wire_value v)" and els: "reads_elems els l"
  shows "reads_elems (vs @ els) (v # l)"
  unfolding reads_elems_def
proof (intro allI impI)
  fix f :: nat and r pre post assume "Suc (length (vs @ els)) < f"
  with reads_value_nonempty[OF v] obtain f' where f: "f = Suc f'" "length vs < f'" "Suc (length els) < f'"
    by (cases f; cases vs) auto
  let ?enc = "pre @ vs @ els @ post" and ?lim = "length pre + length (vs @ els)"
  have 1: "decode_value_fuel f' ?enc (length pre) = Inr (wire_value v, length pre + length vs)"
    using v f(2) by (simp add: reads_value_def reads_def)
  have 2: "decode_elems f' ?enc (length pre + length vs) ?lim r'
      = Inr (r' @ map wire_value l, ?lim)" for r'
    using els[unfolded reads_elems_def, rule_format, OF f(3), of "pre @ vs" post]
    by (simp add: add.assoc)
  show "decode_elems f (pre @ (vs @ els) @ post) (length pre) ?lim r
      = Inr (r @ map wire_value (v # l), ?lim)"
    using reads_value_nonempty[OF v] 1 2 by (simp add: f(1))
qed

section \<open>Round trip\<close>

lemma appends_one:
  "Q p \<Longrightarrow> length p = n \<Longrightarrow> appends pieces (pieces @ [p]) n Q"
  by (rule appendsI[where ps = "[p]"]) auto

lemma appends_two:
  "Q (p @ q) \<Longrightarrow> length p + length q = n \<Longrightarrow> appends pieces (pieces @ [p, q]) n Q"
  by (rule appendsI[where ps = "[p, q]"]) auto

lemma appends_trans:
  assumes "appends a b m P" "appends b c n Q" "\<And>x y. P x \<Longrightarrow> Q y \<Longrightarrow> length x = m \<Longrightarrow> length y = n \<Longrightarrow> R (x @ y)"
  shows "appends a c (m + n) R"
proof -
  from assms obtain ps qs where "b = a @ ps" "c = b @ qs" "length (concat ps) = m"
    "length (concat qs) = n" "P (concat ps)" "Q (concat qs)" by (auto simp: appends_def)
  with assms(3) show ?thesis by (intro appendsI[where ps = "ps @ qs"]) auto
qed

text \<open>The scalar encoders, each read back by its kind.\<close>

lemma reads_conv:
  assumes "decode_scalar (kind c) = Some (scalar n conv)" "length bs = n" "conv bs = Inr v"
  shows "reads_value (kind c @ bs) v"
  using reads_value_scalar[OF assms(1) reads_scalar] assms(2,3) by blast

lemma encode_long_reads:
  assumes "encode_long v = Inr p"
  shows "length p = 9 \<and> reads_value p (PLong v)"
proof (cases "v < 0")
  case True
  with assms obtain q where q: "pack_sint 8 v = Inr q" "p = kind CHR ''L'' @ q"
    by (auto simp: encode_long_def result_simps)
  then have "be_sint q = v" by (auto simp: pack_sint_def be_sint_be_bytes split: if_splits)
  with q pack_sint_length[OF q(1)] show ?thesis
    by (auto intro!: reads_conv simp: decode_scalar_def)
next
  case False
  with assms obtain q where q: "pack_uint 8 v = Inr q" "p = kind CHR ''l'' @ q"
    by (auto simp: encode_long_def result_simps)
  then have "be_int q = v" by (auto simp: pack_uint_def be_int_be_bytes split: if_splits)
  with q pack_uint_length[OF q(1)] show ?thesis
    by (auto intro!: reads_conv simp: decode_scalar_def)
qed

lemma encode_int_reads:
  assumes "encode_int v = Inr (p, n)"
  shows "length p = n \<and> reads_value p (wire_value (PInt v))"
proof (cases "pack_sint 4 v")
  case (Inl e)
  then have "\<not> (- (2 ^ 31) \<le> v \<and> v < 2 ^ 31)" by (auto simp: pack_sint_def split: if_splits)
  with assms Inl encode_long_reads[of v p] show ?thesis by (auto simp: encode_int_def result_simps)
next
  case (Inr q)
  then have "- (2 ^ 31) \<le> v \<and> v < 2 ^ 31" "be_sint q = v"
    by (auto simp: pack_sint_def be_sint_be_bytes split: if_splits)
  with assms Inr pack_sint_length[OF Inr] show ?thesis
    by (auto simp: encode_int_def decode_scalar_def intro!: reads_conv)
qed

lemma encode_decimal_reads:
  assumes "encode_decimal c e = Inr p"
  shows "length p = 6 \<and> reads_value p (wire_value (PDecimal c e))"
proof -
  obtain c' e' where n: "dec_normalize c e = (c', e')" by fastforce
  define decimals where "decimals = (if e' < 0 then - e' else 0)"
  define raw where "raw = (if e' < 0 then c' else c' * 10 ^ nat e')"
  from assms n obtain d r where d: "pack_uint 1 decimals = Inr d" "pack_sint 4 raw = Inr r"
    "p = kind CHR ''D'' @ d @ r"
    by (auto simp: encode_decimal_def result_simps decimals_def raw_def split: if_splits)
  then have "length d = 1" "length r = 4" using pack_uint_length pack_sint_length by blast+
  moreover have "be_int d = decimals" "be_sint r = raw"
    using d(1,2) pack_uint_be_int pack_sint_be_sint by blast+
  ultimately have "length (d @ r) = 5" "decode_decimal (d @ r) = Inr (PDecimal raw (- decimals))"
    by (simp_all add: decode_decimal_def)
  moreover have "PDecimal raw (- decimals) = wire_value (PDecimal c e)"
    by (simp add: n raw_def decimals_def)
  ultimately show ?thesis unfolding d(3)
    by (auto intro!: reads_conv simp: decode_scalar_def)
qed

lemma decode_scalar_text:
  assumes "utf8_encode s = Inr val" "pack_uint 4 (int (length val)) = Inr p"
  shows "reads_value ((kind CHR ''S'' @ p) @ val) (PStr s)"
  using reads_long_bytes[OF assms(2)] utf8_decode_encode[OF assms(1)]
  by (auto intro!: reads_value_scalar simp: decode_scalar_def reads_def)

lemma decode_scalar_bytes:
  assumes "pack_uint 4 (int (length val)) = Inr p"
  shows "reads_value ((kind CHR ''x'' @ p) @ val) (PBytes val)"
  using reads_long_bytes[OF assms]
  by (auto intro!: reads_value_scalar simp: decode_scalar_def reads_def)

text \<open>
  The induction over the encoder: what each of its functions appends is read back by the
  matching decoder.
\<close>

lemma encode_reads:
  "valid_times v \<Longrightarrow> encode_value pieces v = Inr (pieces', n) \<Longrightarrow>
     appends pieces pieces' n (\<lambda>bs. reads_value bs (wire_value v))"
  "list_all (\<lambda>(k, v). valid_times v) d \<Longrightarrow> encode_dict pieces d = Inr (pieces', n) \<Longrightarrow>
     appends pieces pieces' n (\<lambda>bs. \<exists>p its. bs = p @ its
       \<and> pack_uint 4 (int (length its)) = Inr p \<and> reads_items its d)"
  "list_all (\<lambda>(k, v). valid_times v) items \<Longrightarrow> encode_items pieces items ts = Inr (pieces', n) \<Longrightarrow>
     \<exists>m. n = ts + m \<and> appends pieces pieces' m (\<lambda>bs. reads_items bs items)"
  "list_all valid_times vals \<Longrightarrow> encode_elems pieces vals = Inr pieces' \<Longrightarrow>
     \<exists>m. appends pieces pieces' m (\<lambda>bs. reads_elems bs vals)"
proof (induction pieces v and pieces d and pieces items ts and pieces vals
    arbitrary: pieces' n and pieces' n and pieces' n and pieces'
    rule: encode_value_encode_dict_encode_items_encode_elems.induct)
  case (1 pieces s)
  then obtain val p where v: "utf8_encode s = Inr val" "pack_uint 4 (int (length val)) = Inr p"
    "pieces' = pieces @ [kind CHR ''S'' @ p, val]" "n = 5 + length val"
    by (auto simp: result_simps)
  with decode_scalar_text[OF v(1,2)] pack_uint_length[OF v(2)] show ?case
    by (auto intro!: appends_two)
next
  case (2 pieces val)
  then obtain p where v: "pack_uint 4 (int (length val)) = Inr p"
    "pieces' = pieces @ [kind CHR ''x'' @ p, val]" "n = 5 + length val"
    by (auto simp: result_simps)
  with decode_scalar_bytes[OF v(1)] pack_uint_length[OF v(1)] show ?case
    by (auto intro!: appends_two)
next
  case (3 pieces b)
  then obtain p where p: "pack_uint 1 (of_bool b) = Inr p" "pieces' = pieces @ [kind CHR ''t'' @ p]" "n = 2"
    by (auto simp: result_simps)
  have "be_int p = of_bool b" using p(1) by (rule pack_uint_be_int)
  then have "reads_value (kind CHR ''t'' @ p) (PBool b)"
    using pack_uint_length[OF p(1)] by (auto intro!: reads_conv simp: decode_scalar_def)
  with p pack_uint_length[OF p(1)] show ?case by (auto intro!: appends_one)
next
  case (4 pieces v)
  then obtain p where "encode_long v = Inr p" "pieces' = pieces @ [p]" "n = 9"
    by (auto simp: result_simps)
  with encode_long_reads show ?case by (fastforce intro!: appends_one)
next
  case (5 pieces v)
  then obtain p where "encode_int v = Inr (p, n)" "pieces' = pieces @ [p]"
    by (auto simp: result_simps)
  with encode_int_reads[of v p n] show ?case
    by (auto intro!: appends_one simp del: wire_value.simps)
next
  case (6 pieces c e)
  then obtain p where "encode_decimal c e = Inr p" "pieces' = pieces @ [p]" "n = 6"
    by (auto simp: result_simps)
  with encode_decimal_reads[of c e p] show ?case
    by (fastforce intro!: appends_one simp del: wire_value.simps)
next
  case (8 pieces s u)
  then obtain p where p: "pack_uint 8 s = Inr p" "pieces' = pieces @ [kind CHR ''T'' @ p]" "n = 9"
    by (auto simp: result_simps)
  have "be_int p = s" using p(1) by (rule pack_uint_be_int)
  with 8(1) have "utcfromtimestamp p = Inr (PDatetime s 0)" by (simp add: utcfromtimestamp_def)
  then have "reads_value (kind CHR ''T'' @ p) (PDatetime s 0)"
    using pack_uint_length[OF p(1)] by (auto intro!: reads_conv simp: decode_scalar_def)
  with p pack_uint_length[OF p(1)] show ?case by (auto intro!: appends_one)
next
  case (9 pieces d)
  then obtain m where m: "encode_dict (pieces @ [kind CHR ''F'']) d = Inr (pieces', m)" "n = 1 + m"
    by (auto simp: result_simps)
  have "appends pieces pieces' (1 + m) (\<lambda>bs. reads_value bs (wire_value (PDict d)))"
    by (rule appends_trans[OF appends_one[of "\<lambda>bs. bs = kind CHR ''F''"] "9.IH"[OF _ m(1)]])
      (use "9.prems" in \<open>auto simp del: wire_value.simps simp: wire_value_dict intro: reads_value_table\<close>)
  with m(2) show ?case by simp
next
  case (10 pieces l)
  then obtain lp p where lp: "encode_elems [] l = Inr lp" "pack_uint 4 (int (length (concat lp))) = Inr p"
    "pieces' = pieces @ [kind CHR ''A'' @ p, concat lp]" "n = 5 + length (concat lp)"
    by (auto simp: result_simps Let_def)
  with "10.IH" "10.prems" have "reads_elems (concat lp) l" by (fastforce simp: appends_def)
  from reads_value_array[OF lp(2) this] pack_uint_length[OF lp(2)] lp(3,4) show ?case
    by (auto intro!: appends_two)
next
  case (11 pieces)
  have "reads_value (kind CHR ''V'' @ []) PNone"
    by (rule reads_value_scalar[where dec = "\<lambda>encoded offset. Inr (PNone, offset)"])
      (auto simp: decode_scalar_def reads_def)
  with 11 show ?case by (auto intro!: appends_one)
next
  case (13 pieces d)
  then obtain q m p where q: "encode_items (pieces @ [[]]) d 0 = Inr (q, m)"
    "pack_uint 4 (int m) = Inr p" "pieces' = q[length pieces := p]" "n = m + 4"
    by (auto simp: result_simps Let_def)
  from "13.IH"[OF refl "13.prems"(1) q(1)] obtain ps where ps: "q = (pieces @ [[]]) @ ps"
    "length (concat ps) = m" "reads_items (concat ps) d" by (auto simp: appends_def)
  with q(3) have "pieces' = pieces @ p # ps" by simp
  with q(2,4) ps pack_uint_length[OF q(2)] show ?case
    by (intro appendsI[where ps = "p # ps"]) auto
next
  case (14 pieces ts)
  then show ?case by (auto simp: appends_def reads_items_Nil)
next
  case (15 pieces k v items ts)
  then obtain q i r j where q: "encode_short_string pieces k = Inr (q, i)"
    "encode_value q v = Inr (r, j)" "encode_items r items (ts + i + j) = Inr (pieces', n)"
    by (auto simp: result_simps)
  from "15.IH"(1)[OF q(1) refl _ q(2)] "15.prems"
  have v: "appends q r j (\<lambda>bs. reads_value bs (wire_value v))" by simp
  from "15.IH"(2)[OF q(1) refl q(2) refl _ q(3)] "15.prems" obtain m
    where m: "n = ts + i + j + m" "appends r pieces' m (\<lambda>bs. reads_items bs items)" by auto
  have "appends pieces pieces' (i + (j + m)) (\<lambda>bs. reads_items bs ((k, v) # items))"
    by (rule appends_trans[OF encode_short_string_appends[OF q(1)]
          appends_trans[OF v m(2), where R = "\<lambda>bs. \<exists>x y. bs = x @ y \<and> reads_value x (wire_value v) \<and> reads_items y items"]])
      (auto intro: reads_items_Cons)
  with m(1) show ?case by (intro exI[of _ "i + (j + m)"]) simp
next
  case (16 pieces)
  then show ?case by (auto simp: appends_def reads_elems_Nil)
next
  case (17 pieces v vals)
  then obtain q i where q: "encode_value pieces v = Inr (q, i)" "encode_elems q vals = Inr pieces'"
    by (auto simp: result_simps)
  from "17.IH"(1)[OF _ q(1)] "17.prems"
  have v: "appends pieces q i (\<lambda>bs. reads_value bs (wire_value v))" by simp
  from "17.IH"(2)[OF q(1) refl _ q(2)] "17.prems" obtain m
    where m: "appends q pieces' m (\<lambda>bs. reads_elems bs vals)" by auto
  show ?case
    by (rule exI, rule appends_trans[OF v m]) (auto intro: reads_elems_Cons)
qed simp_all

section \<open>Fuel\<close>

lemma unpack_from_not_fuel [simp]: "unpack_from n enc off \<noteq> Inl OutOfFuel"
  by (simp add: unpack_from_def)

lemma unpack_uint_not_fuel [simp]: "unpack_uint n enc off \<noteq> Inl OutOfFuel"
  by (simp add: unpack_uint_def result_simps)

lemma scalar_not_fuel: "(\<And>bs. conv bs \<noteq> Inl OutOfFuel) \<Longrightarrow> scalar n conv enc off \<noteq> Inl OutOfFuel"
  by (auto simp: scalar_def result_simps)

lemma decode_scalar_not_fuel: "decode_scalar k = Some dec \<Longrightarrow> dec enc off \<noteq> Inl OutOfFuel"
  by (auto simp: decode_scalar_def long_of_float_def ieee_to_int_def utcfromtimestamp_def
      decode_decimal_def decode_long_bytes_def Let_def result_simps
      split: if_splits intro!: scalar_not_fuel)

lemma decode_scalar_advances: "decode_scalar k = Some dec \<Longrightarrow> dec enc off = Inr (v, off') \<Longrightarrow> off \<le> off'"
  by (auto simp: decode_scalar_def scalar_def decode_long_bytes_def Let_def result_simps
      split: if_splits)

lemma decode_short_string_advances:
  "decode_short_string enc off = Inr (k, off') \<Longrightarrow> off < off' \<and> off < length enc"
  by (auto simp: decode_short_string_def unpack_uint_def unpack_from_def Let_def result_simps
      split: if_splits)

lemma decode_short_string_not_fuel [simp]: "decode_short_string enc off \<noteq> Inl OutOfFuel"
  by (auto simp: decode_short_string_def Let_def result_simps)

text \<open>
  How the value decoder continues behind a kind byte: it reads nothing at the end of the
  buffer, a scalar decoder takes over, or a length announces elements or items.
\<close>

lemma decode_value_cases:
  obtains (scalar) dec where "off < length enc"
      "decode_value_fuel (Suc f) enc off = dec enc (Suc off)"
      "\<exists>k. decode_scalar k = Some dec"
  | (array) "off < length enc"
      "decode_value_fuel (Suc f) enc off =
        bindE (unpack_uint 4 enc (Suc off)) (\<lambda>n.
        bindE (decode_elems f enc (off + 5) (off + 5 + nat n) []) (\<lambda>(val, offset). Inr (PList val, offset)))"
  | (table) "off < length enc"
      "decode_value_fuel (Suc f) enc off =
        bindE (unpack_uint 4 enc (Suc off)) (\<lambda>n.
        bindE (decode_items f enc (off + 5) (off + 5 + nat n) []) (\<lambda>(val, offset). Inr (PDict val, offset)))"
  | (invalid) k where "decode_value_fuel (Suc f) enc off = Inl (InvalidFieldTypeException k)"
proof -
  define k where "k = py_slice off (Suc off) enc"
  have len: "off < length enc" if "k \<noteq> []"
    using that by (cases "off < length enc") (simp_all add: k_def py_slice_def)
  show thesis
  proof (cases "decode_scalar k")
    case (Some dec)
    then have "k \<noteq> []" by (auto simp: decode_scalar_def kind_def)
    with Some len show ?thesis by (intro scalar) (auto simp: k_def Let_def)
  next
    case None
    consider "k = kind CHR ''A''" | "k = kind CHR ''F''" | "k \<noteq> kind CHR ''A''" "k \<noteq> kind CHR ''F''"
      by blast
    then show ?thesis
    proof cases
      case 1
      with len array decode_value_array[of off enc f] show ?thesis by (simp add: k_def kind_def)
    next
      case 2
      with len table decode_value_table[of off enc f] show ?thesis by (simp add: k_def kind_def)
    next
      case 3
      with None show ?thesis by (intro invalid[of k]) (simp add: k_def Let_def)
    qed
  qed
qed

lemma unpack_uint_length: "unpack_uint n enc off = Inr v \<Longrightarrow> off + n \<le> length enc"
  by (auto simp: unpack_uint_def unpack_from_def result_simps split: if_splits)

text \<open>Decoding moves forward: a value takes at least its kind byte.\<close>

lemma decode_advances:
  "(\<forall>off v off'. decode_value_fuel f enc off = Inr (v, off') \<longrightarrow> off < off' \<and> off < length enc)
   \<and> (\<forall>off r d off'. decode_items f enc off limit r = Inr (d, off') \<longrightarrow> off \<le> off')
   \<and> (\<forall>off l l' off'. decode_elems f enc off limit l = Inr (l', off') \<longrightarrow> off \<le> off')"
proof (induction f arbitrary: limit)
  case (Suc f)
  have vals: "off < off' \<and> off < length enc" if dec: "decode_value_fuel (Suc f) enc off = Inr (v, off')"
    for off v off'
  proof (cases rule: decode_value_cases[of off enc f])
    case (scalar dec)
    with dec show ?thesis using decode_scalar_advances by (metis Suc_le_eq)
  next
    case array
    with dec obtain n l where "decode_elems f enc (off + 5) (off + 5 + nat n) [] = Inr (l, off')"
      by (auto simp: result_simps simp del: decode_value_fuel.simps)
    with Suc have "off + 5 \<le> off'" by blast
    with array(1) show ?thesis by simp
  next
    case table
    with dec obtain n l where "decode_items f enc (off + 5) (off + 5 + nat n) [] = Inr (l, off')"
      by (auto simp: result_simps simp del: decode_value_fuel.simps)
    with Suc have "off + 5 \<le> off'" by blast
    with table(1) show ?thesis by simp
  next
    case (invalid k)
    with dec show ?thesis by simp
  qed
  have items: "off \<le> off'" if d: "decode_items (Suc f) enc off limit r = Inr (d, off')" for off r d off'
  proof (cases "off < limit")
    case True
    with d obtain k o1 v o2 where o: "decode_short_string enc off = Inr (k, o1)"
      "decode_value_fuel f enc o1 = Inr (v, o2)"
      "decode_items f enc o2 limit (dict_set k v r) = Inr (d, off')"
      by (auto simp: result_simps)
    have "off < o1" using decode_short_string_advances[OF o(1)] by simp
    moreover have "o1 < o2" "o2 \<le> off'" using Suc o(2,3) by blast+
    ultimately show ?thesis by simp
  qed (use d in simp)
  have elems: "off \<le> off'" if d: "decode_elems (Suc f) enc off limit l = Inr (l', off')" for off l l' off'
  proof (cases "off < limit")
    case True
    with d obtain v o2 where o: "decode_value_fuel f enc off = Inr (v, o2)"
      "decode_elems f enc o2 limit (l @ [v]) = Inr (l', off')"
      by (auto simp: result_simps)
    have "off < o2" "o2 \<le> off'" using Suc o by blast+
    then show ?thesis by simp
  qed (use d in simp)
  show ?case using vals items elems by blast
qed simp

lemma decode_value_advances:
  "decode_value_fuel f enc off = Inr (v, off') \<Longrightarrow> off < off' \<and> off < length enc"
  using decode_advances by blast

lemma decode_enough_fuel:
  "(\<forall>off. length enc < f + off \<longrightarrow> 0 < f \<longrightarrow> decode_value_fuel f enc off \<noteq> Inl OutOfFuel)
   \<and> (\<forall>off r. length enc < f + off \<longrightarrow> 0 < f \<longrightarrow> decode_items f enc off limit r \<noteq> Inl OutOfFuel)
   \<and> (\<forall>off l. Suc (length enc) < f + off \<longrightarrow> 1 < f \<longrightarrow> decode_elems f enc off limit l \<noteq> Inl OutOfFuel)"
proof (induction f arbitrary: limit)
  case (Suc f)
  have vals: "decode_value_fuel (Suc f) enc off \<noteq> Inl OutOfFuel" if len: "length enc < Suc f + off" for off
  proof (cases rule: decode_value_cases[of off enc f])
    case (scalar dec)
    with decode_scalar_not_fuel show ?thesis by (metis (no_types))
  next
    case array
    have "decode_elems f enc (off + 5) (off + 5 + nat n) [] \<noteq> Inl OutOfFuel"
      if "unpack_uint 4 enc (Suc off) = Inr n" for n
      using Suc len unpack_uint_length[OF that] by simp
    with array show ?thesis by (auto simp: result_simps simp del: decode_value_fuel.simps)
  next
    case table
    have "decode_items f enc (off + 5) (off + 5 + nat n) [] \<noteq> Inl OutOfFuel"
      if "unpack_uint 4 enc (Suc off) = Inr n" for n
      using Suc len unpack_uint_length[OF that] by simp
    with table show ?thesis by (auto simp: result_simps simp del: decode_value_fuel.simps)
  next
    case (invalid k)
    then show ?thesis by simp
  qed
  have items: "decode_items (Suc f) enc off limit r \<noteq> Inl OutOfFuel" if len: "length enc < Suc f + off"
    for off r
  proof
    assume fail: "decode_items (Suc f) enc off limit r = Inl OutOfFuel"
    then have "off < limit" by (auto split: if_splits)
    with fail obtain k o1 where o: "decode_short_string enc off = Inr (k, o1)"
      "bindE (decode_value_fuel f enc o1) (\<lambda>(val, offset). decode_items f enc offset limit (dict_set k val r))
        = Inl OutOfFuel"
      by (auto simp: result_simps)
    with decode_short_string_advances[OF o(1)] len
    have l: "length enc < f + o1" "0 < f" by linarith+
    with Suc have "decode_value_fuel f enc o1 \<noteq> Inl OutOfFuel" by blast
    with o(2) obtain v o2 where "decode_value_fuel f enc o1 = Inr (v, o2)"
      "decode_items f enc o2 limit (dict_set k v r) = Inl OutOfFuel"
      by (auto simp: result_simps)
    with decode_value_advances l have "length enc < f + o2" by fastforce
    with Suc l show False using \<open>decode_items f enc o2 limit (dict_set k v r) = Inl OutOfFuel\<close> by blast
  qed
  have elems: "decode_elems (Suc f) enc off limit l \<noteq> Inl OutOfFuel"
    if len: "Suc (length enc) < Suc f + off" "1 < Suc f" for off l
  proof
    assume fail: "decode_elems (Suc f) enc off limit l = Inl OutOfFuel"
    then have "off < limit" by (auto split: if_splits)
    with fail have o: "bindE (decode_value_fuel f enc off) (\<lambda>(val, offset). decode_elems f enc offset limit (l @ [val]))
        = Inl OutOfFuel" by simp
    from Suc len have "decode_value_fuel f enc off \<noteq> Inl OutOfFuel" by simp
    with o obtain v o2 where o2: "decode_value_fuel f enc off = Inr (v, o2)"
      "decode_elems f enc o2 limit (l @ [v]) = Inl OutOfFuel"
      by (auto simp: result_simps)
    from decode_value_advances[OF o2(1)] len have "Suc (length enc) < f + o2" "1 < f" by linarith+
    with Suc o2(2) show False by blast
  qed
  show ?case using vals items elems by blast
qed simp

text \<open>Once the fuel suffices, more of it changes nothing.\<close>

lemma bindE_mono_fuel:
  assumes "bindE m g \<noteq> Inl OutOfFuel" "m \<noteq> Inl OutOfFuel \<Longrightarrow> m' = m"
    and "\<And>x. m = Inr x \<Longrightarrow> g x \<noteq> Inl OutOfFuel \<Longrightarrow> g' x = g x"
  shows "bindE m' g' = bindE m g"
  using assms by (cases m) auto

lemma decode_more_fuel:
  "(\<forall>off. decode_value_fuel f enc off \<noteq> Inl OutOfFuel \<longrightarrow>
      decode_value_fuel (Suc f) enc off = decode_value_fuel f enc off)
   \<and> (\<forall>off r. decode_items f enc off limit r \<noteq> Inl OutOfFuel \<longrightarrow>
      decode_items (Suc f) enc off limit r = decode_items f enc off limit r)
   \<and> (\<forall>off l. decode_elems f enc off limit l \<noteq> Inl OutOfFuel \<longrightarrow>
      decode_elems (Suc f) enc off limit l = decode_elems f enc off limit l)"
proof (induction f arbitrary: limit)
  case (Suc f)
  have vals: "decode_value_fuel (Suc (Suc f)) enc off = decode_value_fuel (Suc f) enc off"
    if ok: "decode_value_fuel (Suc f) enc off \<noteq> Inl OutOfFuel" for off
  proof -
    define k where "k = py_slice off (Suc off) enc"
    consider dec where "decode_scalar k = Some dec" | "decode_scalar k = None" "k = kind CHR ''A''"
      | "decode_scalar k = None" "k = kind CHR ''F''"
      | "decode_scalar k = None" "k \<noteq> kind CHR ''A''" "k \<noteq> kind CHR ''F''"
      by fastforce
    then show ?thesis
    proof cases
      case 2
      note u = decode_value_array[of off enc, unfolded k_def[symmetric], OF 2(2)]
      show ?thesis unfolding u
        by (rule bindE_mono_fuel[OF ok[unfolded u]], simp)
          (rule bindE_mono_fuel, assumption, use Suc in blast, simp)
    next
      case 3
      note u = decode_value_table[of off enc, unfolded k_def[symmetric], OF 3(2)]
      show ?thesis unfolding u
        by (rule bindE_mono_fuel[OF ok[unfolded u]], simp)
          (rule bindE_mono_fuel, assumption, use Suc in blast, simp)
    qed (simp_all add: k_def Let_def)
  qed
  have items: "decode_items (Suc (Suc f)) enc off limit r = decode_items (Suc f) enc off limit r"
    if ok: "decode_items (Suc f) enc off limit r \<noteq> Inl OutOfFuel" for off r
  proof (cases "off < limit")
    case True
    note u = decode_items.simps(2)[of _ enc off limit r, unfolded if_P[OF True]]
    show ?thesis unfolding u
    proof (rule bindE_mono_fuel[OF ok[unfolded u]], simp, clarify)
      fix k o1
      assume "bindE (decode_value_fuel f enc o1) (\<lambda>(val, offset).
        decode_items f enc offset limit (dict_set k val r)) \<noteq> Inl OutOfFuel"
      then show "bindE (decode_value_fuel (Suc f) enc o1) (\<lambda>(val, offset).
          decode_items (Suc f) enc offset limit (dict_set k val r))
        = bindE (decode_value_fuel f enc o1) (\<lambda>(val, offset).
          decode_items f enc offset limit (dict_set k val r))"
        by (rule bindE_mono_fuel) (use Suc in \<open>auto simp del: decode_value_fuel.simps decode_items.simps\<close>)
    qed
  qed simp
  have elems: "decode_elems (Suc (Suc f)) enc off limit l = decode_elems (Suc f) enc off limit l"
    if ok: "decode_elems (Suc f) enc off limit l \<noteq> Inl OutOfFuel" for off l
  proof (cases "off < limit")
    case True
    note u = decode_elems.simps(2)[of _ enc off limit l, unfolded if_P[OF True]]
    show ?thesis unfolding u
      by (rule bindE_mono_fuel[OF ok[unfolded u]])
        (use Suc in \<open>auto simp del: decode_value_fuel.simps decode_elems.simps\<close>)
  qed simp
  show ?case using vals items elems by blast
qed simp

lemma decode_value_enough: "length enc < f \<Longrightarrow> decode_value_fuel f enc off \<noteq> Inl OutOfFuel"
  using decode_enough_fuel[of enc f] by (auto simp del: decode_value_fuel.simps)

lemma decode_value_fuel_indep:
  assumes "length enc < f"
  shows "decode_value_fuel f enc off = decode_value enc off"
proof -
  have "decode_value_fuel (n + Suc (length enc)) enc off = decode_value enc off" for n
  proof (induction n)
    case (Suc n)
    have "decode_value_fuel (n + Suc (length enc)) enc off \<noteq> Inl OutOfFuel"
      by (rule decode_value_enough) simp
    with decode_more_fuel Suc show ?case by (metis add_Suc)
  qed (simp add: decode_value_def)
  from this[of "f - Suc (length enc)"] assms show ?thesis by simp
qed

lemma encode_table_reads:
  assumes "encode_table pieces t = Inr (pieces', n)" "valid_times t"
  shows "appends pieces pieces' n
    (\<lambda>bs. reads decode_table bs (if truthy t then wire_value t else PDict []))"
proof -
  obtain d where d: "encode_dict pieces d = Inr (pieces', n)" "list_all (\<lambda>(k, v). valid_times v) d"
    "PDict (wire_items d []) = (if truthy t then wire_value t else PDict [])"
  proof (cases "truthy t")
    case True
    with assms(1) obtain d where "t = PDict d" "encode_dict pieces d = Inr (pieces', n)"
      by (auto simp: encode_table_def split: pyval.splits)
    with True assms(2) show ?thesis by (intro that[of d]) (simp_all add: wire_items_def)
  next
    case False
    with assms(1) show ?thesis by (intro that[of "[]"]) (simp_all add: encode_table_def)
  qed
  from encode_reads(2)[OF d(2,1)] obtain ps p its where ps: "pieces' = pieces @ ps"
    "length (concat ps) = n" "concat ps = p @ its"
    "pack_uint 4 (int (length its)) = Inr p" "reads_items its d"
    by (auto simp: appends_def)
  have p: "length p = 4" by (rule pack_uint_length[OF ps(4)])
  have "decode_table (pre @ (p @ its) @ post) (length pre)
      = Inr (PDict (wire_items d []), length pre + n)" for pre post
  proof -
    have "decode_items (Suc (length (pre @ p @ its @ post))) (pre @ p @ its @ post) (length pre + 4)
        (length pre + 4 + length its) [] = Inr (wire_items d [], length pre + 4 + length its)"
      using ps(5)[unfolded reads_items_def, rule_format,
          of "Suc (length (pre @ p @ its @ post))" "pre @ p" post "[]"] p
      by (simp add: add.assoc del: decode_items.simps)
    with unpack_uint_pack[OF ps(4), of pre "its @ post"] p ps(2,3) show ?thesis
      by (simp add: decode_table_def Let_def del: decode_items.simps)
  qed
  with ps(2-3) d(3) have "reads decode_table (concat ps) (if truthy t then wire_value t else PDict [])"
    by (simp add: reads_def)
  with ps(1,2) show ?thesis by (intro appendsI)
qed

section \<open>Properties\<close>

text \<open>
  C35 (roundtrip). Whatever value \<open>encode_value\<close> accepts, it appends exactly as many bytes
  as it reports, leaves the pieces before them alone, and \<open>decode_value\<close> reads these bytes,
  in any surroundings, back as the value's wire form and stops right behind them.
\<close>

theorem encode_value_roundtrip:
  assumes "encode_value pieces v = Inr (pieces', n)" "valid_times v"
  shows "\<exists>bs. concat pieces' = concat pieces @ bs \<and> length bs = n
    \<and> (\<forall>pre post. decode_value (pre @ bs @ post) (length pre)
          = Inr (wire_value v, length pre + n))"
proof -
  from encode_reads(1)[OF assms(2,1)] obtain ps where ps: "pieces' = pieces @ ps"
    "length (concat ps) = n" "reads_value (concat ps) (wire_value v)"
    by (auto simp: appends_def)
  show ?thesis
    using ps by (intro exI[of _ "concat ps"])
      (auto simp: reads_value_def reads_def decode_value_def simp del: decode_value_fuel.simps)
qed

lemma encode_value_roundtrip_witness:
  "encode_value [] (PList [PInt 7, PBool True]) \<noteq> Inl AttributeError
   \<and> decode_value (the (case encode_value [] (PList [PInt 7, PBool True]) of
        Inr (p, _) \<Rightarrow> Some (concat p) | Inl _ \<Rightarrow> None)) 0
     = Inr (PList [PInt 7, PBool True], 12)"
proof -
  have enc: "encode_value [] (PList [PInt 7, PBool True])
      = Inr ([[65, 0, 0, 0, 7], [73, 0, 0, 0, 7, 116, 1]], 12)"
    by code_simp
  from encode_value_roundtrip[OF enc] have "decode_value [65, 0, 0, 0, 7, 73, 0, 0, 0, 7, 116, 1] 0
      = Inr (PList [PInt 7, PBool True], 12)"
    by (auto dest!: spec[of _ "[]"])
  with enc show ?thesis by simp
qed

text \<open>
  The same for tables: \<open>encode_table\<close> patches the length behind its
  placeholder so that \<open>decode_table\<close> finds the end of the table, and the entries come back
  in order with the last of two colliding keys winning; \<open>None\<close> is the empty table.
\<close>

theorem encode_table_roundtrip:
  assumes "encode_table pieces t = Inr (pieces', n)" "valid_times t"
  shows "\<exists>bs. concat pieces' = concat pieces @ bs \<and> length bs = n
    \<and> (\<forall>pre post. decode_table (pre @ bs @ post) (length pre)
          = Inr (if truthy t then wire_value t else PDict [], length pre + n))"
  using encode_table_reads[OF assms] by (fastforce simp: appends_def reads_def)

lemma encode_table_roundtrip_witness:
  "encode_table [] (PDict [(PStr [107], PNone)]) = Inr ([[0, 0, 0, 3], [1], [107], [86]], 7)
   \<and> decode_table [0, 0, 0, 3, 1, 107, 86] 0 = Inr (PDict [(PStr [107], PNone)], 7)"
proof
  show enc: "encode_table [] (PDict [(PStr [107], PNone)]) = Inr ([[0, 0, 0, 3], [1], [107], [86]], 7)"
    by code_simp
  have wire: "wire_value (PDict [(PStr [107], PNone)]) = PDict [(PStr [107], PNone)]"
    by code_simp
  from encode_table_roundtrip[OF enc] show "decode_table [0, 0, 0, 3, 1, 107, 86] 0
      = Inr (PDict [(PStr [107], PNone)], 7)"
    unfolding wire by (auto dest!: spec[of _ "[]"])
qed

text \<open>
  C40 (termination). Decoding returns on every input, nested tables and arrays included: the
  result of the loop model does not depend on its fuel once there is one unit more than
  there are bytes, it is never the out-of-fuel value, and a decoded value has moved the
  offset forward.
\<close>

theorem decode_terminates:
  "decode_value encoded offset \<noteq> Inl OutOfFuel
   \<and> decode_table encoded offset \<noteq> Inl OutOfFuel
   \<and> decode_value_fuel (Suc (length encoded) + f) encoded offset = decode_value encoded offset
   \<and> (case decode_value encoded offset of
        Inr (v, offset') \<Rightarrow> offset < offset' \<and> offset < length encoded | Inl _ \<Rightarrow> True)"
proof (intro conjI)
  show "decode_value encoded offset \<noteq> Inl OutOfFuel"
    unfolding decode_value_def by (rule decode_value_enough) simp
  have "decode_items (Suc (length encoded)) encoded off limit r \<noteq> Inl OutOfFuel" for off limit r
    using decode_enough_fuel[of encoded "Suc (length encoded)"]
    by (auto simp del: decode_items.simps)
  then show "decode_table encoded offset \<noteq> Inl OutOfFuel"
    by (auto simp: decode_table_def Let_def result_simps simp del: decode_items.simps)
  show "decode_value_fuel (Suc (length encoded) + f) encoded offset = decode_value encoded offset"
    by (rule decode_value_fuel_indep) simp
  show "case decode_value encoded offset of
      Inr (v, offset') \<Rightarrow> offset < offset' \<and> offset < length encoded | Inl _ \<Rightarrow> True"
    unfolding decode_value_def
    by (auto split: sum.split dest: decode_value_advances simp del: decode_value_fuel.simps)
qed

text \<open>
  A Python \<open>int\<close> is encodable exactly when it fits a signed or an unsigned
  64-bit integer; five bytes are used exactly when it fits a signed 32-bit integer.
\<close>

theorem encode_int_range:
  "((\<exists>r. encode_value pieces (PInt v) = Inr r) \<longleftrightarrow> - (2 ^ 63) \<le> v \<and> v < 2 ^ 64)
   \<and> ((\<exists>pieces'. encode_value pieces (PInt v) = Inr (pieces', 5)) \<longleftrightarrow> - (2 ^ 31) \<le> v \<and> v < 2 ^ 31)"
  by (auto simp: encode_int_def encode_long_def pack_sint_def pack_uint_def result_simps
      split: sum.splits if_splits)

text \<open>
  How the numeric kinds are read: \<open>b\<close> is taken as unsigned and \<open>B\<close> as
  signed, against the names the code gives them, while \<open>U\<close>/\<open>u\<close> are as named.
\<close>

theorem decode_one_byte_kinds:
  "decode_value (pre @ kind CHR ''b'' @ [w] @ post) (length pre) = Inr (PInt (uint w), length pre + 2)
   \<and> decode_value (pre @ kind CHR ''B'' @ [w] @ post) (length pre) = Inr (PInt (sint w), length pre + 2)
   \<and> decode_value (pre @ kind CHR ''t'' @ [w] @ post) (length pre) = Inr (PBool (w \<noteq> 0), length pre + 2)"
proof -
  have *: "decode_value (pre @ kind c @ [w] @ post) (length pre) = Inr (v, length pre + 2)"
    if "decode_scalar (kind c) = Some (scalar 1 conv)" "conv [w] = Inr v" for c conv v
  proof -
    have "reads_value (kind c @ [w]) v"
      using that by (intro reads_value_scalar[OF that(1)] reads_scalar) auto
    then show ?thesis
      unfolding reads_value_def reads_def decode_value_def
      by (fastforce simp del: decode_value_fuel.simps)
  qed
  have u: "be_int [w] = uint w" by (simp add: be_int_def)
  have "be_sint (be_bytes 1 (sint w)) = sint w"
    using sint_lt[of w] sint_ge[of w] by (intro be_sint_be_bytes) simp_all
  moreover have "(word_of_int (x mod 256) :: byte) = word_of_int x" for x
    by (simp add: word_of_int_eq_iff take_bit_eq_mod)
  ultimately have s: "be_sint [w] = sint w" by simp
  have z: "(uint w \<noteq> 0) = (w \<noteq> 0)" by (simp add: uint_0_iff)
  show ?thesis
    by (intro conjI; rule *[rotated]) (auto simp: decode_scalar_def u s z)
qed

text \<open>
  A short string whose length byte promises more than the buffer holds is not
  refused: the bytes that are there come back, with an offset behind the end of the buffer.
\<close>

theorem decode_short_string_clips:
  assumes "length b < unat n"
  shows "decode_short_string (pre @ [n] @ b) (length pre)
    = Inr (text_or_bytes b, length pre + 1 + unat n)"
proof -
  have "unpack_uint 1 (pre @ [n] @ b) (length pre) = Inr (uint n)"
    by (simp add: unpack_uint_def unpack_from_def py_slice_def be_int_def)
  moreover have "nat (uint n) = unat n" by simp
  moreover have "py_slice (length pre + 1) (length pre + 1 + unat n) (pre @ [n] @ b) = b"
    using assms by (simp add: py_slice_def)
  ultimately show ?thesis
    by (simp only: decode_short_string_def Let_def text_or_bytes_def bindE.simps)
qed

lemma decode_short_string_clips_witness:
  "decode_short_string ([9] @ [5, 97]) 1 = Inr (PStr [97], 7)"
  using decode_short_string_clips[of "[97]" 5 "[9]"] by code_simp

end
