(* ===== verification/Amqp_Wire.thy ===== *)
theory Amqp_Wire
  imports Amqp_Data
begin

text \<open>
  The statements that \<open>pika/spec.py\<close> repeats in the \<open>encode\<close> and \<open>decode\<close> methods of its
  classes, one pair per wire type: an unsigned integer, a short and a long string, a field
  table and an octet of bits. A writer appends to the list of pieces, a reader reads at an
  offset. The locale \<open>codec\<close> is what a pair promises, and what the methods of \<open>spec.py\<close>
  rest on: the reader reads what the writer has appended, up to the wire form of the value.
\<close>

unbundle bit_operations_syntax

section \<open>Writers\<close>

type_synonym writer = "pieces \<Rightarrow> py_error + pieces"
type_synonym 'a reader = "bytes \<Rightarrow> nat \<Rightarrow> py_error + 'a \<times> nat"

text \<open>\<open>pieces.append(struct.pack('>B', x))\<close>, and with \<open>H\<close>, \<open>I\<close> and \<open>Q\<close> for 2, 4, 8 bytes.\<close>

definition put_uint :: "nat \<Rightarrow> pyval \<Rightarrow> writer" where
  "put_uint n v pieces =
     bindE (as_index v) (\<lambda>i. bindE (pack_uint n i) (\<lambda>p. Inr (pieces @ [p])))"

text \<open>\<open>isinstance(x, str_or_bytes)\<close> and the encoding of \<open>x\<close>.\<close>

fun is_str_or_bytes :: "pyval \<Rightarrow> bool" where
  "is_str_or_bytes (PStr s) = True"
| "is_str_or_bytes (PBytes b) = True"
| "is_str_or_bytes _ = False"

definition put_shortstr :: "pyval \<Rightarrow> writer" where
  "put_shortstr v pieces =
     bindE (assertE (is_str_or_bytes v) AssertionError) (\<lambda>_.
     bindE (encode_short_string pieces v) (\<lambda>(pieces, _). Inr pieces))"

definition put_longstr :: "pyval \<Rightarrow> writer" where
  "put_longstr v pieces =
     bindE (assertE (is_str_or_bytes v) AssertionError) (\<lambda>_.
     bindE (case v of PStr s \<Rightarrow> utf8_encode s | PBytes b \<Rightarrow> Inr b | _ \<Rightarrow> Inl TypeError) (\<lambda>val.
     bindE (pack_uint 4 (int (length val))) (\<lambda>p. Inr (pieces @ [p, val]))))"

definition put_table :: "pyval \<Rightarrow> writer" where
  "put_table v pieces = bindE (encode_table pieces v) (\<lambda>(pieces, _). Inr pieces)"

text \<open>\<open>if self.x: bit_buffer |= 1 << i\<close> for each bit in turn, then one octet.\<close>

fun bit_buffer :: "nat \<Rightarrow> pyval list \<Rightarrow> int \<Rightarrow> int" where
  "bit_buffer i [] buf = buf"
| "bit_buffer i (v # vs) buf = bit_buffer (Suc i) vs (if truthy v then buf OR push_bit i 1 else buf)"

definition put_bits :: "pyval list \<Rightarrow> writer" where
  "put_bits vs pieces = bindE (pack_uint 1 (bit_buffer 0 vs 0)) (\<lambda>p. Inr (pieces @ [p]))"

section \<open>Readers\<close>

definition get_uint :: "nat \<Rightarrow> pyval reader" where
  "get_uint n encoded offset =
     bindE (unpack_uint n encoded offset) (\<lambda>i. Inr (PInt i, offset + n))"

text \<open>A long string stays \<open>bytes\<close>: in \<open>spec.py\<close> the name \<open>str\<close> is bound to \<open>bytes\<close>.\<close>

definition get_longstr :: "pyval reader" where
  "get_longstr encoded offset =
     bindE (decode_long_bytes encoded offset) (\<lambda>(val, offset). Inr (PBytes val, offset))"

definition get_octet :: "int reader" where
  "get_octet encoded offset =
     bindE (unpack_uint 1 encoded offset) (\<lambda>bits. Inr (bits, offset + 1))"

text \<open>\<open>(bit_buffer & (1 << i)) != 0\<close>\<close>

definition bit_field :: "nat \<Rightarrow> int \<Rightarrow> pyval" where
  "bit_field i buf = PBool (buf AND push_bit i 1 \<noteq> 0)"

section \<open>The contract between writers and readers\<close>

text \<open>\<open>written ps ps' P\<close>: \<open>ps'\<close> is \<open>ps\<close> and pieces whose bytes satisfy \<open>P\<close>.\<close>

definition written :: "pieces \<Rightarrow> pieces \<Rightarrow> (bytes \<Rightarrow> bool) \<Rightarrow> bool" where
  "written ps ps' P \<longleftrightarrow> (\<exists>qs. ps' = ps @ qs \<and> P (concat qs))"

lemma writtenI: "ps' = ps @ qs \<Longrightarrow> P (concat qs) \<Longrightarrow> written ps ps' P"
  by (auto simp: written_def)

lemma written_appends: "appends ps ps' n P \<Longrightarrow> written ps ps' P"
  by (auto simp: appends_def written_def)

lemma written_mono: "written ps ps' P \<Longrightarrow> (\<And>bs. P bs \<Longrightarrow> Q bs) \<Longrightarrow> written ps ps' Q"
  by (auto simp: written_def)

text \<open>\<open>decodes D bs r\<close>: a decoder that consumes the rest returns \<open>r\<close> on \<open>bs\<close> at any offset.\<close>

definition decodes :: "(bytes \<Rightarrow> nat \<Rightarrow> py_error + 'a) \<Rightarrow> bytes \<Rightarrow> 'a \<Rightarrow> bool" where
  "decodes D bs r \<longleftrightarrow> (\<forall>pre post. D (pre @ bs @ post) (length pre) = Inr r)"

lemma decodesD: "decodes D bs r \<Longrightarrow> D (pre @ bs @ post) (length pre) = Inr r"
  by (simp add: decodes_def)

lemma written_done:
  assumes "seqE [] ps = Inr ps'" "\<And>enc off. D enc off = Inr r"
  shows "written ps ps' (\<lambda>bs. decodes D bs r)"
  using assms by (intro writtenI[where qs = "[]"]) (auto simp: decodes_def)

lemma decodes_bind:
  assumes "reads get bs v" "decodes (K v) cs r"
  shows "decodes (\<lambda>enc off. bindE (get enc off) (\<lambda>(v, off). K v enc off)) (bs @ cs) r"
  using assms(2)[unfolded decodes_def, rule_format, of "pre @ bs" for pre]
  by (simp add: decodes_def reads_append[OF assms(1)])

locale codec =
  fixes put :: "'a \<Rightarrow> writer" and get :: "'b reader" and norm :: "'a \<Rightarrow> 'b" and ok :: "'a \<Rightarrow> bool"
  assumes put_get: "put v ps = Inr ps' \<Longrightarrow> ok v \<Longrightarrow> written ps ps' (\<lambda>bs. reads get bs (norm v))"
begin

lemma put_then:
  assumes seq: "seqE (put v # cs) ps = Inr ps'" and v: "ok v"
    and rest: "\<And>qs. seqE cs qs = Inr ps' \<Longrightarrow> written qs ps' (\<lambda>bs. decodes (K (norm v)) bs r)"
  shows "written ps ps' (\<lambda>bs. decodes (\<lambda>enc off. bindE (get enc off) (\<lambda>(v, off). K v enc off)) bs r)"
proof -
  from seq obtain qs where qs: "put v ps = Inr qs" "seqE cs qs = Inr ps'"
    by (auto simp: result_simps)
  from put_get[OF qs(1) v] obtain xs where xs: "qs = ps @ xs" "reads get (concat xs) (norm v)"
    by (auto simp: written_def)
  from rest[OF qs(2)] obtain ys where ys: "ps' = qs @ ys" "decodes (K (norm v)) (concat ys) r"
    by (auto simp: written_def)
  show ?thesis
    using xs(1) ys(1) decodes_bind[where K = K, OF xs(2) ys(2)]
    by (intro writtenI[where qs = "xs @ ys"]) auto
qed

end

section \<open>The wire types keep it\<close>

text \<open>An integer comes back as an \<open>int\<close>, whether it was a \<open>bool\<close>, an \<open>int\<close> or a \<open>long\<close>.\<close>

fun wire_uint :: "pyval \<Rightarrow> pyval" where
  "wire_uint (PLong i) = PInt i"
| "wire_uint (PBool b) = PInt (of_bool b)"
| "wire_uint v = v"

text \<open>A long string comes back as its bytes.\<close>

definition wire_longstr :: "pyval \<Rightarrow> pyval" where
  "wire_longstr v = (case as_bytes v of Inr b \<Rightarrow> PBytes b | Inl _ \<Rightarrow> v)"

definition wire_table :: "pyval \<Rightarrow> pyval" where
  "wire_table v = (if truthy v then wire_value v else PDict [])"

definition wire_bit :: "pyval \<Rightarrow> pyval" where
  "wire_bit v = PBool (truthy v)"

interpretation uint: codec "put_uint n" "get_uint n" wire_uint "\<lambda>_. True" for n
proof
  fix v ps ps' assume "put_uint n v ps = Inr ps'"
  then obtain i p where p: "as_index v = Inr i" "pack_uint n i = Inr p" "ps' = ps @ [p]"
    by (auto simp: put_uint_def result_simps)
  have "wire_uint v = PInt i" using p(1) by (cases v) auto
  then have "reads (get_uint n) p (wire_uint v)"
    using unpack_uint_pack[OF p(2)] pack_uint_length[OF p(2)] by (simp add: reads_def get_uint_def)
  with p show "written ps ps' (\<lambda>bs. reads (get_uint n) bs (wire_uint v))"
    by (intro writtenI[where qs = "[p]"]) auto
qed

interpretation shortstr: codec put_shortstr decode_short_string wire_key "\<lambda>_. True"
proof
  fix v ps ps' assume "put_shortstr v ps = Inr ps'"
  then obtain n where "encode_short_string ps v = Inr (ps', n)"
    by (auto simp: put_shortstr_def result_simps)
  from written_appends[OF encode_short_string_appends[OF this]]
  show "written ps ps' (\<lambda>bs. reads decode_short_string bs (wire_key v))"
    by (rule written_mono) simp
qed

interpretation longstr: codec put_longstr get_longstr wire_longstr "\<lambda>_. True"
proof
  fix v ps ps' assume "put_longstr v ps = Inr ps'"
  then obtain b p where p: "as_bytes v = Inr b" "pack_uint 4 (int (length b)) = Inr p" "ps' = ps @ [p, b]"
    by (auto simp: put_longstr_def result_simps split: pyval.splits)
  have "reads get_longstr (p @ b) (wire_longstr v)"
    using reads_long_bytes[OF p(2)] p(1) by (simp add: reads_def get_longstr_def wire_longstr_def)
  with p show "written ps ps' (\<lambda>bs. reads get_longstr bs (wire_longstr v))"
    by (intro writtenI[where qs = "[p, b]"]) auto
qed

interpretation field_table: codec put_table decode_table wire_table valid_times
proof
  fix v ps ps' assume "put_table v ps = Inr ps'" and v: "valid_times v"
  then obtain n where "encode_table ps v = Inr (ps', n)"
    by (auto simp: put_table_def result_simps)
  from encode_table_reads[OF this v]
  show "written ps ps' (\<lambda>bs. reads decode_table bs (wire_table v))"
    unfolding wire_table_def by (rule written_mono[OF written_appends])
qed

lemma bit_buffer_bit:
  "bit (bit_buffer i vs buf) k \<longleftrightarrow> bit buf k \<or> (i \<le> k \<and> k < i + length vs \<and> truthy (vs ! (k - i)))"
proof (induction vs arbitrary: i buf k)
  case (Cons v vs)
  consider "k < i" | "k = i" | "i < k" "k - i = Suc (k - Suc i)" by linarith
  then show ?case
    by cases (auto simp: Cons.IH bit_or_iff bit_exp_iff)
qed auto

lemma bit_field_buffer:
  "i < length vs \<Longrightarrow> bit_field i (bit_buffer 0 vs 0) = wire_bit (vs ! i)"
  by (simp add: bit_field_def wire_bit_def bit_buffer_bit push_bit_eq_mult and_exp_eq_0_iff_not_bit
      flip: One_nat_def)

interpretation octet: codec put_bits get_octet "\<lambda>vs. bit_buffer 0 vs 0" "\<lambda>_. True"
proof
  fix v ps ps' assume "put_bits v ps = Inr ps'"
  then obtain p where p: "pack_uint 1 (bit_buffer 0 v 0) = Inr p" "ps' = ps @ [p]"
    by (auto simp: put_bits_def result_simps)
  have "reads get_octet p (bit_buffer 0 v 0)"
    using unpack_uint_pack[OF p(1)] pack_uint_length[OF p(1)] by (simp add: reads_def get_octet_def)
  with p show "written ps ps' (\<lambda>bs. reads get_octet bs (bit_buffer 0 v 0))"
    by (intro writtenI[where qs = "[p]"]) auto
qed

lemmas put_then = uint.put_then shortstr.put_then longstr.put_then field_table.put_then octet.put_then

end
