(* ===== verification/Amqp_Spec.thy ===== *)
theory Amqp_Spec
  imports Amqp_Wire
begin

text \<open>
  \<open>pika/spec.py\<close>: the AMQP method classes. One datatype per AMQP class, with one constructor
  per method class and its attributes in the order of \<open>__init__\<close>; for each method class
  \<open>C.M\<close> the default instance \<open>new_C_M\<close>, \<open>C_M_encode\<close> and \<open>C_M_decode\<close>, statement by
  statement in terms of the writers and readers of \<open>Amqp_Wire\<close>. The class attributes
  \<open>INDEX\<close>, \<open>NAME\<close> and \<open>synchronous\<close> and the instance's \<open>__dict__\<close> are functions on the
  datatypes. The dict \<open>methods\<close> is at the end, and the constants of the module at the start.
\<close>

section \<open>Constants\<close>

definition PROTOCOL_VERSION :: "int \<times> int \<times> int" where "PROTOCOL_VERSION = (0, 9, 1)"

definition FRAME_METHOD :: int where "FRAME_METHOD = 1"
definition FRAME_HEADER :: int where "FRAME_HEADER = 2"
definition FRAME_BODY :: int where "FRAME_BODY = 3"
definition FRAME_HEARTBEAT :: int where "FRAME_HEARTBEAT = 8"
definition FRAME_END :: byte where "FRAME_END = 206"
definition FRAME_HEADER_SIZE :: nat where "FRAME_HEADER_SIZE = 7"
definition FRAME_END_SIZE :: nat where "FRAME_END_SIZE = 1"
definition FRAME_MAX_SIZE :: int where "FRAME_MAX_SIZE = 131072"
definition FRAME_MIN_SIZE :: int where "FRAME_MIN_SIZE = 4096"

lemmas spec_constants = PROTOCOL_VERSION_def FRAME_METHOD_def FRAME_HEADER_def FRAME_BODY_def
  FRAME_HEARTBEAT_def FRAME_END_def FRAME_HEADER_SIZE_def FRAME_END_SIZE_def
  FRAME_MAX_SIZE_def FRAME_MIN_SIZE_def

text \<open>\<open>ExchangeType\<close> is a \<open>str\<close> as well as an enumeration.\<close>

datatype exchange_type = ET_direct | ET_fanout | ET_headers | ET_topic

fun exchange_type_value :: "exchange_type \<Rightarrow> pyval" where
  "exchange_type_value ET_direct = PStr (pystr ''direct'')"
| "exchange_type_value ET_fanout = PStr (pystr ''fanout'')"
| "exchange_type_value ET_headers = PStr (pystr ''headers'')"
| "exchange_type_value ET_topic = PStr (pystr ''topic'')"

section \<open>Class Connection\<close>

datatype connection_method =
  Connection_Start pyval pyval pyval pyval pyval
| Connection_StartOk pyval pyval pyval pyval
| Connection_Secure pyval
| Connection_SecureOk pyval
| Connection_Tune pyval pyval pyval
| Connection_TuneOk pyval pyval pyval
| Connection_Open pyval pyval pyval
| Connection_OpenOk pyval
| Connection_Close pyval pyval pyval pyval
| Connection_CloseOk
| Connection_Blocked pyval
| Connection_Unblocked
| Connection_UpdateSecret pyval pyval
| Connection_UpdateSecretOk

definition new_Connection_Start :: connection_method where
  "new_Connection_Start =
     Connection_Start (PInt 0) (PInt 9) PNone (PStr (pystr ''PLAIN'')) (PStr (pystr ''en_US''))"

definition Connection_Start_encode :: "pyval \<Rightarrow> pyval \<Rightarrow> pyval \<Rightarrow> pyval \<Rightarrow> pyval \<Rightarrow> py_error + pieces" where
  "Connection_Start_encode version_major version_minor server_properties mechanisms locales =
     seqE [put_uint 1 version_major, put_uint 1 version_minor, put_table server_properties,
      put_longstr mechanisms, put_longstr locales] []"

definition Connection_Start_decode :: "bytes \<Rightarrow> nat \<Rightarrow> py_error + connection_method" where
  "Connection_Start_decode encoded offset =
     bindE (get_uint 1 encoded offset) (\<lambda>(version_major, offset).
     bindE (get_uint 1 encoded offset) (\<lambda>(version_minor, offset).
     bindE (decode_table encoded offset) (\<lambda>(server_properties, offset).
     bindE (get_longstr encoded offset) (\<lambda>(mechanisms, offset).
     bindE (get_longstr encoded offset) (\<lambda>(locales, offset).
     Inr (Connection_Start version_major version_minor server_properties mechanisms locales))))))"

definition new_Connection_StartOk :: connection_method where
  "new_Connection_StartOk =
     Connection_StartOk PNone (PStr (pystr ''PLAIN'')) PNone (PStr (pystr ''en_US''))"

definition Connection_StartOk_encode :: "pyval \<Rightarrow> pyval \<Rightarrow> pyval \<Rightarrow> pyval \<Rightarrow> py_error + pieces" where
  "Connection_StartOk_encode client_properties mechanism response locale =
     seqE [put_table client_properties, put_shortstr mechanism, put_longstr response,
      put_shortstr locale] []"

definition Connection_StartOk_decode :: "bytes \<Rightarrow> nat \<Rightarrow> py_error + connection_method" where
  "Connection_StartOk_decode encoded offset =
     bindE (decode_table encoded offset) (\<lambda>(client_properties, offset).
     bindE (decode_short_string encoded offset) (\<lambda>(mechanism, offset).
     bindE (get_longstr encoded offset) (\<lambda>(response, offset).
     bindE (decode_short_string encoded offset) (\<lambda>(locale, offset).
     Inr (Connection_StartOk client_properties mechanism response locale)))))"

definition new_Connection_Secure :: connection_method where
  "new_Connection_Secure =
     Connection_Secure PNone"

definition Connection_Secure_encode :: "pyval \<Rightarrow> py_error + pieces" where
  "Connection_Secure_encode challenge =
     seqE [put_longstr challenge] []"

definition Connection_Secure_decode :: "bytes \<Rightarrow> nat \<Rightarrow> py_error + connection_method" where
  "Connection_Secure_decode encoded offset =
     bindE (get_longstr encoded offset) (\<lambda>(challenge, offset).
     Inr (Connection_Secure challenge))"

definition new_Connection_SecureOk :: connection_method where
  "new_Connection_SecureOk =
     Connection_SecureOk PNone"

definition Connection_SecureOk_encode :: "pyval \<Rightarrow> py_error + pieces" where
  "Connection_SecureOk_encode response =
     seqE [put_longstr response] []"

definition Connection_SecureOk_decode :: "bytes \<Rightarrow> nat \<Rightarrow> py_error + connection_method" where
  "Connection_SecureOk_decode encoded offset =
     bindE (get_longstr encoded offset) (\<lambda>(response, offset).
     Inr (Connection_SecureOk response))"

definition new_Connection_Tune :: connection_method where
  "new_Connection_Tune =
     Connection_Tune (PInt 0) (PInt 0) (PInt 0)"

definition Connection_Tune_encode :: "pyval \<Rightarrow> pyval \<Rightarrow> pyval \<Rightarrow> py_error + pieces" where
  "Connection_Tune_encode channel_max frame_max heartbeat =
     seqE [put_uint 2 channel_max, put_uint 4 frame_max, put_uint 2 heartbeat] []"

definition Connection_Tune_decode :: "bytes \<Rightarrow> nat \<Rightarrow> py_error + connection_method" where
  "Connection_Tune_decode encoded offset =
     bindE (get_uint 2 encoded offset) (\<lambda>(channel_max, offset).
     bindE (get_uint 4 encoded offset) (\<lambda>(frame_max, offset).
     bindE (get_uint 2 encoded offset) (\<lambda>(heartbeat, offset).
     Inr (Connection_Tune channel_max frame_max heartbeat))))"

definition new_Connection_TuneOk :: connection_method where
  "new_Connection_TuneOk =
     Connection_TuneOk (PInt 0) (PInt 0) (PInt 0)"

definition Connection_TuneOk_encode :: "pyval \<Rightarrow> pyval \<Rightarrow> pyval \<Rightarrow> py_error + pieces" where
  "Connection_TuneOk_encode channel_max frame_max heartbeat =
     seqE [put_uint 2 channel_max, put_uint 4 frame_max, put_uint 2 heartbeat] []"

definition Connection_TuneOk_decode :: "bytes \<Rightarrow> nat \<Rightarrow> py_error + connection_method" where
  "Connection_TuneOk_decode encoded offset =
     bindE (get_uint 2 encoded offset) (\<lambda>(channel_max, offset).
     bindE (get_uint 4 encoded offset) (\<lambda>(frame_max, offset).
     bindE (get_uint 2 encoded offset) (\<lambda>(heartbeat, offset).
     Inr (Connection_TuneOk channel_max frame_max heartbeat))))"

definition new_Connection_Open :: connection_method where
  "new_Connection_Open =
     Connection_Open (PStr (pystr ''/'')) (PStr (pystr '''')) (PBool False)"

definition Connection_Open_encode :: "pyval \<Rightarrow> pyval \<Rightarrow> pyval \<Rightarrow> py_error + pieces" where
  "Connection_Open_encode virtual_host capabilities insist =
     seqE [put_shortstr virtual_host, put_shortstr capabilities, put_bits [insist]] []"

definition Connection_Open_decode :: "bytes \<Rightarrow> nat \<Rightarrow> py_error + connection_method" where
  "Connection_Open_decode encoded offset =
     bindE (decode_short_string encoded offset) (\<lambda>(virtual_host, offset).
     bindE (decode_short_string encoded offset) (\<lambda>(capabilities, offset).
     bindE (get_octet encoded offset) (\<lambda>(bits, offset).
     Inr (Connection_Open virtual_host capabilities (bit_field 0 bits)))))"

definition new_Connection_OpenOk :: connection_method where
  "new_Connection_OpenOk =
     Connection_OpenOk (PStr (pystr ''''))"

definition Connection_OpenOk_encode :: "pyval \<Rightarrow> py_error + pieces" where
  "Connection_OpenOk_encode known_hosts =
     seqE [put_shortstr known_hosts] []"

definition Connection_OpenOk_decode :: "bytes \<Rightarrow> nat \<Rightarrow> py_error + connection_method" where
  "Connection_OpenOk_decode encoded offset =
     bindE (decode_short_string encoded offset) (\<lambda>(known_hosts, offset).
     Inr (Connection_OpenOk known_hosts))"

definition new_Connection_Close :: connection_method where
  "new_Connection_Close =
     Connection_Close PNone (PStr (pystr '''')) PNone PNone"

definition Connection_Close_encode :: "pyval \<Rightarrow> pyval \<Rightarrow> pyval \<Rightarrow> pyval \<Rightarrow> py_error + pieces" where
  "Connection_Close_encode reply_code reply_text class_id method_id =
     seqE [put_uint 2 reply_code, put_shortstr reply_text, put_uint 2 class_id,
      put_uint 2 method_id] []"

definition Connection_Close_decode :: "bytes \<Rightarrow> nat \<Rightarrow> py_error + connection_method" where
  "Connection_Close_decode encoded offset =
     bindE (get_uint 2 encoded offset) (\<lambda>(reply_code, offset).
     bindE (decode_short_string encoded offset) (\<lambda>(reply_text, offset).
     bindE (get_uint 2 encoded offset) (\<lambda>(class_id, offset).
     bindE (get_uint 2 encoded offset) (\<lambda>(method_id, offset).
     Inr (Connection_Close reply_code reply_text class_id method_id)))))"

definition new_Connection_CloseOk :: connection_method where
  "new_Connection_CloseOk =
     Connection_CloseOk"

definition Connection_CloseOk_encode :: "py_error + pieces" where
  "Connection_CloseOk_encode =
     seqE [] []"

definition Connection_CloseOk_decode :: "bytes \<Rightarrow> nat \<Rightarrow> py_error + connection_method" where
  "Connection_CloseOk_decode encoded offset =
     Inr Connection_CloseOk"

definition new_Connection_Blocked :: connection_method where
  "new_Connection_Blocked =
     Connection_Blocked (PStr (pystr ''''))"

definition Connection_Blocked_encode :: "pyval \<Rightarrow> py_error + pieces" where
  "Connection_Blocked_encode reason =
     seqE [put_shortstr reason] []"

definition Connection_Blocked_decode :: "bytes \<Rightarrow> nat \<Rightarrow> py_error + connection_method" where
  "Connection_Blocked_decode encoded offset =
     bindE (decode_short_string encoded offset) (\<lambda>(reason, offset).
     Inr (Connection_Blocked reason))"

definition new_Connection_Unblocked :: connection_method where
  "new_Connection_Unblocked =
     Connection_Unblocked"

definition Connection_Unblocked_encode :: "py_error + pieces" where
  "Connection_Unblocked_encode =
     seqE [] []"

definition Connection_Unblocked_decode :: "bytes \<Rightarrow> nat \<Rightarrow> py_error + connection_method" where
  "Connection_Unblocked_decode encoded offset =
     Inr Connection_Unblocked"

definition Connection_UpdateSecret_encode :: "pyval \<Rightarrow> pyval \<Rightarrow> py_error + pieces" where
  "Connection_UpdateSecret_encode new_secret reason =
     seqE [put_longstr new_secret, put_shortstr reason] []"

text \<open>
  \<open>UpdateSecret\<close> cannot be made without arguments, and its \<open>decode\<close> stores the secret in an
  attribute \<open>mechanisms\<close> of its own: the object keeps the \<open>new_secret\<close> it had. The result
  is the object and that attribute.
\<close>

definition Connection_UpdateSecret_decode :: "pyval \<Rightarrow> bytes \<Rightarrow> nat \<Rightarrow> py_error + connection_method \<times> pyval" where
  "Connection_UpdateSecret_decode new_secret encoded offset =
     bindE (get_longstr encoded offset) (\<lambda>(mechanisms, offset).
     bindE (decode_short_string encoded offset) (\<lambda>(reason, offset).
     Inr (Connection_UpdateSecret new_secret reason, mechanisms)))"

definition new_Connection_UpdateSecretOk :: connection_method where
  "new_Connection_UpdateSecretOk =
     Connection_UpdateSecretOk"

definition Connection_UpdateSecretOk_encode :: "py_error + pieces" where
  "Connection_UpdateSecretOk_encode =
     seqE [] []"

definition Connection_UpdateSecretOk_decode :: "bytes \<Rightarrow> nat \<Rightarrow> py_error + connection_method" where
  "Connection_UpdateSecretOk_decode encoded offset =
     Inr Connection_UpdateSecretOk"

fun connection_INDEX :: "connection_method \<Rightarrow> int" where
  "connection_INDEX (Connection_Start _ _ _ _ _) = 0x000A000A"
| "connection_INDEX (Connection_StartOk _ _ _ _) = 0x000A000B"
| "connection_INDEX (Connection_Secure _) = 0x000A0014"
| "connection_INDEX (Connection_SecureOk _) = 0x000A0015"
| "connection_INDEX (Connection_Tune _ _ _) = 0x000A001E"
| "connection_INDEX (Connection_TuneOk _ _ _) = 0x000A001F"
| "connection_INDEX (Connection_Open _ _ _) = 0x000A0028"
| "connection_INDEX (Connection_OpenOk _) = 0x000A0029"
| "connection_INDEX (Connection_Close _ _ _ _) = 0x000A0032"
| "connection_INDEX Connection_CloseOk = 0x000A0033"
| "connection_INDEX (Connection_Blocked _) = 0x000A003C"
| "connection_INDEX Connection_Unblocked = 0x000A003D"
| "connection_INDEX (Connection_UpdateSecret _ _) = 0x000A0046"
| "connection_INDEX Connection_UpdateSecretOk = 0x000A0047"

fun connection_NAME :: "connection_method \<Rightarrow> string" where
  "connection_NAME (Connection_Start _ _ _ _ _) = ''Connection.Start''"
| "connection_NAME (Connection_StartOk _ _ _ _) = ''Connection.StartOk''"
| "connection_NAME (Connection_Secure _) = ''Connection.Secure''"
| "connection_NAME (Connection_SecureOk _) = ''Connection.SecureOk''"
| "connection_NAME (Connection_Tune _ _ _) = ''Connection.Tune''"
| "connection_NAME (Connection_TuneOk _ _ _) = ''Connection.TuneOk''"
| "connection_NAME (Connection_Open _ _ _) = ''Connection.Open''"
| "connection_NAME (Connection_OpenOk _) = ''Connection.OpenOk''"
| "connection_NAME (Connection_Close _ _ _ _) = ''Connection.Close''"
| "connection_NAME Connection_CloseOk = ''Connection.CloseOk''"
| "connection_NAME (Connection_Blocked _) = ''Connection.Blocked''"
| "connection_NAME Connection_Unblocked = ''Connection.Unblocked''"
| "connection_NAME (Connection_UpdateSecret _ _) = ''Connection.UpdateSecret''"
| "connection_NAME Connection_UpdateSecretOk = ''Connection.UpdateSecretOk''"

fun connection_synchronous :: "connection_method \<Rightarrow> bool" where
  "connection_synchronous (Connection_Start _ _ _ _ _) = True"
| "connection_synchronous (Connection_StartOk _ _ _ _) = False"
| "connection_synchronous (Connection_Secure _) = True"
| "connection_synchronous (Connection_SecureOk _) = False"
| "connection_synchronous (Connection_Tune _ _ _) = True"
| "connection_synchronous (Connection_TuneOk _ _ _) = False"
| "connection_synchronous (Connection_Open _ _ _) = True"
| "connection_synchronous (Connection_OpenOk _) = False"
| "connection_synchronous (Connection_Close _ _ _ _) = True"
| "connection_synchronous Connection_CloseOk = False"
| "connection_synchronous (Connection_Blocked _) = False"
| "connection_synchronous Connection_Unblocked = False"
| "connection_synchronous (Connection_UpdateSecret _ _) = True"
| "connection_synchronous Connection_UpdateSecretOk = False"

fun connection_dict :: "connection_method \<Rightarrow> (string \<times> pyval) list" where
  "connection_dict (Connection_Start version_major version_minor server_properties mechanisms locales) =
     [(''version_major'', version_major), (''version_minor'', version_minor),
     (''server_properties'', server_properties), (''mechanisms'', mechanisms), (''locales'',
     locales)]"
| "connection_dict (Connection_StartOk client_properties mechanism response locale) =
     [(''client_properties'', client_properties), (''mechanism'', mechanism), (''response'',
     response), (''locale'', locale)]"
| "connection_dict (Connection_Secure challenge) = [(''challenge'', challenge)]"
| "connection_dict (Connection_SecureOk response) = [(''response'', response)]"
| "connection_dict (Connection_Tune channel_max frame_max heartbeat) =
     [(''channel_max'', channel_max), (''frame_max'', frame_max), (''heartbeat'', heartbeat)]"
| "connection_dict (Connection_TuneOk channel_max frame_max heartbeat) =
     [(''channel_max'', channel_max), (''frame_max'', frame_max), (''heartbeat'', heartbeat)]"
| "connection_dict (Connection_Open virtual_host capabilities insist) =
     [(''virtual_host'', virtual_host), (''capabilities'', capabilities), (''insist'', insist)]"
| "connection_dict (Connection_OpenOk known_hosts) = [(''known_hosts'', known_hosts)]"
| "connection_dict (Connection_Close reply_code reply_text class_id method_id) =
     [(''reply_code'', reply_code), (''reply_text'', reply_text), (''class_id'', class_id),
     (''method_id'', method_id)]"
| "connection_dict Connection_CloseOk = []"
| "connection_dict (Connection_Blocked reason) = [(''reason'', reason)]"
| "connection_dict Connection_Unblocked = []"
| "connection_dict (Connection_UpdateSecret new_secret reason) =
     [(''new_secret'', new_secret), (''reason'', reason)]"
| "connection_dict Connection_UpdateSecretOk = []"

fun connection_encode :: "connection_method \<Rightarrow> py_error + pieces" where
  "connection_encode (Connection_Start version_major version_minor server_properties mechanisms locales) =
     Connection_Start_encode version_major version_minor server_properties mechanisms locales"
| "connection_encode (Connection_StartOk client_properties mechanism response locale) =
     Connection_StartOk_encode client_properties mechanism response locale"
| "connection_encode (Connection_Secure challenge) = Connection_Secure_encode challenge"
| "connection_encode (Connection_SecureOk response) = Connection_SecureOk_encode response"
| "connection_encode (Connection_Tune channel_max frame_max heartbeat) =
     Connection_Tune_encode channel_max frame_max heartbeat"
| "connection_encode (Connection_TuneOk channel_max frame_max heartbeat) =
     Connection_TuneOk_encode channel_max frame_max heartbeat"
| "connection_encode (Connection_Open virtual_host capabilities insist) =
     Connection_Open_encode virtual_host capabilities insist"
| "connection_encode (Connection_OpenOk known_hosts) = Connection_OpenOk_encode known_hosts"
| "connection_encode (Connection_Close reply_code reply_text class_id method_id) =
     Connection_Close_encode reply_code reply_text class_id method_id"
| "connection_encode Connection_CloseOk = Connection_CloseOk_encode"
| "connection_encode (Connection_Blocked reason) = Connection_Blocked_encode reason"
| "connection_encode Connection_Unblocked = Connection_Unblocked_encode"
| "connection_encode (Connection_UpdateSecret new_secret reason) =
     Connection_UpdateSecret_encode new_secret reason"
| "connection_encode Connection_UpdateSecretOk = Connection_UpdateSecretOk_encode"

fun connection_decode :: "connection_method \<Rightarrow> bytes \<Rightarrow> nat \<Rightarrow> py_error + connection_method" where
  "connection_decode (Connection_Start _ _ _ _ _) = Connection_Start_decode"
| "connection_decode (Connection_StartOk _ _ _ _) = Connection_StartOk_decode"
| "connection_decode (Connection_Secure _) = Connection_Secure_decode"
| "connection_decode (Connection_SecureOk _) = Connection_SecureOk_decode"
| "connection_decode (Connection_Tune _ _ _) = Connection_Tune_decode"
| "connection_decode (Connection_TuneOk _ _ _) = Connection_TuneOk_decode"
| "connection_decode (Connection_Open _ _ _) = Connection_Open_decode"
| "connection_decode (Connection_OpenOk _) = Connection_OpenOk_decode"
| "connection_decode (Connection_Close _ _ _ _) = Connection_Close_decode"
| "connection_decode Connection_CloseOk = Connection_CloseOk_decode"
| "connection_decode (Connection_Blocked _) = Connection_Blocked_decode"
| "connection_decode Connection_Unblocked = Connection_Unblocked_decode"
| "connection_decode (Connection_UpdateSecret new_secret _) =
     (\<lambda>encoded offset. bindE (Connection_UpdateSecret_decode new_secret encoded offset) (\<lambda>(m, _). Inr m))"
| "connection_decode Connection_UpdateSecretOk = Connection_UpdateSecretOk_decode"

section \<open>Class Channel\<close>

datatype channel_method =
  Channel_Open pyval
| Channel_OpenOk pyval
| Channel_Flow pyval
| Channel_FlowOk pyval
| Channel_Close pyval pyval pyval pyval
| Channel_CloseOk

definition new_Channel_Open :: channel_method where
  "new_Channel_Open =
     Channel_Open (PStr (pystr ''''))"

definition Channel_Open_encode :: "pyval \<Rightarrow> py_error + pieces" where
  "Channel_Open_encode out_of_band =
     seqE [put_shortstr out_of_band] []"

definition Channel_Open_decode :: "bytes \<Rightarrow> nat \<Rightarrow> py_error + channel_method" where
  "Channel_Open_decode encoded offset =
     bindE (decode_short_string encoded offset) (\<lambda>(out_of_band, offset).
     Inr (Channel_Open out_of_band))"

definition new_Channel_OpenOk :: channel_method where
  "new_Channel_OpenOk =
     Channel_OpenOk (PStr (pystr ''''))"

definition Channel_OpenOk_encode :: "pyval \<Rightarrow> py_error + pieces" where
  "Channel_OpenOk_encode channel_id =
     seqE [put_longstr channel_id] []"

definition Channel_OpenOk_decode :: "bytes \<Rightarrow> nat \<Rightarrow> py_error + channel_method" where
  "Channel_OpenOk_decode encoded offset =
     bindE (get_longstr encoded offset) (\<lambda>(channel_id, offset).
     Inr (Channel_OpenOk channel_id))"

definition new_Channel_Flow :: channel_method where
  "new_Channel_Flow =
     Channel_Flow PNone"

definition Channel_Flow_encode :: "pyval \<Rightarrow> py_error + pieces" where
  "Channel_Flow_encode active =
     seqE [put_bits [active]] []"

definition Channel_Flow_decode :: "bytes \<Rightarrow> nat \<Rightarrow> py_error + channel_method" where
  "Channel_Flow_decode encoded offset =
     bindE (get_octet encoded offset) (\<lambda>(bits, offset).
     Inr (Channel_Flow (bit_field 0 bits)))"

definition new_Channel_FlowOk :: channel_method where
  "new_Channel_FlowOk =
     Channel_FlowOk PNone"

definition Channel_FlowOk_encode :: "pyval \<Rightarrow> py_error + pieces" where
  "Channel_FlowOk_encode active =
     seqE [put_bits [active]] []"

definition Channel_FlowOk_decode :: "bytes \<Rightarrow> nat \<Rightarrow> py_error + channel_method" where
  "Channel_FlowOk_decode encoded offset =
     bindE (get_octet encoded offset) (\<lambda>(bits, offset).
     Inr (Channel_FlowOk (bit_field 0 bits)))"

definition new_Channel_Close :: channel_method where
  "new_Channel_Close =
     Channel_Close PNone (PStr (pystr '''')) PNone PNone"

definition Channel_Close_encode :: "pyval \<Rightarrow> pyval \<Rightarrow> pyval \<Rightarrow> pyval \<Rightarrow> py_error + pieces" where
  "Channel_Close_encode reply_code reply_text class_id method_id =
     seqE [put_uint 2 reply_code, put_shortstr reply_text, put_uint 2 class_id,
      put_uint 2 method_id] []"

definition Channel_Close_decode :: "bytes \<Rightarrow> nat \<Rightarrow> py_error + channel_method" where
  "Channel_Close_decode encoded offset =
     bindE (get_uint 2 encoded offset) (\<lambda>(reply_code, offset).
     bindE (decode_short_string encoded offset) (\<lambda>(reply_text, offset).
     bindE (get_uint 2 encoded offset) (\<lambda>(class_id, offset).
     bindE (get_uint 2 encoded offset) (\<lambda>(method_id, offset).
     Inr (Channel_Close reply_code reply_text class_id method_id)))))"

definition new_Channel_CloseOk :: channel_method where
  "new_Channel_CloseOk =
     Channel_CloseOk"

definition Channel_CloseOk_encode :: "py_error + pieces" where
  "Channel_CloseOk_encode =
     seqE [] []"

definition Channel_CloseOk_decode :: "bytes \<Rightarrow> nat \<Rightarrow> py_error + channel_method" where
  "Channel_CloseOk_decode encoded offset =
     Inr Channel_CloseOk"

fun channel_INDEX :: "channel_method \<Rightarrow> int" where
  "channel_INDEX (Channel_Open _) = 0x0014000A"
| "channel_INDEX (Channel_OpenOk _) = 0x0014000B"
| "channel_INDEX (Channel_Flow _) = 0x00140014"
| "channel_INDEX (Channel_FlowOk _) = 0x00140015"
| "channel_INDEX (Channel_Close _ _ _ _) = 0x00140028"
| "channel_INDEX Channel_CloseOk = 0x00140029"

fun channel_NAME :: "channel_method \<Rightarrow> string" where
  "channel_NAME (Channel_Open _) = ''Channel.Open''"
| "channel_NAME (Channel_OpenOk _) = ''Channel.OpenOk''"
| "channel_NAME (Channel_Flow _) = ''Channel.Flow''"
| "channel_NAME (Channel_FlowOk _) = ''Channel.FlowOk''"
| "channel_NAME (Channel_Close _ _ _ _) = ''Channel.Close''"
| "channel_NAME Channel_CloseOk = ''Channel.CloseOk''"

fun channel_synchronous :: "channel_method \<Rightarrow> bool" where
  "channel_synchronous (Channel_Open _) = True"
| "channel_synchronous (Channel_OpenOk _) = False"
| "channel_synchronous (Channel_Flow _) = True"
| "channel_synchronous (Channel_FlowOk _) = False"
| "channel_synchronous (Channel_Close _ _ _ _) = True"
| "channel_synchronous Channel_CloseOk = False"

fun channel_dict :: "channel_method \<Rightarrow> (string \<times> pyval) list" where
  "channel_dict (Channel_Open out_of_band) = [(''out_of_band'', out_of_band)]"
| "channel_dict (Channel_OpenOk channel_id) = [(''channel_id'', channel_id)]"
| "channel_dict (Channel_Flow active) = [(''active'', active)]"
| "channel_dict (Channel_FlowOk active) = [(''active'', active)]"
| "channel_dict (Channel_Close reply_code reply_text class_id method_id) =
     [(''reply_code'', reply_code), (''reply_text'', reply_text), (''class_id'', class_id),
     (''method_id'', method_id)]"
| "channel_dict Channel_CloseOk = []"

fun channel_encode :: "channel_method \<Rightarrow> py_error + pieces" where
  "channel_encode (Channel_Open out_of_band) = Channel_Open_encode out_of_band"
| "channel_encode (Channel_OpenOk channel_id) = Channel_OpenOk_encode channel_id"
| "channel_encode (Channel_Flow active) = Channel_Flow_encode active"
| "channel_encode (Channel_FlowOk active) = Channel_FlowOk_encode active"
| "channel_encode (Channel_Close reply_code reply_text class_id method_id) =
     Channel_Close_encode reply_code reply_text class_id method_id"
| "channel_encode Channel_CloseOk = Channel_CloseOk_encode"

fun channel_decode :: "channel_method \<Rightarrow> bytes \<Rightarrow> nat \<Rightarrow> py_error + channel_method" where
  "channel_decode (Channel_Open _) = Channel_Open_decode"
| "channel_decode (Channel_OpenOk _) = Channel_OpenOk_decode"
| "channel_decode (Channel_Flow _) = Channel_Flow_decode"
| "channel_decode (Channel_FlowOk _) = Channel_FlowOk_decode"
| "channel_decode (Channel_Close _ _ _ _) = Channel_Close_decode"
| "channel_decode Channel_CloseOk = Channel_CloseOk_decode"

section \<open>Class Access\<close>

datatype access_method =
  Access_Request pyval pyval pyval pyval pyval pyval
| Access_RequestOk pyval

definition new_Access_Request :: access_method where
  "new_Access_Request =
     Access_Request (PStr (pystr ''/data'')) (PBool False) (PBool True) (PBool True)
     (PBool True) (PBool True)"

definition Access_Request_encode :: "pyval \<Rightarrow> pyval \<Rightarrow> pyval \<Rightarrow> pyval \<Rightarrow> pyval \<Rightarrow> pyval \<Rightarrow> py_error + pieces" where
  "Access_Request_encode realm exclusive passive active write read =
     seqE [put_shortstr realm, put_bits [exclusive, passive, active, write, read]] []"

definition Access_Request_decode :: "bytes \<Rightarrow> nat \<Rightarrow> py_error + access_method" where
  "Access_Request_decode encoded offset =
     bindE (decode_short_string encoded offset) (\<lambda>(realm, offset).
     bindE (get_octet encoded offset) (\<lambda>(bits, offset).
     Inr (Access_Request realm (bit_field 0 bits) (bit_field 1 bits) (bit_field 2 bits)
       (bit_field 3 bits) (bit_field 4 bits))))"

definition new_Access_RequestOk :: access_method where
  "new_Access_RequestOk =
     Access_RequestOk (PInt 1)"

definition Access_RequestOk_encode :: "pyval \<Rightarrow> py_error + pieces" where
  "Access_RequestOk_encode ticket =
     seqE [put_uint 2 ticket] []"

definition Access_RequestOk_decode :: "bytes \<Rightarrow> nat \<Rightarrow> py_error + access_method" where
  "Access_RequestOk_decode encoded offset =
     bindE (get_uint 2 encoded offset) (\<lambda>(ticket, offset).
     Inr (Access_RequestOk ticket))"

fun access_INDEX :: "access_method \<Rightarrow> int" where
  "access_INDEX (Access_Request _ _ _ _ _ _) = 0x001E000A"
| "access_INDEX (Access_RequestOk _) = 0x001E000B"

fun access_NAME :: "access_method \<Rightarrow> string" where
  "access_NAME (Access_Request _ _ _ _ _ _) = ''Access.Request''"
| "access_NAME (Access_RequestOk _) = ''Access.RequestOk''"

fun access_synchronous :: "access_method \<Rightarrow> bool" where
  "access_synchronous (Access_Request _ _ _ _ _ _) = True"
| "access_synchronous (Access_RequestOk _) = False"

fun access_dict :: "access_method \<Rightarrow> (string \<times> pyval) list" where
  "access_dict (Access_Request realm exclusive passive active write read) =
     [(''realm'', realm), (''exclusive'', exclusive), (''passive'', passive), (''active'',
     active), (''write'', write), (''read'', read)]"
| "access_dict (Access_RequestOk ticket) = [(''ticket'', ticket)]"

fun access_encode :: "access_method \<Rightarrow> py_error + pieces" where
  "access_encode (Access_Request realm exclusive passive active write read) =
     Access_Request_encode realm exclusive passive active write read"
| "access_encode (Access_RequestOk ticket) = Access_RequestOk_encode ticket"

fun access_decode :: "access_method \<Rightarrow> bytes \<Rightarrow> nat \<Rightarrow> py_error + access_method" where
  "access_decode (Access_Request _ _ _ _ _ _) = Access_Request_decode"
| "access_decode (Access_RequestOk _) = Access_RequestOk_decode"

section \<open>Class Exchange\<close>

datatype exchange_method =
  Exchange_Declare pyval pyval pyval pyval pyval pyval pyval pyval pyval
| Exchange_DeclareOk
| Exchange_Delete pyval pyval pyval pyval
| Exchange_DeleteOk
| Exchange_Bind pyval pyval pyval pyval pyval pyval
| Exchange_BindOk
| Exchange_Unbind pyval pyval pyval pyval pyval pyval
| Exchange_UnbindOk

definition new_Exchange_Declare :: exchange_method where
  "new_Exchange_Declare =
     Exchange_Declare (PInt 0) PNone (exchange_type_value ET_direct) (PBool False) (PBool False)
     (PBool False) (PBool False) (PBool False) PNone"

definition Exchange_Declare_encode :: "pyval \<Rightarrow> pyval \<Rightarrow> pyval \<Rightarrow> pyval \<Rightarrow> pyval \<Rightarrow> pyval \<Rightarrow> pyval \<Rightarrow> pyval \<Rightarrow> pyval \<Rightarrow> py_error + pieces" where
  "Exchange_Declare_encode ticket exchange type passive durable auto_delete internal nowait arguments =
     seqE [put_uint 2 ticket, put_shortstr exchange, put_shortstr type,
      put_bits [passive, durable, auto_delete, internal, nowait], put_table arguments] []"

definition Exchange_Declare_decode :: "bytes \<Rightarrow> nat \<Rightarrow> py_error + exchange_method" where
  "Exchange_Declare_decode encoded offset =
     bindE (get_uint 2 encoded offset) (\<lambda>(ticket, offset).
     bindE (decode_short_string encoded offset) (\<lambda>(exchange, offset).
     bindE (decode_short_string encoded offset) (\<lambda>(type, offset).
     bindE (get_octet encoded offset) (\<lambda>(bits, offset).
     bindE (decode_table encoded offset) (\<lambda>(arguments, offset).
     Inr (Exchange_Declare ticket exchange type (bit_field 0 bits) (bit_field 1 bits)
       (bit_field 2 bits) (bit_field 3 bits) (bit_field 4 bits) arguments))))))"

definition new_Exchange_DeclareOk :: exchange_method where
  "new_Exchange_DeclareOk =
     Exchange_DeclareOk"

definition Exchange_DeclareOk_encode :: "py_error + pieces" where
  "Exchange_DeclareOk_encode =
     seqE [] []"

definition Exchange_DeclareOk_decode :: "bytes \<Rightarrow> nat \<Rightarrow> py_error + exchange_method" where
  "Exchange_DeclareOk_decode encoded offset =
     Inr Exchange_DeclareOk"

definition new_Exchange_Delete :: exchange_method where
  "new_Exchange_Delete =
     Exchange_Delete (PInt 0) PNone (PBool False) (PBool False)"

definition Exchange_Delete_encode :: "pyval \<Rightarrow> pyval \<Rightarrow> pyval \<Rightarrow> pyval \<Rightarrow> py_error + pieces" where
  "Exchange_Delete_encode ticket exchange if_unused nowait =
     seqE [put_uint 2 ticket, put_shortstr exchange, put_bits [if_unused, nowait]] []"

definition Exchange_Delete_decode :: "bytes \<Rightarrow> nat \<Rightarrow> py_error + exchange_method" where
  "Exchange_Delete_decode encoded offset =
     bindE (get_uint 2 encoded offset) (\<lambda>(ticket, offset).
     bindE (decode_short_string encoded offset) (\<lambda>(exchange, offset).
     bindE (get_octet encoded offset) (\<lambda>(bits, offset).
     Inr (Exchange_Delete ticket exchange (bit_field 0 bits) (bit_field 1 bits)))))"

definition new_Exchange_DeleteOk :: exchange_method where
  "new_Exchange_DeleteOk =
     Exchange_DeleteOk"

definition Exchange_DeleteOk_encode :: "py_error + pieces" where
  "Exchange_DeleteOk_encode =
     seqE [] []"

definition Exchange_DeleteOk_decode :: "bytes \<Rightarrow> nat \<Rightarrow> py_error + exchange_method" where
  "Exchange_DeleteOk_decode encoded offset =
     Inr Exchange_DeleteOk"

definition new_Exchange_Bind :: exchange_method where
  "new_Exchange_Bind =
     Exchange_Bind (PInt 0) PNone PNone (PStr (pystr '''')) (PBool False) PNone"

definition Exchange_Bind_encode :: "pyval \<Rightarrow> pyval \<Rightarrow> pyval \<Rightarrow> pyval \<Rightarrow> pyval \<Rightarrow> pyval \<Rightarrow> py_error + pieces" where
  "Exchange_Bind_encode ticket destination source routing_key nowait arguments =
     seqE [put_uint 2 ticket, put_shortstr destination, put_shortstr source,
      put_shortstr routing_key, put_bits [nowait], put_table arguments] []"

definition Exchange_Bind_decode :: "bytes \<Rightarrow> nat \<Rightarrow> py_error + exchange_method" where
  "Exchange_Bind_decode encoded offset =
     bindE (get_uint 2 encoded offset) (\<lambda>(ticket, offset).
     bindE (decode_short_string encoded offset) (\<lambda>(destination, offset).
     bindE (decode_short_string encoded offset) (\<lambda>(source, offset).
     bindE (decode_short_string encoded offset) (\<lambda>(routing_key, offset).
     bindE (get_octet encoded offset) (\<lambda>(bits, offset).
     bindE (decode_table encoded offset) (\<lambda>(arguments, offset).
     Inr (Exchange_Bind ticket destination source routing_key (bit_field 0 bits) arguments)))))))"

definition new_Exchange_BindOk :: exchange_method where
  "new_Exchange_BindOk =
     Exchange_BindOk"

definition Exchange_BindOk_encode :: "py_error + pieces" where
  "Exchange_BindOk_encode =
     seqE [] []"

definition Exchange_BindOk_decode :: "bytes \<Rightarrow> nat \<Rightarrow> py_error + exchange_method" where
  "Exchange_BindOk_decode encoded offset =
     Inr Exchange_BindOk"

definition new_Exchange_Unbind :: exchange_method where
  "new_Exchange_Unbind =
     Exchange_Unbind (PInt 0) PNone PNone (PStr (pystr '''')) (PBool False) PNone"

definition Exchange_Unbind_encode :: "pyval \<Rightarrow> pyval \<Rightarrow> pyval \<Rightarrow> pyval \<Rightarrow> pyval \<Rightarrow> pyval \<Rightarrow> py_error + pieces" where
  "Exchange_Unbind_encode ticket destination source routing_key nowait arguments =
     seqE [put_uint 2 ticket, put_shortstr destination, put_shortstr source,
      put_shortstr routing_key, put_bits [nowait], put_table arguments] []"

definition Exchange_Unbind_decode :: "bytes \<Rightarrow> nat \<Rightarrow> py_error + exchange_method" where
  "Exchange_Unbind_decode encoded offset =
     bindE (get_uint 2 encoded offset) (\<lambda>(ticket, offset).
     bindE (decode_short_string encoded offset) (\<lambda>(destination, offset).
     bindE (decode_short_string encoded offset) (\<lambda>(source, offset).
     bindE (decode_short_string encoded offset) (\<lambda>(routing_key, offset).
     bindE (get_octet encoded offset) (\<lambda>(bits, offset).
     bindE (decode_table encoded offset) (\<lambda>(arguments, offset).
     Inr (Exchange_Unbind ticket destination source routing_key (bit_field 0 bits) arguments)))))))"

definition new_Exchange_UnbindOk :: exchange_method where
  "new_Exchange_UnbindOk =
     Exchange_UnbindOk"

definition Exchange_UnbindOk_encode :: "py_error + pieces" where
  "Exchange_UnbindOk_encode =
     seqE [] []"

definition Exchange_UnbindOk_decode :: "bytes \<Rightarrow> nat \<Rightarrow> py_error + exchange_method" where
  "Exchange_UnbindOk_decode encoded offset =
     Inr Exchange_UnbindOk"

fun exchange_INDEX :: "exchange_method \<Rightarrow> int" where
  "exchange_INDEX (Exchange_Declare _ _ _ _ _ _ _ _ _) = 0x0028000A"
| "exchange_INDEX Exchange_DeclareOk = 0x0028000B"
| "exchange_INDEX (Exchange_Delete _ _ _ _) = 0x00280014"
| "exchange_INDEX Exchange_DeleteOk = 0x00280015"
| "exchange_INDEX (Exchange_Bind _ _ _ _ _ _) = 0x0028001E"
| "exchange_INDEX Exchange_BindOk = 0x0028001F"
| "exchange_INDEX (Exchange_Unbind _ _ _ _ _ _) = 0x00280028"
| "exchange_INDEX Exchange_UnbindOk = 0x00280033"

fun exchange_NAME :: "exchange_method \<Rightarrow> string" where
  "exchange_NAME (Exchange_Declare _ _ _ _ _ _ _ _ _) = ''Exchange.Declare''"
| "exchange_NAME Exchange_DeclareOk = ''Exchange.DeclareOk''"
| "exchange_NAME (Exchange_Delete _ _ _ _) = ''Exchange.Delete''"
| "exchange_NAME Exchange_DeleteOk = ''Exchange.DeleteOk''"
| "exchange_NAME (Exchange_Bind _ _ _ _ _ _) = ''Exchange.Bind''"
| "exchange_NAME Exchange_BindOk = ''Exchange.BindOk''"
| "exchange_NAME (Exchange_Unbind _ _ _ _ _ _) = ''Exchange.Unbind''"
| "exchange_NAME Exchange_UnbindOk = ''Exchange.UnbindOk''"

fun exchange_synchronous :: "exchange_method \<Rightarrow> bool" where
  "exchange_synchronous (Exchange_Declare _ _ _ _ _ _ _ _ _) = True"
| "exchange_synchronous Exchange_DeclareOk = False"
| "exchange_synchronous (Exchange_Delete _ _ _ _) = True"
| "exchange_synchronous Exchange_DeleteOk = False"
| "exchange_synchronous (Exchange_Bind _ _ _ _ _ _) = True"
| "exchange_synchronous Exchange_BindOk = False"
| "exchange_synchronous (Exchange_Unbind _ _ _ _ _ _) = True"
| "exchange_synchronous Exchange_UnbindOk = False"

fun exchange_dict :: "exchange_method \<Rightarrow> (string \<times> pyval) list" where
  "exchange_dict (Exchange_Declare ticket exchange type passive durable auto_delete internal nowait arguments) =
     [(''ticket'', ticket), (''exchange'', exchange), (''type'', type), (''passive'', passive),
     (''durable'', durable), (''auto_delete'', auto_delete), (''internal'', internal),
     (''nowait'', nowait), (''arguments'', arguments)]"
| "exchange_dict Exchange_DeclareOk = []"
| "exchange_dict (Exchange_Delete ticket exchange if_unused nowait) =
     [(''ticket'', ticket), (''exchange'', exchange), (''if_unused'', if_unused), (''nowait'',
     nowait)]"
| "exchange_dict Exchange_DeleteOk = []"
| "exchange_dict (Exchange_Bind ticket destination source routing_key nowait arguments) =
     [(''ticket'', ticket), (''destination'', destination), (''source'', source),
     (''routing_key'', routing_key), (''nowait'', nowait), (''arguments'', arguments)]"
| "exchange_dict Exchange_BindOk = []"
| "exchange_dict (Exchange_Unbind ticket destination source routing_key nowait arguments) =
     [(''ticket'', ticket), (''destination'', destination), (''source'', source),
     (''routing_key'', routing_key), (''nowait'', nowait), (''arguments'', arguments)]"
| "exchange_dict Exchange_UnbindOk = []"

fun exchange_encode :: "exchange_method \<Rightarrow> py_error + pieces" where
  "exchange_encode (Exchange_Declare ticket exchange type passive durable auto_delete internal nowait arguments) =
     Exchange_Declare_encode ticket exchange type passive durable auto_delete internal nowait
     arguments"
| "exchange_encode Exchange_DeclareOk = Exchange_DeclareOk_encode"
| "exchange_encode (Exchange_Delete ticket exchange if_unused nowait) =
     Exchange_Delete_encode ticket exchange if_unused nowait"
| "exchange_encode Exchange_DeleteOk = Exchange_DeleteOk_encode"
| "exchange_encode (Exchange_Bind ticket destination source routing_key nowait arguments) =
     Exchange_Bind_encode ticket destination source routing_key nowait arguments"
| "exchange_encode Exchange_BindOk = Exchange_BindOk_encode"
| "exchange_encode (Exchange_Unbind ticket destination source routing_key nowait arguments) =
     Exchange_Unbind_encode ticket destination source routing_key nowait arguments"
| "exchange_encode Exchange_UnbindOk = Exchange_UnbindOk_encode"

fun exchange_decode :: "exchange_method \<Rightarrow> bytes \<Rightarrow> nat \<Rightarrow> py_error + exchange_method" where
  "exchange_decode (Exchange_Declare _ _ _ _ _ _ _ _ _) = Exchange_Declare_decode"
| "exchange_decode Exchange_DeclareOk = Exchange_DeclareOk_decode"
| "exchange_decode (Exchange_Delete _ _ _ _) = Exchange_Delete_decode"
| "exchange_decode Exchange_DeleteOk = Exchange_DeleteOk_decode"
| "exchange_decode (Exchange_Bind _ _ _ _ _ _) = Exchange_Bind_decode"
| "exchange_decode Exchange_BindOk = Exchange_BindOk_decode"
| "exchange_decode (Exchange_Unbind _ _ _ _ _ _) = Exchange_Unbind_decode"
| "exchange_decode Exchange_UnbindOk = Exchange_UnbindOk_decode"

section \<open>Class Queue\<close>

datatype queue_method =
  Queue_Declare pyval pyval pyval pyval pyval pyval pyval pyval
| Queue_DeclareOk pyval pyval pyval
| Queue_Bind pyval pyval pyval pyval pyval pyval
| Queue_BindOk
| Queue_Purge pyval pyval pyval
| Queue_PurgeOk pyval
| Queue_Delete pyval pyval pyval pyval pyval
| Queue_DeleteOk pyval
| Queue_Unbind pyval pyval pyval pyval pyval
| Queue_UnbindOk

definition new_Queue_Declare :: queue_method where
  "new_Queue_Declare =
     Queue_Declare (PInt 0) (PStr (pystr '''')) (PBool False) (PBool False) (PBool False)
     (PBool False) (PBool False) PNone"

definition Queue_Declare_encode :: "pyval \<Rightarrow> pyval \<Rightarrow> pyval \<Rightarrow> pyval \<Rightarrow> pyval \<Rightarrow> pyval \<Rightarrow> pyval \<Rightarrow> pyval \<Rightarrow> py_error + pieces" where
  "Queue_Declare_encode ticket queue passive durable exclusive auto_delete nowait arguments =
     seqE [put_uint 2 ticket, put_shortstr queue,
      put_bits [passive, durable, exclusive, auto_delete, nowait], put_table arguments] []"

definition Queue_Declare_decode :: "bytes \<Rightarrow> nat \<Rightarrow> py_error + queue_method" where
  "Queue_Declare_decode encoded offset =
     bindE (get_uint 2 encoded offset) (\<lambda>(ticket, offset).
     bindE (decode_short_string encoded offset) (\<lambda>(queue, offset).
     bindE (get_octet encoded offset) (\<lambda>(bits, offset).
     bindE (decode_table encoded offset) (\<lambda>(arguments, offset).
     Inr (Queue_Declare ticket queue (bit_field 0 bits) (bit_field 1 bits) (bit_field 2 bits)
       (bit_field 3 bits) (bit_field 4 bits) arguments)))))"

definition new_Queue_DeclareOk :: queue_method where
  "new_Queue_DeclareOk =
     Queue_DeclareOk PNone PNone PNone"

definition Queue_DeclareOk_encode :: "pyval \<Rightarrow> pyval \<Rightarrow> pyval \<Rightarrow> py_error + pieces" where
  "Queue_DeclareOk_encode queue message_count consumer_count =
     seqE [put_shortstr queue, put_uint 4 message_count, put_uint 4 consumer_count] []"

definition Queue_DeclareOk_decode :: "bytes \<Rightarrow> nat \<Rightarrow> py_error + queue_method" where
  "Queue_DeclareOk_decode encoded offset =
     bindE (decode_short_string encoded offset) (\<lambda>(queue, offset).
     bindE (get_uint 4 encoded offset) (\<lambda>(message_count, offset).
     bindE (get_uint 4 encoded offset) (\<lambda>(consumer_count, offset).
     Inr (Queue_DeclareOk queue message_count consumer_count))))"

definition new_Queue_Bind :: queue_method where
  "new_Queue_Bind =
     Queue_Bind (PInt 0) (PStr (pystr '''')) PNone (PStr (pystr '''')) (PBool False) PNone"

definition Queue_Bind_encode :: "pyval \<Rightarrow> pyval \<Rightarrow> pyval \<Rightarrow> pyval \<Rightarrow> pyval \<Rightarrow> pyval \<Rightarrow> py_error + pieces" where
  "Queue_Bind_encode ticket queue exchange routing_key nowait arguments =
     seqE [put_uint 2 ticket, put_shortstr queue, put_shortstr exchange, put_shortstr routing_key,
      put_bits [nowait], put_table arguments] []"

definition Queue_Bind_decode :: "bytes \<Rightarrow> nat \<Rightarrow> py_error + queue_method" where
  "Queue_Bind_decode encoded offset =
     bindE (get_uint 2 encoded offset) (\<lambda>(ticket, offset).
     bindE (decode_short_string encoded offset) (\<lambda>(queue, offset).
     bindE (decode_short_string encoded offset) (\<lambda>(exchange, offset).
     bindE (decode_short_string encoded offset) (\<lambda>(routing_key, offset).
     bindE (get_octet encoded offset) (\<lambda>(bits, offset).
     bindE (decode_table encoded offset) (\<lambda>(arguments, offset).
     Inr (Queue_Bind ticket queue exchange routing_key (bit_field 0 bits) arguments)))))))"

definition new_Queue_BindOk :: queue_method where
  "new_Queue_BindOk =
     Queue_BindOk"

definition Queue_BindOk_encode :: "py_error + pieces" where
  "Queue_BindOk_encode =
     seqE [] []"

definition Queue_BindOk_decode :: "bytes \<Rightarrow> nat \<Rightarrow> py_error + queue_method" where
  "Queue_BindOk_decode encoded offset =
     Inr Queue_BindOk"

definition new_Queue_Purge :: queue_method where
  "new_Queue_Purge =
     Queue_Purge (PInt 0) (PStr (pystr '''')) (PBool False)"

definition Queue_Purge_encode :: "pyval \<Rightarrow> pyval \<Rightarrow> pyval \<Rightarrow> py_error + pieces" where
  "Queue_Purge_encode ticket queue nowait =
     seqE [put_uint 2 ticket, put_shortstr queue, put_bits [nowait]] []"

definition Queue_Purge_decode :: "bytes \<Rightarrow> nat \<Rightarrow> py_error + queue_method" where
  "Queue_Purge_decode encoded offset =
     bindE (get_uint 2 encoded offset) (\<lambda>(ticket, offset).
     bindE (decode_short_string encoded offset) (\<lambda>(queue, offset).
     bindE (get_octet encoded offset) (\<lambda>(bits, offset).
     Inr (Queue_Purge ticket queue (bit_field 0 bits)))))"

definition new_Queue_PurgeOk :: queue_method where
  "new_Queue_PurgeOk =
     Queue_PurgeOk PNone"

definition Queue_PurgeOk_encode :: "pyval \<Rightarrow> py_error + pieces" where
  "Queue_PurgeOk_encode message_count =
     seqE [put_uint 4 message_count] []"

definition Queue_PurgeOk_decode :: "bytes \<Rightarrow> nat \<Rightarrow> py_error + queue_method" where
  "Queue_PurgeOk_decode encoded offset =
     bindE (get_uint 4 encoded offset) (\<lambda>(message_count, offset).
     Inr (Queue_PurgeOk message_count))"

definition new_Queue_Delete :: queue_method where
  "new_Queue_Delete =
     Queue_Delete (PInt 0) (PStr (pystr '''')) (PBool False) (PBool False) (PBool False)"

definition Queue_Delete_encode :: "pyval \<Rightarrow> pyval \<Rightarrow> pyval \<Rightarrow> pyval \<Rightarrow> pyval \<Rightarrow> py_error + pieces" where
  "Queue_Delete_encode ticket queue if_unused if_empty nowait =
     seqE [put_uint 2 ticket, put_shortstr queue, put_bits [if_unused, if_empty, nowait]] []"

definition Queue_Delete_decode :: "bytes \<Rightarrow> nat \<Rightarrow> py_error + queue_method" where
  "Queue_Delete_decode encoded offset =
     bindE (get_uint 2 encoded offset) (\<lambda>(ticket, offset).
     bindE (decode_short_string encoded offset) (\<lambda>(queue, offset).
     bindE (get_octet encoded offset) (\<lambda>(bits, offset).
     Inr (Queue_Delete ticket queue (bit_field 0 bits) (bit_field 1 bits) (bit_field 2 bits)))))"

definition new_Queue_DeleteOk :: queue_method where
  "new_Queue_DeleteOk =
     Queue_DeleteOk PNone"

definition Queue_DeleteOk_encode :: "pyval \<Rightarrow> py_error + pieces" where
  "Queue_DeleteOk_encode message_count =
     seqE [put_uint 4 message_count] []"

definition Queue_DeleteOk_decode :: "bytes \<Rightarrow> nat \<Rightarrow> py_error + queue_method" where
  "Queue_DeleteOk_decode encoded offset =
     bindE (get_uint 4 encoded offset) (\<lambda>(message_count, offset).
     Inr (Queue_DeleteOk message_count))"

definition new_Queue_Unbind :: queue_method where
  "new_Queue_Unbind =
     Queue_Unbind (PInt 0) (PStr (pystr '''')) PNone (PStr (pystr '''')) PNone"

definition Queue_Unbind_encode :: "pyval \<Rightarrow> pyval \<Rightarrow> pyval \<Rightarrow> pyval \<Rightarrow> pyval \<Rightarrow> py_error + pieces" where
  "Queue_Unbind_encode ticket queue exchange routing_key arguments =
     seqE [put_uint 2 ticket, put_shortstr queue, put_shortstr exchange, put_shortstr routing_key,
      put_table arguments] []"

definition Queue_Unbind_decode :: "bytes \<Rightarrow> nat \<Rightarrow> py_error + queue_method" where
  "Queue_Unbind_decode encoded offset =
     bindE (get_uint 2 encoded offset) (\<lambda>(ticket, offset).
     bindE (decode_short_string encoded offset) (\<lambda>(queue, offset).
     bindE (decode_short_string encoded offset) (\<lambda>(exchange, offset).
     bindE (decode_short_string encoded offset) (\<lambda>(routing_key, offset).
     bindE (decode_table encoded offset) (\<lambda>(arguments, offset).
     Inr (Queue_Unbind ticket queue exchange routing_key arguments))))))"

definition new_Queue_UnbindOk :: queue_method where
  "new_Queue_UnbindOk =
     Queue_UnbindOk"

definition Queue_UnbindOk_encode :: "py_error + pieces" where
  "Queue_UnbindOk_encode =
     seqE [] []"

definition Queue_UnbindOk_decode :: "bytes \<Rightarrow> nat \<Rightarrow> py_error + queue_method" where
  "Queue_UnbindOk_decode encoded offset =
     Inr Queue_UnbindOk"

fun queue_INDEX :: "queue_method \<Rightarrow> int" where
  "queue_INDEX (Queue_Declare _ _ _ _ _ _ _ _) = 0x0032000A"
| "queue_INDEX (Queue_DeclareOk _ _ _) = 0x0032000B"
| "queue_INDEX (Queue_Bind _ _ _ _ _ _) = 0x00320014"
| "queue_INDEX Queue_BindOk = 0x00320015"
| "queue_INDEX (Queue_Purge _ _ _) = 0x0032001E"
| "queue_INDEX (Queue_PurgeOk _) = 0x0032001F"
| "queue_INDEX (Queue_Delete _ _ _ _ _) = 0x00320028"
| "queue_INDEX (Queue_DeleteOk _) = 0x00320029"
| "queue_INDEX (Queue_Unbind _ _ _ _ _) = 0x00320032"
| "queue_INDEX Queue_UnbindOk = 0x00320033"

fun queue_NAME :: "queue_method \<Rightarrow> string" where
  "queue_NAME (Queue_Declare _ _ _ _ _ _ _ _) = ''Queue.Declare''"
| "queue_NAME (Queue_DeclareOk _ _ _) = ''Queue.DeclareOk''"
| "queue_NAME (Queue_Bind _ _ _ _ _ _) = ''Queue.Bind''"
| "queue_NAME Queue_BindOk = ''Queue.BindOk''"
| "queue_NAME (Queue_Purge _ _ _) = ''Queue.Purge''"
| "queue_NAME (Queue_PurgeOk _) = ''Queue.PurgeOk''"
| "queue_NAME (Queue_Delete _ _ _ _ _) = ''Queue.Delete''"
| "queue_NAME (Queue_DeleteOk _) = ''Queue.DeleteOk''"
| "queue_NAME (Queue_Unbind _ _ _ _ _) = ''Queue.Unbind''"
| "queue_NAME Queue_UnbindOk = ''Queue.UnbindOk''"

fun queue_synchronous :: "queue_method \<Rightarrow> bool" where
  "queue_synchronous (Queue_Declare _ _ _ _ _ _ _ _) = True"
| "queue_synchronous (Queue_DeclareOk _ _ _) = False"
| "queue_synchronous (Queue_Bind _ _ _ _ _ _) = True"
| "queue_synchronous Queue_BindOk = False"
| "queue_synchronous (Queue_Purge _ _ _) = True"
| "queue_synchronous (Queue_PurgeOk _) = False"
| "queue_synchronous (Queue_Delete _ _ _ _ _) = True"
| "queue_synchronous (Queue_DeleteOk _) = False"
| "queue_synchronous (Queue_Unbind _ _ _ _ _) = True"
| "queue_synchronous Queue_UnbindOk = False"

fun queue_dict :: "queue_method \<Rightarrow> (string \<times> pyval) list" where
  "queue_dict (Queue_Declare ticket queue passive durable exclusive auto_delete nowait arguments) =
     [(''ticket'', ticket), (''queue'', queue), (''passive'', passive), (''durable'', durable),
     (''exclusive'', exclusive), (''auto_delete'', auto_delete), (''nowait'', nowait),
     (''arguments'', arguments)]"
| "queue_dict (Queue_DeclareOk queue message_count consumer_count) =
     [(''queue'', queue), (''message_count'', message_count), (''consumer_count'',
     consumer_count)]"
| "queue_dict (Queue_Bind ticket queue exchange routing_key nowait arguments) =
     [(''ticket'', ticket), (''queue'', queue), (''exchange'', exchange), (''routing_key'',
     routing_key), (''nowait'', nowait), (''arguments'', arguments)]"
| "queue_dict Queue_BindOk = []"
| "queue_dict (Queue_Purge ticket queue nowait) =
     [(''ticket'', ticket), (''queue'', queue), (''nowait'', nowait)]"
| "queue_dict (Queue_PurgeOk message_count) = [(''message_count'', message_count)]"
| "queue_dict (Queue_Delete ticket queue if_unused if_empty nowait) =
     [(''ticket'', ticket), (''queue'', queue), (''if_unused'', if_unused), (''if_empty'',
     if_empty), (''nowait'', nowait)]"
| "queue_dict (Queue_DeleteOk message_count) = [(''message_count'', message_count)]"
| "queue_dict (Queue_Unbind ticket queue exchange routing_key arguments) =
     [(''ticket'', ticket), (''queue'', queue), (''exchange'', exchange), (''routing_key'',
     routing_key), (''arguments'', arguments)]"
| "queue_dict Queue_UnbindOk = []"

fun queue_encode :: "queue_method \<Rightarrow> py_error + pieces" where
  "queue_encode (Queue_Declare ticket queue passive durable exclusive auto_delete nowait arguments) =
     Queue_Declare_encode ticket queue passive durable exclusive auto_delete nowait arguments"
| "queue_encode (Queue_DeclareOk queue message_count consumer_count) =
     Queue_DeclareOk_encode queue message_count consumer_count"
| "queue_encode (Queue_Bind ticket queue exchange routing_key nowait arguments) =
     Queue_Bind_encode ticket queue exchange routing_key nowait arguments"
| "queue_encode Queue_BindOk = Queue_BindOk_encode"
| "queue_encode (Queue_Purge ticket queue nowait) = Queue_Purge_encode ticket queue nowait"
| "queue_encode (Queue_PurgeOk message_count) = Queue_PurgeOk_encode message_count"
| "queue_encode (Queue_Delete ticket queue if_unused if_empty nowait) =
     Queue_Delete_encode ticket queue if_unused if_empty nowait"
| "queue_encode (Queue_DeleteOk message_count) = Queue_DeleteOk_encode message_count"
| "queue_encode (Queue_Unbind ticket queue exchange routing_key arguments) =
     Queue_Unbind_encode ticket queue exchange routing_key arguments"
| "queue_encode Queue_UnbindOk = Queue_UnbindOk_encode"

fun queue_decode :: "queue_method \<Rightarrow> bytes \<Rightarrow> nat \<Rightarrow> py_error + queue_method" where
  "queue_decode (Queue_Declare _ _ _ _ _ _ _ _) = Queue_Declare_decode"
| "queue_decode (Queue_DeclareOk _ _ _) = Queue_DeclareOk_decode"
| "queue_decode (Queue_Bind _ _ _ _ _ _) = Queue_Bind_decode"
| "queue_decode Queue_BindOk = Queue_BindOk_decode"
| "queue_decode (Queue_Purge _ _ _) = Queue_Purge_decode"
| "queue_decode (Queue_PurgeOk _) = Queue_PurgeOk_decode"
| "queue_decode (Queue_Delete _ _ _ _ _) = Queue_Delete_decode"
| "queue_decode (Queue_DeleteOk _) = Queue_DeleteOk_decode"
| "queue_decode (Queue_Unbind _ _ _ _ _) = Queue_Unbind_decode"
| "queue_decode Queue_UnbindOk = Queue_UnbindOk_decode"

section \<open>Class Basic\<close>

datatype basic_method =
  Basic_Qos pyval pyval pyval
| Basic_QosOk
| Basic_Consume pyval pyval pyval pyval pyval pyval pyval pyval
| Basic_ConsumeOk pyval
| Basic_Cancel pyval pyval
| Basic_CancelOk pyval
| Basic_Publish pyval pyval pyval pyval pyval
| Basic_Return pyval pyval pyval pyval
| Basic_Deliver pyval pyval pyval pyval pyval
| Basic_Get pyval pyval pyval
| Basic_GetOk pyval pyval pyval pyval pyval
| Basic_GetEmpty pyval
| Basic_Ack pyval pyval
| Basic_Reject pyval pyval
| Basic_RecoverAsync pyval
| Basic_Recover pyval
| Basic_RecoverOk
| Basic_Nack pyval pyval pyval

definition new_Basic_Qos :: basic_method where
  "new_Basic_Qos =
     Basic_Qos (PInt 0) (PInt 0) (PBool False)"

definition Basic_Qos_encode :: "pyval \<Rightarrow> pyval \<Rightarrow> pyval \<Rightarrow> py_error + pieces" where
  "Basic_Qos_encode prefetch_size prefetch_count global_qos =
     seqE [put_uint 4 prefetch_size, put_uint 2 prefetch_count, put_bits [global_qos]] []"

definition Basic_Qos_decode :: "bytes \<Rightarrow> nat \<Rightarrow> py_error + basic_method" where
  "Basic_Qos_decode encoded offset =
     bindE (get_uint 4 encoded offset) (\<lambda>(prefetch_size, offset).
     bindE (get_uint 2 encoded offset) (\<lambda>(prefetch_count, offset).
     bindE (get_octet encoded offset) (\<lambda>(bits, offset).
     Inr (Basic_Qos prefetch_size prefetch_count (bit_field 0 bits)))))"

definition new_Basic_QosOk :: basic_method where
  "new_Basic_QosOk =
     Basic_QosOk"

definition Basic_QosOk_encode :: "py_error + pieces" where
  "Basic_QosOk_encode =
     seqE [] []"

definition Basic_QosOk_decode :: "bytes \<Rightarrow> nat \<Rightarrow> py_error + basic_method" where
  "Basic_QosOk_decode encoded offset =
     Inr Basic_QosOk"

definition new_Basic_Consume :: basic_method where
  "new_Basic_Consume =
     Basic_Consume (PInt 0) (PStr (pystr '''')) (PStr (pystr '''')) (PBool False) (PBool False)
     (PBool False) (PBool False) PNone"

definition Basic_Consume_encode :: "pyval \<Rightarrow> pyval \<Rightarrow> pyval \<Rightarrow> pyval \<Rightarrow> pyval \<Rightarrow> pyval \<Rightarrow> pyval \<Rightarrow> pyval \<Rightarrow> py_error + pieces" where
  "Basic_Consume_encode ticket queue consumer_tag no_local no_ack exclusive nowait arguments =
     seqE [put_uint 2 ticket, put_shortstr queue, put_shortstr consumer_tag,
      put_bits [no_local, no_ack, exclusive, nowait], put_table arguments] []"

definition Basic_Consume_decode :: "bytes \<Rightarrow> nat \<Rightarrow> py_error + basic_method" where
  "Basic_Consume_decode encoded offset =
     bindE (get_uint 2 encoded offset) (\<lambda>(ticket, offset).
     bindE (decode_short_string encoded offset) (\<lambda>(queue, offset).
     bindE (decode_short_string encoded offset) (\<lambda>(consumer_tag, offset).
     bindE (get_octet encoded offset) (\<lambda>(bits, offset).
     bindE (decode_table encoded offset) (\<lambda>(arguments, offset).
     Inr (Basic_Consume ticket queue consumer_tag (bit_field 0 bits) (bit_field 1 bits)
       (bit_field 2 bits) (bit_field 3 bits) arguments))))))"

definition new_Basic_ConsumeOk :: basic_method where
  "new_Basic_ConsumeOk =
     Basic_ConsumeOk PNone"

definition Basic_ConsumeOk_encode :: "pyval \<Rightarrow> py_error + pieces" where
  "Basic_ConsumeOk_encode consumer_tag =
     seqE [put_shortstr consumer_tag] []"

definition Basic_ConsumeOk_decode :: "bytes \<Rightarrow> nat \<Rightarrow> py_error + basic_method" where
  "Basic_ConsumeOk_decode encoded offset =
     bindE (decode_short_string encoded offset) (\<lambda>(consumer_tag, offset).
     Inr (Basic_ConsumeOk consumer_tag))"

definition new_Basic_Cancel :: basic_method where
  "new_Basic_Cancel =
     Basic_Cancel PNone (PBool False)"

definition Basic_Cancel_encode :: "pyval \<Rightarrow> pyval \<Rightarrow> py_error + pieces" where
  "Basic_Cancel_encode consumer_tag nowait =
     seqE [put_shortstr consumer_tag, put_bits [nowait]] []"

definition Basic_Cancel_decode :: "bytes \<Rightarrow> nat \<Rightarrow> py_error + basic_method" where
  "Basic_Cancel_decode encoded offset =
     bindE (decode_short_string encoded offset) (\<lambda>(consumer_tag, offset).
     bindE (get_octet encoded offset) (\<lambda>(bits, offset).
     Inr (Basic_Cancel consumer_tag (bit_field 0 bits))))"

definition new_Basic_CancelOk :: basic_method where
  "new_Basic_CancelOk =
     Basic_CancelOk PNone"

definition Basic_CancelOk_encode :: "pyval \<Rightarrow> py_error + pieces" where
  "Basic_CancelOk_encode consumer_tag =
     seqE [put_shortstr consumer_tag] []"

definition Basic_CancelOk_decode :: "bytes \<Rightarrow> nat \<Rightarrow> py_error + basic_method" where
  "Basic_CancelOk_decode encoded offset =
     bindE (decode_short_string encoded offset) (\<lambda>(consumer_tag, offset).
     Inr (Basic_CancelOk consumer_tag))"

definition new_Basic_Publish :: basic_method where
  "new_Basic_Publish =
     Basic_Publish (PInt 0) (PStr (pystr '''')) (PStr (pystr '''')) (PBool False) (PBool False)"

definition Basic_Publish_encode :: "pyval \<Rightarrow> pyval \<Rightarrow> pyval \<Rightarrow> pyval \<Rightarrow> pyval \<Rightarrow> py_error + pieces" where
  "Basic_Publish_encode ticket exchange routing_key mandatory immediate =
     seqE [put_uint 2 ticket, put_shortstr exchange, put_shortstr routing_key,
      put_bits [mandatory, immediate]] []"

definition Basic_Publish_decode :: "bytes \<Rightarrow> nat \<Rightarrow> py_error + basic_method" where
  "Basic_Publish_decode encoded offset =
     bindE (get_uint 2 encoded offset) (\<lambda>(ticket, offset).
     bindE (decode_short_string encoded offset) (\<lambda>(exchange, offset).
     bindE (decode_short_string encoded offset) (\<lambda>(routing_key, offset).
     bindE (get_octet encoded offset) (\<lambda>(bits, offset).
     Inr (Basic_Publish ticket exchange routing_key (bit_field 0 bits) (bit_field 1 bits))))))"

definition new_Basic_Return :: basic_method where
  "new_Basic_Return =
     Basic_Return PNone (PStr (pystr '''')) PNone PNone"

definition Basic_Return_encode :: "pyval \<Rightarrow> pyval \<Rightarrow> pyval \<Rightarrow> pyval \<Rightarrow> py_error + pieces" where
  "Basic_Return_encode reply_code reply_text exchange routing_key =
     seqE [put_uint 2 reply_code, put_shortstr reply_text, put_shortstr exchange,
      put_shortstr routing_key] []"

definition Basic_Return_decode :: "bytes \<Rightarrow> nat \<Rightarrow> py_error + basic_method" where
  "Basic_Return_decode encoded offset =
     bindE (get_uint 2 encoded offset) (\<lambda>(reply_code, offset).
     bindE (decode_short_string encoded offset) (\<lambda>(reply_text, offset).
     bindE (decode_short_string encoded offset) (\<lambda>(exchange, offset).
     bindE (decode_short_string encoded offset) (\<lambda>(routing_key, offset).
     Inr (Basic_Return reply_code reply_text exchange routing_key)))))"

definition new_Basic_Deliver :: basic_method where
  "new_Basic_Deliver =
     Basic_Deliver PNone PNone (PBool False) PNone PNone"

definition Basic_Deliver_encode :: "pyval \<Rightarrow> pyval \<Rightarrow> pyval \<Rightarrow> pyval \<Rightarrow> pyval \<Rightarrow> py_error + pieces" where
  "Basic_Deliver_encode consumer_tag delivery_tag redelivered exchange routing_key =
     seqE [put_shortstr consumer_tag, put_uint 8 delivery_tag, put_bits [redelivered],
      put_shortstr exchange, put_shortstr routing_key] []"

definition Basic_Deliver_decode :: "bytes \<Rightarrow> nat \<Rightarrow> py_error + basic_method" where
  "Basic_Deliver_decode encoded offset =
     bindE (decode_short_string encoded offset) (\<lambda>(consumer_tag, offset).
     bindE (get_uint 8 encoded offset) (\<lambda>(delivery_tag, offset).
     bindE (get_octet encoded offset) (\<lambda>(bits, offset).
     bindE (decode_short_string encoded offset) (\<lambda>(exchange, offset).
     bindE (decode_short_string encoded offset) (\<lambda>(routing_key, offset).
     Inr (Basic_Deliver consumer_tag delivery_tag (bit_field 0 bits) exchange routing_key))))))"

definition new_Basic_Get :: basic_method where
  "new_Basic_Get =
     Basic_Get (PInt 0) (PStr (pystr '''')) (PBool False)"

definition Basic_Get_encode :: "pyval \<Rightarrow> pyval \<Rightarrow> pyval \<Rightarrow> py_error + pieces" where
  "Basic_Get_encode ticket queue no_ack =
     seqE [put_uint 2 ticket, put_shortstr queue, put_bits [no_ack]] []"

definition Basic_Get_decode :: "bytes \<Rightarrow> nat \<Rightarrow> py_error + basic_method" where
  "Basic_Get_decode encoded offset =
     bindE (get_uint 2 encoded offset) (\<lambda>(ticket, offset).
     bindE (decode_short_string encoded offset) (\<lambda>(queue, offset).
     bindE (get_octet encoded offset) (\<lambda>(bits, offset).
     Inr (Basic_Get ticket queue (bit_field 0 bits)))))"

definition new_Basic_GetOk :: basic_method where
  "new_Basic_GetOk =
     Basic_GetOk PNone (PBool False) PNone PNone PNone"

definition Basic_GetOk_encode :: "pyval \<Rightarrow> pyval \<Rightarrow> pyval \<Rightarrow> pyval \<Rightarrow> pyval \<Rightarrow> py_error + pieces" where
  "Basic_GetOk_encode delivery_tag redelivered exchange routing_key message_count =
     seqE [put_uint 8 delivery_tag, put_bits [redelivered], put_shortstr exchange,
      put_shortstr routing_key, put_uint 4 message_count] []"

definition Basic_GetOk_decode :: "bytes \<Rightarrow> nat \<Rightarrow> py_error + basic_method" where
  "Basic_GetOk_decode encoded offset =
     bindE (get_uint 8 encoded offset) (\<lambda>(delivery_tag, offset).
     bindE (get_octet encoded offset) (\<lambda>(bits, offset).
     bindE (decode_short_string encoded offset) (\<lambda>(exchange, offset).
     bindE (decode_short_string encoded offset) (\<lambda>(routing_key, offset).
     bindE (get_uint 4 encoded offset) (\<lambda>(message_count, offset).
     Inr (Basic_GetOk delivery_tag (bit_field 0 bits) exchange routing_key message_count))))))"

definition new_Basic_GetEmpty :: basic_method where
  "new_Basic_GetEmpty =
     Basic_GetEmpty (PStr (pystr ''''))"

definition Basic_GetEmpty_encode :: "pyval \<Rightarrow> py_error + pieces" where
  "Basic_GetEmpty_encode cluster_id =
     seqE [put_shortstr cluster_id] []"

definition Basic_GetEmpty_decode :: "bytes \<Rightarrow> nat \<Rightarrow> py_error + basic_method" where
  "Basic_GetEmpty_decode encoded offset =
     bindE (decode_short_string encoded offset) (\<lambda>(cluster_id, offset).
     Inr (Basic_GetEmpty cluster_id))"

definition new_Basic_Ack :: basic_method where
  "new_Basic_Ack =
     Basic_Ack (PInt 0) (PBool False)"

definition Basic_Ack_encode :: "pyval \<Rightarrow> pyval \<Rightarrow> py_error + pieces" where
  "Basic_Ack_encode delivery_tag multiple =
     seqE [put_uint 8 delivery_tag, put_bits [multiple]] []"

definition Basic_Ack_decode :: "bytes \<Rightarrow> nat \<Rightarrow> py_error + basic_method" where
  "Basic_Ack_decode encoded offset =
     bindE (get_uint 8 encoded offset) (\<lambda>(delivery_tag, offset).
     bindE (get_octet encoded offset) (\<lambda>(bits, offset).
     Inr (Basic_Ack delivery_tag (bit_field 0 bits))))"

definition new_Basic_Reject :: basic_method where
  "new_Basic_Reject =
     Basic_Reject PNone (PBool True)"

definition Basic_Reject_encode :: "pyval \<Rightarrow> pyval \<Rightarrow> py_error + pieces" where
  "Basic_Reject_encode delivery_tag requeue =
     seqE [put_uint 8 delivery_tag, put_bits [requeue]] []"

definition Basic_Reject_decode :: "bytes \<Rightarrow> nat \<Rightarrow> py_error + basic_method" where
  "Basic_Reject_decode encoded offset =
     bindE (get_uint 8 encoded offset) (\<lambda>(delivery_tag, offset).
     bindE (get_octet encoded offset) (\<lambda>(bits, offset).
     Inr (Basic_Reject delivery_tag (bit_field 0 bits))))"

definition new_Basic_RecoverAsync :: basic_method where
  "new_Basic_RecoverAsync =
     Basic_RecoverAsync (PBool False)"

definition Basic_RecoverAsync_encode :: "pyval \<Rightarrow> py_error + pieces" where
  "Basic_RecoverAsync_encode requeue =
     seqE [put_bits [requeue]] []"

definition Basic_RecoverAsync_decode :: "bytes \<Rightarrow> nat \<Rightarrow> py_error + basic_method" where
  "Basic_RecoverAsync_decode encoded offset =
     bindE (get_octet encoded offset) (\<lambda>(bits, offset).
     Inr (Basic_RecoverAsync (bit_field 0 bits)))"

definition new_Basic_Recover :: basic_method where
  "new_Basic_Recover =
     Basic_Recover (PBool False)"

definition Basic_Recover_encode :: "pyval \<Rightarrow> py_error + pieces" where
  "Basic_Recover_encode requeue =
     seqE [put_bits [requeue]] []"

definition Basic_Recover_decode :: "bytes \<Rightarrow> nat \<Rightarrow> py_error + basic_method" where
  "Basic_Recover_decode encoded offset =
     bindE (get_octet encoded offset) (\<lambda>(bits, offset).
     Inr (Basic_Recover (bit_field 0 bits)))"

definition new_Basic_RecoverOk :: basic_method where
  "new_Basic_RecoverOk =
     Basic_RecoverOk"

definition Basic_RecoverOk_encode :: "py_error + pieces" where
  "Basic_RecoverOk_encode =
     seqE [] []"

definition Basic_RecoverOk_decode :: "bytes \<Rightarrow> nat \<Rightarrow> py_error + basic_method" where
  "Basic_RecoverOk_decode encoded offset =
     Inr Basic_RecoverOk"

definition new_Basic_Nack :: basic_method where
  "new_Basic_Nack =
     Basic_Nack (PInt 0) (PBool False) (PBool True)"

definition Basic_Nack_encode :: "pyval \<Rightarrow> pyval \<Rightarrow> pyval \<Rightarrow> py_error + pieces" where
  "Basic_Nack_encode delivery_tag multiple requeue =
     seqE [put_uint 8 delivery_tag, put_bits [multiple, requeue]] []"

definition Basic_Nack_decode :: "bytes \<Rightarrow> nat \<Rightarrow> py_error + basic_method" where
  "Basic_Nack_decode encoded offset =
     bindE (get_uint 8 encoded offset) (\<lambda>(delivery_tag, offset).
     bindE (get_octet encoded offset) (\<lambda>(bits, offset).
     Inr (Basic_Nack delivery_tag (bit_field 0 bits) (bit_field 1 bits))))"

fun basic_INDEX :: "basic_method \<Rightarrow> int" where
  "basic_INDEX (Basic_Qos _ _ _) = 0x003C000A"
| "basic_INDEX Basic_QosOk = 0x003C000B"
| "basic_INDEX (Basic_Consume _ _ _ _ _ _ _ _) = 0x003C0014"
| "basic_INDEX (Basic_ConsumeOk _) = 0x003C0015"
| "basic_INDEX (Basic_Cancel _ _) = 0x003C001E"
| "basic_INDEX (Basic_CancelOk _) = 0x003C001F"
| "basic_INDEX (Basic_Publish _ _ _ _ _) = 0x003C0028"
| "basic_INDEX (Basic_Return _ _ _ _) = 0x003C0032"
| "basic_INDEX (Basic_Deliver _ _ _ _ _) = 0x003C003C"
| "basic_INDEX (Basic_Get _ _ _) = 0x003C0046"
| "basic_INDEX (Basic_GetOk _ _ _ _ _) = 0x003C0047"
| "basic_INDEX (Basic_GetEmpty _) = 0x003C0048"
| "basic_INDEX (Basic_Ack _ _) = 0x003C0050"
| "basic_INDEX (Basic_Reject _ _) = 0x003C005A"
| "basic_INDEX (Basic_RecoverAsync _) = 0x003C0064"
| "basic_INDEX (Basic_Recover _) = 0x003C006E"
| "basic_INDEX Basic_RecoverOk = 0x003C006F"
| "basic_INDEX (Basic_Nack _ _ _) = 0x003C0078"

fun basic_NAME :: "basic_method \<Rightarrow> string" where
  "basic_NAME (Basic_Qos _ _ _) = ''Basic.Qos''"
| "basic_NAME Basic_QosOk = ''Basic.QosOk''"
| "basic_NAME (Basic_Consume _ _ _ _ _ _ _ _) = ''Basic.Consume''"
| "basic_NAME (Basic_ConsumeOk _) = ''Basic.ConsumeOk''"
| "basic_NAME (Basic_Cancel _ _) = ''Basic.Cancel''"
| "basic_NAME (Basic_CancelOk _) = ''Basic.CancelOk''"
| "basic_NAME (Basic_Publish _ _ _ _ _) = ''Basic.Publish''"
| "basic_NAME (Basic_Return _ _ _ _) = ''Basic.Return''"
| "basic_NAME (Basic_Deliver _ _ _ _ _) = ''Basic.Deliver''"
| "basic_NAME (Basic_Get _ _ _) = ''Basic.Get''"
| "basic_NAME (Basic_GetOk _ _ _ _ _) = ''Basic.GetOk''"
| "basic_NAME (Basic_GetEmpty _) = ''Basic.GetEmpty''"
| "basic_NAME (Basic_Ack _ _) = ''Basic.Ack''"
| "basic_NAME (Basic_Reject _ _) = ''Basic.Reject''"
| "basic_NAME (Basic_RecoverAsync _) = ''Basic.RecoverAsync''"
| "basic_NAME (Basic_Recover _) = ''Basic.Recover''"
| "basic_NAME Basic_RecoverOk = ''Basic.RecoverOk''"
| "basic_NAME (Basic_Nack _ _ _) = ''Basic.Nack''"

fun basic_synchronous :: "basic_method \<Rightarrow> bool" where
  "basic_synchronous (Basic_Qos _ _ _) = True"
| "basic_synchronous Basic_QosOk = False"
| "basic_synchronous (Basic_Consume _ _ _ _ _ _ _ _) = True"
| "basic_synchronous (Basic_ConsumeOk _) = False"
| "basic_synchronous (Basic_Cancel _ _) = True"
| "basic_synchronous (Basic_CancelOk _) = False"
| "basic_synchronous (Basic_Publish _ _ _ _ _) = False"
| "basic_synchronous (Basic_Return _ _ _ _) = False"
| "basic_synchronous (Basic_Deliver _ _ _ _ _) = False"
| "basic_synchronous (Basic_Get _ _ _) = True"
| "basic_synchronous (Basic_GetOk _ _ _ _ _) = False"
| "basic_synchronous (Basic_GetEmpty _) = False"
| "basic_synchronous (Basic_Ack _ _) = False"
| "basic_synchronous (Basic_Reject _ _) = False"
| "basic_synchronous (Basic_RecoverAsync _) = False"
| "basic_synchronous (Basic_Recover _) = True"
| "basic_synchronous Basic_RecoverOk = False"
| "basic_synchronous (Basic_Nack _ _ _) = False"

fun basic_dict :: "basic_method \<Rightarrow> (string \<times> pyval) list" where
  "basic_dict (Basic_Qos prefetch_size prefetch_count global_qos) =
     [(''prefetch_size'', prefetch_size), (''prefetch_count'', prefetch_count), (''global_qos'',
     global_qos)]"
| "basic_dict Basic_QosOk = []"
| "basic_dict (Basic_Consume ticket queue consumer_tag no_local no_ack exclusive nowait arguments) =
     [(''ticket'', ticket), (''queue'', queue), (''consumer_tag'', consumer_tag), (''no_local'',
     no_local), (''no_ack'', no_ack), (''exclusive'', exclusive), (''nowait'', nowait),
     (''arguments'', arguments)]"
| "basic_dict (Basic_ConsumeOk consumer_tag) = [(''consumer_tag'', consumer_tag)]"
| "basic_dict (Basic_Cancel consumer_tag nowait) =
     [(''consumer_tag'', consumer_tag), (''nowait'', nowait)]"
| "basic_dict (Basic_CancelOk consumer_tag) = [(''consumer_tag'', consumer_tag)]"
| "basic_dict (Basic_Publish ticket exchange routing_key mandatory immediate) =
     [(''ticket'', ticket), (''exchange'', exchange), (''routing_key'', routing_key),
     (''mandatory'', mandatory), (''immediate'', immediate)]"
| "basic_dict (Basic_Return reply_code reply_text exchange routing_key) =
     [(''reply_code'', reply_code), (''reply_text'', reply_text), (''exchange'', exchange),
     (''routing_key'', routing_key)]"
| "basic_dict (Basic_Deliver consumer_tag delivery_tag redelivered exchange routing_key) =
     [(''consumer_tag'', consumer_tag), (''delivery_tag'', delivery_tag), (''redelivered'',
     redelivered), (''exchange'', exchange), (''routing_key'', routing_key)]"
| "basic_dict (Basic_Get ticket queue no_ack) =
     [(''ticket'', ticket), (''queue'', queue), (''no_ack'', no_ack)]"
| "basic_dict (Basic_GetOk delivery_tag redelivered exchange routing_key message_count) =
     [(''delivery_tag'', delivery_tag), (''redelivered'', redelivered), (''exchange'',
     exchange), (''routing_key'', routing_key), (''message_count'', message_count)]"
| "basic_dict (Basic_GetEmpty cluster_id) = [(''cluster_id'', cluster_id)]"
| "basic_dict (Basic_Ack delivery_tag multiple) =
     [(''delivery_tag'', delivery_tag), (''multiple'', multiple)]"
| "basic_dict (Basic_Reject delivery_tag requeue) =
     [(''delivery_tag'', delivery_tag), (''requeue'', requeue)]"
| "basic_dict (Basic_RecoverAsync requeue) = [(''requeue'', requeue)]"
| "basic_dict (Basic_Recover requeue) = [(''requeue'', requeue)]"
| "basic_dict Basic_RecoverOk = []"
| "basic_dict (Basic_Nack delivery_tag multiple requeue) =
     [(''delivery_tag'', delivery_tag), (''multiple'', multiple), (''requeue'', requeue)]"

fun basic_encode :: "basic_method \<Rightarrow> py_error + pieces" where
  "basic_encode (Basic_Qos prefetch_size prefetch_count global_qos) =
     Basic_Qos_encode prefetch_size prefetch_count global_qos"
| "basic_encode Basic_QosOk = Basic_QosOk_encode"
| "basic_encode (Basic_Consume ticket queue consumer_tag no_local no_ack exclusive nowait arguments) =
     Basic_Consume_encode ticket queue consumer_tag no_local no_ack exclusive nowait arguments"
| "basic_encode (Basic_ConsumeOk consumer_tag) = Basic_ConsumeOk_encode consumer_tag"
| "basic_encode (Basic_Cancel consumer_tag nowait) = Basic_Cancel_encode consumer_tag nowait"
| "basic_encode (Basic_CancelOk consumer_tag) = Basic_CancelOk_encode consumer_tag"
| "basic_encode (Basic_Publish ticket exchange routing_key mandatory immediate) =
     Basic_Publish_encode ticket exchange routing_key mandatory immediate"
| "basic_encode (Basic_Return reply_code reply_text exchange routing_key) =
     Basic_Return_encode reply_code reply_text exchange routing_key"
| "basic_encode (Basic_Deliver consumer_tag delivery_tag redelivered exchange routing_key) =
     Basic_Deliver_encode consumer_tag delivery_tag redelivered exchange routing_key"
| "basic_encode (Basic_Get ticket queue no_ack) = Basic_Get_encode ticket queue no_ack"
| "basic_encode (Basic_GetOk delivery_tag redelivered exchange routing_key message_count) =
     Basic_GetOk_encode delivery_tag redelivered exchange routing_key message_count"
| "basic_encode (Basic_GetEmpty cluster_id) = Basic_GetEmpty_encode cluster_id"
| "basic_encode (Basic_Ack delivery_tag multiple) = Basic_Ack_encode delivery_tag multiple"
| "basic_encode (Basic_Reject delivery_tag requeue) = Basic_Reject_encode delivery_tag requeue"
| "basic_encode (Basic_RecoverAsync requeue) = Basic_RecoverAsync_encode requeue"
| "basic_encode (Basic_Recover requeue) = Basic_Recover_encode requeue"
| "basic_encode Basic_RecoverOk = Basic_RecoverOk_encode"
| "basic_encode (Basic_Nack delivery_tag multiple requeue) =
     Basic_Nack_encode delivery_tag multiple requeue"

fun basic_decode :: "basic_method \<Rightarrow> bytes \<Rightarrow> nat \<Rightarrow> py_error + basic_method" where
  "basic_decode (Basic_Qos _ _ _) = Basic_Qos_decode"
| "basic_decode Basic_QosOk = Basic_QosOk_decode"
| "basic_decode (Basic_Consume _ _ _ _ _ _ _ _) = Basic_Consume_decode"
| "basic_decode (Basic_ConsumeOk _) = Basic_ConsumeOk_decode"
| "basic_decode (Basic_Cancel _ _) = Basic_Cancel_decode"
| "basic_decode (Basic_CancelOk _) = Basic_CancelOk_decode"
| "basic_decode (Basic_Publish _ _ _ _ _) = Basic_Publish_decode"
| "basic_decode (Basic_Return _ _ _ _) = Basic_Return_decode"
| "basic_decode (Basic_Deliver _ _ _ _ _) = Basic_Deliver_decode"
| "basic_decode (Basic_Get _ _ _) = Basic_Get_decode"
| "basic_decode (Basic_GetOk _ _ _ _ _) = Basic_GetOk_decode"
| "basic_decode (Basic_GetEmpty _) = Basic_GetEmpty_decode"
| "basic_decode (Basic_Ack _ _) = Basic_Ack_decode"
| "basic_decode (Basic_Reject _ _) = Basic_Reject_decode"
| "basic_decode (Basic_RecoverAsync _) = Basic_RecoverAsync_decode"
| "basic_decode (Basic_Recover _) = Basic_Recover_decode"
| "basic_decode Basic_RecoverOk = Basic_RecoverOk_decode"
| "basic_decode (Basic_Nack _ _ _) = Basic_Nack_decode"

section \<open>Class Tx\<close>

datatype tx_method =
  Tx_Select
| Tx_SelectOk
| Tx_Commit
| Tx_CommitOk
| Tx_Rollback
| Tx_RollbackOk

definition new_Tx_Select :: tx_method where
  "new_Tx_Select =
     Tx_Select"

definition Tx_Select_encode :: "py_error + pieces" where
  "Tx_Select_encode =
     seqE [] []"

definition Tx_Select_decode :: "bytes \<Rightarrow> nat \<Rightarrow> py_error + tx_method" where
  "Tx_Select_decode encoded offset =
     Inr Tx_Select"

definition new_Tx_SelectOk :: tx_method where
  "new_Tx_SelectOk =
     Tx_SelectOk"

definition Tx_SelectOk_encode :: "py_error + pieces" where
  "Tx_SelectOk_encode =
     seqE [] []"

definition Tx_SelectOk_decode :: "bytes \<Rightarrow> nat \<Rightarrow> py_error + tx_method" where
  "Tx_SelectOk_decode encoded offset =
     Inr Tx_SelectOk"

definition new_Tx_Commit :: tx_method where
  "new_Tx_Commit =
     Tx_Commit"

definition Tx_Commit_encode :: "py_error + pieces" where
  "Tx_Commit_encode =
     seqE [] []"

definition Tx_Commit_decode :: "bytes \<Rightarrow> nat \<Rightarrow> py_error + tx_method" where
  "Tx_Commit_decode encoded offset =
     Inr Tx_Commit"

definition new_Tx_CommitOk :: tx_method where
  "new_Tx_CommitOk =
     Tx_CommitOk"

definition Tx_CommitOk_encode :: "py_error + pieces" where
  "Tx_CommitOk_encode =
     seqE [] []"

definition Tx_CommitOk_decode :: "bytes \<Rightarrow> nat \<Rightarrow> py_error + tx_method" where
  "Tx_CommitOk_decode encoded offset =
     Inr Tx_CommitOk"

definition new_Tx_Rollback :: tx_method where
  "new_Tx_Rollback =
     Tx_Rollback"

definition Tx_Rollback_encode :: "py_error + pieces" where
  "Tx_Rollback_encode =
     seqE [] []"

definition Tx_Rollback_decode :: "bytes \<Rightarrow> nat \<Rightarrow> py_error + tx_method" where
  "Tx_Rollback_decode encoded offset =
     Inr Tx_Rollback"

definition new_Tx_RollbackOk :: tx_method where
  "new_Tx_RollbackOk =
     Tx_RollbackOk"

definition Tx_RollbackOk_encode :: "py_error + pieces" where
  "Tx_RollbackOk_encode =
     seqE [] []"

definition Tx_RollbackOk_decode :: "bytes \<Rightarrow> nat \<Rightarrow> py_error + tx_method" where
  "Tx_RollbackOk_decode encoded offset =
     Inr Tx_RollbackOk"

fun tx_INDEX :: "tx_method \<Rightarrow> int" where
  "tx_INDEX Tx_Select = 0x005A000A"
| "tx_INDEX Tx_SelectOk = 0x005A000B"
| "tx_INDEX Tx_Commit = 0x005A0014"
| "tx_INDEX Tx_CommitOk = 0x005A0015"
| "tx_INDEX Tx_Rollback = 0x005A001E"
| "tx_INDEX Tx_RollbackOk = 0x005A001F"

fun tx_NAME :: "tx_method \<Rightarrow> string" where
  "tx_NAME Tx_Select = ''Tx.Select''"
| "tx_NAME Tx_SelectOk = ''Tx.SelectOk''"
| "tx_NAME Tx_Commit = ''Tx.Commit''"
| "tx_NAME Tx_CommitOk = ''Tx.CommitOk''"
| "tx_NAME Tx_Rollback = ''Tx.Rollback''"
| "tx_NAME Tx_RollbackOk = ''Tx.RollbackOk''"

fun tx_synchronous :: "tx_method \<Rightarrow> bool" where
  "tx_synchronous Tx_Select = True"
| "tx_synchronous Tx_SelectOk = False"
| "tx_synchronous Tx_Commit = True"
| "tx_synchronous Tx_CommitOk = False"
| "tx_synchronous Tx_Rollback = True"
| "tx_synchronous Tx_RollbackOk = False"

fun tx_dict :: "tx_method \<Rightarrow> (string \<times> pyval) list" where
  "tx_dict Tx_Select = []"
| "tx_dict Tx_SelectOk = []"
| "tx_dict Tx_Commit = []"
| "tx_dict Tx_CommitOk = []"
| "tx_dict Tx_Rollback = []"
| "tx_dict Tx_RollbackOk = []"

fun tx_encode :: "tx_method \<Rightarrow> py_error + pieces" where
  "tx_encode Tx_Select = Tx_Select_encode"
| "tx_encode Tx_SelectOk = Tx_SelectOk_encode"
| "tx_encode Tx_Commit = Tx_Commit_encode"
| "tx_encode Tx_CommitOk = Tx_CommitOk_encode"
| "tx_encode Tx_Rollback = Tx_Rollback_encode"
| "tx_encode Tx_RollbackOk = Tx_RollbackOk_encode"

fun tx_decode :: "tx_method \<Rightarrow> bytes \<Rightarrow> nat \<Rightarrow> py_error + tx_method" where
  "tx_decode Tx_Select = Tx_Select_decode"
| "tx_decode Tx_SelectOk = Tx_SelectOk_decode"
| "tx_decode Tx_Commit = Tx_Commit_decode"
| "tx_decode Tx_CommitOk = Tx_CommitOk_decode"
| "tx_decode Tx_Rollback = Tx_Rollback_decode"
| "tx_decode Tx_RollbackOk = Tx_RollbackOk_decode"

section \<open>Class Confirm\<close>

datatype confirm_method =
  Confirm_Select pyval
| Confirm_SelectOk

definition new_Confirm_Select :: confirm_method where
  "new_Confirm_Select =
     Confirm_Select (PBool False)"

definition Confirm_Select_encode :: "pyval \<Rightarrow> py_error + pieces" where
  "Confirm_Select_encode nowait =
     seqE [put_bits [nowait]] []"

definition Confirm_Select_decode :: "bytes \<Rightarrow> nat \<Rightarrow> py_error + confirm_method" where
  "Confirm_Select_decode encoded offset =
     bindE (get_octet encoded offset) (\<lambda>(bits, offset).
     Inr (Confirm_Select (bit_field 0 bits)))"

definition new_Confirm_SelectOk :: confirm_method where
  "new_Confirm_SelectOk =
     Confirm_SelectOk"

definition Confirm_SelectOk_encode :: "py_error + pieces" where
  "Confirm_SelectOk_encode =
     seqE [] []"

definition Confirm_SelectOk_decode :: "bytes \<Rightarrow> nat \<Rightarrow> py_error + confirm_method" where
  "Confirm_SelectOk_decode encoded offset =
     Inr Confirm_SelectOk"

fun confirm_INDEX :: "confirm_method \<Rightarrow> int" where
  "confirm_INDEX (Confirm_Select _) = 0x0055000A"
| "confirm_INDEX Confirm_SelectOk = 0x0055000B"

fun confirm_NAME :: "confirm_method \<Rightarrow> string" where
  "confirm_NAME (Confirm_Select _) = ''Confirm.Select''"
| "confirm_NAME Confirm_SelectOk = ''Confirm.SelectOk''"

fun confirm_synchronous :: "confirm_method \<Rightarrow> bool" where
  "confirm_synchronous (Confirm_Select _) = True"
| "confirm_synchronous Confirm_SelectOk = False"

fun confirm_dict :: "confirm_method \<Rightarrow> (string \<times> pyval) list" where
  "confirm_dict (Confirm_Select nowait) = [(''nowait'', nowait)]"
| "confirm_dict Confirm_SelectOk = []"

fun confirm_encode :: "confirm_method \<Rightarrow> py_error + pieces" where
  "confirm_encode (Confirm_Select nowait) = Confirm_Select_encode nowait"
| "confirm_encode Confirm_SelectOk = Confirm_SelectOk_encode"

fun confirm_decode :: "confirm_method \<Rightarrow> bytes \<Rightarrow> nat \<Rightarrow> py_error + confirm_method" where
  "confirm_decode (Confirm_Select _) = Confirm_Select_decode"
| "confirm_decode Confirm_SelectOk = Confirm_SelectOk_decode"

section \<open>All methods\<close>

datatype meth =
  Connection_Class connection_method
| Channel_Class channel_method
| Access_Class access_method
| Exchange_Class exchange_method
| Queue_Class queue_method
| Basic_Class basic_method
| Tx_Class tx_method
| Confirm_Class confirm_method

fun method_INDEX :: "meth \<Rightarrow> int" where
  "method_INDEX (Connection_Class m) = connection_INDEX m"
| "method_INDEX (Channel_Class m) = channel_INDEX m"
| "method_INDEX (Access_Class m) = access_INDEX m"
| "method_INDEX (Exchange_Class m) = exchange_INDEX m"
| "method_INDEX (Queue_Class m) = queue_INDEX m"
| "method_INDEX (Basic_Class m) = basic_INDEX m"
| "method_INDEX (Tx_Class m) = tx_INDEX m"
| "method_INDEX (Confirm_Class m) = confirm_INDEX m"

fun method_NAME :: "meth \<Rightarrow> string" where
  "method_NAME (Connection_Class m) = connection_NAME m"
| "method_NAME (Channel_Class m) = channel_NAME m"
| "method_NAME (Access_Class m) = access_NAME m"
| "method_NAME (Exchange_Class m) = exchange_NAME m"
| "method_NAME (Queue_Class m) = queue_NAME m"
| "method_NAME (Basic_Class m) = basic_NAME m"
| "method_NAME (Tx_Class m) = tx_NAME m"
| "method_NAME (Confirm_Class m) = confirm_NAME m"

fun method_synchronous :: "meth \<Rightarrow> bool" where
  "method_synchronous (Connection_Class m) = connection_synchronous m"
| "method_synchronous (Channel_Class m) = channel_synchronous m"
| "method_synchronous (Access_Class m) = access_synchronous m"
| "method_synchronous (Exchange_Class m) = exchange_synchronous m"
| "method_synchronous (Queue_Class m) = queue_synchronous m"
| "method_synchronous (Basic_Class m) = basic_synchronous m"
| "method_synchronous (Tx_Class m) = tx_synchronous m"
| "method_synchronous (Confirm_Class m) = confirm_synchronous m"

fun method_dict :: "meth \<Rightarrow> (string \<times> pyval) list" where
  "method_dict (Connection_Class m) = connection_dict m"
| "method_dict (Channel_Class m) = channel_dict m"
| "method_dict (Access_Class m) = access_dict m"
| "method_dict (Exchange_Class m) = exchange_dict m"
| "method_dict (Queue_Class m) = queue_dict m"
| "method_dict (Basic_Class m) = basic_dict m"
| "method_dict (Tx_Class m) = tx_dict m"
| "method_dict (Confirm_Class m) = confirm_dict m"

fun method_encode :: "meth \<Rightarrow> py_error + pieces" where
  "method_encode (Connection_Class m) = connection_encode m"
| "method_encode (Channel_Class m) = channel_encode m"
| "method_encode (Access_Class m) = access_encode m"
| "method_encode (Exchange_Class m) = exchange_encode m"
| "method_encode (Queue_Class m) = queue_encode m"
| "method_encode (Basic_Class m) = basic_encode m"
| "method_encode (Tx_Class m) = tx_encode m"
| "method_encode (Confirm_Class m) = confirm_encode m"

fun method_decode :: "meth \<Rightarrow> bytes \<Rightarrow> nat \<Rightarrow> py_error + meth" where
  "method_decode (Connection_Class m) = (\<lambda>encoded offset.
     bindE (connection_decode m encoded offset) (\<lambda>m. Inr (Connection_Class m)))"
| "method_decode (Channel_Class m) = (\<lambda>encoded offset.
     bindE (channel_decode m encoded offset) (\<lambda>m. Inr (Channel_Class m)))"
| "method_decode (Access_Class m) = (\<lambda>encoded offset.
     bindE (access_decode m encoded offset) (\<lambda>m. Inr (Access_Class m)))"
| "method_decode (Exchange_Class m) = (\<lambda>encoded offset.
     bindE (exchange_decode m encoded offset) (\<lambda>m. Inr (Exchange_Class m)))"
| "method_decode (Queue_Class m) = (\<lambda>encoded offset.
     bindE (queue_decode m encoded offset) (\<lambda>m. Inr (Queue_Class m)))"
| "method_decode (Basic_Class m) = (\<lambda>encoded offset.
     bindE (basic_decode m encoded offset) (\<lambda>m. Inr (Basic_Class m)))"
| "method_decode (Tx_Class m) = (\<lambda>encoded offset.
     bindE (tx_decode m encoded offset) (\<lambda>m. Inr (Tx_Class m)))"
| "method_decode (Confirm_Class m) = (\<lambda>encoded offset.
     bindE (confirm_decode m encoded offset) (\<lambda>m. Inr (Confirm_Class m)))"

text \<open>
  The dict \<open>methods\<close>, each class applied to no arguments as in \<open>spec.methods[method_id]()\<close>.
  \<open>UpdateSecret\<close> requires two.
\<close>

definition methods :: "(int \<times> (py_error + meth)) list" where
  "methods = [
    (0x000A000A, Inr (Connection_Class new_Connection_Start)),
    (0x000A000B, Inr (Connection_Class new_Connection_StartOk)),
    (0x000A0014, Inr (Connection_Class new_Connection_Secure)),
    (0x000A0015, Inr (Connection_Class new_Connection_SecureOk)),
    (0x000A001E, Inr (Connection_Class new_Connection_Tune)),
    (0x000A001F, Inr (Connection_Class new_Connection_TuneOk)),
    (0x000A0028, Inr (Connection_Class new_Connection_Open)),
    (0x000A0029, Inr (Connection_Class new_Connection_OpenOk)),
    (0x000A0032, Inr (Connection_Class new_Connection_Close)),
    (0x000A0033, Inr (Connection_Class new_Connection_CloseOk)),
    (0x000A003C, Inr (Connection_Class new_Connection_Blocked)),
    (0x000A003D, Inr (Connection_Class new_Connection_Unblocked)),
    (0x000A0046, Inl TypeError),
    (0x000A0047, Inr (Connection_Class new_Connection_UpdateSecretOk)),
    (0x0014000A, Inr (Channel_Class new_Channel_Open)),
    (0x0014000B, Inr (Channel_Class new_Channel_OpenOk)),
    (0x00140014, Inr (Channel_Class new_Channel_Flow)),
    (0x00140015, Inr (Channel_Class new_Channel_FlowOk)),
    (0x00140028, Inr (Channel_Class new_Channel_Close)),
    (0x00140029, Inr (Channel_Class new_Channel_CloseOk)),
    (0x001E000A, Inr (Access_Class new_Access_Request)),
    (0x001E000B, Inr (Access_Class new_Access_RequestOk)),
    (0x0028000A, Inr (Exchange_Class new_Exchange_Declare)),
    (0x0028000B, Inr (Exchange_Class new_Exchange_DeclareOk)),
    (0x00280014, Inr (Exchange_Class new_Exchange_Delete)),
    (0x00280015, Inr (Exchange_Class new_Exchange_DeleteOk)),
    (0x0028001E, Inr (Exchange_Class new_Exchange_Bind)),
    (0x0028001F, Inr (Exchange_Class new_Exchange_BindOk)),
    (0x00280028, Inr (Exchange_Class new_Exchange_Unbind)),
    (0x00280033, Inr (Exchange_Class new_Exchange_UnbindOk)),
    (0x0032000A, Inr (Queue_Class new_Queue_Declare)),
    (0x0032000B, Inr (Queue_Class new_Queue_DeclareOk)),
    (0x00320014, Inr (Queue_Class new_Queue_Bind)),
    (0x00320015, Inr (Queue_Class new_Queue_BindOk)),
    (0x0032001E, Inr (Queue_Class new_Queue_Purge)),
    (0x0032001F, Inr (Queue_Class new_Queue_PurgeOk)),
    (0x00320028, Inr (Queue_Class new_Queue_Delete)),
    (0x00320029, Inr (Queue_Class new_Queue_DeleteOk)),
    (0x00320032, Inr (Queue_Class new_Queue_Unbind)),
    (0x00320033, Inr (Queue_Class new_Queue_UnbindOk)),
    (0x003C000A, Inr (Basic_Class new_Basic_Qos)),
    (0x003C000B, Inr (Basic_Class new_Basic_QosOk)),
    (0x003C0014, Inr (Basic_Class new_Basic_Consume)),
    (0x003C0015, Inr (Basic_Class new_Basic_ConsumeOk)),
    (0x003C001E, Inr (Basic_Class new_Basic_Cancel)),
    (0x003C001F, Inr (Basic_Class new_Basic_CancelOk)),
    (0x003C0028, Inr (Basic_Class new_Basic_Publish)),
    (0x003C0032, Inr (Basic_Class new_Basic_Return)),
    (0x003C003C, Inr (Basic_Class new_Basic_Deliver)),
    (0x003C0046, Inr (Basic_Class new_Basic_Get)),
    (0x003C0047, Inr (Basic_Class new_Basic_GetOk)),
    (0x003C0048, Inr (Basic_Class new_Basic_GetEmpty)),
    (0x003C0050, Inr (Basic_Class new_Basic_Ack)),
    (0x003C005A, Inr (Basic_Class new_Basic_Reject)),
    (0x003C0064, Inr (Basic_Class new_Basic_RecoverAsync)),
    (0x003C006E, Inr (Basic_Class new_Basic_Recover)),
    (0x003C006F, Inr (Basic_Class new_Basic_RecoverOk)),
    (0x003C0078, Inr (Basic_Class new_Basic_Nack)),
    (0x005A000A, Inr (Tx_Class new_Tx_Select)),
    (0x005A000B, Inr (Tx_Class new_Tx_SelectOk)),
    (0x005A0014, Inr (Tx_Class new_Tx_Commit)),
    (0x005A0015, Inr (Tx_Class new_Tx_CommitOk)),
    (0x005A001E, Inr (Tx_Class new_Tx_Rollback)),
    (0x005A001F, Inr (Tx_Class new_Tx_RollbackOk)),
    (0x0055000A, Inr (Confirm_Class new_Confirm_Select)),
    (0x0055000B, Inr (Confirm_Class new_Confirm_SelectOk))]"

definition new_method :: "int \<Rightarrow> py_error + meth" where
  "new_method method_id = (case map_of methods method_id of None \<Rightarrow> Inl KeyError | Some r \<Rightarrow> r)"

text \<open>Methods that are followed by a content header and body frames.\<close>

definition has_content :: "int \<Rightarrow> bool" where
  "has_content methodNumber \<longleftrightarrow> methodNumber \<in> {0x003C0028, 0x003C0032, 0x003C003C, 0x003C0047}"

end
