(* ===== verification/Parameters.thy ===== *)
theory Parameters
  imports Amqp_Spec Complex_Main
begin

text \<open>
  \<open>Parameters\<close> and \<open>ConnectionParameters\<close> of \<open>pika/connection.py\<close> with their validating
  setters, and the credentials of \<open>pika/credentials.py\<close>. Arguments are Python values of any
  type, the datatype \<open>arg\<close>; a setter raises or stores the value in the type it has checked.
\<close>

section \<open>Arguments\<close>

datatype pyfloat = Finite rat | Infinite bool | Not_a_number

datatype credentials =
  PlainCredentials (username: pyval) (password: pyval) (erase_on_connect: bool)
| ExternalCredentials (erase_on_connect: bool)

record ssl_options =
  ssl_context :: nat
  server_hostname :: pyval

datatype arg = Value pyval | Float_value pyfloat | Callable nat | Credentials_value credentials
| SSL_value ssl_options

datatype number = Integral int | Real_float pyfloat

text \<open>\<open>isinstance(value, numbers.Integral)\<close>, \<open>isinstance(value, numbers.Real)\<close>\<close>

fun integral :: "arg \<Rightarrow> int option" where
  "integral (Value (PBool b)) = Some (of_bool b)"
| "integral (Value (PInt i)) = Some i"
| "integral (Value (PLong i)) = Some i"
| "integral _ = None"

fun real_number :: "arg \<Rightarrow> number option" where
  "real_number (Float_value f) = Some (Real_float f)"
| "real_number v = map_option Integral (integral v)"

text \<open>\<open>x < 0\<close> and \<open>x <= 0\<close>; both are false of NaN.\<close>

fun negative :: "number \<Rightarrow> bool" where
  "negative (Integral i) = (i < 0)"
| "negative (Real_float (Finite q)) = (q < 0)"
| "negative (Real_float (Infinite neg)) = neg"
| "negative (Real_float Not_a_number) = False"

fun not_positive :: "number \<Rightarrow> bool" where
  "not_positive (Integral i) = (i \<le> 0)"
| "not_positive (Real_float (Finite q)) = (q \<le> 0)"
| "not_positive (Real_float (Infinite neg)) = neg"
| "not_positive (Real_float Not_a_number) = False"

text \<open>\<open>float(x)\<close>: the nearest double, ties to even; integers beyond the largest double raise.\<close>

fun bit_length :: "nat \<Rightarrow> nat" where
  "bit_length n = (if n = 0 then 0 else Suc (bit_length (n div 2)))"

declare bit_length.simps [simp del]

definition round_to_53_bits :: "nat \<Rightarrow> nat" where
  "round_to_53_bits n =
     (let d = 2 ^ (bit_length n - 53); q = n div d; r = n mod d
      in (if 2 * r < d then q else if d < 2 * r then q + 1 else if even q then q else q + 1) * d)"

definition float_of_int :: "int \<Rightarrow> py_error + pyfloat" where
  "float_of_int i =
     (let n = round_to_53_bits (nat \<bar>i\<bar>)
      in if n \<ge> 2 ^ 1024 then Inl OverflowError else Inr (Finite (of_int (sgn i * int n))))"

fun to_float :: "number \<Rightarrow> py_error + pyfloat" where
  "to_float (Integral i) = float_of_int i"
| "to_float (Real_float f) = Inr f"

text \<open>
  \<open>int(x)\<close>: numbers are truncated, text is a decimal numeral with optional blanks, sign and
  single underscores between digits (ASCII digits and blanks). \<open>PDecimalSpecial\<close> counts as a NaN.
\<close>

definition blank :: "nat \<Rightarrow> bool" where
  "blank c \<longleftrightarrow> c = 32 \<or> 9 \<le> c \<and> c \<le> 13"

definition strip_blanks :: "nat list \<Rightarrow> nat list" where
  "strip_blanks s = rev (dropWhile blank (rev (dropWhile blank s)))"

fun numeral :: "bool \<Rightarrow> int \<Rightarrow> nat list \<Rightarrow> int option" where
  "numeral after_digit n [] = (if after_digit then Some n else None)"
| "numeral after_digit n (c # cs) =
     (if 48 \<le> c \<and> c \<le> 57 then numeral True (10 * n + int (c - 48)) cs
      else if c = 95 \<and> after_digit then numeral False n cs
      else None)"

definition int_of_text :: "nat list \<Rightarrow> int option" where
  "int_of_text s =
     (case strip_blanks s of
        [] \<Rightarrow> None
      | c # cs \<Rightarrow> if c = 45 then map_option uminus (numeral False 0 cs)
                else if c = 43 then numeral False 0 cs
                else numeral False 0 (c # cs))"

fun int_conversion :: "arg \<Rightarrow> py_error + int" where
  "int_conversion (Value (PStr s)) = (case int_of_text s of None \<Rightarrow> Inl ValueError | Some i \<Rightarrow> Inr i)"
| "int_conversion (Value (PBytes b)) = (case int_of_text (map unat b) of None \<Rightarrow> Inl ValueError | Some i \<Rightarrow> Inr i)"
| "int_conversion (Value (PDecimal c e)) =
     Inr (if 0 \<le> e then c * 10 ^ nat e else sgn c * (\<bar>c\<bar> div 10 ^ nat (- e)))"
| "int_conversion (Float_value (Finite q)) = Inr (if 0 \<le> q then \<lfloor>q\<rfloor> else \<lceil>q\<rceil>)"
| "int_conversion (Value PDecimalSpecial) = Inl ValueError"
| "int_conversion (Float_value (Infinite neg)) = Inl OverflowError"
| "int_conversion (Float_value Not_a_number) = Inl ValueError"
| "int_conversion v = (case integral v of None \<Rightarrow> Inl TypeError | Some i \<Rightarrow> Inr i)"

section \<open>State\<close>

datatype heartbeat_setting = Seconds int | Heartbeat_callback nat

record parameters =
  blocked_connection_timeout :: "number option"
  channel_max :: int
  client_properties :: "(pyval \<times> pyval) list option"
  connection_attempts :: int
  creds :: credentials
  frame_max :: int
  heartbeat :: "heartbeat_setting option"
  host :: "nat list"
  locale_name :: "nat list"
  port :: int
  retry_delay :: number
  socket_timeout :: "pyfloat option"
  stack_timeout :: "pyfloat option"
  ssl_opts :: "ssl_options option"
  virtual_host :: "nat list"
  tcp_options :: "(pyval \<times> pyval) list option"

definition MAX_CHANNELS :: int where
  "MAX_CHANNELS = 65535"

definition DEFAULT_PORT :: int where "DEFAULT_PORT = 5672"
definition DEFAULT_SSL_PORT :: int where "DEFAULT_SSL_PORT = 5671"

definition new_Parameters :: parameters where
  "new_Parameters = \<lparr>blocked_connection_timeout = None, channel_max = MAX_CHANNELS, client_properties = None,
     connection_attempts = 1,
     creds = PlainCredentials (PStr (pystr ''guest'')) (PStr (pystr ''guest'')) False,
     frame_max = FRAME_MAX_SIZE, heartbeat = None, host = pystr ''localhost'', locale_name = pystr ''en_US'',
     port = DEFAULT_PORT, retry_delay = Real_float (Finite 2), socket_timeout = Some (Finite 10),
     stack_timeout = Some (Finite 15), ssl_opts = None, virtual_host = pystr ''/'', tcp_options = None\<rparr>"

section \<open>Setters\<close>

type_synonym setter = "arg \<Rightarrow> parameters \<Rightarrow> py_error + parameters"

definition set_blocked_connection_timeout :: setter where
  "set_blocked_connection_timeout v p =
     (if v = Value PNone then Inr (p\<lparr>blocked_connection_timeout := None\<rparr>)
      else case real_number v of
        None \<Rightarrow> Inl TypeError
      | Some x \<Rightarrow> if negative x then Inl ValueError
                  else Inr (p\<lparr>blocked_connection_timeout := Some x\<rparr>))"

definition set_channel_max :: setter where
  "set_channel_max v p =
     (case integral v of
        None \<Rightarrow> Inl TypeError
      | Some i \<Rightarrow> if i < 1 \<or> i > MAX_CHANNELS then Inl ValueError else Inr (p\<lparr>channel_max := i\<rparr>))"

definition set_client_properties :: setter where
  "set_client_properties v p =
     (case v of
        Value PNone \<Rightarrow> Inr (p\<lparr>client_properties := None\<rparr>)
      | Value (PDict d) \<Rightarrow> Inr (p\<lparr>client_properties := Some d\<rparr>)
      | _ \<Rightarrow> Inl TypeError)"

definition set_connection_attempts :: setter where
  "set_connection_attempts v p =
     (case integral v of
        None \<Rightarrow> Inl TypeError
      | Some i \<Rightarrow> if i < 1 then Inl ValueError else Inr (p\<lparr>connection_attempts := i\<rparr>))"

definition set_credentials :: setter where
  "set_credentials v p =
     (case v of Credentials_value c \<Rightarrow> Inr (p\<lparr>creds := c\<rparr>) | _ \<Rightarrow> Inl TypeError)"

definition set_frame_max :: setter where
  "set_frame_max v p =
     (case integral v of
        None \<Rightarrow> Inl TypeError
      | Some i \<Rightarrow> if i < FRAME_MIN_SIZE then Inl ValueError
                  else if i > FRAME_MAX_SIZE then Inl ValueError
                  else Inr (p\<lparr>frame_max := i\<rparr>))"

definition set_heartbeat :: setter where
  "set_heartbeat v p =
     (case v of
        Value PNone \<Rightarrow> Inr (p\<lparr>heartbeat := None\<rparr>)
      | Callable f \<Rightarrow> Inr (p\<lparr>heartbeat := Some (Heartbeat_callback f)\<rparr>)
      | _ \<Rightarrow> (case integral v of
          None \<Rightarrow> Inl TypeError
        | Some i \<Rightarrow> if i < 0 then Inl ValueError else Inr (p\<lparr>heartbeat := Some (Seconds i)\<rparr>)))"

fun require_string :: "arg \<Rightarrow> py_error + nat list" where
  "require_string (Value (PStr s)) = Inr s"
| "require_string _ = Inl TypeError"

definition set_host :: setter where
  "set_host v p = bindE (require_string v) (\<lambda>s. Inr (p\<lparr>host := s\<rparr>))"

definition set_locale :: setter where
  "set_locale v p = bindE (require_string v) (\<lambda>s. Inr (p\<lparr>locale_name := s\<rparr>))"

definition set_port :: setter where
  "set_port v p =
     (case int_conversion v of
        Inl e \<Rightarrow> Inl (if e = ValueError then TypeError else e)
      | Inr i \<Rightarrow> Inr (p\<lparr>port := i\<rparr>))"

definition set_retry_delay :: setter where
  "set_retry_delay v p =
     (case real_number v of None \<Rightarrow> Inl TypeError | Some x \<Rightarrow> Inr (p\<lparr>retry_delay := x\<rparr>))"

definition positive_timeout :: "arg \<Rightarrow> py_error + pyfloat option" where
  "positive_timeout v =
     (if v = Value PNone then Inr None
      else case real_number v of
        None \<Rightarrow> Inl TypeError
      | Some x \<Rightarrow> if not_positive x then Inl ValueError
                  else bindE (to_float x) (\<lambda>f. Inr (Some f)))"

definition set_socket_timeout :: setter where
  "set_socket_timeout v p = bindE (positive_timeout v) (\<lambda>f. Inr (p\<lparr>socket_timeout := f\<rparr>))"

definition set_stack_timeout :: setter where
  "set_stack_timeout v p = bindE (positive_timeout v) (\<lambda>f. Inr (p\<lparr>stack_timeout := f\<rparr>))"

definition set_ssl_options :: setter where
  "set_ssl_options v p =
     (case v of
        Value PNone \<Rightarrow> Inr (p\<lparr>ssl_opts := None\<rparr>)
      | SSL_value ssl \<Rightarrow> Inr (p\<lparr>ssl_opts := Some ssl\<rparr>)
      | _ \<Rightarrow> Inl TypeError)"

definition set_virtual_host :: setter where
  "set_virtual_host v p = bindE (require_string v) (\<lambda>s. Inr (p\<lparr>virtual_host := s\<rparr>))"

definition set_tcp_options :: setter where
  "set_tcp_options v p =
     (case v of
        Value PNone \<Rightarrow> Inr (p\<lparr>tcp_options := None\<rparr>)
      | Value (PDict d) \<Rightarrow> Inr (p\<lparr>tcp_options := Some d\<rparr>)
      | _ \<Rightarrow> Inl TypeError)"

section \<open>The constructor\<close>

definition given :: "string \<Rightarrow> setter \<Rightarrow> (string \<times> arg) list \<Rightarrow> parameters \<Rightarrow> py_error + parameters" where
  "given name set_it kwargs p = (case map_of kwargs name of None \<Rightarrow> Inr p | Some v \<Rightarrow> set_it v p)"

text \<open>The port is set in any case; its default depends on the TLS options, which are set before.\<close>

definition given_port :: "(string \<times> arg) list \<Rightarrow> parameters \<Rightarrow> py_error + parameters" where
  "given_port kwargs p =
     (case map_of kwargs ''port'' of
        Some v \<Rightarrow> set_port v p
      | None \<Rightarrow> set_port (Value (PInt (if ssl_opts p \<noteq> None then DEFAULT_SSL_PORT else DEFAULT_PORT))) p)"

definition parameter_names :: "string list" where
  "parameter_names = [''host'', ''port'', ''virtual_host'', ''credentials'', ''channel_max'', ''frame_max'',
     ''heartbeat'', ''ssl_options'', ''connection_attempts'', ''retry_delay'', ''socket_timeout'',
     ''stack_timeout'', ''locale'', ''blocked_connection_timeout'', ''client_properties'', ''tcp_options'']"

definition constructor_steps :: "(string \<times> arg) list \<Rightarrow> (parameters \<Rightarrow> py_error + parameters) list" where
  "constructor_steps kwargs =
     [given ''blocked_connection_timeout'' set_blocked_connection_timeout kwargs,
      given ''channel_max'' set_channel_max kwargs,
      given ''client_properties'' set_client_properties kwargs,
      given ''connection_attempts'' set_connection_attempts kwargs,
      given ''credentials'' set_credentials kwargs,
      given ''frame_max'' set_frame_max kwargs,
      given ''heartbeat'' set_heartbeat kwargs,
      given ''host'' set_host kwargs,
      given ''locale'' set_locale kwargs,
      given ''retry_delay'' set_retry_delay kwargs,
      given ''socket_timeout'' set_socket_timeout kwargs,
      given ''stack_timeout'' set_stack_timeout kwargs,
      given ''ssl_options'' set_ssl_options kwargs,
      given_port kwargs,
      given ''virtual_host'' set_virtual_host kwargs,
      given ''tcp_options'' set_tcp_options kwargs]"

definition ConnectionParameters :: "(string \<times> arg) list \<Rightarrow> py_error + parameters" where
  "ConnectionParameters kwargs =
     bindE (seqE (constructor_steps kwargs) new_Parameters) (\<lambda>p.
     if list_all (\<lambda>(name, v). name \<in> set parameter_names) kwargs then Inr p else Inl TypeError)"

text \<open>\<open>Parameters.__eq__\<close> looks at host and port only.\<close>

definition parameters_eq :: "parameters \<Rightarrow> parameters \<Rightarrow> bool" where
  "parameters_eq p q \<longleftrightarrow> host p = host q \<and> port p = port q"

section \<open>Credentials\<close>

text \<open>\<open>as_bytes\<close> of a user name that is no text raises; \<open>split\<close> cuts at ASCII blanks.\<close>

fun split_blanks :: "bytes \<Rightarrow> bytes \<Rightarrow> bytes list" where
  "split_blanks word [] = (if word = [] then [] else [word])"
| "split_blanks word (b # bs) =
     (if blank (unat b) then (if word = [] then split_blanks [] bs else word # split_blanks [] bs)
      else split_blanks (word @ [b]) bs)"

fun to_bytes :: "pyval \<Rightarrow> py_error + bytes" where
  "to_bytes (PBytes b) = Inr b"
| "to_bytes (PStr s) = utf8_encode s"
| "to_bytes _ = Inl AttributeError"

definition ascii :: "string \<Rightarrow> bytes" where
  "ascii s = map (\<lambda>c. of_nat (of_char c)) s"

fun credentials_TYPE :: "credentials \<Rightarrow> string" where
  "credentials_TYPE (PlainCredentials _ _ _) = ''PLAIN''"
| "credentials_TYPE (ExternalCredentials _) = ''EXTERNAL''"

text \<open>\<open>response_for\<close>; \<open>None\<close> is the pair \<open>(None, None)\<close>.\<close>

definition response_for :: "pyval \<Rightarrow> credentials \<Rightarrow> py_error + (string \<times> bytes) option" where
  "response_for mechanisms c =
     bindE (to_bytes mechanisms) (\<lambda>offered.
     if ascii (credentials_TYPE c) \<notin> set (split_blanks [] offered) then Inr None
     else case c of
       PlainCredentials user pw _ \<Rightarrow>
         bindE (to_bytes user) (\<lambda>u. bindE (to_bytes pw) (\<lambda>w. Inr (Some (''PLAIN'', [0] @ u @ [0] @ w))))
     | ExternalCredentials _ \<Rightarrow> Inr (Some (''EXTERNAL'', [])))"

fun erase_credentials :: "credentials \<Rightarrow> credentials" where
  "erase_credentials (PlainCredentials user pw True) = PlainCredentials PNone PNone True"
| "erase_credentials c = c"

section \<open>Values in range\<close>

named_theorems setter_defs \<open>definitions of the setters\<close>

lemmas [setter_defs] = set_blocked_connection_timeout_def set_channel_max_def set_client_properties_def
  set_connection_attempts_def set_credentials_def set_frame_max_def set_heartbeat_def set_host_def set_locale_def
  set_port_def set_retry_delay_def set_socket_timeout_def set_stack_timeout_def set_ssl_options_def
  set_virtual_host_def set_tcp_options_def

definition params_ok :: "parameters \<Rightarrow> bool" where
  "params_ok p \<longleftrightarrow> 1 \<le> channel_max p \<and> channel_max p \<le> MAX_CHANNELS
     \<and> FRAME_MIN_SIZE \<le> frame_max p \<and> frame_max p \<le> FRAME_MAX_SIZE \<and> 1 \<le> connection_attempts p
     \<and> (\<forall>h. heartbeat p = Some (Seconds h) \<longrightarrow> 0 \<le> h)
     \<and> pred_option (\<lambda>x. \<not> negative x) (blocked_connection_timeout p)
     \<and> pred_option (\<lambda>f. \<not> not_positive (Real_float f)) (socket_timeout p)
     \<and> pred_option (\<lambda>f. \<not> not_positive (Real_float f)) (stack_timeout p)"


text \<open>A sequence of steps keeps what every step keeps, and raises what a step raises.\<close>

lemma seqE_keeps:
  assumes "seqE fs p = Inr p'" "I p" "\<forall>f \<in> set fs. \<forall>p p'. I p \<longrightarrow> f p = Inr p' \<longrightarrow> I p'"
  shows "I p'"
  using assms
proof (induction fs arbitrary: p)
  case (Cons f fs)
  from Cons.prems(1) obtain q where q: "f p = Inr q" "seqE fs q = Inr p'" by (auto simp: result_simps)
  from q(1) Cons.prems(2,3) have "I q" by (meson list.set_intros(1))
  from Cons.IH[OF q(2) this] Cons.prems(3) show ?case by (meson list.set_intros(2))
qed simp

lemma seqE_raises:
  assumes "seqE fs p = Inl e" "\<forall>f \<in> set fs. \<forall>p e. f p = Inl e \<longrightarrow> e \<in> E"
  shows "e \<in> E"
  using assms
proof (induction fs arbitrary: p)
  case (Cons f fs)
  then show ?case by (auto simp: result_simps)
qed simp

lemma bit_length_le: "0 < n \<Longrightarrow> 2 ^ (bit_length n - 1) \<le> n"
proof (induction n rule: bit_length.induct)
  case (1 n)
  show ?case
  proof (cases "n div 2 = 0")
    case True
    with 1(2) have "n = 1" by linarith
    then show ?thesis by (simp add: bit_length.simps)
  next
    case False
    with 1 have "2 ^ (bit_length (n div 2) - 1) \<le> n div 2" by simp
    moreover from False have "bit_length (n div 2) = Suc (bit_length (n div 2) - 1)"
      by (simp add: bit_length.simps[of "n div 2"])
    then have "(2::nat) ^ bit_length (n div 2) = 2 * 2 ^ (bit_length (n div 2) - 1)" by (metis power_Suc)
    ultimately have "(2::nat) ^ bit_length (n div 2) \<le> n" by linarith
    then show ?thesis using 1(2) by (simp add: bit_length.simps[of n])
  qed
qed

lemma round_to_53_bits_positive:
  assumes "0 < n"
  shows "0 < round_to_53_bits n"
proof -
  define d :: nat where "d = 2 ^ (bit_length n - 53)"
  have "d \<le> 2 ^ (bit_length n - 1)" by (simp add: d_def)
  with bit_length_le[OF assms] have "d \<le> n" by linarith
  moreover have "0 < d" by (simp add: d_def)
  ultimately have "0 < n div d" by (simp add: div_greater_zero_iff)
  then show ?thesis using \<open>0 < d\<close> by (simp add: round_to_53_bits_def Let_def d_def)
qed

lemma float_of_int_positive:
  assumes "0 < i" "float_of_int i = Inr f"
  shows "\<not> not_positive (Real_float f)"
proof -
  have "f = Finite (of_int (sgn i * int (round_to_53_bits (nat \<bar>i\<bar>))))"
    using assms(2) unfolding float_of_int_def Let_def by (metis Inr_Inl_False sum.inject(2))
  then show ?thesis using round_to_53_bits_positive[of "nat \<bar>i\<bar>"] assms(1) by simp
qed

lemma to_float_positive: "\<lbrakk>\<not> not_positive x; to_float x = Inr f\<rbrakk> \<Longrightarrow> \<not> not_positive (Real_float f)"
proof (cases x)
  case (Integral i)
  assume "\<not> not_positive x" "to_float x = Inr f"
  with Integral float_of_int_positive[of i f] show ?thesis by simp
qed simp

lemma positive_timeout_positive:
  "positive_timeout v = Inr f \<Longrightarrow> pred_option (\<lambda>f. \<not> not_positive (Real_float f)) f"
  by (auto simp: positive_timeout_def result_simps simp del: not_positive.simps
      dest: to_float_positive split: if_splits option.splits)

definition keeps_ok :: "(parameters \<Rightarrow> py_error + parameters) \<Rightarrow> bool" where
  "keeps_ok f \<longleftrightarrow> (\<forall>p p'. params_ok p \<longrightarrow> f p = Inr p' \<longrightarrow> params_ok p')"

lemma given_keeps: "(\<And>v. keeps_ok (set_it v)) \<Longrightarrow> keeps_ok (given name set_it kwargs)"
  by (auto simp: keeps_ok_def given_def split: option.splits)

lemma checked_setters_keep:
  "keeps_ok (set_channel_max v)" "keeps_ok (set_frame_max v)" "keeps_ok (set_connection_attempts v)"
  "keeps_ok (set_blocked_connection_timeout v)" "keeps_ok (set_socket_timeout v)" "keeps_ok (set_stack_timeout v)"
  by (auto simp: keeps_ok_def setter_defs params_ok_def result_simps
      dest: positive_timeout_positive split: option.splits if_splits)

lemma set_heartbeat_keeps: "keeps_ok (set_heartbeat v)"
  by (cases v) (auto simp: keeps_ok_def setter_defs params_ok_def split: option.splits if_splits pyval.splits)

lemma plain_setters_keep:
  "keeps_ok (set_host v)" "keeps_ok (set_locale v)" "keeps_ok (set_virtual_host v)" "keeps_ok (set_port v)"
  "keeps_ok (set_retry_delay v)" "keeps_ok (given_port kwargs)"
  by (auto simp: keeps_ok_def setter_defs given_port_def params_ok_def result_simps split: option.splits sum.splits)

lemma object_setters_keep:
  "keeps_ok (set_credentials v)" "keeps_ok (set_ssl_options v)" "keeps_ok (set_client_properties v)"
  "keeps_ok (set_tcp_options v)"
  by (cases v; auto simp: keeps_ok_def setter_defs params_ok_def split: pyval.splits)+

lemma setters_keep: "\<forall>f \<in> set (constructor_steps kwargs). \<forall>p p'. params_ok p \<longrightarrow> f p = Inr p' \<longrightarrow> params_ok p'"
proof -
  note k = checked_setters_keep set_heartbeat_keeps plain_setters_keep object_setters_keep
  have "list_all keeps_ok (constructor_steps kwargs)"
    unfolding constructor_steps_def by (simp add: given_keeps k)
  then show ?thesis by (auto simp: list_all_iff keeps_ok_def)
qed

lemma integral_raises: "int_conversion v = Inl e \<Longrightarrow> e \<in> {TypeError, ValueError, OverflowError}"
  by (induction v rule: int_conversion.induct) (auto split: option.splits)

lemma to_float_raises: "to_float x = Inl e \<Longrightarrow> e = OverflowError"
  by (cases x) (simp_all add: float_of_int_def Let_def del: power.simps split: if_split_asm)

lemma require_string_raises: "require_string v = Inl e \<Longrightarrow> e = TypeError"
  by (induction v rule: require_string.induct) auto

definition setter_error :: "py_error \<Rightarrow> bool" where
  "setter_error e \<longleftrightarrow> e \<in> {TypeError, ValueError, OverflowError}"

definition raises_ok :: "(parameters \<Rightarrow> py_error + parameters) \<Rightarrow> bool" where
  "raises_ok f \<longleftrightarrow> (\<forall>p e. f p = Inl e \<longrightarrow> setter_error e)"

lemma given_raises: "(\<And>v. raises_ok (set_it v)) \<Longrightarrow> raises_ok (given name set_it kwargs)"
  by (auto simp: raises_ok_def given_def split: option.splits)

lemma positive_timeout_raises: "positive_timeout v = Inl e \<Longrightarrow> setter_error e"
  by (auto simp: positive_timeout_def result_simps setter_error_def dest: to_float_raises split: if_splits option.splits)

lemma number_setters_raise:
  "raises_ok (set_channel_max v)" "raises_ok (set_frame_max v)" "raises_ok (set_connection_attempts v)"
  "raises_ok (set_blocked_connection_timeout v)" "raises_ok (set_socket_timeout v)" "raises_ok (set_stack_timeout v)"
  "raises_ok (set_retry_delay v)"
  by (auto simp: raises_ok_def setter_defs result_simps setter_error_def
      dest: positive_timeout_raises[unfolded setter_error_def] split: option.splits if_splits)

lemma plain_setters_raise:
  "raises_ok (set_host v)" "raises_ok (set_locale v)" "raises_ok (set_virtual_host v)" "raises_ok (set_port v)"
  "raises_ok (given_port kwargs)"
  by (auto simp: raises_ok_def setter_defs given_port_def result_simps setter_error_def
      dest: require_string_raises integral_raises split: option.splits sum.splits if_splits)

lemma object_setters_raise:
  "raises_ok (set_credentials v)" "raises_ok (set_ssl_options v)" "raises_ok (set_client_properties v)"
  "raises_ok (set_tcp_options v)" "raises_ok (set_heartbeat v)"
  by (cases v; auto simp: raises_ok_def setter_defs setter_error_def split: pyval.splits option.splits if_splits)+

lemma setters_raise: "\<forall>f \<in> set (constructor_steps kwargs). \<forall>p e. f p = Inl e \<longrightarrow> e \<in> {TypeError, ValueError, OverflowError}"
proof -
  note r = number_setters_raise plain_setters_raise object_setters_raise
  have "list_all raises_ok (constructor_steps kwargs)"
    unfolding constructor_steps_def by (simp add: given_raises r)
  then show ?thesis by (auto simp: list_all_iff raises_ok_def setter_error_def)
qed

lemma new_Parameters_ok: "params_ok new_Parameters"
  by (simp add: new_Parameters_def params_ok_def MAX_CHANNELS_def FRAME_MAX_SIZE_def FRAME_MIN_SIZE_def)

section \<open>Properties\<close>

text \<open>
  C38 (type). Whatever the arguments of \<open>ConnectionParameters\<close>, it raises \<open>TypeError\<close>,
  \<open>ValueError\<close> or \<open>OverflowError\<close>, or all its values are in range: 1 to 65535 channels, frames of
  4096 to 131072 octets, at least one attempt, no negative heartbeat and no timeout below or,
  for socket and stack, at zero.
\<close>

theorem parameters_in_range:
  "case ConnectionParameters kwargs of
     Inr p \<Rightarrow> params_ok p
   | Inl e \<Rightarrow> e \<in> {TypeError, ValueError, OverflowError}"
proof (cases "seqE (constructor_steps kwargs) new_Parameters")
  case (Inl e)
  with seqE_raises[OF Inl setters_raise] show ?thesis by (simp add: ConnectionParameters_def)
next
  case (Inr p)
  with seqE_keeps[OF Inr new_Parameters_ok setters_keep] show ?thesis by (simp add: ConnectionParameters_def)
qed

end
