(* ===== verification/Amqp_Methods.thy ===== *)
theory Amqp_Methods
  imports Amqp_Spec
begin

text \<open>
  The methods of \<open>pika/spec.py\<close> round trip: for every method class what \<open>decode\<close> makes of
  the bytes that \<open>encode\<close> has produced, by the contract of the wire types and nothing else.
  \<open>method_wire\<close> is the instance that comes back, the one \<open>method_roundtrip\<close> compares with.
\<close>

lemma written_Nil: "written [] ps P \<Longrightarrow> P (concat ps)"
  by (auto simp: written_def)

fun is_update_secret :: "meth \<Rightarrow> bool" where
  "is_update_secret (Connection_Class (Connection_UpdateSecret s r)) = True"
| "is_update_secret m = False"

lemma is_update_secret_cases:
  assumes "is_update_secret m"
  obtains s r where "m = Connection_Class (Connection_UpdateSecret s r)"
  using assms by (cases m rule: is_update_secret.cases) simp_all

lemma Connection_Start_reads:
  assumes "Connection_Start_encode version_major version_minor server_properties mechanisms locales = Inr ps" "valid_times server_properties"
  shows "decodes Connection_Start_decode (concat ps)
    (Connection_Start (wire_uint version_major) (wire_uint version_minor)
    (wire_table server_properties) (wire_longstr mechanisms) (wire_longstr locales))"
  by (rule written_Nil, insert assms, unfold Connection_Start_encode_def Connection_Start_decode_def[abs_def])
    ((elim put_then)?; simp_all add: written_done bit_field_buffer del: bit_buffer.simps)

lemma Connection_StartOk_reads:
  assumes "Connection_StartOk_encode client_properties mechanism response locale = Inr ps" "valid_times client_properties"
  shows "decodes Connection_StartOk_decode (concat ps)
    (Connection_StartOk (wire_table client_properties) (wire_key mechanism)
    (wire_longstr response) (wire_key locale))"
  by (rule written_Nil, insert assms, unfold Connection_StartOk_encode_def Connection_StartOk_decode_def[abs_def])
    ((elim put_then)?; simp_all add: written_done bit_field_buffer del: bit_buffer.simps)

lemma Connection_Secure_reads:
  assumes "Connection_Secure_encode challenge = Inr ps"
  shows "decodes Connection_Secure_decode (concat ps)
    (Connection_Secure (wire_longstr challenge))"
  by (rule written_Nil, insert assms, unfold Connection_Secure_encode_def Connection_Secure_decode_def[abs_def])
    ((elim put_then)?; simp_all add: written_done bit_field_buffer del: bit_buffer.simps)

lemma Connection_SecureOk_reads:
  assumes "Connection_SecureOk_encode response = Inr ps"
  shows "decodes Connection_SecureOk_decode (concat ps)
    (Connection_SecureOk (wire_longstr response))"
  by (rule written_Nil, insert assms, unfold Connection_SecureOk_encode_def Connection_SecureOk_decode_def[abs_def])
    ((elim put_then)?; simp_all add: written_done bit_field_buffer del: bit_buffer.simps)

lemma Connection_Tune_reads:
  assumes "Connection_Tune_encode channel_max frame_max heartbeat = Inr ps"
  shows "decodes Connection_Tune_decode (concat ps)
    (Connection_Tune (wire_uint channel_max) (wire_uint frame_max) (wire_uint heartbeat))"
  by (rule written_Nil, insert assms, unfold Connection_Tune_encode_def Connection_Tune_decode_def[abs_def])
    ((elim put_then)?; simp_all add: written_done bit_field_buffer del: bit_buffer.simps)

lemma Connection_TuneOk_reads:
  assumes "Connection_TuneOk_encode channel_max frame_max heartbeat = Inr ps"
  shows "decodes Connection_TuneOk_decode (concat ps)
    (Connection_TuneOk (wire_uint channel_max) (wire_uint frame_max) (wire_uint heartbeat))"
  by (rule written_Nil, insert assms, unfold Connection_TuneOk_encode_def Connection_TuneOk_decode_def[abs_def])
    ((elim put_then)?; simp_all add: written_done bit_field_buffer del: bit_buffer.simps)

lemma Connection_Open_reads:
  assumes "Connection_Open_encode virtual_host capabilities insist = Inr ps"
  shows "decodes Connection_Open_decode (concat ps)
    (Connection_Open (wire_key virtual_host) (wire_key capabilities) (wire_bit insist))"
  by (rule written_Nil, insert assms, unfold Connection_Open_encode_def Connection_Open_decode_def[abs_def])
    ((elim put_then)?; simp_all add: written_done bit_field_buffer del: bit_buffer.simps)

lemma Connection_OpenOk_reads:
  assumes "Connection_OpenOk_encode known_hosts = Inr ps"
  shows "decodes Connection_OpenOk_decode (concat ps)
    (Connection_OpenOk (wire_key known_hosts))"
  by (rule written_Nil, insert assms, unfold Connection_OpenOk_encode_def Connection_OpenOk_decode_def[abs_def])
    ((elim put_then)?; simp_all add: written_done bit_field_buffer del: bit_buffer.simps)

lemma Connection_Close_reads:
  assumes "Connection_Close_encode reply_code reply_text class_id method_id = Inr ps"
  shows "decodes Connection_Close_decode (concat ps)
    (Connection_Close (wire_uint reply_code) (wire_key reply_text) (wire_uint class_id)
    (wire_uint method_id))"
  by (rule written_Nil, insert assms, unfold Connection_Close_encode_def Connection_Close_decode_def[abs_def])
    ((elim put_then)?; simp_all add: written_done bit_field_buffer del: bit_buffer.simps)

lemma Connection_CloseOk_reads:
  assumes "Connection_CloseOk_encode = Inr ps"
  shows "decodes Connection_CloseOk_decode (concat ps)
    Connection_CloseOk"
  by (rule written_Nil, insert assms, unfold Connection_CloseOk_encode_def Connection_CloseOk_decode_def[abs_def])
    ((elim put_then)?; simp_all add: written_done bit_field_buffer del: bit_buffer.simps)

lemma Connection_Blocked_reads:
  assumes "Connection_Blocked_encode reason = Inr ps"
  shows "decodes Connection_Blocked_decode (concat ps)
    (Connection_Blocked (wire_key reason))"
  by (rule written_Nil, insert assms, unfold Connection_Blocked_encode_def Connection_Blocked_decode_def[abs_def])
    ((elim put_then)?; simp_all add: written_done bit_field_buffer del: bit_buffer.simps)

lemma Connection_Unblocked_reads:
  assumes "Connection_Unblocked_encode = Inr ps"
  shows "decodes Connection_Unblocked_decode (concat ps)
    Connection_Unblocked"
  by (rule written_Nil, insert assms, unfold Connection_Unblocked_encode_def Connection_Unblocked_decode_def[abs_def])
    ((elim put_then)?; simp_all add: written_done bit_field_buffer del: bit_buffer.simps)

lemma Connection_UpdateSecret_reads:
  assumes "Connection_UpdateSecret_encode new_secret reason = Inr ps"
  shows "decodes (Connection_UpdateSecret_decode old) (concat ps)
    (Connection_UpdateSecret old (wire_key reason), wire_longstr new_secret)"
  by (rule written_Nil, insert assms, unfold Connection_UpdateSecret_encode_def Connection_UpdateSecret_decode_def[abs_def])
    ((elim put_then)?; simp_all add: written_done bit_field_buffer del: bit_buffer.simps)

lemma Connection_UpdateSecretOk_reads:
  assumes "Connection_UpdateSecretOk_encode = Inr ps"
  shows "decodes Connection_UpdateSecretOk_decode (concat ps)
    Connection_UpdateSecretOk"
  by (rule written_Nil, insert assms, unfold Connection_UpdateSecretOk_encode_def Connection_UpdateSecretOk_decode_def[abs_def])
    ((elim put_then)?; simp_all add: written_done bit_field_buffer del: bit_buffer.simps)

fun connection_wire :: "connection_method \<Rightarrow> connection_method" where
  "connection_wire (Connection_Start version_major version_minor server_properties mechanisms locales) =
     Connection_Start (wire_uint version_major) (wire_uint version_minor)
     (wire_table server_properties) (wire_longstr mechanisms) (wire_longstr locales)"
| "connection_wire (Connection_StartOk client_properties mechanism response locale) =
     Connection_StartOk (wire_table client_properties) (wire_key mechanism)
     (wire_longstr response) (wire_key locale)"
| "connection_wire (Connection_Secure challenge) = Connection_Secure (wire_longstr challenge)"
| "connection_wire (Connection_SecureOk response) = Connection_SecureOk (wire_longstr response)"
| "connection_wire (Connection_Tune channel_max frame_max heartbeat) =
     Connection_Tune (wire_uint channel_max) (wire_uint frame_max) (wire_uint heartbeat)"
| "connection_wire (Connection_TuneOk channel_max frame_max heartbeat) =
     Connection_TuneOk (wire_uint channel_max) (wire_uint frame_max) (wire_uint heartbeat)"
| "connection_wire (Connection_Open virtual_host capabilities insist) =
     Connection_Open (wire_key virtual_host) (wire_key capabilities) (wire_bit insist)"
| "connection_wire (Connection_OpenOk known_hosts) = Connection_OpenOk (wire_key known_hosts)"
| "connection_wire (Connection_Close reply_code reply_text class_id method_id) =
     Connection_Close (wire_uint reply_code) (wire_key reply_text) (wire_uint class_id)
     (wire_uint method_id)"
| "connection_wire Connection_CloseOk = Connection_CloseOk"
| "connection_wire (Connection_Blocked reason) = Connection_Blocked (wire_key reason)"
| "connection_wire Connection_Unblocked = Connection_Unblocked"
| "connection_wire (Connection_UpdateSecret new_secret reason) =
     Connection_UpdateSecret (wire_longstr new_secret) (wire_key reason)"
| "connection_wire Connection_UpdateSecretOk = Connection_UpdateSecretOk"

lemma connection_reads:
  assumes "connection_encode m = Inr ps" "connection_INDEX m = connection_INDEX m'"
    "\<forall>(_, v) \<in> set (connection_dict m). valid_times v" "\<not> is_update_secret (Connection_Class m)"
  shows "decodes (connection_decode m') (concat ps) (connection_wire m)"
  using assms by (cases m; cases m') (simp_all add: Connection_Start_reads Connection_StartOk_reads Connection_Secure_reads Connection_SecureOk_reads Connection_Tune_reads Connection_TuneOk_reads Connection_Open_reads Connection_OpenOk_reads Connection_Close_reads Connection_CloseOk_reads Connection_Blocked_reads Connection_Unblocked_reads Connection_UpdateSecretOk_reads)

lemma Channel_Open_reads:
  assumes "Channel_Open_encode out_of_band = Inr ps"
  shows "decodes Channel_Open_decode (concat ps)
    (Channel_Open (wire_key out_of_band))"
  by (rule written_Nil, insert assms, unfold Channel_Open_encode_def Channel_Open_decode_def[abs_def])
    ((elim put_then)?; simp_all add: written_done bit_field_buffer del: bit_buffer.simps)

lemma Channel_OpenOk_reads:
  assumes "Channel_OpenOk_encode channel_id = Inr ps"
  shows "decodes Channel_OpenOk_decode (concat ps)
    (Channel_OpenOk (wire_longstr channel_id))"
  by (rule written_Nil, insert assms, unfold Channel_OpenOk_encode_def Channel_OpenOk_decode_def[abs_def])
    ((elim put_then)?; simp_all add: written_done bit_field_buffer del: bit_buffer.simps)

lemma Channel_Flow_reads:
  assumes "Channel_Flow_encode active = Inr ps"
  shows "decodes Channel_Flow_decode (concat ps)
    (Channel_Flow (wire_bit active))"
  by (rule written_Nil, insert assms, unfold Channel_Flow_encode_def Channel_Flow_decode_def[abs_def])
    ((elim put_then)?; simp_all add: written_done bit_field_buffer del: bit_buffer.simps)

lemma Channel_FlowOk_reads:
  assumes "Channel_FlowOk_encode active = Inr ps"
  shows "decodes Channel_FlowOk_decode (concat ps)
    (Channel_FlowOk (wire_bit active))"
  by (rule written_Nil, insert assms, unfold Channel_FlowOk_encode_def Channel_FlowOk_decode_def[abs_def])
    ((elim put_then)?; simp_all add: written_done bit_field_buffer del: bit_buffer.simps)

lemma Channel_Close_reads:
  assumes "Channel_Close_encode reply_code reply_text class_id method_id = Inr ps"
  shows "decodes Channel_Close_decode (concat ps)
    (Channel_Close (wire_uint reply_code) (wire_key reply_text) (wire_uint class_id)
    (wire_uint method_id))"
  by (rule written_Nil, insert assms, unfold Channel_Close_encode_def Channel_Close_decode_def[abs_def])
    ((elim put_then)?; simp_all add: written_done bit_field_buffer del: bit_buffer.simps)

lemma Channel_CloseOk_reads:
  assumes "Channel_CloseOk_encode = Inr ps"
  shows "decodes Channel_CloseOk_decode (concat ps)
    Channel_CloseOk"
  by (rule written_Nil, insert assms, unfold Channel_CloseOk_encode_def Channel_CloseOk_decode_def[abs_def])
    ((elim put_then)?; simp_all add: written_done bit_field_buffer del: bit_buffer.simps)

fun channel_wire :: "channel_method \<Rightarrow> channel_method" where
  "channel_wire (Channel_Open out_of_band) = Channel_Open (wire_key out_of_band)"
| "channel_wire (Channel_OpenOk channel_id) = Channel_OpenOk (wire_longstr channel_id)"
| "channel_wire (Channel_Flow active) = Channel_Flow (wire_bit active)"
| "channel_wire (Channel_FlowOk active) = Channel_FlowOk (wire_bit active)"
| "channel_wire (Channel_Close reply_code reply_text class_id method_id) =
     Channel_Close (wire_uint reply_code) (wire_key reply_text) (wire_uint class_id)
     (wire_uint method_id)"
| "channel_wire Channel_CloseOk = Channel_CloseOk"

lemma channel_reads:
  assumes "channel_encode m = Inr ps" "channel_INDEX m = channel_INDEX m'"
    "\<forall>(_, v) \<in> set (channel_dict m). valid_times v"
  shows "decodes (channel_decode m') (concat ps) (channel_wire m)"
  using assms by (cases m; cases m') (simp_all add: Channel_Open_reads Channel_OpenOk_reads Channel_Flow_reads Channel_FlowOk_reads Channel_Close_reads Channel_CloseOk_reads)

lemma Access_Request_reads:
  assumes "Access_Request_encode realm exclusive passive active write read = Inr ps"
  shows "decodes Access_Request_decode (concat ps)
    (Access_Request (wire_key realm) (wire_bit exclusive) (wire_bit passive) (wire_bit active)
    (wire_bit write) (wire_bit read))"
  by (rule written_Nil, insert assms, unfold Access_Request_encode_def Access_Request_decode_def[abs_def])
    ((elim put_then)?; simp_all add: written_done bit_field_buffer del: bit_buffer.simps)

lemma Access_RequestOk_reads:
  assumes "Access_RequestOk_encode ticket = Inr ps"
  shows "decodes Access_RequestOk_decode (concat ps)
    (Access_RequestOk (wire_uint ticket))"
  by (rule written_Nil, insert assms, unfold Access_RequestOk_encode_def Access_RequestOk_decode_def[abs_def])
    ((elim put_then)?; simp_all add: written_done bit_field_buffer del: bit_buffer.simps)

fun access_wire :: "access_method \<Rightarrow> access_method" where
  "access_wire (Access_Request realm exclusive passive active write read) =
     Access_Request (wire_key realm) (wire_bit exclusive) (wire_bit passive) (wire_bit active)
     (wire_bit write) (wire_bit read)"
| "access_wire (Access_RequestOk ticket) = Access_RequestOk (wire_uint ticket)"

lemma access_reads:
  assumes "access_encode m = Inr ps" "access_INDEX m = access_INDEX m'"
    "\<forall>(_, v) \<in> set (access_dict m). valid_times v"
  shows "decodes (access_decode m') (concat ps) (access_wire m)"
  using assms by (cases m; cases m') (simp_all add: Access_Request_reads Access_RequestOk_reads)

lemma Exchange_Declare_reads:
  assumes "Exchange_Declare_encode ticket exchange type passive durable auto_delete internal nowait arguments = Inr ps" "valid_times arguments"
  shows "decodes Exchange_Declare_decode (concat ps)
    (Exchange_Declare (wire_uint ticket) (wire_key exchange) (wire_key type) (wire_bit passive)
    (wire_bit durable) (wire_bit auto_delete) (wire_bit internal) (wire_bit nowait)
    (wire_table arguments))"
  by (rule written_Nil, insert assms, unfold Exchange_Declare_encode_def Exchange_Declare_decode_def[abs_def])
    ((elim put_then)?; simp_all add: written_done bit_field_buffer del: bit_buffer.simps)

lemma Exchange_DeclareOk_reads:
  assumes "Exchange_DeclareOk_encode = Inr ps"
  shows "decodes Exchange_DeclareOk_decode (concat ps)
    Exchange_DeclareOk"
  by (rule written_Nil, insert assms, unfold Exchange_DeclareOk_encode_def Exchange_DeclareOk_decode_def[abs_def])
    ((elim put_then)?; simp_all add: written_done bit_field_buffer del: bit_buffer.simps)

lemma Exchange_Delete_reads:
  assumes "Exchange_Delete_encode ticket exchange if_unused nowait = Inr ps"
  shows "decodes Exchange_Delete_decode (concat ps)
    (Exchange_Delete (wire_uint ticket) (wire_key exchange) (wire_bit if_unused)
    (wire_bit nowait))"
  by (rule written_Nil, insert assms, unfold Exchange_Delete_encode_def Exchange_Delete_decode_def[abs_def])
    ((elim put_then)?; simp_all add: written_done bit_field_buffer del: bit_buffer.simps)

lemma Exchange_DeleteOk_reads:
  assumes "Exchange_DeleteOk_encode = Inr ps"
  shows "decodes Exchange_DeleteOk_decode (concat ps)
    Exchange_DeleteOk"
  by (rule written_Nil, insert assms, unfold Exchange_DeleteOk_encode_def Exchange_DeleteOk_decode_def[abs_def])
    ((elim put_then)?; simp_all add: written_done bit_field_buffer del: bit_buffer.simps)

lemma Exchange_Bind_reads:
  assumes "Exchange_Bind_encode ticket destination source routing_key nowait arguments = Inr ps" "valid_times arguments"
  shows "decodes Exchange_Bind_decode (concat ps)
    (Exchange_Bind (wire_uint ticket) (wire_key destination) (wire_key source)
    (wire_key routing_key) (wire_bit nowait) (wire_table arguments))"
  by (rule written_Nil, insert assms, unfold Exchange_Bind_encode_def Exchange_Bind_decode_def[abs_def])
    ((elim put_then)?; simp_all add: written_done bit_field_buffer del: bit_buffer.simps)

lemma Exchange_BindOk_reads:
  assumes "Exchange_BindOk_encode = Inr ps"
  shows "decodes Exchange_BindOk_decode (concat ps)
    Exchange_BindOk"
  by (rule written_Nil, insert assms, unfold Exchange_BindOk_encode_def Exchange_BindOk_decode_def[abs_def])
    ((elim put_then)?; simp_all add: written_done bit_field_buffer del: bit_buffer.simps)

lemma Exchange_Unbind_reads:
  assumes "Exchange_Unbind_encode ticket destination source routing_key nowait arguments = Inr ps" "valid_times arguments"
  shows "decodes Exchange_Unbind_decode (concat ps)
    (Exchange_Unbind (wire_uint ticket) (wire_key destination) (wire_key source)
    (wire_key routing_key) (wire_bit nowait) (wire_table arguments))"
  by (rule written_Nil, insert assms, unfold Exchange_Unbind_encode_def Exchange_Unbind_decode_def[abs_def])
    ((elim put_then)?; simp_all add: written_done bit_field_buffer del: bit_buffer.simps)

lemma Exchange_UnbindOk_reads:
  assumes "Exchange_UnbindOk_encode = Inr ps"
  shows "decodes Exchange_UnbindOk_decode (concat ps)
    Exchange_UnbindOk"
  by (rule written_Nil, insert assms, unfold Exchange_UnbindOk_encode_def Exchange_UnbindOk_decode_def[abs_def])
    ((elim put_then)?; simp_all add: written_done bit_field_buffer del: bit_buffer.simps)

fun exchange_wire :: "exchange_method \<Rightarrow> exchange_method" where
  "exchange_wire (Exchange_Declare ticket exchange type passive durable auto_delete internal nowait arguments) =
     Exchange_Declare (wire_uint ticket) (wire_key exchange) (wire_key type) (wire_bit passive)
     (wire_bit durable) (wire_bit auto_delete) (wire_bit internal) (wire_bit nowait)
     (wire_table arguments)"
| "exchange_wire Exchange_DeclareOk = Exchange_DeclareOk"
| "exchange_wire (Exchange_Delete ticket exchange if_unused nowait) =
     Exchange_Delete (wire_uint ticket) (wire_key exchange) (wire_bit if_unused)
     (wire_bit nowait)"
| "exchange_wire Exchange_DeleteOk = Exchange_DeleteOk"
| "exchange_wire (Exchange_Bind ticket destination source routing_key nowait arguments) =
     Exchange_Bind (wire_uint ticket) (wire_key destination) (wire_key source)
     (wire_key routing_key) (wire_bit nowait) (wire_table arguments)"
| "exchange_wire Exchange_BindOk = Exchange_BindOk"
| "exchange_wire (Exchange_Unbind ticket destination source routing_key nowait arguments) =
     Exchange_Unbind (wire_uint ticket) (wire_key destination) (wire_key source)
     (wire_key routing_key) (wire_bit nowait) (wire_table arguments)"
| "exchange_wire Exchange_UnbindOk = Exchange_UnbindOk"

lemma exchange_reads:
  assumes "exchange_encode m = Inr ps" "exchange_INDEX m = exchange_INDEX m'"
    "\<forall>(_, v) \<in> set (exchange_dict m). valid_times v"
  shows "decodes (exchange_decode m') (concat ps) (exchange_wire m)"
  using assms by (cases m; cases m') (simp_all add: Exchange_Declare_reads Exchange_DeclareOk_reads Exchange_Delete_reads Exchange_DeleteOk_reads Exchange_Bind_reads Exchange_BindOk_reads Exchange_Unbind_reads Exchange_UnbindOk_reads)

lemma Queue_Declare_reads:
  assumes "Queue_Declare_encode ticket queue passive durable exclusive auto_delete nowait arguments = Inr ps" "valid_times arguments"
  shows "decodes Queue_Declare_decode (concat ps)
    (Queue_Declare (wire_uint ticket) (wire_key queue) (wire_bit passive) (wire_bit durable)
    (wire_bit exclusive) (wire_bit auto_delete) (wire_bit nowait) (wire_table arguments))"
  by (rule written_Nil, insert assms, unfold Queue_Declare_encode_def Queue_Declare_decode_def[abs_def])
    ((elim put_then)?; simp_all add: written_done bit_field_buffer del: bit_buffer.simps)

lemma Queue_DeclareOk_reads:
  assumes "Queue_DeclareOk_encode queue message_count consumer_count = Inr ps"
  shows "decodes Queue_DeclareOk_decode (concat ps)
    (Queue_DeclareOk (wire_key queue) (wire_uint message_count) (wire_uint consumer_count))"
  by (rule written_Nil, insert assms, unfold Queue_DeclareOk_encode_def Queue_DeclareOk_decode_def[abs_def])
    ((elim put_then)?; simp_all add: written_done bit_field_buffer del: bit_buffer.simps)

lemma Queue_Bind_reads:
  assumes "Queue_Bind_encode ticket queue exchange routing_key nowait arguments = Inr ps" "valid_times arguments"
  shows "decodes Queue_Bind_decode (concat ps)
    (Queue_Bind (wire_uint ticket) (wire_key queue) (wire_key exchange) (wire_key routing_key)
    (wire_bit nowait) (wire_table arguments))"
  by (rule written_Nil, insert assms, unfold Queue_Bind_encode_def Queue_Bind_decode_def[abs_def])
    ((elim put_then)?; simp_all add: written_done bit_field_buffer del: bit_buffer.simps)

lemma Queue_BindOk_reads:
  assumes "Queue_BindOk_encode = Inr ps"
  shows "decodes Queue_BindOk_decode (concat ps)
    Queue_BindOk"
  by (rule written_Nil, insert assms, unfold Queue_BindOk_encode_def Queue_BindOk_decode_def[abs_def])
    ((elim put_then)?; simp_all add: written_done bit_field_buffer del: bit_buffer.simps)

lemma Queue_Purge_reads:
  assumes "Queue_Purge_encode ticket queue nowait = Inr ps"
  shows "decodes Queue_Purge_decode (concat ps)
    (Queue_Purge (wire_uint ticket) (wire_key queue) (wire_bit nowait))"
  by (rule written_Nil, insert assms, unfold Queue_Purge_encode_def Queue_Purge_decode_def[abs_def])
    ((elim put_then)?; simp_all add: written_done bit_field_buffer del: bit_buffer.simps)

lemma Queue_PurgeOk_reads:
  assumes "Queue_PurgeOk_encode message_count = Inr ps"
  shows "decodes Queue_PurgeOk_decode (concat ps)
    (Queue_PurgeOk (wire_uint message_count))"
  by (rule written_Nil, insert assms, unfold Queue_PurgeOk_encode_def Queue_PurgeOk_decode_def[abs_def])
    ((elim put_then)?; simp_all add: written_done bit_field_buffer del: bit_buffer.simps)

lemma Queue_Delete_reads:
  assumes "Queue_Delete_encode ticket queue if_unused if_empty nowait = Inr ps"
  shows "decodes Queue_Delete_decode (concat ps)
    (Queue_Delete (wire_uint ticket) (wire_key queue) (wire_bit if_unused) (wire_bit if_empty)
    (wire_bit nowait))"
  by (rule written_Nil, insert assms, unfold Queue_Delete_encode_def Queue_Delete_decode_def[abs_def])
    ((elim put_then)?; simp_all add: written_done bit_field_buffer del: bit_buffer.simps)

lemma Queue_DeleteOk_reads:
  assumes "Queue_DeleteOk_encode message_count = Inr ps"
  shows "decodes Queue_DeleteOk_decode (concat ps)
    (Queue_DeleteOk (wire_uint message_count))"
  by (rule written_Nil, insert assms, unfold Queue_DeleteOk_encode_def Queue_DeleteOk_decode_def[abs_def])
    ((elim put_then)?; simp_all add: written_done bit_field_buffer del: bit_buffer.simps)

lemma Queue_Unbind_reads:
  assumes "Queue_Unbind_encode ticket queue exchange routing_key arguments = Inr ps" "valid_times arguments"
  shows "decodes Queue_Unbind_decode (concat ps)
    (Queue_Unbind (wire_uint ticket) (wire_key queue) (wire_key exchange) (wire_key routing_key)
    (wire_table arguments))"
  by (rule written_Nil, insert assms, unfold Queue_Unbind_encode_def Queue_Unbind_decode_def[abs_def])
    ((elim put_then)?; simp_all add: written_done bit_field_buffer del: bit_buffer.simps)

lemma Queue_UnbindOk_reads:
  assumes "Queue_UnbindOk_encode = Inr ps"
  shows "decodes Queue_UnbindOk_decode (concat ps)
    Queue_UnbindOk"
  by (rule written_Nil, insert assms, unfold Queue_UnbindOk_encode_def Queue_UnbindOk_decode_def[abs_def])
    ((elim put_then)?; simp_all add: written_done bit_field_buffer del: bit_buffer.simps)

fun queue_wire :: "queue_method \<Rightarrow> queue_method" where
  "queue_wire (Queue_Declare ticket queue passive durable exclusive auto_delete nowait arguments) =
     Queue_Declare (wire_uint ticket) (wire_key queue) (wire_bit passive) (wire_bit durable)
     (wire_bit exclusive) (wire_bit auto_delete) (wire_bit nowait) (wire_table arguments)"
| "queue_wire (Queue_DeclareOk queue message_count consumer_count) =
     Queue_DeclareOk (wire_key queue) (wire_uint message_count) (wire_uint consumer_count)"
| "queue_wire (Queue_Bind ticket queue exchange routing_key nowait arguments) =
     Queue_Bind (wire_uint ticket) (wire_key queue) (wire_key exchange) (wire_key routing_key)
     (wire_bit nowait) (wire_table arguments)"
| "queue_wire Queue_BindOk = Queue_BindOk"
| "queue_wire (Queue_Purge ticket queue nowait) =
     Queue_Purge (wire_uint ticket) (wire_key queue) (wire_bit nowait)"
| "queue_wire (Queue_PurgeOk message_count) = Queue_PurgeOk (wire_uint message_count)"
| "queue_wire (Queue_Delete ticket queue if_unused if_empty nowait) =
     Queue_Delete (wire_uint ticket) (wire_key queue) (wire_bit if_unused) (wire_bit if_empty)
     (wire_bit nowait)"
| "queue_wire (Queue_DeleteOk message_count) = Queue_DeleteOk (wire_uint message_count)"
| "queue_wire (Queue_Unbind ticket queue exchange routing_key arguments) =
     Queue_Unbind (wire_uint ticket) (wire_key queue) (wire_key exchange) (wire_key routing_key)
     (wire_table arguments)"
| "queue_wire Queue_UnbindOk = Queue_UnbindOk"

lemma queue_reads:
  assumes "queue_encode m = Inr ps" "queue_INDEX m = queue_INDEX m'"
    "\<forall>(_, v) \<in> set (queue_dict m). valid_times v"
  shows "decodes (queue_decode m') (concat ps) (queue_wire m)"
  using assms by (cases m; cases m') (simp_all add: Queue_Declare_reads Queue_DeclareOk_reads Queue_Bind_reads Queue_BindOk_reads Queue_Purge_reads Queue_PurgeOk_reads Queue_Delete_reads Queue_DeleteOk_reads Queue_Unbind_reads Queue_UnbindOk_reads)

lemma Basic_Qos_reads:
  assumes "Basic_Qos_encode prefetch_size prefetch_count global_qos = Inr ps"
  shows "decodes Basic_Qos_decode (concat ps)
    (Basic_Qos (wire_uint prefetch_size) (wire_uint prefetch_count) (wire_bit global_qos))"
  by (rule written_Nil, insert assms, unfold Basic_Qos_encode_def Basic_Qos_decode_def[abs_def])
    ((elim put_then)?; simp_all add: written_done bit_field_buffer del: bit_buffer.simps)

lemma Basic_QosOk_reads:
  assumes "Basic_QosOk_encode = Inr ps"
  shows "decodes Basic_QosOk_decode (concat ps)
    Basic_QosOk"
  by (rule written_Nil, insert assms, unfold Basic_QosOk_encode_def Basic_QosOk_decode_def[abs_def])
    ((elim put_then)?; simp_all add: written_done bit_field_buffer del: bit_buffer.simps)

lemma Basic_Consume_reads:
  assumes "Basic_Consume_encode ticket queue consumer_tag no_local no_ack exclusive nowait arguments = Inr ps" "valid_times arguments"
  shows "decodes Basic_Consume_decode (concat ps)
    (Basic_Consume (wire_uint ticket) (wire_key queue) (wire_key consumer_tag)
    (wire_bit no_local) (wire_bit no_ack) (wire_bit exclusive) (wire_bit nowait)
    (wire_table arguments))"
  by (rule written_Nil, insert assms, unfold Basic_Consume_encode_def Basic_Consume_decode_def[abs_def])
    ((elim put_then)?; simp_all add: written_done bit_field_buffer del: bit_buffer.simps)

lemma Basic_ConsumeOk_reads:
  assumes "Basic_ConsumeOk_encode consumer_tag = Inr ps"
  shows "decodes Basic_ConsumeOk_decode (concat ps)
    (Basic_ConsumeOk (wire_key consumer_tag))"
  by (rule written_Nil, insert assms, unfold Basic_ConsumeOk_encode_def Basic_ConsumeOk_decode_def[abs_def])
    ((elim put_then)?; simp_all add: written_done bit_field_buffer del: bit_buffer.simps)

lemma Basic_Cancel_reads:
  assumes "Basic_Cancel_encode consumer_tag nowait = Inr ps"
  shows "decodes Basic_Cancel_decode (concat ps)
    (Basic_Cancel (wire_key consumer_tag) (wire_bit nowait))"
  by (rule written_Nil, insert assms, unfold Basic_Cancel_encode_def Basic_Cancel_decode_def[abs_def])
    ((elim put_then)?; simp_all add: written_done bit_field_buffer del: bit_buffer.simps)

lemma Basic_CancelOk_reads:
  assumes "Basic_CancelOk_encode consumer_tag = Inr ps"
  shows "decodes Basic_CancelOk_decode (concat ps)
    (Basic_CancelOk (wire_key consumer_tag))"
  by (rule written_Nil, insert assms, unfold Basic_CancelOk_encode_def Basic_CancelOk_decode_def[abs_def])
    ((elim put_then)?; simp_all add: written_done bit_field_buffer del: bit_buffer.simps)

lemma Basic_Publish_reads:
  assumes "Basic_Publish_encode ticket exchange routing_key mandatory immediate = Inr ps"
  shows "decodes Basic_Publish_decode (concat ps)
    (Basic_Publish (wire_uint ticket) (wire_key exchange) (wire_key routing_key)
    (wire_bit mandatory) (wire_bit immediate))"
  by (rule written_Nil, insert assms, unfold Basic_Publish_encode_def Basic_Publish_decode_def[abs_def])
    ((elim put_then)?; simp_all add: written_done bit_field_buffer del: bit_buffer.simps)

lemma Basic_Return_reads:
  assumes "Basic_Return_encode reply_code reply_text exchange routing_key = Inr ps"
  shows "decodes Basic_Return_decode (concat ps)
    (Basic_Return (wire_uint reply_code) (wire_key reply_text) (wire_key exchange)
    (wire_key routing_key))"
  by (rule written_Nil, insert assms, unfold Basic_Return_encode_def Basic_Return_decode_def[abs_def])
    ((elim put_then)?; simp_all add: written_done bit_field_buffer del: bit_buffer.simps)

lemma Basic_Deliver_reads:
  assumes "Basic_Deliver_encode consumer_tag delivery_tag redelivered exchange routing_key = Inr ps"
  shows "decodes Basic_Deliver_decode (concat ps)
    (Basic_Deliver (wire_key consumer_tag) (wire_uint delivery_tag) (wire_bit redelivered)
    (wire_key exchange) (wire_key routing_key))"
  by (rule written_Nil, insert assms, unfold Basic_Deliver_encode_def Basic_Deliver_decode_def[abs_def])
    ((elim put_then)?; simp_all add: written_done bit_field_buffer del: bit_buffer.simps)

lemma Basic_Get_reads:
  assumes "Basic_Get_encode ticket queue no_ack = Inr ps"
  shows "decodes Basic_Get_decode (concat ps)
    (Basic_Get (wire_uint ticket) (wire_key queue) (wire_bit no_ack))"
  by (rule written_Nil, insert assms, unfold Basic_Get_encode_def Basic_Get_decode_def[abs_def])
    ((elim put_then)?; simp_all add: written_done bit_field_buffer del: bit_buffer.simps)

lemma Basic_GetOk_reads:
  assumes "Basic_GetOk_encode delivery_tag redelivered exchange routing_key message_count = Inr ps"
  shows "decodes Basic_GetOk_decode (concat ps)
    (Basic_GetOk (wire_uint delivery_tag) (wire_bit redelivered) (wire_key exchange)
    (wire_key routing_key) (wire_uint message_count))"
  by (rule written_Nil, insert assms, unfold Basic_GetOk_encode_def Basic_GetOk_decode_def[abs_def])
    ((elim put_then)?; simp_all add: written_done bit_field_buffer del: bit_buffer.simps)

lemma Basic_GetEmpty_reads:
  assumes "Basic_GetEmpty_encode cluster_id = Inr ps"
  shows "decodes Basic_GetEmpty_decode (concat ps)
    (Basic_GetEmpty (wire_key cluster_id))"
  by (rule written_Nil, insert assms, unfold Basic_GetEmpty_encode_def Basic_GetEmpty_decode_def[abs_def])
    ((elim put_then)?; simp_all add: written_done bit_field_buffer del: bit_buffer.simps)

lemma Basic_Ack_reads:
  assumes "Basic_Ack_encode delivery_tag multiple = Inr ps"
  shows "decodes Basic_Ack_decode (concat ps)
    (Basic_Ack (wire_uint delivery_tag) (wire_bit multiple))"
  by (rule written_Nil, insert assms, unfold Basic_Ack_encode_def Basic_Ack_decode_def[abs_def])
    ((elim put_then)?; simp_all add: written_done bit_field_buffer del: bit_buffer.simps)

lemma Basic_Reject_reads:
  assumes "Basic_Reject_encode delivery_tag requeue = Inr ps"
  shows "decodes Basic_Reject_decode (concat ps)
    (Basic_Reject (wire_uint delivery_tag) (wire_bit requeue))"
  by (rule written_Nil, insert assms, unfold Basic_Reject_encode_def Basic_Reject_decode_def[abs_def])
    ((elim put_then)?; simp_all add: written_done bit_field_buffer del: bit_buffer.simps)

lemma Basic_RecoverAsync_reads:
  assumes "Basic_RecoverAsync_encode requeue = Inr ps"
  shows "decodes Basic_RecoverAsync_decode (concat ps)
    (Basic_RecoverAsync (wire_bit requeue))"
  by (rule written_Nil, insert assms, unfold Basic_RecoverAsync_encode_def Basic_RecoverAsync_decode_def[abs_def])
    ((elim put_then)?; simp_all add: written_done bit_field_buffer del: bit_buffer.simps)

lemma Basic_Recover_reads:
  assumes "Basic_Recover_encode requeue = Inr ps"
  shows "decodes Basic_Recover_decode (concat ps)
    (Basic_Recover (wire_bit requeue))"
  by (rule written_Nil, insert assms, unfold Basic_Recover_encode_def Basic_Recover_decode_def[abs_def])
    ((elim put_then)?; simp_all add: written_done bit_field_buffer del: bit_buffer.simps)

lemma Basic_RecoverOk_reads:
  assumes "Basic_RecoverOk_encode = Inr ps"
  shows "decodes Basic_RecoverOk_decode (concat ps)
    Basic_RecoverOk"
  by (rule written_Nil, insert assms, unfold Basic_RecoverOk_encode_def Basic_RecoverOk_decode_def[abs_def])
    ((elim put_then)?; simp_all add: written_done bit_field_buffer del: bit_buffer.simps)

lemma Basic_Nack_reads:
  assumes "Basic_Nack_encode delivery_tag multiple requeue = Inr ps"
  shows "decodes Basic_Nack_decode (concat ps)
    (Basic_Nack (wire_uint delivery_tag) (wire_bit multiple) (wire_bit requeue))"
  by (rule written_Nil, insert assms, unfold Basic_Nack_encode_def Basic_Nack_decode_def[abs_def])
    ((elim put_then)?; simp_all add: written_done bit_field_buffer del: bit_buffer.simps)

fun basic_wire :: "basic_method \<Rightarrow> basic_method" where
  "basic_wire (Basic_Qos prefetch_size prefetch_count global_qos) =
     Basic_Qos (wire_uint prefetch_size) (wire_uint prefetch_count) (wire_bit global_qos)"
| "basic_wire Basic_QosOk = Basic_QosOk"
| "basic_wire (Basic_Consume ticket queue consumer_tag no_local no_ack exclusive nowait arguments) =
     Basic_Consume (wire_uint ticket) (wire_key queue) (wire_key consumer_tag)
     (wire_bit no_local) (wire_bit no_ack) (wire_bit exclusive) (wire_bit nowait)
     (wire_table arguments)"
| "basic_wire (Basic_ConsumeOk consumer_tag) = Basic_ConsumeOk (wire_key consumer_tag)"
| "basic_wire (Basic_Cancel consumer_tag nowait) =
     Basic_Cancel (wire_key consumer_tag) (wire_bit nowait)"
| "basic_wire (Basic_CancelOk consumer_tag) = Basic_CancelOk (wire_key consumer_tag)"
| "basic_wire (Basic_Publish ticket exchange routing_key mandatory immediate) =
     Basic_Publish (wire_uint ticket) (wire_key exchange) (wire_key routing_key)
     (wire_bit mandatory) (wire_bit immediate)"
| "basic_wire (Basic_Return reply_code reply_text exchange routing_key) =
     Basic_Return (wire_uint reply_code) (wire_key reply_text) (wire_key exchange)
     (wire_key routing_key)"
| "basic_wire (Basic_Deliver consumer_tag delivery_tag redelivered exchange routing_key) =
     Basic_Deliver (wire_key consumer_tag) (wire_uint delivery_tag) (wire_bit redelivered)
     (wire_key exchange) (wire_key routing_key)"
| "basic_wire (Basic_Get ticket queue no_ack) =
     Basic_Get (wire_uint ticket) (wire_key queue) (wire_bit no_ack)"
| "basic_wire (Basic_GetOk delivery_tag redelivered exchange routing_key message_count) =
     Basic_GetOk (wire_uint delivery_tag) (wire_bit redelivered) (wire_key exchange)
     (wire_key routing_key) (wire_uint message_count)"
| "basic_wire (Basic_GetEmpty cluster_id) = Basic_GetEmpty (wire_key cluster_id)"
| "basic_wire (Basic_Ack delivery_tag multiple) =
     Basic_Ack (wire_uint delivery_tag) (wire_bit multiple)"
| "basic_wire (Basic_Reject delivery_tag requeue) =
     Basic_Reject (wire_uint delivery_tag) (wire_bit requeue)"
| "basic_wire (Basic_RecoverAsync requeue) = Basic_RecoverAsync (wire_bit requeue)"
| "basic_wire (Basic_Recover requeue) = Basic_Recover (wire_bit requeue)"
| "basic_wire Basic_RecoverOk = Basic_RecoverOk"
| "basic_wire (Basic_Nack delivery_tag multiple requeue) =
     Basic_Nack (wire_uint delivery_tag) (wire_bit multiple) (wire_bit requeue)"

lemma basic_reads:
  assumes "basic_encode m = Inr ps" "basic_INDEX m = basic_INDEX m'"
    "\<forall>(_, v) \<in> set (basic_dict m). valid_times v"
  shows "decodes (basic_decode m') (concat ps) (basic_wire m)"
  using assms by (cases m; cases m') (simp_all add: Basic_Qos_reads Basic_QosOk_reads Basic_Consume_reads Basic_ConsumeOk_reads Basic_Cancel_reads Basic_CancelOk_reads Basic_Publish_reads Basic_Return_reads Basic_Deliver_reads Basic_Get_reads Basic_GetOk_reads Basic_GetEmpty_reads Basic_Ack_reads Basic_Reject_reads Basic_RecoverAsync_reads Basic_Recover_reads Basic_RecoverOk_reads Basic_Nack_reads)

lemma Tx_Select_reads:
  assumes "Tx_Select_encode = Inr ps"
  shows "decodes Tx_Select_decode (concat ps)
    Tx_Select"
  by (rule written_Nil, insert assms, unfold Tx_Select_encode_def Tx_Select_decode_def[abs_def])
    ((elim put_then)?; simp_all add: written_done bit_field_buffer del: bit_buffer.simps)

lemma Tx_SelectOk_reads:
  assumes "Tx_SelectOk_encode = Inr ps"
  shows "decodes Tx_SelectOk_decode (concat ps)
    Tx_SelectOk"
  by (rule written_Nil, insert assms, unfold Tx_SelectOk_encode_def Tx_SelectOk_decode_def[abs_def])
    ((elim put_then)?; simp_all add: written_done bit_field_buffer del: bit_buffer.simps)

lemma Tx_Commit_reads:
  assumes "Tx_Commit_encode = Inr ps"
  shows "decodes Tx_Commit_decode (concat ps)
    Tx_Commit"
  by (rule written_Nil, insert assms, unfold Tx_Commit_encode_def Tx_Commit_decode_def[abs_def])
    ((elim put_then)?; simp_all add: written_done bit_field_buffer del: bit_buffer.simps)

lemma Tx_CommitOk_reads:
  assumes "Tx_CommitOk_encode = Inr ps"
  shows "decodes Tx_CommitOk_decode (concat ps)
    Tx_CommitOk"
  by (rule written_Nil, insert assms, unfold Tx_CommitOk_encode_def Tx_CommitOk_decode_def[abs_def])
    ((elim put_then)?; simp_all add: written_done bit_field_buffer del: bit_buffer.simps)

lemma Tx_Rollback_reads:
  assumes "Tx_Rollback_encode = Inr ps"
  shows "decodes Tx_Rollback_decode (concat ps)
    Tx_Rollback"
  by (rule written_Nil, insert assms, unfold Tx_Rollback_encode_def Tx_Rollback_decode_def[abs_def])
    ((elim put_then)?; simp_all add: written_done bit_field_buffer del: bit_buffer.simps)

lemma Tx_RollbackOk_reads:
  assumes "Tx_RollbackOk_encode = Inr ps"
  shows "decodes Tx_RollbackOk_decode (concat ps)
    Tx_RollbackOk"
  by (rule written_Nil, insert assms, unfold Tx_RollbackOk_encode_def Tx_RollbackOk_decode_def[abs_def])
    ((elim put_then)?; simp_all add: written_done bit_field_buffer del: bit_buffer.simps)

fun tx_wire :: "tx_method \<Rightarrow> tx_method" where
  "tx_wire Tx_Select = Tx_Select"
| "tx_wire Tx_SelectOk = Tx_SelectOk"
| "tx_wire Tx_Commit = Tx_Commit"
| "tx_wire Tx_CommitOk = Tx_CommitOk"
| "tx_wire Tx_Rollback = Tx_Rollback"
| "tx_wire Tx_RollbackOk = Tx_RollbackOk"

lemma tx_reads:
  assumes "tx_encode m = Inr ps" "tx_INDEX m = tx_INDEX m'"
    "\<forall>(_, v) \<in> set (tx_dict m). valid_times v"
  shows "decodes (tx_decode m') (concat ps) (tx_wire m)"
  using assms by (cases m; cases m') (simp_all add: Tx_Select_reads Tx_SelectOk_reads Tx_Commit_reads Tx_CommitOk_reads Tx_Rollback_reads Tx_RollbackOk_reads)

lemma Confirm_Select_reads:
  assumes "Confirm_Select_encode nowait = Inr ps"
  shows "decodes Confirm_Select_decode (concat ps)
    (Confirm_Select (wire_bit nowait))"
  by (rule written_Nil, insert assms, unfold Confirm_Select_encode_def Confirm_Select_decode_def[abs_def])
    ((elim put_then)?; simp_all add: written_done bit_field_buffer del: bit_buffer.simps)

lemma Confirm_SelectOk_reads:
  assumes "Confirm_SelectOk_encode = Inr ps"
  shows "decodes Confirm_SelectOk_decode (concat ps)
    Confirm_SelectOk"
  by (rule written_Nil, insert assms, unfold Confirm_SelectOk_encode_def Confirm_SelectOk_decode_def[abs_def])
    ((elim put_then)?; simp_all add: written_done bit_field_buffer del: bit_buffer.simps)

fun confirm_wire :: "confirm_method \<Rightarrow> confirm_method" where
  "confirm_wire (Confirm_Select nowait) = Confirm_Select (wire_bit nowait)"
| "confirm_wire Confirm_SelectOk = Confirm_SelectOk"

lemma confirm_reads:
  assumes "confirm_encode m = Inr ps" "confirm_INDEX m = confirm_INDEX m'"
    "\<forall>(_, v) \<in> set (confirm_dict m). valid_times v"
  shows "decodes (confirm_decode m') (concat ps) (confirm_wire m)"
  using assms by (cases m; cases m') (simp_all add: Confirm_Select_reads Confirm_SelectOk_reads)

fun method_wire :: "meth \<Rightarrow> meth" where
  "method_wire (Connection_Class m) = Connection_Class (connection_wire m)"
| "method_wire (Channel_Class m) = Channel_Class (channel_wire m)"
| "method_wire (Access_Class m) = Access_Class (access_wire m)"
| "method_wire (Exchange_Class m) = Exchange_Class (exchange_wire m)"
| "method_wire (Queue_Class m) = Queue_Class (queue_wire m)"
| "method_wire (Basic_Class m) = Basic_Class (basic_wire m)"
| "method_wire (Tx_Class m) = Tx_Class (tx_wire m)"
| "method_wire (Confirm_Class m) = Confirm_Class (confirm_wire m)"

section \<open>The table of methods\<close>

lemmas new_method_simps = new_method_def methods_def
  new_Connection_Start_def new_Connection_StartOk_def new_Connection_Secure_def
  new_Connection_SecureOk_def new_Connection_Tune_def new_Connection_TuneOk_def
  new_Connection_Open_def new_Connection_OpenOk_def new_Connection_Close_def
  new_Connection_CloseOk_def new_Connection_Blocked_def new_Connection_Unblocked_def
  new_Connection_UpdateSecretOk_def new_Channel_Open_def new_Channel_OpenOk_def
  new_Channel_Flow_def new_Channel_FlowOk_def new_Channel_Close_def new_Channel_CloseOk_def
  new_Access_Request_def new_Access_RequestOk_def new_Exchange_Declare_def
  new_Exchange_DeclareOk_def new_Exchange_Delete_def new_Exchange_DeleteOk_def
  new_Exchange_Bind_def new_Exchange_BindOk_def new_Exchange_Unbind_def
  new_Exchange_UnbindOk_def new_Queue_Declare_def new_Queue_DeclareOk_def new_Queue_Bind_def
  new_Queue_BindOk_def new_Queue_Purge_def new_Queue_PurgeOk_def new_Queue_Delete_def
  new_Queue_DeleteOk_def new_Queue_Unbind_def new_Queue_UnbindOk_def new_Basic_Qos_def
  new_Basic_QosOk_def new_Basic_Consume_def new_Basic_ConsumeOk_def new_Basic_Cancel_def
  new_Basic_CancelOk_def new_Basic_Publish_def new_Basic_Return_def new_Basic_Deliver_def
  new_Basic_Get_def new_Basic_GetOk_def new_Basic_GetEmpty_def new_Basic_Ack_def
  new_Basic_Reject_def new_Basic_RecoverAsync_def new_Basic_Recover_def new_Basic_RecoverOk_def
  new_Basic_Nack_def new_Tx_Select_def new_Tx_SelectOk_def new_Tx_Commit_def new_Tx_CommitOk_def
  new_Tx_Rollback_def new_Tx_RollbackOk_def new_Confirm_Select_def new_Confirm_SelectOk_def

lemma new_connection:
  assumes "\<not> is_update_secret (Connection_Class m)"
  shows "\<exists>m'. new_method (connection_INDEX m) = Inr (Connection_Class m') \<and> connection_INDEX m = connection_INDEX m'
    \<and> connection_NAME m' = connection_NAME m"
  using assms by (cases m) (simp_all add: new_method_simps)

lemma new_channel:
  "\<exists>m'. new_method (channel_INDEX m) = Inr (Channel_Class m') \<and> channel_INDEX m = channel_INDEX m'
    \<and> channel_NAME m' = channel_NAME m"
  by (cases m) (simp_all add: new_method_simps)

lemma new_access:
  "\<exists>m'. new_method (access_INDEX m) = Inr (Access_Class m') \<and> access_INDEX m = access_INDEX m'
    \<and> access_NAME m' = access_NAME m"
  by (cases m) (simp_all add: new_method_simps)

lemma new_exchange:
  "\<exists>m'. new_method (exchange_INDEX m) = Inr (Exchange_Class m') \<and> exchange_INDEX m = exchange_INDEX m'
    \<and> exchange_NAME m' = exchange_NAME m"
  by (cases m) (simp_all add: new_method_simps)

lemma new_queue:
  "\<exists>m'. new_method (queue_INDEX m) = Inr (Queue_Class m') \<and> queue_INDEX m = queue_INDEX m'
    \<and> queue_NAME m' = queue_NAME m"
  by (cases m) (simp_all add: new_method_simps)

lemma new_basic:
  "\<exists>m'. new_method (basic_INDEX m) = Inr (Basic_Class m') \<and> basic_INDEX m = basic_INDEX m'
    \<and> basic_NAME m' = basic_NAME m"
  by (cases m) (simp_all add: new_method_simps)

lemma new_tx:
  "\<exists>m'. new_method (tx_INDEX m) = Inr (Tx_Class m') \<and> tx_INDEX m = tx_INDEX m'
    \<and> tx_NAME m' = tx_NAME m"
  by (cases m) (simp_all add: new_method_simps)

lemma new_confirm:
  "\<exists>m'. new_method (confirm_INDEX m) = Inr (Confirm_Class m') \<and> confirm_INDEX m = confirm_INDEX m'
    \<and> confirm_NAME m' = confirm_NAME m"
  by (cases m) (simp_all add: new_method_simps)

text \<open>Every \<open>datetime\<close> among the attributes is one that Python can represent.\<close>

definition valid_method :: "meth \<Rightarrow> bool" where
  "valid_method m \<longleftrightarrow> (\<forall>(_, v) \<in> set (method_dict m). valid_times v)"

lemma decodes_map:
  "decodes D bs r \<Longrightarrow> decodes (\<lambda>enc off. bindE (D enc off) (\<lambda>x. Inr (C x))) bs (C r)"
  by (simp add: decodes_def)

lemma method_found:
  assumes "\<not> is_update_secret m"
  shows "\<exists>m'. new_method (method_INDEX m) = Inr m' \<and> method_INDEX m' = method_INDEX m
    \<and> method_NAME m' = method_NAME m
    \<and> (\<forall>ps. method_encode m = Inr ps \<longrightarrow> valid_method m \<longrightarrow>
          decodes (method_decode m') (concat ps) (method_wire m))"
proof (cases m)
  case (Connection_Class x)
  with assms have x: "\<not> is_update_secret (Connection_Class x)" by simp
  from connection_reads[OF _ _ _ x] new_connection[OF x] show ?thesis
    by (auto simp: Connection_Class valid_method_def intro!: decodes_map)
next
  case (Channel_Class x)
  from channel_reads[of x] new_channel[of x] show ?thesis
    by (auto simp: Channel_Class valid_method_def intro!: decodes_map)
next
  case (Access_Class x)
  from access_reads[of x] new_access[of x] show ?thesis
    by (auto simp: Access_Class valid_method_def intro!: decodes_map)
next
  case (Exchange_Class x)
  from exchange_reads[of x] new_exchange[of x] show ?thesis
    by (auto simp: Exchange_Class valid_method_def intro!: decodes_map)
next
  case (Queue_Class x)
  from queue_reads[of x] new_queue[of x] show ?thesis
    by (auto simp: Queue_Class valid_method_def intro!: decodes_map)
next
  case (Basic_Class x)
  from basic_reads[of x] new_basic[of x] show ?thesis
    by (auto simp: Basic_Class valid_method_def intro!: decodes_map)
next
  case (Tx_Class x)
  from tx_reads[of x] new_tx[of x] show ?thesis
    by (auto simp: Tx_Class valid_method_def intro!: decodes_map)
next
  case (Confirm_Class x)
  from confirm_reads[of x] new_confirm[of x] show ?thesis
    by (auto simp: Confirm_Class valid_method_def intro!: decodes_map)
qed

section \<open>Properties\<close>

text \<open>
  C36 (roundtrip). For every method class of the protocol but \<open>Connection.UpdateSecret\<close>: the
  pieces that \<open>encode\<close> produces, wherever they stand in a buffer, are decoded by the class
  that the dict \<open>methods\<close> holds under the method's index, and every attribute comes back in
  its wire form.
\<close>

theorem method_roundtrip:
  assumes "method_encode m = Inr ps" "valid_method m" "\<not> is_update_secret m"
  shows "bindE (new_method (method_INDEX m)) (\<lambda>m'. method_decode m' (pre @ concat ps @ post) (length pre))
    = Inr (method_wire m)"
  using method_found[OF assms(3)] assms(1,2) by (auto simp: decodes_def)

lemma method_roundtrip_witness:
  "bindE (new_method 0x003C0050) (\<lambda>m'. method_decode m'
      ([0, 60, 0, 80] @ [0, 0, 0, 0, 0, 0, 0, 7, 1] @ []) 4)
    = Inr (Basic_Class (Basic_Ack (PInt 7) (PBool True)))"
proof -
  let ?m = "Basic_Class (Basic_Ack (PLong 7) (PInt 3))"
  have "method_encode ?m = Inr [[0, 0, 0, 0, 0, 0, 0, 7], [1]]" by code_simp
  moreover have "valid_method ?m" "\<not> is_update_secret ?m" by (simp_all add: valid_method_def)
  ultimately show ?thesis
    using method_roundtrip[of ?m _ "[0, 60, 0, 80]" "[]"] by (simp add: wire_bit_def eval_nat_numeral)
qed

text \<open>
  The dict \<open>methods\<close> is consistent with the classes it lists: its keys are
  distinct, an instance made from it carries the index it is listed under, and every method
  but \<open>Connection.UpdateSecret\<close> is found there.
\<close>

theorem methods_consistent:
  "distinct (map fst methods)
   \<and> list_all (\<lambda>(i, r). case r of Inr m \<Rightarrow> method_INDEX m = i | Inl e \<Rightarrow> e = TypeError) methods
   \<and> (if is_update_secret m then new_method (method_INDEX m) = Inl TypeError
      else \<exists>m'. new_method (method_INDEX m) = Inr m' \<and> method_NAME m' = method_NAME m)"
proof (intro conjI)
  show "distinct (map fst methods)" by code_simp
  show "list_all (\<lambda>(i, r). case r of Inr m \<Rightarrow> method_INDEX m = i | Inl e \<Rightarrow> e = TypeError) methods"
    by code_simp
  show "if is_update_secret m then new_method (method_INDEX m) = Inl TypeError
      else \<exists>m'. new_method (method_INDEX m) = Inr m' \<and> method_NAME m' = method_NAME m"
  proof (cases "is_update_secret m")
    case True
    then obtain s r where "m = Connection_Class (Connection_UpdateSecret s r)"
      by (rule is_update_secret_cases) auto
    then show ?thesis by (simp add: new_method_simps)
  next
    case False
    with method_found[OF this] show ?thesis by auto
  qed
qed

text \<open>
  \<open>Connection.UpdateSecret\<close> cannot be received: the dict \<open>methods\<close> holds a class
  whose constructor wants two arguments, so looking it up without any raises \<open>TypeError\<close>.
  Decoding into an existing instance leaves its \<open>new_secret\<close> as it was and puts the secret
  from the wire into another attribute.
\<close>

theorem update_secret_not_decodable:
  assumes "Connection_UpdateSecret_encode s r = Inr ps"
  shows "new_method (method_INDEX (Connection_Class (Connection_UpdateSecret s r))) = Inl TypeError
   \<and> Connection_UpdateSecret_decode old (pre @ concat ps @ post) (length pre)
       = Inr (Connection_UpdateSecret old (wire_key r), wire_longstr s)"
  using Connection_UpdateSecret_reads[OF assms, of old] by (simp add: new_method_simps decodes_def)

lemma update_secret_not_decodable_witness:
  "Connection_UpdateSecret_decode PNone [0, 0, 0, 1, 9, 0] 0
    = Inr (Connection_UpdateSecret PNone (PStr []), PBytes [9])"
proof -
  have "Connection_UpdateSecret_encode (PBytes [9]) (PStr []) = Inr [[0, 0, 0, 1], [9], [0], []]"
    by code_simp
  from update_secret_not_decodable[OF this, of PNone "[]" "[]"]
  show ?thesis by (simp add: wire_longstr_def)
qed

end
