(* ===== verification/Amqp_Properties.thy ===== *)
theory Amqp_Properties
  imports Amqp_Methods
begin

text \<open>
  \<open>BasicProperties\<close> of \<open>pika/spec.py\<close>: fourteen optional attributes, of which those that are
  not \<open>None\<close> are written behind a sequence of 16-bit flag words. The field \<open>message_type\<close> is
  the attribute \<open>type\<close>.
\<close>

unbundle bit_operations_syntax

section \<open>Data\<close>

record basic_properties =
  content_type :: pyval
  content_encoding :: pyval
  headers :: pyval
  delivery_mode :: pyval
  priority :: pyval
  correlation_id :: pyval
  reply_to :: pyval
  expiration :: pyval
  message_id :: pyval
  timestamp :: pyval
  message_type :: pyval
  user_id :: pyval
  app_id :: pyval
  cluster_id :: pyval

definition FLAG_CONTENT_TYPE :: nat where "FLAG_CONTENT_TYPE = push_bit 15 1"
definition FLAG_CONTENT_ENCODING :: nat where "FLAG_CONTENT_ENCODING = push_bit 14 1"
definition FLAG_HEADERS :: nat where "FLAG_HEADERS = push_bit 13 1"
definition FLAG_DELIVERY_MODE :: nat where "FLAG_DELIVERY_MODE = push_bit 12 1"
definition FLAG_PRIORITY :: nat where "FLAG_PRIORITY = push_bit 11 1"
definition FLAG_CORRELATION_ID :: nat where "FLAG_CORRELATION_ID = push_bit 10 1"
definition FLAG_REPLY_TO :: nat where "FLAG_REPLY_TO = push_bit 9 1"
definition FLAG_EXPIRATION :: nat where "FLAG_EXPIRATION = push_bit 8 1"
definition FLAG_MESSAGE_ID :: nat where "FLAG_MESSAGE_ID = push_bit 7 1"
definition FLAG_TIMESTAMP :: nat where "FLAG_TIMESTAMP = push_bit 6 1"
definition FLAG_TYPE :: nat where "FLAG_TYPE = push_bit 5 1"
definition FLAG_USER_ID :: nat where "FLAG_USER_ID = push_bit 4 1"
definition FLAG_APP_ID :: nat where "FLAG_APP_ID = push_bit 3 1"
definition FLAG_CLUSTER_ID :: nat where "FLAG_CLUSTER_ID = push_bit 2 1"

text \<open>\<open>BasicProperties.__init__\<close> takes an enumeration member for its value.\<close>

datatype delivery_mode_enum = Transient | Persistent

fun delivery_mode_value :: "delivery_mode_enum \<Rightarrow> int" where
  "delivery_mode_value Transient = 1"
| "delivery_mode_value Persistent = 2"

fun init_delivery_mode :: "delivery_mode_enum + pyval \<Rightarrow> pyval" where
  "init_delivery_mode (Inl e) = PInt (delivery_mode_value e)"
| "init_delivery_mode (Inr v) = v"

text \<open>\<open>BasicProperties()\<close>\<close>

definition new_properties :: basic_properties where
  "new_properties = \<lparr>
     content_type = PNone,
     content_encoding = PNone,
     headers = PNone,
     delivery_mode = init_delivery_mode (Inr PNone),
     priority = PNone,
     correlation_id = PNone,
     reply_to = PNone,
     expiration = PNone,
     message_id = PNone,
     timestamp = PNone,
     message_type = PNone,
     user_id = PNone,
     app_id = PNone,
     cluster_id = PNone\<rparr>"

section \<open>Encoding\<close>

text \<open>\<open>if self.x is not None\<close>: set the flag and append the value.\<close>

fun opt_put :: "nat \<Rightarrow> (pyval \<Rightarrow> writer) \<Rightarrow> pyval \<Rightarrow> nat \<times> pieces \<Rightarrow> py_error + nat \<times> pieces" where
  "opt_put flag put v (flags, pieces) =
     (if v = PNone then Inr (flags, pieces)
      else bindE (put v pieces) (\<lambda>pieces. Inr (flags OR flag, pieces)))"

text \<open>The loop that splits the flags into words; the lowest bit says that another follows.\<close>

function flag_words :: "nat \<Rightarrow> py_error + pieces" where
  "flag_words flags =
     (let remainder = drop_bit 16 flags;
          partial_flags = flags AND 0xFFFE;
          partial_flags = (if remainder \<noteq> 0 then partial_flags OR 1 else partial_flags)
      in if remainder = 0 then bindE (pack_uint 2 (int partial_flags)) (\<lambda>p. Inr [p])
         else bindE (pack_uint 2 (int partial_flags)) (\<lambda>p.
              bindE (flag_words remainder) (\<lambda>ps. Inr (p # ps))))"
  by pat_completeness auto
termination
  by (relation "measure id") (auto simp: drop_bit_eq_div intro!: div_less_dividend gr0I)

declare flag_words.simps [simp del]

text \<open>The attributes in the order in which \<open>encode\<close> tests them.\<close>

definition attribute_steps :: "basic_properties \<Rightarrow> (nat \<times> pieces \<Rightarrow> py_error + nat \<times> pieces) list" where
  "attribute_steps self = [
     opt_put FLAG_CONTENT_TYPE put_shortstr (content_type self),
     opt_put FLAG_CONTENT_ENCODING put_shortstr (content_encoding self),
     opt_put FLAG_HEADERS put_table (headers self),
     opt_put FLAG_DELIVERY_MODE (put_uint 1) (delivery_mode self),
     opt_put FLAG_PRIORITY (put_uint 1) (priority self),
     opt_put FLAG_CORRELATION_ID put_shortstr (correlation_id self),
     opt_put FLAG_REPLY_TO put_shortstr (reply_to self),
     opt_put FLAG_EXPIRATION put_shortstr (expiration self),
     opt_put FLAG_MESSAGE_ID put_shortstr (message_id self),
     opt_put FLAG_TIMESTAMP (put_uint 8) (timestamp self),
     opt_put FLAG_TYPE put_shortstr (message_type self),
     opt_put FLAG_USER_ID put_shortstr (user_id self),
     opt_put FLAG_APP_ID put_shortstr (app_id self),
     opt_put FLAG_CLUSTER_ID put_shortstr (cluster_id self)]"

definition properties_encode :: "basic_properties \<Rightarrow> py_error + pieces" where
  "properties_encode self =
     bindE (seqE (attribute_steps self) (0, [])) (\<lambda>(flags, pieces).
     bindE (flag_words flags) (\<lambda>flag_pieces. Inr (flag_pieces @ pieces)))"

section \<open>Decoding\<close>

text \<open>
  The loop over the flag words. Each round consumes two bytes, so one round more than the
  buffer has bytes is never reached.
\<close>

fun decode_flags :: "nat \<Rightarrow> bytes \<Rightarrow> nat \<Rightarrow> nat \<Rightarrow> nat \<Rightarrow> py_error + nat \<times> nat" where
  "decode_flags 0 encoded offset flags flagword_index = Inl OutOfFuel"
| "decode_flags (Suc f) encoded offset flags flagword_index =
     bindE (unpack_uint 2 encoded offset) (\<lambda>i.
     let partial_flags = nat i;
         offset = offset + 2;
         flags = flags OR push_bit (flagword_index * 16) partial_flags
     in if partial_flags AND 1 = 0 then Inr (flags, offset)
        else decode_flags f encoded offset flags (flagword_index + 1))"

definition opt_get :: "nat \<Rightarrow> nat \<Rightarrow> pyval reader \<Rightarrow> pyval reader" where
  "opt_get flags flag get encoded offset =
     (if flags AND flag \<noteq> 0 then get encoded offset else Inr (PNone, offset))"

definition decode_attributes :: "nat \<Rightarrow> bytes \<Rightarrow> nat \<Rightarrow> py_error + basic_properties" where
  "decode_attributes flags encoded offset =
     bindE (opt_get flags FLAG_CONTENT_TYPE decode_short_string encoded offset) (\<lambda>(content_type, offset).
     bindE (opt_get flags FLAG_CONTENT_ENCODING decode_short_string encoded offset) (\<lambda>(content_encoding, offset).
     bindE (opt_get flags FLAG_HEADERS decode_table encoded offset) (\<lambda>(headers, offset).
     bindE (opt_get flags FLAG_DELIVERY_MODE (get_uint 1) encoded offset) (\<lambda>(delivery_mode, offset).
     bindE (opt_get flags FLAG_PRIORITY (get_uint 1) encoded offset) (\<lambda>(priority, offset).
     bindE (opt_get flags FLAG_CORRELATION_ID decode_short_string encoded offset) (\<lambda>(correlation_id, offset).
     bindE (opt_get flags FLAG_REPLY_TO decode_short_string encoded offset) (\<lambda>(reply_to, offset).
     bindE (opt_get flags FLAG_EXPIRATION decode_short_string encoded offset) (\<lambda>(expiration, offset).
     bindE (opt_get flags FLAG_MESSAGE_ID decode_short_string encoded offset) (\<lambda>(message_id, offset).
     bindE (opt_get flags FLAG_TIMESTAMP (get_uint 8) encoded offset) (\<lambda>(timestamp, offset).
     bindE (opt_get flags FLAG_TYPE decode_short_string encoded offset) (\<lambda>(type, offset).
     bindE (opt_get flags FLAG_USER_ID decode_short_string encoded offset) (\<lambda>(user_id, offset).
     bindE (opt_get flags FLAG_APP_ID decode_short_string encoded offset) (\<lambda>(app_id, offset).
     bindE (opt_get flags FLAG_CLUSTER_ID decode_short_string encoded offset) (\<lambda>(cluster_id, offset).
     Inr \<lparr>content_type = content_type, content_encoding = content_encoding, headers = headers, delivery_mode = delivery_mode,
       priority = priority, correlation_id = correlation_id, reply_to = reply_to, expiration = expiration,
       message_id = message_id, timestamp = timestamp, message_type = type, user_id = user_id,
       app_id = app_id, cluster_id = cluster_id\<rparr>))))))))))))))"

definition properties_decode :: "bytes \<Rightarrow> nat \<Rightarrow> py_error + basic_properties" where
  "properties_decode encoded offset =
     bindE (decode_flags (Suc (length encoded)) encoded offset 0 0) (\<lambda>(flags, offset).
     decode_attributes flags encoded offset)"

section \<open>The flags\<close>

definition flag_if :: "pyval \<Rightarrow> nat \<Rightarrow> nat \<Rightarrow> nat" where
  "flag_if v flag flags = (if v = PNone then flags else flags OR flag)"

lemma bit_flag_if: "bit (flag_if v flag flags) k \<longleftrightarrow> bit flags k \<or> (v \<noteq> PNone \<and> bit flag k)"
  by (simp add: flag_if_def bit_or_iff)

lemma bit_push_one: "bit (push_bit k 1 :: nat) j \<longleftrightarrow> j = k"
  by (auto simp: bit_exp_iff)

lemma and_push_one: "F AND push_bit k 1 = 0 \<longleftrightarrow> \<not> bit (F :: nat) k"
  by (simp add: push_bit_eq_mult and_exp_eq_0_iff_not_bit)

lemmas FLAG_defs =
  FLAG_CONTENT_TYPE_def FLAG_CONTENT_ENCODING_def FLAG_HEADERS_def
  FLAG_DELIVERY_MODE_def FLAG_PRIORITY_def FLAG_CORRELATION_ID_def
  FLAG_REPLY_TO_def FLAG_EXPIRATION_def FLAG_MESSAGE_ID_def
  FLAG_TIMESTAMP_def FLAG_TYPE_def FLAG_USER_ID_def
  FLAG_APP_ID_def FLAG_CLUSTER_ID_def

lemma opt_put_step:
  "seqE (opt_put flag put v # cs) (fl, ps) = Inr r \<Longrightarrow> \<exists>qs. seqE cs (flag_if v flag fl, qs) = Inr r"
  by (auto simp: flag_if_def result_simps split: if_splits)

definition all_flags :: "basic_properties \<Rightarrow> nat" where
  "all_flags self =
    (flag_if (cluster_id self) FLAG_CLUSTER_ID
    (flag_if (app_id self) FLAG_APP_ID
    (flag_if (user_id self) FLAG_USER_ID
    (flag_if (message_type self) FLAG_TYPE
    (flag_if (timestamp self) FLAG_TIMESTAMP
    (flag_if (message_id self) FLAG_MESSAGE_ID
    (flag_if (expiration self) FLAG_EXPIRATION
    (flag_if (reply_to self) FLAG_REPLY_TO
    (flag_if (correlation_id self) FLAG_CORRELATION_ID
    (flag_if (priority self) FLAG_PRIORITY
    (flag_if (delivery_mode self) FLAG_DELIVERY_MODE
    (flag_if (headers self) FLAG_HEADERS
    (flag_if (content_encoding self) FLAG_CONTENT_ENCODING
    (flag_if (content_type self) FLAG_CONTENT_TYPE 0))))))))))))))"

lemma bit_all_flags:
  "bit (all_flags self) k \<longleftrightarrow>
     content_type self \<noteq> PNone \<and> k = 15 \<or>
     content_encoding self \<noteq> PNone \<and> k = 14 \<or>
     headers self \<noteq> PNone \<and> k = 13 \<or>
     delivery_mode self \<noteq> PNone \<and> k = 12 \<or>
     priority self \<noteq> PNone \<and> k = 11 \<or>
     correlation_id self \<noteq> PNone \<and> k = 10 \<or>
     reply_to self \<noteq> PNone \<and> k = 9 \<or>
     expiration self \<noteq> PNone \<and> k = 8 \<or>
     message_id self \<noteq> PNone \<and> k = 7 \<or>
     timestamp self \<noteq> PNone \<and> k = 6 \<or>
     message_type self \<noteq> PNone \<and> k = 5 \<or>
     user_id self \<noteq> PNone \<and> k = 4 \<or>
     app_id self \<noteq> PNone \<and> k = 3 \<or>
     cluster_id self \<noteq> PNone \<and> k = 2"
  by (simp only: all_flags_def bit_flag_if FLAG_defs bit_push_one bit_0_eq bot_apply bot_bool_def disj_assoc simp_thms)

lemma bit_all_flags_range: "bit (all_flags self) k \<Longrightarrow> 0 < k \<and> k < 16"
  by (auto simp: bit_all_flags)

lemma encoded_flags:
  "seqE (attribute_steps self) (0, []) = Inr (flags, ps) \<Longrightarrow> flags = all_flags self"
  unfolding all_flags_def attribute_steps_def by (elim opt_put_step[elim_format] exE) simp

lemma flag_words_one:
  assumes "\<And>k. bit F k \<Longrightarrow> 0 < k \<and> k < 16"
  shows "flag_words F = bindE (pack_uint 2 (int F)) (\<lambda>p. Inr [p])"
proof -
  have "drop_bit 16 F = 0"
    by (rule bit_eqI) (auto simp: bit_drop_bit_eq dest: assms)
  moreover have "F AND 0xFFFE = F"
  proof (rule bit_eqI)
    fix k
    have "(0xFFFE :: nat) = push_bit 1 (mask 15)"
      by (simp add: mask_eq_exp_minus_1 push_bit_eq_mult)
    then have "bit (0xFFFE :: nat) k" if "0 < k" "k < 16"
      using that by (simp only: bit_push_bit_iff bit_mask_iff) auto
    with assms[of k] show "bit (F AND 0xFFFE) k = bit F k" by (auto simp: bit_and_iff)
  qed
  ultimately show ?thesis by (simp add: flag_words.simps[of F])
qed

lemma decode_flags_one:
  assumes p: "pack_uint 2 (int F) = Inr p" and F: "\<not> bit F 0"
  shows "decode_flags (Suc f) (pre @ p @ post) (length pre) 0 0 = Inr (F, length pre + 2)"
proof -
  have "F AND 1 = 0" using F by (simp add: and_one_eq bit_0 even_iff_mod_2_eq_zero)
  then show ?thesis using unpack_uint_pack[OF p, of pre post] by simp
qed

section \<open>Optional attributes\<close>

definition wire_opt :: "(pyval \<Rightarrow> pyval) \<Rightarrow> pyval \<Rightarrow> pyval" where
  "wire_opt norm v = (if v = PNone then PNone else norm v)"

text \<open>What the contract of a wire type gives for an optional attribute of that type.\<close>

locale attribute_codec = codec put get norm ok
  for put :: "pyval \<Rightarrow> writer" and get :: "pyval reader" and norm ok
begin

lemma opt_put_then:
  assumes seq: "seqE (opt_put flag put v # cs) (fl, ps) = Inr (fl', ps')" and v: "v \<noteq> PNone \<Longrightarrow> ok v"
    and flag: "F AND flag \<noteq> 0 \<longleftrightarrow> v \<noteq> PNone"
    and rest: "\<And>fl qs. seqE cs (fl, qs) = Inr (fl', ps')
      \<Longrightarrow> written qs ps' (\<lambda>bs. decodes (K (wire_opt norm v)) bs r)"
  shows "written ps ps' (\<lambda>bs. decodes (\<lambda>enc off.
    bindE (opt_get F flag get enc off) (\<lambda>(v, off). K v enc off)) bs r)"
proof (cases "v = PNone")
  case True
  with seq flag have "seqE cs (fl, ps) = Inr (fl', ps')" "F AND flag = 0" by simp_all
  from rest[OF this(1)] this(2) True show ?thesis by (simp add: opt_get_def wire_opt_def)
next
  case False
  with seq obtain qs where qs: "put v ps = Inr qs" "seqE cs (fl OR flag, qs) = Inr (fl', ps')"
    by (auto simp: result_simps)
  have "seqE (put v # [\<lambda>_. Inr ps']) ps = Inr ps'" using qs(1) by simp
  from put_get[OF qs(1) v[OF False]] obtain xs where
    xs: "qs = ps @ xs" "reads get (concat xs) (norm v)" by (auto simp: written_def)
  from rest[OF qs(2)] False obtain ys where ys: "ps' = qs @ ys" "decodes (K (norm v)) (concat ys) r"
    by (auto simp: written_def wire_opt_def)
  from False flag have "F AND flag \<noteq> 0" by simp
  then have "opt_get F flag get = get" by (simp add: opt_get_def fun_eq_iff)
  with xs(1) ys(1) decodes_bind[where K = K, OF xs(2) ys(2)] show ?thesis
    by (intro writtenI[where qs = "xs @ ys"]) auto
qed

end

interpretation opt_uint: attribute_codec "put_uint n" "get_uint n" wire_uint "\<lambda>_. True" for n
  by (intro attribute_codec.intro uint.codec_axioms)

interpretation opt_shortstr: attribute_codec put_shortstr decode_short_string wire_key "\<lambda>_. True"
  by (intro attribute_codec.intro shortstr.codec_axioms)

interpretation opt_table: attribute_codec put_table decode_table wire_table valid_times
  by (intro attribute_codec.intro field_table.codec_axioms)

lemmas opt_put_then = opt_uint.opt_put_then opt_shortstr.opt_put_then opt_table.opt_put_then

definition properties_wire :: "basic_properties \<Rightarrow> basic_properties" where
  "properties_wire self = \<lparr>
     content_type = wire_opt wire_key (content_type self),
     content_encoding = wire_opt wire_key (content_encoding self),
     headers = wire_opt wire_table (headers self),
     delivery_mode = wire_opt wire_uint (delivery_mode self),
     priority = wire_opt wire_uint (priority self),
     correlation_id = wire_opt wire_key (correlation_id self),
     reply_to = wire_opt wire_key (reply_to self),
     expiration = wire_opt wire_key (expiration self),
     message_id = wire_opt wire_key (message_id self),
     timestamp = wire_opt wire_uint (timestamp self),
     message_type = wire_opt wire_key (message_type self),
     user_id = wire_opt wire_key (user_id self),
     app_id = wire_opt wire_key (app_id self),
     cluster_id = wire_opt wire_key (cluster_id self)\<rparr>"

lemma flag_tests:
  "all_flags self AND FLAG_CONTENT_TYPE \<noteq> 0 \<longleftrightarrow> content_type self \<noteq> PNone"
  "all_flags self AND FLAG_CONTENT_ENCODING \<noteq> 0 \<longleftrightarrow> content_encoding self \<noteq> PNone"
  "all_flags self AND FLAG_HEADERS \<noteq> 0 \<longleftrightarrow> headers self \<noteq> PNone"
  "all_flags self AND FLAG_DELIVERY_MODE \<noteq> 0 \<longleftrightarrow> delivery_mode self \<noteq> PNone"
  "all_flags self AND FLAG_PRIORITY \<noteq> 0 \<longleftrightarrow> priority self \<noteq> PNone"
  "all_flags self AND FLAG_CORRELATION_ID \<noteq> 0 \<longleftrightarrow> correlation_id self \<noteq> PNone"
  "all_flags self AND FLAG_REPLY_TO \<noteq> 0 \<longleftrightarrow> reply_to self \<noteq> PNone"
  "all_flags self AND FLAG_EXPIRATION \<noteq> 0 \<longleftrightarrow> expiration self \<noteq> PNone"
  "all_flags self AND FLAG_MESSAGE_ID \<noteq> 0 \<longleftrightarrow> message_id self \<noteq> PNone"
  "all_flags self AND FLAG_TIMESTAMP \<noteq> 0 \<longleftrightarrow> timestamp self \<noteq> PNone"
  "all_flags self AND FLAG_TYPE \<noteq> 0 \<longleftrightarrow> message_type self \<noteq> PNone"
  "all_flags self AND FLAG_USER_ID \<noteq> 0 \<longleftrightarrow> user_id self \<noteq> PNone"
  "all_flags self AND FLAG_APP_ID \<noteq> 0 \<longleftrightarrow> app_id self \<noteq> PNone"
  "all_flags self AND FLAG_CLUSTER_ID \<noteq> 0 \<longleftrightarrow> cluster_id self \<noteq> PNone"
  unfolding FLAG_defs and_push_one bit_all_flags by simp_all

section \<open>Properties\<close>

lemma attributes_read:
  assumes "seqE (attribute_steps self) (0, []) = Inr (flags, pieces)" "valid_times (headers self)"
  shows "decodes (decode_attributes (all_flags self)) (concat pieces) (properties_wire self)"
proof -
  have "written [] pieces (\<lambda>bs. decodes (decode_attributes (all_flags self)) bs (properties_wire self))"
    using assms unfolding attribute_steps_def decode_attributes_def[abs_def]
    by (elim opt_put_then)
      (simp_all only: flag_tests simp_thms, simp, rule writtenI[where qs = "[]"], simp,
        simp add: decodes_def properties_wire_def)
  then show ?thesis by (rule written_Nil)
qed

lemma properties_reads:
  assumes "properties_encode self = Inr ps" "valid_times (headers self)"
  shows "properties_decode (pre @ concat ps @ post) (length pre) = Inr (properties_wire self)"
proof -
  from assms(1) obtain flags pieces fps where seq: "seqE (attribute_steps self) (0, []) = Inr (flags, pieces)"
    and fps: "flag_words flags = Inr fps" and ps: "ps = fps @ pieces"
    by (auto simp: properties_encode_def result_simps)
  let ?F = "all_flags self"
  from encoded_flags[OF seq] fps flag_words_one[OF bit_all_flags_range] obtain p
    where p: "fps = [p]" "pack_uint 2 (int ?F) = Inr p" by (auto simp: result_simps)
  have "decode_attributes ?F (pre @ p @ concat pieces @ post) (length pre + 2) = Inr (properties_wire self)"
    using decodesD[OF attributes_read[OF seq assms(2)], of "pre @ p" post] pack_uint_length[OF p(2)]
    by simp
  moreover have "decode_flags (Suc f) (pre @ p @ concat pieces @ post) (length pre) 0 0
      = Inr (?F, length pre + 2)" for f
    using decode_flags_one[OF p(2)] bit_all_flags_range[of self 0] by blast
  ultimately show ?thesis
    by (simp add: properties_decode_def ps p(1) del: decode_flags.simps)
qed

text \<open>
  C39 (roundtrip). \<open>BasicProperties.decode\<close> on what \<open>encode\<close> has produced restores every
  attribute in its wire form: those that were \<open>None\<close> are \<open>None\<close>, because the flag word
  records exactly which attributes were written.
\<close>

theorem properties_roundtrip:
  assumes "properties_encode self = Inr ps" "valid_times (headers self)"
  shows "properties_decode (pre @ concat ps @ post) (length pre) = Inr (properties_wire self)"
  using assms by (rule properties_reads)

lemma properties_roundtrip_witness:
  "properties_decode [16, 0, 2] 0 = Inr (new_properties\<lparr>delivery_mode := PInt 2\<rparr>)"
proof -
  let ?p = "new_properties\<lparr>delivery_mode := PInt 2\<rparr>"
  have "be_bytes 2 4096 = [16, 0]" by code_simp
  then have "flag_words 4096 = Inr [[16, 0]]"
    by (simp add: flag_words.simps[of 4096] drop_bit_eq_div pack_uint_def)
  then have "properties_encode ?p = Inr [[16, 0], [2]]"
    by (simp add: properties_encode_def attribute_steps_def new_properties_def
        FLAG_DELIVERY_MODE_def put_uint_def pack_uint_def)
  from properties_roundtrip[OF this, of "[]" "[]"] show ?thesis
    by (simp add: new_properties_def properties_wire_def wire_opt_def)
qed

lemma decode_flags_fuel:
  "length encoded < f + offset \<Longrightarrow> 0 < f \<Longrightarrow> decode_flags f encoded offset flags i \<noteq> Inl OutOfFuel"
proof (induction f arbitrary: offset flags i)
  case (Suc f)
  show ?case
  proof
    assume fail: "decode_flags (Suc f) encoded offset flags i = Inl OutOfFuel"
    show False
    proof (cases "unpack_uint 2 encoded offset")
      case (Inl e)
      with fail show False by (auto simp: unpack_uint_def unpack_from_def split: if_splits)
    next
      case (Inr w)
      with unpack_uint_length[OF Inr] Suc.prems have "length encoded < f + (offset + 2)" "0 < f"
        by linarith+
      with Suc.IH fail Inr show False by (auto simp: Let_def split: if_splits)
    qed
  qed
qed simp

lemma decode_flags_more:
  "decode_flags f encoded offset flags i \<noteq> Inl OutOfFuel \<Longrightarrow>
   decode_flags (f + n) encoded offset flags i = decode_flags f encoded offset flags i"
proof (induction f arbitrary: offset flags i)
  case (Suc f)
  then show ?case by (cases "unpack_uint 2 encoded offset") (auto simp: Let_def split: if_splits)
qed simp

text \<open>
  The loop over the flag words ends on every buffer, whatever continuation
  bits it holds: it runs out of bytes (and raises) before the model runs out of fuel, and
  more fuel changes nothing.
\<close>

theorem decode_flags_terminates:
  "decode_flags (Suc (length encoded)) encoded offset flags i \<noteq> Inl OutOfFuel
   \<and> decode_flags (Suc (length encoded) + n) encoded offset flags i
      = decode_flags (Suc (length encoded)) encoded offset flags i"
  using decode_flags_fuel[of encoded "Suc (length encoded)" offset flags i]
    decode_flags_more[of "Suc (length encoded)" encoded offset flags i n]
  by (simp del: decode_flags.simps)

end
