(* ===== verification/Exceptions.thy ===== *)
theory Exceptions
  imports Amqp_Properties
begin

text \<open>
  \<open>pika/exceptions.py\<close>: the class hierarchy as the datatype \<open>exc_class\<close> with \<open>class_base\<close>, and
  exception instances as the datatype \<open>exn\<close>. An instance keeps the arguments the code reads again
  (reply codes and texts, the exception another one was made from); texts that are only logged
  are left out, as is \<open>__repr__\<close>.
\<close>

section \<open>Classes\<close>

datatype exc_class =
  C_Exception
| C_AMQPError
| C_AMQPConnectionError
| C_ConnectionOpenAborted
| C_StreamLostError
| C_IncompatibleProtocolError
| C_AuthenticationError
| C_ProbableAuthenticationError
| C_ProbableAccessDeniedError
| C_NoFreeChannels
| C_ConnectionWrongStateError
| C_ConnectionClosed
| C_ConnectionClosedByBroker
| C_ConnectionClosedByClient
| C_ConnectionBlockedTimeout
| C_AMQPHeartbeatTimeout
| C_AMQPChannelError
| C_ChannelWrongStateError
| C_ChannelClosed
| C_ChannelClosedByBroker
| C_ChannelClosedByClient
| C_DuplicateConsumerTag
| C_ConsumerCancelled
| C_UnroutableError
| C_NackError
| C_InvalidChannelNumber
| C_ProtocolSyntaxError
| C_UnexpectedFrameError
| C_ProtocolVersionMismatch
| C_BodyTooLongError
| C_InvalidFrameError
| C_InvalidFieldTypeException
| C_UnsupportedAMQPFieldException
| C_MethodNotImplemented
| C_ChannelError
| C_ReentrancyError
| C_ShortStringTooLong
| C_DuplicateGetOkCallback

fun class_base :: "exc_class \<Rightarrow> exc_class option" where
  "class_base C_Exception = None"
| "class_base C_AMQPError = Some C_Exception"
| "class_base C_AMQPConnectionError = Some C_AMQPError"
| "class_base C_ConnectionOpenAborted = Some C_AMQPConnectionError"
| "class_base C_StreamLostError = Some C_AMQPConnectionError"
| "class_base C_IncompatibleProtocolError = Some C_AMQPConnectionError"
| "class_base C_AuthenticationError = Some C_AMQPConnectionError"
| "class_base C_ProbableAuthenticationError = Some C_AMQPConnectionError"
| "class_base C_ProbableAccessDeniedError = Some C_AMQPConnectionError"
| "class_base C_NoFreeChannels = Some C_AMQPConnectionError"
| "class_base C_ConnectionWrongStateError = Some C_AMQPConnectionError"
| "class_base C_ConnectionClosed = Some C_AMQPConnectionError"
| "class_base C_ConnectionClosedByBroker = Some C_ConnectionClosed"
| "class_base C_ConnectionClosedByClient = Some C_ConnectionClosed"
| "class_base C_ConnectionBlockedTimeout = Some C_AMQPConnectionError"
| "class_base C_AMQPHeartbeatTimeout = Some C_AMQPConnectionError"
| "class_base C_AMQPChannelError = Some C_AMQPError"
| "class_base C_ChannelWrongStateError = Some C_AMQPChannelError"
| "class_base C_ChannelClosed = Some C_AMQPChannelError"
| "class_base C_ChannelClosedByBroker = Some C_ChannelClosed"
| "class_base C_ChannelClosedByClient = Some C_ChannelClosed"
| "class_base C_DuplicateConsumerTag = Some C_AMQPChannelError"
| "class_base C_ConsumerCancelled = Some C_AMQPChannelError"
| "class_base C_UnroutableError = Some C_AMQPChannelError"
| "class_base C_NackError = Some C_AMQPChannelError"
| "class_base C_InvalidChannelNumber = Some C_AMQPError"
| "class_base C_ProtocolSyntaxError = Some C_AMQPError"
| "class_base C_UnexpectedFrameError = Some C_ProtocolSyntaxError"
| "class_base C_ProtocolVersionMismatch = Some C_ProtocolSyntaxError"
| "class_base C_BodyTooLongError = Some C_ProtocolSyntaxError"
| "class_base C_InvalidFrameError = Some C_ProtocolSyntaxError"
| "class_base C_InvalidFieldTypeException = Some C_ProtocolSyntaxError"
| "class_base C_UnsupportedAMQPFieldException = Some C_ProtocolSyntaxError"
| "class_base C_MethodNotImplemented = Some C_AMQPError"
| "class_base C_ChannelError = Some C_Exception"
| "class_base C_ReentrancyError = Some C_Exception"
| "class_base C_ShortStringTooLong = Some C_AMQPError"
| "class_base C_DuplicateGetOkCallback = Some C_ChannelError"

text \<open>\<open>issubclass\<close>: no class is more than four steps below \<open>Exception\<close>.\<close>

fun subclass_within :: "nat \<Rightarrow> exc_class \<Rightarrow> exc_class \<Rightarrow> bool" where
  "subclass_within 0 c d = (c = d)"
| "subclass_within (Suc n) c d =
     (c = d \<or> (case class_base c of None \<Rightarrow> False | Some b \<Rightarrow> subclass_within n b d))"

definition issubclass :: "exc_class \<Rightarrow> exc_class \<Rightarrow> bool" where
  "issubclass c d = subclass_within 4 c d"

section \<open>Instances\<close>

datatype exn =
  Python_Error py_error
| ConnectionOpenAborted
| StreamLostError
| IncompatibleProtocolError exn
| AuthenticationError
| ProbableAuthenticationError exn
| ProbableAccessDeniedError exn
| NoFreeChannels
| ConnectionWrongStateError
| ConnectionClosedByBroker pyval pyval
| ConnectionClosedByClient pyval pyval
| ConnectionBlockedTimeout
| AMQPHeartbeatTimeout int
| ChannelWrongStateError
| ChannelClosedByBroker pyval pyval
| ChannelClosedByClient pyval pyval
| DuplicateConsumerTag pyval
| ProtocolVersionMismatch
| UnexpectedFrame
| BodyTooLong int int
| DuplicateGetOkCallback
| MethodNotImplemented
| ReentrancyError
| NackError "(meth \<times> basic_properties \<times> bytes) list"
| UnroutableError "(meth \<times> basic_properties \<times> bytes) list"
| AMQPConnectionError
| ZeroDivision

fun class_of :: "exn \<Rightarrow> exc_class" where
  "class_of (Python_Error (ShortStringTooLong _)) = C_ShortStringTooLong"
| "class_of (Python_Error (UnsupportedAMQPFieldException _)) = C_UnsupportedAMQPFieldException"
| "class_of (Python_Error (InvalidFieldTypeException _)) = C_InvalidFieldTypeException"
| "class_of (Python_Error (InvalidFrameError _)) = C_InvalidFrameError"
| "class_of (Python_Error _) = C_Exception"
| "class_of ConnectionOpenAborted = C_ConnectionOpenAborted"
| "class_of StreamLostError = C_StreamLostError"
| "class_of (IncompatibleProtocolError _) = C_IncompatibleProtocolError"
| "class_of AuthenticationError = C_AuthenticationError"
| "class_of (ProbableAuthenticationError _) = C_ProbableAuthenticationError"
| "class_of (ProbableAccessDeniedError _) = C_ProbableAccessDeniedError"
| "class_of NoFreeChannels = C_NoFreeChannels"
| "class_of ConnectionWrongStateError = C_ConnectionWrongStateError"
| "class_of (ConnectionClosedByBroker _ _) = C_ConnectionClosedByBroker"
| "class_of (ConnectionClosedByClient _ _) = C_ConnectionClosedByClient"
| "class_of ConnectionBlockedTimeout = C_ConnectionBlockedTimeout"
| "class_of (AMQPHeartbeatTimeout _) = C_AMQPHeartbeatTimeout"
| "class_of ChannelWrongStateError = C_ChannelWrongStateError"
| "class_of (ChannelClosedByBroker _ _) = C_ChannelClosedByBroker"
| "class_of (ChannelClosedByClient _ _) = C_ChannelClosedByClient"
| "class_of (DuplicateConsumerTag _) = C_DuplicateConsumerTag"
| "class_of ProtocolVersionMismatch = C_ProtocolVersionMismatch"
| "class_of UnexpectedFrame = C_UnexpectedFrameError"
| "class_of (BodyTooLong _ _) = C_BodyTooLongError"
| "class_of DuplicateGetOkCallback = C_DuplicateGetOkCallback"
| "class_of MethodNotImplemented = C_MethodNotImplemented"
| "class_of ReentrancyError = C_ReentrancyError"
| "class_of (NackError _) = C_NackError"
| "class_of (UnroutableError _) = C_UnroutableError"
| "class_of AMQPConnectionError = C_AMQPConnectionError"
| "class_of ZeroDivision = C_Exception"

definition isinstance :: "exn \<Rightarrow> exc_class \<Rightarrow> bool" where
  "isinstance e c = issubclass (class_of e) c"

text \<open>Four steps are enough: every class reaches \<open>Exception\<close>, where the chain ends.\<close>

lemma issubclass_Exception: "issubclass c C_Exception"
  by (cases c) (simp_all add: issubclass_def eval_nat_numeral)

lemma issubclass_refl: "issubclass c c"
  by (simp add: issubclass_def eval_nat_numeral)

lemma issubclass_step:
  "issubclass c d \<longleftrightarrow> c = d \<or> (case class_base c of None \<Rightarrow> False | Some b \<Rightarrow> issubclass b d)"
  by (cases c) (simp_all add: issubclass_def eval_nat_numeral)

section \<open>Actions that may raise\<close>

text \<open>Code that changes a state and may raise; an exception leaves the state as it is then.\<close>

type_synonym ('s, 'a) act = "'s \<Rightarrow> (exn + 'a) \<times> 's"

definition ret :: "'a \<Rightarrow> ('s, 'a) act" where
  "ret x s = (Inr x, s)"

definition raise :: "exn \<Rightarrow> ('s, 'a) act" where
  "raise e s = (Inl e, s)"

definition andThen :: "('s, 'a) act \<Rightarrow> ('a \<Rightarrow> ('s, 'b) act) \<Rightarrow> ('s, 'b) act" where
  "andThen m f s = (case m s of (Inl e, s') \<Rightarrow> (Inl e, s') | (Inr x, s') \<Rightarrow> f x s')"

definition modify :: "('s \<Rightarrow> 's) \<Rightarrow> ('s, unit) act" where
  "modify f s = (Inr (), f s)"

definition query :: "('s \<Rightarrow> 'a) \<Rightarrow> ('s, 'a) act" where
  "query f s = (Inr (f s), s)"

definition unless_error :: "py_error + 'a \<Rightarrow> ('s, 'a) act" where
  "unless_error r s = (case r of Inl e \<Rightarrow> (Inl (Python_Error e), s) | Inr x \<Rightarrow> (Inr x, s))"

fun sequence :: "('s, unit) act list \<Rightarrow> ('s, unit) act" where
  "sequence [] = ret ()"
| "sequence (m # ms) = andThen m (\<lambda>_. sequence ms)"

named_theorems act_simps \<open>what an action does to a state\<close>

lemmas [act_simps] = ret_def raise_def andThen_def modify_def query_def unless_error_def

lemma sequence_simps [act_simps]:
  "sequence [] s = (Inr (), s)"
  "sequence (m # ms) s = (case m s of (Inl e, s') \<Rightarrow> (Inl e, s') | (Inr _, s') \<Rightarrow> sequence ms s')"
  by (simp_all add: andThen_def ret_def)

lemma andThen_Inr:
  "andThen m f s = (Inr y, s'') \<longleftrightarrow> (\<exists>x s'. m s = (Inr x, s') \<and> f x s' = (Inr y, s''))"
  by (auto simp: andThen_def split: prod.splits sum.splits)

end
