(* ===== verification/Workflow.thy ===== *)
theory Workflow
  imports Parameters Exceptions
begin

text \<open>
  \<open>pika/adapters/utils/connection_workflow.py\<close>: \<open>AMQPConnector\<close>, which makes one attempt to connect,
  and \<open>AMQPConnectionWorkflow\<close>, which goes through the addresses of every configuration and tries
  again. Both are state machines driven by the asynchronous services: the ends of their tasks
  and timers are events here. A task or timer that has been cancelled does not call back,
  which is what the services promise. Creating a socket is taken to succeed.
\<close>

section \<open>Results and state\<close>

datatype failure = Socket_timeout | Connector_stack_timeout | System_failure nat | Amqp_failure exn

datatype attempt_error =
  Connector_aborted
| Socket_connect_error failure
| Transport_setup_error failure
| Handshake_error failure
| Resolver_error nat

text \<open>\<open>Aborted_class\<close> is the class \<open>AMQPConnectionWorkflowAborted\<close> itself, which is no exception.\<close>

datatype wf_result = Wf_connected | Wf_aborted | Wf_failed "attempt_error list" | Aborted_class

datatype cn_state = CN_TCP | CN_TRANSPORT | CN_AMQP | CN_TIMEOUT | CN_ABORTING | CN_DONE
datatype cn_task = Tcp_task | Transport_task

text \<open>
  A connector: which timers are armed, its task, whether it owns a socket, and its
  connection, with whether that is closing.
\<close>

record connector =
  cn_state :: cn_state
  tcp_timeout_ref :: bool
  stack_timeout_ref :: bool
  cn_task_ref :: "cn_task option"
  sock :: bool
  amqp_conn :: "bool option"

datatype wf_state = WF_INIT | WF_ACTIVE | WF_ABORTING | WF_DONE

text \<open>The task of the workflow: a timer with its pause, \<open>None\<close> for no pause, or the resolver.\<close>

datatype wf_task = New_cycle bool | Next_config "number option" | Resolving

datatype wf_posted = Report_workflow | Report_connector

text \<open>
  \<open>results\<close> records the calls of the client's \<open>on_done\<close>, \<open>attempts_made\<close> counts the connectors that
  were started, \<open>loop_errors\<close> the exceptions that a callback let through to the event loop.
\<close>

datatype wf_exn = Wrong_state | Assertion_error | Type_error | Value_error | Attribute_error

record workflow =
  wf_state :: wf_state
  attempts_remaining :: int
  retry_pause :: number
  until_first_amqp_attempt :: bool
  current_config_index :: "nat option"
  connection_configs :: "parameters list"
  connector :: "connector option"
  wf_task_ref :: "wf_task option"
  addrinfo_iter :: "nat list"
  connection_errors :: "attempt_error list"
  wf_posted :: "wf_posted list"
  results :: "wf_result list"
  attempts_made :: nat
  loop_errors :: "wf_exn list"

type_synonym wf_act = "workflow \<Rightarrow> wf_exn option \<times> workflow"

definition new_workflow :: "bool \<Rightarrow> workflow" where
  "new_workflow until_first = \<lparr>wf_state = WF_INIT, attempts_remaining = 0, retry_pause = Integral 0,
     until_first_amqp_attempt = until_first, current_config_index = None, connection_configs = [], connector = None,
     wf_task_ref = None, addrinfo_iter = [], connection_errors = [], wf_posted = [], results = [], attempts_made = 0,
     loop_errors = []\<rparr>"

section \<open>\<open>AMQPConnectionWorkflow\<close>\<close>

text \<open>\<open>_report_completion_and_cleanup\<close> with \<open>_close\<close>; afterwards \<open>on_done\<close> is \<open>None\<close>, which cannot be called.\<close>

definition wf_report :: "wf_result \<Rightarrow> wf_act" where
  "wf_report r s =
     (if wf_state s = WF_DONE then (Some Type_error, s)
      else (None, s\<lparr>wf_state := WF_DONE, wf_task_ref := None, connection_configs := [], connector := None,
              addrinfo_iter := [], connection_errors := [], results := results s @ [r]\<rparr>))"

definition start_new_cycle :: "bool \<Rightarrow> wf_act" where
  "start_new_cycle first s =
     (let s = s\<lparr>wf_task_ref := None\<rparr> in
      if attempts_remaining s < 0 then (Some Assertion_error, s)
      else if attempts_remaining s \<le> 0 then wf_report (Wf_failed (connection_errors s)) s
      else (None, s\<lparr>attempts_remaining := attempts_remaining s - 1, current_config_index := None,
              wf_task_ref := Some (Next_config (if first then None else Some (retry_pause s)))\<rparr>))"

definition try_next_config :: wf_act where
  "try_next_config s =
     (let i = (case current_config_index s of None \<Rightarrow> 0 | Some i \<Rightarrow> i + 1);
          s = s\<lparr>wf_task_ref := None, current_config_index := Some i\<rparr>
      in if i \<ge> length (connection_configs s) then start_new_cycle False s
         else (None, s\<lparr>wf_task_ref := Some Resolving\<rparr>))"

text \<open>\<open>AMQPConnector.start\<close>\<close>

definition start_connector :: "parameters \<Rightarrow> connector" where
  "start_connector p = \<lparr>cn_state = CN_TCP, tcp_timeout_ref = (socket_timeout p \<noteq> None),
     stack_timeout_ref = (stack_timeout p \<noteq> None), cn_task_ref = Some Tcp_task, sock = True, amqp_conn = None\<rparr>"

definition try_next_address :: wf_act where
  "try_next_address s =
     (case addrinfo_iter s of
        [] \<Rightarrow> try_next_config s
      | _ # addrs \<Rightarrow>
          (case current_config_index s of
             None \<Rightarrow> (Some Type_error, s)
           | Some i \<Rightarrow> (None, s\<lparr>addrinfo_iter := addrs, attempts_made := attempts_made s + 1,
               connector := Some (start_connector (connection_configs s ! i))\<rparr>)))"

definition on_getaddrinfo :: "nat + nat list \<Rightarrow> wf_act" where
  "on_getaddrinfo r s =
     (let s = s\<lparr>wf_task_ref := None\<rparr> in
      case r of
        Inl e \<Rightarrow> start_new_cycle False (s\<lparr>connection_errors := connection_errors s @ [Resolver_error e]\<rparr>)
      | Inr addrs \<Rightarrow> try_next_address (s\<lparr>addrinfo_iter := addrs\<rparr>))"

text \<open>\<open>_on_connector_done\<close>; \<open>None\<close> is success.\<close>

definition on_connector_done :: "attempt_error option \<Rightarrow> wf_act" where
  "on_connector_done r s =
     (let s = s\<lparr>connector := None\<rparr> in
      case r of
        None \<Rightarrow> wf_report Wf_connected s
      | Some e \<Rightarrow>
          let s = s\<lparr>connection_errors := connection_errors s @ [e]\<rparr> in
          (case e of
             Connector_aborted \<Rightarrow>
               if wf_state s \<noteq> WF_ABORTING then (Some Assertion_error, s) else wf_report Wf_aborted s
           | Handshake_error x \<Rightarrow>
               if until_first_amqp_attempt s
               then wf_report (if x = Amqp_failure ConnectionOpenAborted then Aborted_class else Wf_failed (connection_errors s)) s
               else try_next_address s
           | _ \<Rightarrow> try_next_address s))"

definition wf_start :: "parameters list \<Rightarrow> wf_act" where
  "wf_start configs s =
     (if wf_state s \<noteq> WF_INIT then (Some Wrong_state, s)
      else if configs = [] then (Some Value_error, s)
      else (None, s\<lparr>connection_configs := configs, attempts_remaining := connection_attempts (last configs),
              retry_pause := retry_delay (last configs), wf_state := WF_ACTIVE, wf_task_ref := Some (New_cycle True)\<rparr>))"

section \<open>\<open>AMQPConnector\<close>\<close>

definition set_connector :: "connector \<Rightarrow> workflow \<Rightarrow> workflow" where
  "set_connector c s = s\<lparr>connector := Some c\<rparr>"

definition stopped :: "connector \<Rightarrow> connector" where
  "stopped c = c\<lparr>tcp_timeout_ref := False, stack_timeout_ref := False, cn_task_ref := None\<rparr>"

text \<open>\<open>_report_completion_and_cleanup\<close> with \<open>_close\<close> and \<open>_deactivate\<close>\<close>

definition cn_report :: "attempt_error option \<Rightarrow> connector \<Rightarrow> wf_act" where
  "cn_report r c s =
     (if amqp_conn c \<noteq> None then (Some Assertion_error, set_connector c s)
      else if cn_state c = CN_DONE then (Some Type_error, set_connector c s)
      else on_connector_done r (set_connector ((stopped c)\<lparr>sock := False, cn_state := CN_DONE\<rparr>) s))"

definition on_tcp_timeout :: "connector \<Rightarrow> wf_act" where
  "on_tcp_timeout c = cn_report (Some (Socket_connect_error Socket_timeout)) (c\<lparr>tcp_timeout_ref := False\<rparr>)"

definition on_overall_timeout :: "connector \<Rightarrow> wf_act" where
  "on_overall_timeout c s =
     (let prev_state = cn_state c; c = c\<lparr>stack_timeout_ref := False, cn_state := CN_TIMEOUT\<rparr> in
      if prev_state = CN_AMQP then
        (case amqp_conn c of
           None \<Rightarrow> (Some Attribute_error, set_connector c s)
         | Some _ \<Rightarrow> (None, set_connector (c\<lparr>amqp_conn := Some True\<rparr>) s))
      else if prev_state = CN_TCP then cn_report (Some (Socket_connect_error Connector_stack_timeout)) c s
      else if prev_state = CN_TRANSPORT then cn_report (Some (Transport_setup_error Connector_stack_timeout)) c s
      else (Some Assertion_error, set_connector c s))"

definition on_tcp_done :: "nat option \<Rightarrow> connector \<Rightarrow> wf_act" where
  "on_tcp_done exc c s =
     (let c = c\<lparr>cn_task_ref := None, tcp_timeout_ref := False\<rparr> in
      case exc of
        Some e \<Rightarrow> cn_report (Some (Socket_connect_error (System_failure e))) c s
      | None \<Rightarrow> (None, set_connector (c\<lparr>cn_state := CN_TRANSPORT, cn_task_ref := Some Transport_task, sock := False\<rparr>) s))"

definition on_transport_done :: "nat option \<Rightarrow> connector \<Rightarrow> wf_act" where
  "on_transport_done exc c s =
     (let c = c\<lparr>cn_task_ref := None\<rparr> in
      case exc of
        Some e \<Rightarrow> cn_report (Some (Transport_setup_error (System_failure e))) c s
      | None \<Rightarrow> (None, set_connector (c\<lparr>amqp_conn := Some False, cn_state := CN_AMQP\<rparr>) s))"

definition on_handshake_done :: "exn option \<Rightarrow> connector \<Rightarrow> wf_act" where
  "on_handshake_done error c s =
     (let c = c\<lparr>amqp_conn := None\<rparr> in
      case cn_state c of
        CN_ABORTING \<Rightarrow> cn_report (Some Connector_aborted) c s
      | CN_TIMEOUT \<Rightarrow> cn_report (Some (Handshake_error Connector_stack_timeout)) c s
      | CN_AMQP \<Rightarrow> cn_report (map_option (\<lambda>e. Handshake_error (Amqp_failure e)) error) c s
      | _ \<Rightarrow> (None, set_connector c s))"

definition cn_abort :: "connector \<Rightarrow> wf_act" where
  "cn_abort c s =
     (if cn_state c = CN_DONE then (Some Wrong_state, s)
      else let c = c\<lparr>cn_state := CN_ABORTING\<rparr> in
        case amqp_conn c of
          Some _ \<Rightarrow> (Some Assertion_error, set_connector c s)
        | None \<Rightarrow> (None, set_connector (stopped c) (s\<lparr>wf_posted := wf_posted s @ [Report_connector]\<rparr>)))"

text \<open>
  \<open>AMQPConnectionWorkflow.abort\<close>. What \<open>AMQPConnector.abort\<close> does with a connection is not
  reached: \<open>_deactivate\<close>, which it calls before, asserts that there is none.
\<close>

definition wf_abort :: wf_act where
  "wf_abort s =
     (if wf_state s = WF_INIT \<or> wf_state s = WF_DONE then (Some Wrong_state, s)
      else let s = s\<lparr>wf_state := WF_ABORTING, wf_task_ref := None\<rparr> in
        case connector s of
          None \<Rightarrow> (None, s\<lparr>wf_posted := wf_posted s @ [Report_workflow]\<rparr>)
        | Some c \<Rightarrow> cn_abort c s)"

definition run_report :: "wf_posted \<Rightarrow> wf_act" where
  "run_report p s =
     (case p of
        Report_workflow \<Rightarrow> wf_report Wf_aborted s
      | Report_connector \<Rightarrow>
          (case connector s of None \<Rightarrow> (Some Type_error, s) | Some c \<Rightarrow> cn_report (Some Connector_aborted) c s))"

section \<open>Events\<close>

datatype wf_event =
  Abort_workflow | Timer_expired_wf | Resolved "nat + nat list" | Tcp_done "nat option" | Tcp_timed_out
| Stack_timed_out | Transport_done "nat option" | Handshake_done "exn option" | Run_report

text \<open>An exception that leaves a callback goes to the event loop.\<close>

definition in_loop :: "wf_act \<Rightarrow> workflow \<Rightarrow> workflow" where
  "in_loop m s = (case m s of (None, s) \<Rightarrow> s | (Some e, s) \<Rightarrow> s\<lparr>loop_errors := loop_errors s @ [e]\<rparr>)"

definition on_connector :: "(connector \<Rightarrow> bool) \<Rightarrow> (connector \<Rightarrow> wf_act) \<Rightarrow> workflow \<Rightarrow> workflow option" where
  "on_connector enabled m s =
     (case connector s of None \<Rightarrow> None | Some c \<Rightarrow> if enabled c then Some (in_loop (m c) s) else None)"

text \<open>A connection that is being closed does not open any more.\<close>

fun wf_step :: "wf_event \<Rightarrow> workflow \<Rightarrow> workflow option" where
  "wf_step Abort_workflow s = Some (snd (wf_abort s))"
| "wf_step Timer_expired_wf s =
     (case wf_task_ref s of
        Some (New_cycle first) \<Rightarrow> Some (in_loop (start_new_cycle first) s)
      | Some (Next_config _) \<Rightarrow> Some (in_loop try_next_config s)
      | _ \<Rightarrow> None)"
| "wf_step (Resolved r) s = (if wf_task_ref s = Some Resolving then Some (in_loop (on_getaddrinfo r) s) else None)"
| "wf_step (Tcp_done exc) s = on_connector (\<lambda>c. cn_task_ref c = Some Tcp_task) (on_tcp_done exc) s"
| "wf_step Tcp_timed_out s = on_connector tcp_timeout_ref on_tcp_timeout s"
| "wf_step Stack_timed_out s = on_connector stack_timeout_ref on_overall_timeout s"
| "wf_step (Transport_done exc) s = on_connector (\<lambda>c. cn_task_ref c = Some Transport_task) (on_transport_done exc) s"
| "wf_step (Handshake_done error) s =
     on_connector (\<lambda>c. amqp_conn c = Some False \<or> amqp_conn c = Some True \<and> error \<noteq> None) (on_handshake_done error) s"
| "wf_step Run_report s =
     (case wf_posted s of [] \<Rightarrow> None | p # ps \<Rightarrow> Some (in_loop (run_report p) (s\<lparr>wf_posted := ps\<rparr>)))"

definition started :: "bool \<Rightarrow> parameters list \<Rightarrow> workflow" where
  "started until_first configs = snd (wf_start configs (new_workflow until_first))"

section \<open>The invariant\<close>

named_theorems workflow_defs \<open>the operations of the connector and the workflow\<close>

lemmas [workflow_defs] =
  wf_report_def start_new_cycle_def try_next_config_def try_next_address_def on_getaddrinfo_def on_connector_done_def
  set_connector_def stopped_def cn_report_def on_tcp_timeout_def on_overall_timeout_def on_tcp_done_def
  on_transport_done_def on_handshake_done_def run_report_def start_connector_def

definition cn_ok :: "connector \<Rightarrow> bool" where
  "cn_ok c \<longleftrightarrow>
     (case cn_state c of
        CN_TCP \<Rightarrow> cn_task_ref c = Some Tcp_task \<and> amqp_conn c = None
      | CN_TRANSPORT \<Rightarrow> cn_task_ref c = Some Transport_task \<and> amqp_conn c = None \<and> \<not> tcp_timeout_ref c
      | CN_AMQP \<Rightarrow> cn_task_ref c = None \<and> amqp_conn c = Some False \<and> \<not> tcp_timeout_ref c
      | CN_TIMEOUT \<Rightarrow> cn_task_ref c = None \<and> amqp_conn c \<noteq> None \<and> \<not> tcp_timeout_ref c \<and> \<not> stack_timeout_ref c
      | CN_ABORTING \<Rightarrow> cn_task_ref c = None \<and> \<not> tcp_timeout_ref c \<and> (amqp_conn c = None \<longrightarrow> \<not> stack_timeout_ref c)
      | CN_DONE \<Rightarrow> False)"

definition index_ok :: "workflow \<Rightarrow> bool" where
  "index_ok s \<longleftrightarrow> (\<exists>i. current_config_index s = Some i \<and> i < length (connection_configs s))"

text \<open>
  A workflow that has not reported waits for exactly one thing: its own task, its connector, or
  the report of an abort that was accepted.
\<close>

definition wf_ok :: "workflow \<Rightarrow> bool" where
  "wf_ok s \<longleftrightarrow>
     (if wf_state s = WF_DONE then wf_task_ref s = None \<and> connector s = None \<and> length (results s) = 1
      else wf_state s \<noteq> WF_INIT \<and> results s = [] \<and> 0 \<le> attempts_remaining s \<and>
        (case connector s of
           None \<Rightarrow>
             if wf_posted s = [] then wf_task_ref s \<noteq> None \<and> (wf_task_ref s = Some Resolving \<longrightarrow> index_ok s)
             else wf_task_ref s = None \<and> wf_state s = WF_ABORTING \<and> set (wf_posted s) \<subseteq> {Report_workflow}
         | Some c \<Rightarrow>
             wf_task_ref s = None \<and> cn_ok c \<and> index_ok s \<and> (cn_state c = CN_ABORTING \<longrightarrow> wf_state s = WF_ABORTING) \<and>
             (if cn_state c = CN_ABORTING \<and> amqp_conn c = None
              then wf_posted s \<noteq> [] \<and> set (wf_posted s) \<subseteq> {Report_connector} else wf_posted s = [])))"

definition configs_ok :: "parameters list \<Rightarrow> bool" where
  "configs_ok configs \<longleftrightarrow> configs \<noteq> [] \<and> list_all params_ok configs"

text \<open>Between two things to wait for\<close>

definition between :: "workflow \<Rightarrow> bool" where
  "between s \<longleftrightarrow> wf_state s \<noteq> WF_INIT \<and> wf_state s \<noteq> WF_DONE \<and> results s = [] \<and> 0 \<le> attempts_remaining s
     \<and> connector s = None \<and> wf_task_ref s = None \<and> wf_posted s = []"

lemma wf_ok_in_loop [simp]: "wf_ok (in_loop m s) \<longleftrightarrow> wf_ok (snd (m s))"
  by (auto simp: in_loop_def wf_ok_def index_ok_def split: prod.splits option.splits)

lemma wf_report_keeps: "wf_state s \<noteq> WF_DONE \<Longrightarrow> results s = [] \<Longrightarrow> wf_ok (snd (wf_report r s))"
  by (simp add: wf_report_def wf_ok_def)

lemma start_new_cycle_keeps: "between s \<Longrightarrow> wf_ok (snd (start_new_cycle first s))"
  by (auto simp: start_new_cycle_def Let_def between_def wf_report_def wf_ok_def)

lemma try_next_config_keeps: "between s \<Longrightarrow> wf_ok (snd (try_next_config s))"
proof (cases "(case current_config_index s of None \<Rightarrow> 0 | Some i \<Rightarrow> i + 1) \<ge> length (connection_configs s)")
  case True
  assume "between s"
  with True show ?thesis
    by (auto simp: try_next_config_def Let_def between_def intro!: start_new_cycle_keeps)
next
  case False
  assume "between s"
  with False show ?thesis
    by (auto simp: try_next_config_def Let_def between_def wf_ok_def index_ok_def not_le)
qed

lemma try_next_address_keeps:
  assumes "between s" "index_ok s"
  shows "wf_ok (snd (try_next_address s))"
proof (cases "addrinfo_iter s")
  case Nil
  with assms show ?thesis by (simp add: try_next_address_def try_next_config_keeps)
next
  case Cons
  with assms show ?thesis
    by (auto simp: try_next_address_def index_ok_def start_connector_def wf_ok_def cn_ok_def between_def)
qed

lemma on_connector_done_keeps:
  assumes "between (s\<lparr>connector := None\<rparr>)" "index_ok s" "r = Some Connector_aborted \<Longrightarrow> wf_state s = WF_ABORTING"
  shows "wf_ok (snd (on_connector_done r s))"
proof (cases r)
  case None
  with assms show ?thesis by (auto simp: on_connector_done_def Let_def between_def intro!: wf_report_keeps)
next
  case (Some e)
  with assms show ?thesis
    by (cases e)
      (auto simp: on_connector_done_def Let_def between_def index_ok_def intro!: wf_report_keeps try_next_address_keeps)
qed

lemma cn_report_keeps:
  assumes "between (s\<lparr>connector := None\<rparr>)" "index_ok s" "r = Some Connector_aborted \<Longrightarrow> wf_state s = WF_ABORTING"
    "amqp_conn c = None" "cn_state c \<noteq> CN_DONE"
  shows "wf_ok (snd (cn_report r c s))"
  using assms
  by (auto simp: cn_report_def set_connector_def between_def index_ok_def intro!: on_connector_done_keeps)

lemma wf_ok_connectorE:
  assumes "wf_ok s" "connector s = Some c" "amqp_conn c \<noteq> None \<or> cn_state c \<noteq> CN_ABORTING"
  shows "between (s\<lparr>connector := None\<rparr>)" "index_ok s" "cn_ok c" "cn_state c = CN_ABORTING \<Longrightarrow> wf_state s = WF_ABORTING"
  using assms by (auto simp: wf_ok_def between_def split: if_splits)

lemma set_connector_keeps:
  assumes "between (s\<lparr>connector := None\<rparr>)" "index_ok s" "cn_ok c" "cn_state c \<noteq> CN_ABORTING"
  shows "wf_ok (snd (None, set_connector c s))"
  using assms by (auto simp: set_connector_def wf_ok_def between_def index_ok_def)

section \<open>Every event keeps the invariant\<close>

lemma tcp_done_keeps:
  assumes "wf_ok s" "connector s = Some c" "cn_task_ref c = Some Tcp_task"
  shows "wf_ok (snd (on_tcp_done exc c s))"
proof -
  have "cn_state c = CN_TCP" "amqp_conn c = None"
    using assms by (auto simp: wf_ok_def cn_ok_def split: if_splits cn_state.splits)
  with assms wf_ok_connectorE [OF assms(1,2)] show ?thesis
    by (cases exc) (auto simp: on_tcp_done_def Let_def cn_ok_def intro!: cn_report_keeps set_connector_keeps [unfolded snd_conv])
qed

lemma tcp_timeout_keeps:
  assumes "wf_ok s" "connector s = Some c" "tcp_timeout_ref c"
  shows "wf_ok (snd (on_tcp_timeout c s))"
proof -
  have "cn_state c = CN_TCP" "amqp_conn c = None"
    using assms by (auto simp: wf_ok_def cn_ok_def split: if_splits cn_state.splits)
  with assms wf_ok_connectorE [OF assms(1,2)] show ?thesis
    by (auto simp: on_tcp_timeout_def intro!: cn_report_keeps)
qed

lemma transport_done_keeps:
  assumes "wf_ok s" "connector s = Some c" "cn_task_ref c = Some Transport_task"
  shows "wf_ok (snd (on_transport_done exc c s))"
proof -
  have "cn_state c = CN_TRANSPORT" "amqp_conn c = None"
    using assms by (auto simp: wf_ok_def cn_ok_def split: if_splits cn_state.splits)
  with assms wf_ok_connectorE [OF assms(1,2)] show ?thesis
    by (cases exc) (auto simp: on_transport_done_def Let_def cn_ok_def intro!: cn_report_keeps set_connector_keeps [unfolded snd_conv])
qed

lemma overall_timeout_keeps:
  assumes "wf_ok s" "connector s = Some c" "stack_timeout_ref c"
  shows "wf_ok (snd (on_overall_timeout c s))"
proof -
  have st: "cn_state c = CN_TCP \<and> amqp_conn c = None \<or> cn_state c = CN_TRANSPORT \<and> amqp_conn c = None
      \<or> cn_state c \<in> {CN_AMQP, CN_ABORTING} \<and> amqp_conn c \<noteq> None"
    using assms by (auto simp: wf_ok_def cn_ok_def split: if_splits cn_state.splits)
  then have "amqp_conn c \<noteq> None \<or> cn_state c \<noteq> CN_ABORTING" by auto
  note c = wf_ok_connectorE [OF assms(1,2) this]
  from st c assms(3) show ?thesis
    by (auto simp: on_overall_timeout_def Let_def cn_ok_def intro!: cn_report_keeps set_connector_keeps [unfolded snd_conv])
qed

lemma handshake_done_keeps:
  assumes "wf_ok s" "connector s = Some c" "amqp_conn c \<noteq> None"
  shows "wf_ok (snd (on_handshake_done error c s))"
proof -
  have st: "cn_state c \<in> {CN_AMQP, CN_TIMEOUT, CN_ABORTING}"
    using assms by (auto simp: wf_ok_def cn_ok_def split: if_splits cn_state.splits)
  from assms(3) have "amqp_conn c \<noteq> None \<or> cn_state c \<noteq> CN_ABORTING" by auto
  note c = wf_ok_connectorE [OF assms(1,2) this]
  from st c show ?thesis
    by (auto simp: on_handshake_done_def Let_def map_option_case intro!: cn_report_keeps split: option.splits)
qed

lemma run_report_keeps:
  assumes "wf_ok s" "wf_posted s = p # ps"
  shows "wf_ok (snd (run_report p (s\<lparr>wf_posted := ps\<rparr>)))"
proof (cases "wf_state s = WF_DONE")
  case True
  with assms show ?thesis
    by (cases p) (auto simp: run_report_def wf_report_def wf_ok_def)
next
  case False
  with assms show ?thesis
    by (auto simp: run_report_def wf_report_def wf_ok_def cn_report_def set_connector_def on_connector_done_def Let_def
        split: option.splits if_splits)
qed

lemma wf_abort_keeps: "wf_ok s \<Longrightarrow> wf_ok (snd (wf_abort s))"
  by (auto simp: wf_abort_def cn_abort_def stopped_def set_connector_def wf_ok_def cn_ok_def index_ok_def Let_def
      split: option.splits if_splits cn_state.splits)

lemma wf_ok_taskE:
  assumes "wf_ok s" "wf_task_ref s = Some k"
  shows "between (s\<lparr>wf_task_ref := None\<rparr>)" "k = Resolving \<Longrightarrow> index_ok s"
  using assms by (auto simp: wf_ok_def between_def split: if_splits option.splits)

lemma start_new_cycle_task [simp]: "start_new_cycle b (s\<lparr>wf_task_ref := None\<rparr>) = start_new_cycle b s"
  by (simp add: start_new_cycle_def Let_def)

lemma try_next_config_task [simp]: "try_next_config (s\<lparr>wf_task_ref := None\<rparr>) = try_next_config s"
  by (simp add: try_next_config_def Let_def)

lemma task_done_keeps:
  assumes "wf_ok s" "wf_task_ref s = Some k"
  shows "wf_ok (snd (start_new_cycle b s))" "wf_ok (snd (try_next_config s))"
  using start_new_cycle_keeps [OF wf_ok_taskE(1) [OF assms]] try_next_config_keeps [OF wf_ok_taskE(1) [OF assms]] by simp_all

lemma resolved_keeps:
  assumes "wf_ok s" "wf_task_ref s = Some Resolving"
  shows "wf_ok (snd (on_getaddrinfo r s))"
proof -
  from assms have "between (s\<lparr>wf_task_ref := None\<rparr>)" "index_ok s" by (auto dest: wf_ok_taskE)
  then show ?thesis
    by (cases r) (auto simp: on_getaddrinfo_def Let_def between_def index_ok_def
        intro!: start_new_cycle_keeps try_next_address_keeps)
qed

lemma wf_step_keeps: "wf_ok s \<Longrightarrow> wf_step e s = Some t \<Longrightarrow> wf_ok t"
  by (cases e)
    (auto simp: on_connector_def task_done_keeps resolved_keeps tcp_done_keeps tcp_timeout_keeps transport_done_keeps
      overall_timeout_keeps handshake_done_keeps run_report_keeps wf_abort_keeps
      split: option.splits wf_task.splits if_splits list.splits)

lemma started_ok: "configs_ok configs \<Longrightarrow> wf_ok (started until_first configs)"
  by (auto simp: started_def wf_start_def new_workflow_def wf_ok_def configs_ok_def params_ok_def list_all_iff)
    (metis last_in_set order_trans zero_le_one)

interpretation workflow: invariant_system "started until_first configs" wf_step "\<lambda>s. configs_ok configs \<longrightarrow> wf_ok s"
  for until_first configs
  by unfold_locales (auto simp: started_ok dest: wf_step_keeps)

end
