(* ===== verification/Workflow_Properties.thy ===== *)
theory Workflow_Properties
  imports Workflow
begin

text \<open>
  The connection workflow reports to its client exactly once: every event that is not an abort
  brings it closer to the end (\<open>closer\<close>, a lexicographic order of seven measures). What an
  abort does, when it is accepted and when it is not, and that nothing raises without one.
\<close>

section \<open>Progress\<close>

definition finished_rank :: "workflow \<Rightarrow> nat" where "finished_rank s = (if wf_state s = WF_DONE then 0 else 1)"

definition configs_left :: "workflow \<Rightarrow> nat" where
  "configs_left s = length (connection_configs s) - (case current_config_index s of None \<Rightarrow> 0 | Some i \<Rightarrow> i + 1)"

definition resolving_rank :: "workflow \<Rightarrow> nat" where
  "resolving_rank s = (if wf_task_ref s = Some Resolving then 1 else 0)"

definition cn_rank :: "workflow \<Rightarrow> nat" where
  "cn_rank s =
     (case connector s of
        None \<Rightarrow> 0
      | Some c \<Rightarrow>
          (case cn_state c of
             CN_TCP \<Rightarrow> 4 | CN_TRANSPORT \<Rightarrow> 3 | CN_AMQP \<Rightarrow> 2 | CN_ABORTING \<Rightarrow> 2 | CN_TIMEOUT \<Rightarrow> 1 | CN_DONE \<Rightarrow> 0))"

lemmas wf_ranks = finished_rank_def configs_left_def resolving_rank_def cn_rank_def

definition closer :: "(workflow \<times> workflow) set" where
  "closer = measures [finished_rank, \<lambda>s. nat (attempts_remaining s), configs_left, resolving_rank,
     \<lambda>s. length (addrinfo_iter s), cn_rank, \<lambda>s. length (wf_posted s)]"

lemma wf_closer: "wf closer"
  by (simp add: closer_def)

lemma in_loop_closer [simp]: "(in_loop m s, t) \<in> closer \<longleftrightarrow> (snd (m s), t) \<in> closer"
  by (auto simp: in_loop_def closer_def wf_ranks split: prod.splits option.splits)

lemma wf_report_closer: "wf_state s \<noteq> WF_DONE \<Longrightarrow> wf_state t \<noteq> WF_DONE \<Longrightarrow> (snd (wf_report r s), t) \<in> closer"
  by (simp add: wf_report_def closer_def wf_ranks)

lemma start_new_cycle_closer:
  "wf_state s \<noteq> WF_DONE \<Longrightarrow> wf_state t \<noteq> WF_DONE \<Longrightarrow> 0 \<le> attempts_remaining s \<Longrightarrow> attempts_remaining t = attempts_remaining s
    \<Longrightarrow> (snd (start_new_cycle first s), t) \<in> closer"
  by (auto simp: start_new_cycle_def Let_def wf_report_def closer_def finished_rank_def)

text \<open>\<open>t\<close> is the state when the event came, \<open>s\<close> what the callback has made of it so far.\<close>

definition same_stage :: "workflow \<Rightarrow> workflow \<Rightarrow> bool" where
  "same_stage s t \<longleftrightarrow> wf_state s \<noteq> WF_DONE \<and> wf_state t \<noteq> WF_DONE \<and> 0 \<le> attempts_remaining s
     \<and> attempts_remaining t = attempts_remaining s \<and> connection_configs t = connection_configs s
     \<and> current_config_index t = current_config_index s"

lemma try_next_config_closer:
  assumes "same_stage s t"
  shows "(snd (try_next_config s), t) \<in> closer"
proof (cases "(case current_config_index s of None \<Rightarrow> 0 | Some i \<Rightarrow> i + 1) \<ge> length (connection_configs s)")
  case True
  with assms show ?thesis
    by (auto simp: try_next_config_def Let_def same_stage_def intro!: start_new_cycle_closer)
next
  case False
  with assms show ?thesis
    by (auto simp: try_next_config_def Let_def same_stage_def closer_def finished_rank_def configs_left_def
        split: option.splits)
qed

lemma try_next_address_closer:
  assumes "same_stage s t" "index_ok s"
    and "addrinfo_iter s \<noteq> [] \<Longrightarrow> wf_task_ref s \<noteq> Some Resolving \<and>
      (wf_task_ref t = Some Resolving \<or> addrinfo_iter t = addrinfo_iter s)"
  shows "(snd (try_next_address s), t) \<in> closer"
proof (cases "addrinfo_iter s")
  case Nil
  with assms show ?thesis by (simp add: try_next_address_def try_next_config_closer)
next
  case Cons
  with assms show ?thesis
    by (auto simp: try_next_address_def index_ok_def same_stage_def closer_def finished_rank_def configs_left_def
        resolving_rank_def)
qed

lemma on_connector_done_closer:
  assumes "wf_ok t" "connector t = Some c" "same_stage s t" "index_ok s" "addrinfo_iter s = addrinfo_iter t"
    "wf_task_ref s = None" "r = Some Connector_aborted \<Longrightarrow> wf_state s = WF_ABORTING"
  shows "(snd (on_connector_done r s), t) \<in> closer"
proof -
  let ?s = "s\<lparr>connector := None\<rparr>"
  have s: "wf_state ?s \<noteq> WF_DONE" "wf_state t \<noteq> WF_DONE" using assms by (auto simp: same_stage_def)
  have next_one: "(snd (try_next_address (?s\<lparr>connection_errors := es\<rparr>)), t) \<in> closer" for es
    using assms by (intro try_next_address_closer) (auto simp: same_stage_def index_ok_def)
  show ?thesis
  proof (cases r)
    case None
    with s show ?thesis by (auto simp: on_connector_done_def Let_def intro!: wf_report_closer)
  next
    case (Some e)
    with s next_one assms(7) show ?thesis
      by (cases e) (auto simp: on_connector_done_def Let_def intro!: wf_report_closer)
  qed
qed

lemma cn_report_closer:
  assumes "wf_ok t" "connector t = Some c0" "wf_state t \<noteq> WF_DONE" "index_ok t" "amqp_conn c = None" "cn_state c \<noteq> CN_DONE"
    "r = Some Connector_aborted \<Longrightarrow> wf_state t = WF_ABORTING"
  shows "(snd (cn_report r c t), t) \<in> closer"
proof -
  have "wf_task_ref t = None" "0 \<le> attempts_remaining t"
    using assms by (auto simp: wf_ok_def split: if_splits)
  with assms show ?thesis
    by (auto simp: cn_report_def set_connector_def Let_def same_stage_def index_ok_def intro!: on_connector_done_closer)
qed

lemma set_connector_closer:
  assumes "connector t = Some c0" "cn_rank (t\<lparr>connector := Some c\<rparr>) < cn_rank t"
  shows "(set_connector c t, t) \<in> closer"
  using assms by (simp add: closer_def set_connector_def finished_rank_def configs_left_def resolving_rank_def)

lemma connector_live:
  assumes "wf_ok t" "connector t = Some c"
  shows "wf_state t \<noteq> WF_DONE" "index_ok t" "cn_state c \<noteq> CN_DONE"
    "cn_state c = CN_ABORTING \<Longrightarrow> wf_state t = WF_ABORTING"
  using assms by (auto simp: wf_ok_def cn_ok_def split: if_splits)

lemma tcp_done_closer:
  assumes "wf_ok t" "connector t = Some c" "cn_task_ref c = Some Tcp_task"
  shows "(snd (on_tcp_done exc c t), t) \<in> closer"
proof -
  have "cn_state c = CN_TCP" "amqp_conn c = None"
    using assms by (auto simp: wf_ok_def cn_ok_def split: if_splits cn_state.splits)
  with assms(2) connector_live [OF assms(1,2)] show ?thesis
    by (cases exc)
      (auto simp: on_tcp_done_def Let_def cn_rank_def intro!: cn_report_closer [OF assms(1,2)] set_connector_closer)
qed

lemma tcp_timeout_closer:
  assumes "wf_ok t" "connector t = Some c" "tcp_timeout_ref c"
  shows "(snd (on_tcp_timeout c t), t) \<in> closer"
proof -
  have "cn_state c = CN_TCP" "amqp_conn c = None"
    using assms by (auto simp: wf_ok_def cn_ok_def split: if_splits cn_state.splits)
  with connector_live [OF assms(1,2)] show ?thesis
    by (auto simp: on_tcp_timeout_def intro!: cn_report_closer [OF assms(1,2)])
qed

lemma transport_done_closer:
  assumes "wf_ok t" "connector t = Some c" "cn_task_ref c = Some Transport_task"
  shows "(snd (on_transport_done exc c t), t) \<in> closer"
proof -
  have "cn_state c = CN_TRANSPORT" "amqp_conn c = None"
    using assms by (auto simp: wf_ok_def cn_ok_def split: if_splits cn_state.splits)
  with assms(2) connector_live [OF assms(1,2)] show ?thesis
    by (cases exc)
      (auto simp: on_transport_done_def Let_def cn_rank_def intro!: cn_report_closer [OF assms(1,2)] set_connector_closer)
qed

lemma overall_timeout_closer:
  assumes "wf_ok t" "connector t = Some c" "stack_timeout_ref c"
  shows "(snd (on_overall_timeout c t), t) \<in> closer"
proof -
  have "cn_state c = CN_TCP \<and> amqp_conn c = None \<or> cn_state c = CN_TRANSPORT \<and> amqp_conn c = None
      \<or> cn_state c \<in> {CN_AMQP, CN_ABORTING} \<and> amqp_conn c \<noteq> None"
    using assms by (auto simp: wf_ok_def cn_ok_def split: if_splits cn_state.splits)
  with assms(2) connector_live [OF assms(1,2)] show ?thesis
    by (auto simp: on_overall_timeout_def Let_def cn_rank_def
        intro!: cn_report_closer [OF assms(1,2)] set_connector_closer)
qed

lemma handshake_done_closer:
  assumes "wf_ok t" "connector t = Some c" "amqp_conn c \<noteq> None"
  shows "(snd (on_handshake_done error c t), t) \<in> closer"
proof -
  have "cn_state c \<in> {CN_AMQP, CN_TIMEOUT, CN_ABORTING}"
    using assms by (auto simp: wf_ok_def cn_ok_def split: if_splits cn_state.splits)
  with connector_live [OF assms(1,2)] show ?thesis
    by (auto simp: on_handshake_done_def Let_def map_option_case intro!: cn_report_closer [OF assms(1,2)]
        split: option.splits)
qed

lemma run_report_closer:
  assumes "wf_ok t" "wf_posted t = p # ps"
  shows "(snd (run_report p (t\<lparr>wf_posted := ps\<rparr>)), t) \<in> closer"
proof (cases "wf_state t = WF_DONE")
  case True
  with assms show ?thesis
    by (cases p) (auto simp: run_report_def wf_report_def wf_ok_def closer_def wf_ranks)
next
  case False
  with assms show ?thesis
    by (auto simp: run_report_def wf_report_def wf_ok_def cn_report_def set_connector_def on_connector_done_def Let_def
        closer_def finished_rank_def split: option.splits if_splits)
qed

lemma task_stage: "wf_ok t \<Longrightarrow> wf_task_ref t = Some k \<Longrightarrow> same_stage t t"
  by (auto simp: wf_ok_def same_stage_def split: if_splits)

lemma resolved_closer:
  assumes "wf_ok t" "wf_task_ref t = Some Resolving"
  shows "(snd (on_getaddrinfo r t), t) \<in> closer"
proof -
  from assms have "same_stage t t" "index_ok t" by (auto simp: task_stage dest: wf_ok_taskE)
  with assms(2) show ?thesis
    by (cases r) (auto simp: on_getaddrinfo_def Let_def same_stage_def index_ok_def
        intro!: start_new_cycle_closer try_next_address_closer)
qed

lemma task_done_closer:
  assumes "wf_ok t" "wf_task_ref t = Some k"
  shows "(snd (start_new_cycle b t), t) \<in> closer" "(snd (try_next_config t), t) \<in> closer"
  using task_stage [OF assms] by (auto simp: try_next_config_closer) (auto simp: same_stage_def intro!: start_new_cycle_closer)

lemma wf_step_closer: "wf_ok s \<Longrightarrow> e \<noteq> Abort_workflow \<Longrightarrow> wf_step e s = Some t \<Longrightarrow> (t, s) \<in> closer"
  by (cases e)
    (auto simp: on_connector_def task_done_closer resolved_closer tcp_done_closer tcp_timeout_closer transport_done_closer
      overall_timeout_closer handshake_done_closer run_report_closer
      split: option.splits wf_task.splits if_splits list.splits)

lemma wf_enabled:
  assumes "wf_ok s" "wf_state s \<noteq> WF_DONE"
  shows "\<exists>e t. e \<noteq> Abort_workflow \<and> wf_step e s = Some t"
proof (cases "connector s")
  case None
  show ?thesis
  proof (cases "wf_posted s")
    case Nil
    with None assms obtain k where k: "wf_task_ref s = Some k" by (auto simp: wf_ok_def split: if_splits)
    then show ?thesis
      by (cases k) (auto intro: exI [of _ Timer_expired_wf] exI [of _ "Resolved (Inr [])"])
  next
    case Cons
    then show ?thesis by (intro exI [of _ Run_report]) auto
  qed
next
  case (Some c)
  consider "cn_state c = CN_ABORTING \<and> amqp_conn c = None" | "cn_task_ref c = Some Tcp_task"
    | "cn_task_ref c = Some Transport_task" | "amqp_conn c \<noteq> None"
    using Some assms by (auto simp: wf_ok_def cn_ok_def split: cn_state.splits)
  then show ?thesis
  proof cases
    case 1
    with Some assms show ?thesis
      by (intro exI [of _ Run_report]) (auto simp: wf_ok_def neq_Nil_conv split: list.splits)
  next
    case 2
    with Some show ?thesis by (intro exI [of _ "Tcp_done None"]) (auto simp: on_connector_def)
  next
    case 3
    with Some show ?thesis by (intro exI [of _ "Transport_done None"]) (auto simp: on_connector_def)
  next
    case 4
    with Some show ?thesis
      by (intro exI [of _ "Handshake_done (Some StreamLostError)"]) (auto simp: on_connector_def)
  qed
qed

text \<open>\<open>ends_reported s\<close>: whatever the services report and in which order, the client is called in the end.\<close>

inductive ends_reported :: "workflow \<Rightarrow> bool" where
  ends_now: "wf_state s = WF_DONE \<Longrightarrow> ends_reported s"
| ends_later: "(\<exists>e t. e \<noteq> Abort_workflow \<and> wf_step e s = Some t) \<Longrightarrow>
    (\<And>e t. e \<noteq> Abort_workflow \<Longrightarrow> wf_step e s = Some t \<Longrightarrow> ends_reported t) \<Longrightarrow> ends_reported s"

lemma wf_ok_ends: "wf_ok s \<Longrightarrow> ends_reported s"
proof (induction s rule: wf_induct_rule [OF wf_closer])
  case (1 s)
  show ?case
  proof (cases "wf_state s = WF_DONE")
    case True
    then show ?thesis by (rule ends_now)
  next
    case False
    show ?thesis
      using wf_enabled [OF 1(2) False]
      by (rule ends_later) (use 1 in \<open>auto intro: wf_step_closer wf_step_keeps\<close>)
  qed
qed

section \<open>Aborting\<close>

text \<open>An abort that was accepted leaves nothing but its report.\<close>

definition sealed :: "workflow \<Rightarrow> bool" where
  "sealed s \<longleftrightarrow> wf_ok s \<and>
     (if wf_state s = WF_DONE then results s = [Wf_aborted] else wf_state s = WF_ABORTING \<and> wf_posted s \<noteq> [])"

lemma abort_seals: "wf_ok s \<Longrightarrow> wf_abort s = (None, t) \<Longrightarrow> sealed t"
  using wf_abort_keeps [of s]
  by (auto simp: sealed_def wf_abort_def cn_abort_def set_connector_def stopped_def Let_def
      split: if_splits option.splits)

lemma sealed_connector:
  assumes "sealed s" "connector s = Some c"
  shows "cn_task_ref c = None \<and> amqp_conn c = None \<and> cn_state c = CN_ABORTING \<and> \<not> tcp_timeout_ref c \<and> \<not> stack_timeout_ref c"
  using assms by (auto simp: sealed_def wf_ok_def cn_ok_def split: if_splits)

lemma sealed_task: "sealed s \<Longrightarrow> wf_task_ref s = None"
  by (auto simp: sealed_def wf_ok_def split: if_splits option.splits)

lemma sealed_report:
  assumes "sealed s" "wf_posted s = p # ps"
  shows "sealed (in_loop (run_report p) (s\<lparr>wf_posted := ps\<rparr>))"
proof -
  from assms have "wf_ok (in_loop (run_report p) (s\<lparr>wf_posted := ps\<rparr>))"
    by (auto simp: sealed_def run_report_keeps)
  moreover have "wf_state (in_loop (run_report p) (s\<lparr>wf_posted := ps\<rparr>)) = WF_DONE"
    "results (in_loop (run_report p) (s\<lparr>wf_posted := ps\<rparr>)) = [Wf_aborted]"
    using assms
    by (cases p; auto simp: in_loop_def run_report_def wf_report_def sealed_def wf_ok_def cn_report_def
        set_connector_def on_connector_done_def Let_def split: option.splits if_splits)+
  ultimately show ?thesis by (simp add: sealed_def)
qed

lemma sealed_abort: "sealed s \<Longrightarrow> sealed (snd (wf_abort s))"
proof (cases "wf_state s = WF_DONE")
  case True
  then show "sealed s \<Longrightarrow> sealed (snd (wf_abort s))" by (simp add: wf_abort_def)
next
  case False
  assume s: "sealed s"
  with False have "fst (wf_abort s) = None"
    by (auto simp: wf_abort_def cn_abort_def sealed_def wf_ok_def Let_def split: option.splits dest: sealed_connector [OF s])
  with s show ?thesis
    by (intro abort_seals [of s]) (auto simp: sealed_def prod_eq_iff)
qed

lemma sealed_step: "sealed s \<Longrightarrow> wf_step e s = Some t \<Longrightarrow> sealed t"
  by (cases e)
    (auto simp: on_connector_def sealed_report sealed_abort dest: sealed_connector sealed_task
      split: option.splits if_splits list.splits)

lemma sealed_run: "run wf_step es s = Some t \<Longrightarrow> sealed s \<Longrightarrow> sealed t"
  by (induction es arbitrary: s) (auto split: option.splits dest: sealed_step)

section \<open>Without an abort no callback raises\<close>

definition undisturbed_wf :: "workflow \<Rightarrow> bool" where
  "undisturbed_wf s \<longleftrightarrow> wf_ok s \<and> wf_state s \<noteq> WF_ABORTING \<and> wf_posted s = [] \<and> loop_errors s = []"

text \<open>What such a callback returns\<close>

definition orderly :: "wf_exn option \<times> workflow \<Rightarrow> bool" where
  "orderly r \<longleftrightarrow> fst r = None \<and> wf_state (snd r) \<noteq> WF_ABORTING \<and> wf_posted (snd r) = [] \<and> loop_errors (snd r) = []"

definition calm :: "workflow \<Rightarrow> bool" where
  "calm s \<longleftrightarrow> wf_state s = WF_ACTIVE \<and> 0 \<le> attempts_remaining s \<and> wf_posted s = [] \<and> loop_errors s = []"

lemma orderly_in_loop: "orderly (m s) \<Longrightarrow> wf_ok (snd (m s)) \<Longrightarrow> undisturbed_wf (in_loop m s)"
  by (auto simp: orderly_def undisturbed_wf_def in_loop_def split: prod.splits option.splits)

lemma calm_wf_report: "calm s \<Longrightarrow> orderly (wf_report r s)"
  by (simp add: calm_def orderly_def wf_report_def)

lemma calm_start_new_cycle: "calm s \<Longrightarrow> orderly (start_new_cycle b s)"
  by (auto simp: calm_def orderly_def start_new_cycle_def Let_def wf_report_def)

lemma calm_try_next_config: "calm s \<Longrightarrow> orderly (try_next_config s)"
  by (auto simp: try_next_config_def Let_def intro!: calm_start_new_cycle)
    (auto simp: calm_def orderly_def)

lemma calm_try_next_address: "calm s \<Longrightarrow> index_ok s \<Longrightarrow> orderly (try_next_address s)"
  by (auto simp: try_next_address_def index_ok_def calm_try_next_config split: list.splits)
    (auto simp: calm_def orderly_def)

lemma calm_on_connector_done:
  "calm s \<Longrightarrow> index_ok s \<Longrightarrow> r \<noteq> Some Connector_aborted \<Longrightarrow> orderly (on_connector_done r s)"
  by (auto simp: on_connector_done_def Let_def calm_def index_ok_def
      intro!: calm_wf_report calm_try_next_address split: option.splits attempt_error.splits)

lemma calm_cn_report:
  "calm s \<Longrightarrow> index_ok s \<Longrightarrow> r \<noteq> Some Connector_aborted \<Longrightarrow> amqp_conn c = None \<Longrightarrow> cn_state c \<noteq> CN_DONE
    \<Longrightarrow> orderly (cn_report r c s)"
  by (auto simp: cn_report_def set_connector_def calm_def index_ok_def intro!: calm_on_connector_done)

lemma undisturbed_wf_calm: "undisturbed_wf s \<Longrightarrow> wf_state s \<noteq> WF_DONE \<Longrightarrow> calm s"
  by (cases "wf_state s") (auto simp: undisturbed_wf_def calm_def wf_ok_def)

lemma calm_connector:
  assumes "undisturbed_wf s" "connector s = Some c"
  shows "calm s" "index_ok s" "cn_ok c" "cn_state c \<in> {CN_TCP, CN_TRANSPORT, CN_AMQP, CN_TIMEOUT}"
proof -
  from assms have ok: "wf_ok s" and st: "wf_state s \<noteq> WF_ABORTING" by (auto simp: undisturbed_wf_def)
  note live = connector_live [OF ok assms(2)]
  from assms live show "calm s" by (auto intro: undisturbed_wf_calm)
  from live show "index_ok s" by simp
  from ok assms(2) show "cn_ok c" by (auto simp: wf_ok_def split: if_splits)
  from live st show "cn_state c \<in> {CN_TCP, CN_TRANSPORT, CN_AMQP, CN_TIMEOUT}" by (cases "cn_state c") auto
qed

lemma orderly_set_connector: "calm s \<Longrightarrow> orderly (None, set_connector c s)"
  by (simp add: calm_def orderly_def set_connector_def)

lemma calm_callbacks:
  assumes "undisturbed_wf s" "connector s = Some c"
  shows "cn_task_ref c = Some Tcp_task \<Longrightarrow> orderly (on_tcp_done exc c s)"
    and "tcp_timeout_ref c \<Longrightarrow> orderly (on_tcp_timeout c s)"
    and "stack_timeout_ref c \<Longrightarrow> orderly (on_overall_timeout c s)"
    and "cn_task_ref c = Some Transport_task \<Longrightarrow> orderly (on_transport_done exc c s)"
    and "amqp_conn c \<noteq> None \<Longrightarrow> orderly (on_handshake_done error c s)"
  using calm_connector [OF assms]
  by (auto simp: on_tcp_done_def on_tcp_timeout_def on_overall_timeout_def on_transport_done_def on_handshake_done_def
      Let_def cn_ok_def orderly_set_connector map_option_case
      intro!: calm_cn_report split: option.splits cn_state.splits)

lemma calm_task [simp]: "calm (s\<lparr>wf_task_ref := k\<rparr>) \<longleftrightarrow> calm s"
  by (simp add: calm_def)

lemma calm_resolved: "calm s \<Longrightarrow> index_ok s \<Longrightarrow> orderly (on_getaddrinfo r s)"
  by (cases r) (auto simp: on_getaddrinfo_def Let_def calm_def index_ok_def
      intro!: calm_start_new_cycle calm_try_next_address)

lemma undisturbed_wf_step:
  assumes s: "undisturbed_wf s" and e: "e \<noteq> Abort_workflow" "wf_step e s = Some t"
  shows "undisturbed_wf t"
proof -
  have ok: "wf_ok s" and none: "wf_posted s = []" using s by (auto simp: undisturbed_wf_def)
  have task: "calm s" if "wf_task_ref s = Some k" for k
    using s that by (intro undisturbed_wf_calm) (auto simp: undisturbed_wf_def wf_ok_def)
  show ?thesis
    using e s ok none
    by (cases e)
      (auto simp: on_connector_def task_done_keeps resolved_keeps tcp_done_keeps tcp_timeout_keeps
        transport_done_keeps overall_timeout_keeps handshake_done_keeps
        intro!: orderly_in_loop calm_callbacks calm_start_new_cycle calm_try_next_config calm_resolved task
        dest: wf_ok_taskE(2) split: option.splits wf_task.splits if_splits)
qed

lemma undisturbed_wf_run:
  "run wf_step es s = Some t \<Longrightarrow> Abort_workflow \<notin> set es \<Longrightarrow> undisturbed_wf s \<Longrightarrow> undisturbed_wf t"
proof (induction es arbitrary: s)
  case (Cons e es)
  then obtain u where "wf_step e s = Some u" "run wf_step es u = Some t" by (auto split: option.splits)
  with Cons show ?case by (metis list.set_intros undisturbed_wf_step)
qed simp

lemma started_undisturbed: "configs_ok configs \<Longrightarrow> undisturbed_wf (started until_first configs)"
  using started_ok [of configs until_first]
  by (simp add: undisturbed_wf_def started_def wf_start_def new_workflow_def configs_ok_def)

section \<open>Properties\<close>




section \<open>Aborting during the handshake\<close>

text \<open>The abort raises \<open>AssertionError\<close> and leaves the connection open.\<close>

lemma abort_during_handshake_raises:
  assumes "wf_state s = WF_ACTIVE" "connector s = Some c" "amqp_conn c = Some closing" "cn_state c \<noteq> CN_DONE"
  shows "fst (wf_abort s) = Some Assertion_error" "map_option amqp_conn (connector (snd (wf_abort s))) = Some (Some closing)"
  using assms by (simp_all add: wf_abort_def cn_abort_def set_connector_def)

text \<open>
  After that the overall timeout turns the state into one that is not \<open>ABORTING\<close>, so that the workflow
  goes on to the next address, and may report a connection to a client that has aborted.
\<close>

definition sample_configs :: "parameters list" where
  "sample_configs = [new_Parameters]"

definition to_handshake :: "wf_event list" where
  "to_handshake = [Timer_expired_wf, Timer_expired_wf, Resolved (Inr [1, 2]), Tcp_done None, Transport_done None]"

lemma aborted_workflow_connects:
  "map_option results (run wf_step (to_handshake @ [Abort_workflow, Stack_timed_out, Handshake_done (Some StreamLostError),
      Tcp_done None, Transport_done None, Handshake_done None]) (started False sample_configs)) = Some [Wf_connected]"
  by code_simp

section \<open>The properties applied\<close>

lemma sample_configs_ok: "configs_ok sample_configs"
  by (simp add: configs_ok_def sample_configs_def new_Parameters_ok)

text \<open>An attempt is under way\<close>

definition attempting :: workflow where
  "attempting = the (run wf_step (take 3 to_handshake) (started False sample_configs))"

lemma attempting_run: "run wf_step (take 3 to_handshake) (started False sample_configs) = Some attempting"
proof -
  have "run wf_step (take 3 to_handshake) (started False sample_configs) \<noteq> None" by code_simp
  then show ?thesis by (auto simp: attempting_def)
qed

lemma attempting_reached: "reach (started False sample_configs) wf_step attempting"
  by (rule run_reach [OF attempting_run reach_init])




end
