(* ===== verification/Amqp_Frame.thy ===== *)
theory Amqp_Frame
  imports Amqp_Properties
begin

text \<open>
  \<open>pika/frame.py\<close>: the frames of the wire protocol, \<open>marshal\<close> of each frame class and
  \<open>decode_frame\<close>, which takes the first frame off a buffer. The lemmas show that the two are
  inverse, that an incomplete frame is left alone, and that what is decoded depends on the
  bytes of the frame and on nothing behind them.
\<close>

section \<open>Frames\<close>

datatype frame =
  Method_Frame int meth
| Header_Frame int int basic_properties
| Body_Frame int bytes
| Heartbeat_Frame
| ProtocolHeader int int int

fun channel_number_of :: "frame \<Rightarrow> int option" where
  "channel_number_of (Method_Frame c m) = Some c"
| "channel_number_of (Header_Frame c n p) = Some c"
| "channel_number_of (Body_Frame c b) = Some c"
| "channel_number_of Heartbeat_Frame = Some 0"
| "channel_number_of (ProtocolHeader a b c) = None"

text \<open>\<open>ProtocolHeader(major, minor, revision)\<close>: \<open>None\<close> and \<open>0\<close> stand for the version of the library.\<close>

definition or_default :: "int option \<Rightarrow> int \<Rightarrow> int" where
  "or_default v d = (case v of None \<Rightarrow> d | Some i \<Rightarrow> if i = 0 then d else i)"

definition new_ProtocolHeader :: "int option \<Rightarrow> int option \<Rightarrow> int option \<Rightarrow> frame" where
  "new_ProtocolHeader major minor revision =
     (let (a, b, c) = PROTOCOL_VERSION
      in ProtocolHeader (or_default major a) (or_default minor b) (or_default revision c))"

section \<open>Marshalling\<close>

definition marshal_pieces :: "int \<Rightarrow> int \<Rightarrow> pieces \<Rightarrow> py_error + bytes" where
  "marshal_pieces frame_type channel_number pieces =
     (let payload = concat pieces in
      bindE (pack_uint 1 frame_type) (\<lambda>t.
      bindE (pack_uint 2 channel_number) (\<lambda>c.
      bindE (pack_uint 4 (int (length payload))) (\<lambda>n.
      Inr ((t @ c @ n) @ payload @ [FRAME_END])))))"

fun marshal :: "frame \<Rightarrow> py_error + bytes" where
  "marshal (Method_Frame channel_number m) =
     bindE (method_encode m) (\<lambda>pieces.
     bindE (pack_uint 4 (method_INDEX m)) (\<lambda>p.
     marshal_pieces FRAME_METHOD channel_number (p # pieces)))"
| "marshal (Header_Frame channel_number body_size props) =
     bindE (properties_encode props) (\<lambda>pieces.
     bindE (pack_uint 8 body_size) (\<lambda>p.
     marshal_pieces FRAME_HEADER channel_number ((be_bytes 2 0x003C @ [0, 0] @ p) # pieces)))"
| "marshal (Body_Frame channel_number fragment) =
     marshal_pieces FRAME_BODY channel_number [fragment]"
| "marshal Heartbeat_Frame = marshal_pieces FRAME_HEARTBEAT 0 []"
| "marshal (ProtocolHeader major minor revision) =
     bindE (pack_uint 1 major) (\<lambda>a.
     bindE (pack_uint 1 minor) (\<lambda>b.
     bindE (pack_uint 1 revision) (\<lambda>c.
     Inr ([65, 77, 81, 80] @ [0] @ a @ b @ c))))"

section \<open>Decoding\<close>

text \<open>The three branches of \<open>decode_frame\<close> that look into the payload.\<close>

definition decode_method_frame :: "int \<Rightarrow> bytes \<Rightarrow> py_error + frame" where
  "decode_method_frame channel_number frame_data =
     bindE (unpack_uint 4 frame_data 0) (\<lambda>method_id.
     bindE (new_method method_id) (\<lambda>m.
     bindE (method_decode m frame_data 4) (\<lambda>m.
     Inr (Method_Frame channel_number m))))"

definition decode_header_frame :: "int \<Rightarrow> bytes \<Rightarrow> py_error + frame" where
  "decode_header_frame channel_number frame_data =
     bindE (unpack_uint 2 frame_data 0) (\<lambda>class_id.
     bindE (unpack_uint 2 frame_data 2) (\<lambda>weight.
     bindE (unpack_uint 8 frame_data 4) (\<lambda>body_size.
     bindE (assertE (class_id = 0x003C) KeyError) (\<lambda>_.
     bindE (properties_decode (drop 12 frame_data) 0) (\<lambda>props.
     Inr (Header_Frame channel_number body_size props))))))"

definition decode_payload :: "int \<Rightarrow> int \<Rightarrow> bytes \<Rightarrow> py_error + frame" where
  "decode_payload frame_type channel_number frame_data =
     (if frame_type = FRAME_METHOD then decode_method_frame channel_number frame_data
      else if frame_type = FRAME_HEADER then decode_header_frame channel_number frame_data
      else if frame_type = FRAME_BODY then Inr (Body_Frame channel_number frame_data)
      else if frame_type = FRAME_HEARTBEAT then Inr Heartbeat_Frame
      else Inl (InvalidFrameError ''Unknown frame type''))"

text \<open>
  \<open>struct.unpack('>BHL', data_in[0:7])\<close>: the frame type, channel number and frame size. It
  wants seven bytes.
\<close>

definition unpack_header :: "bytes \<Rightarrow> py_error + int \<times> int \<times> int" where
  "unpack_header data_in =
     bindE (unpack_uint 1 data_in 0) (\<lambda>frame_type.
     bindE (unpack_uint 2 data_in 1) (\<lambda>channel_number.
     bindE (unpack_uint 4 data_in 3) (\<lambda>frame_size.
     Inr (frame_type, channel_number, frame_size))))"

text \<open>\<open>struct.unpack_from('BBB', data_in, 5)\<close>\<close>

definition unpack_version :: "bytes \<Rightarrow> py_error + int \<times> int \<times> int" where
  "unpack_version data_in =
     bindE (unpack_uint 1 data_in 5) (\<lambda>major.
     bindE (unpack_uint 1 data_in 6) (\<lambda>minor.
     bindE (unpack_uint 1 data_in 7) (\<lambda>revision.
     Inr (major, minor, revision))))"

definition amqp_literal :: bytes where
  "amqp_literal = [65, 77, 81, 80]"

definition decode_frame :: "bytes \<Rightarrow> py_error + nat \<times> frame option" where
  "decode_frame data_in =
     (if py_slice 0 4 data_in = amqp_literal then
        (case unpack_version data_in of
           Inr (major, minor, revision) \<Rightarrow>
             Inr (8, Some (new_ProtocolHeader (Some major) (Some minor) (Some revision)))
         | Inl _ \<Rightarrow> Inr (0, None))
      else
        case unpack_header data_in of
          Inl _ \<Rightarrow> Inr (0, None)
        | Inr (frame_type, channel_number, frame_size) \<Rightarrow>
            let frame_end = FRAME_HEADER_SIZE + nat frame_size + FRAME_END_SIZE in
            if frame_end > length data_in then Inr (0, None)
            else if py_slice (frame_end - 1) frame_end data_in \<noteq> [FRAME_END]
            then Inl (InvalidFrameError ''Invalid FRAME_END marker'')
            else
              let frame_data = py_slice FRAME_HEADER_SIZE (frame_end - 1) data_in in
              bindE (decode_payload frame_type channel_number frame_data) (\<lambda>f.
              Inr (frame_end, Some f)))"

section \<open>The layout of a frame\<close>

lemma be_int_one: "be_int [b] = uint b"
  by (simp add: be_int_def)

lemma unpack_header_append:
  assumes "length c = 2" "length n = 4"
  shows "unpack_header (t # c @ n @ rest) = Inr (uint t, be_int c, be_int n)"
proof -
  have "unpack_uint 1 (t # c @ n @ rest) 0 = Inr (uint t)"
    using unpack_from_append[of 1 "[t]" 0 "[]" "c @ n @ rest"]
    by (simp add: unpack_uint_def be_int_one)
  moreover have "unpack_uint 2 (t # c @ n @ rest) 1 = Inr (be_int c)"
    using unpack_from_append[of 2 c 1 "[t]" "n @ rest"] assms by (simp add: unpack_uint_def)
  moreover have "unpack_uint 4 (t # c @ n @ rest) 3 = Inr (be_int n)"
    using unpack_from_append[of 4 n 3 "t # c" rest] assms by (simp add: unpack_uint_def)
  ultimately show ?thesis unfolding unpack_header_def by (simp only: bindE.simps)
qed

lemma unpack_header_short: "length d < 7 \<Longrightarrow> \<exists>e. unpack_header d = Inl e"
proof (rule ccontr)
  assume "length d < 7" "\<nexists>e. unpack_header d = Inl e"
  then obtain r where "unpack_header d = Inr r" by (cases "unpack_header d") auto
  then obtain n where "unpack_uint 4 d 3 = Inr n" by (auto simp: unpack_header_def result_simps)
  with unpack_uint_length \<open>length d < 7\<close> show False by fastforce
qed

lemma split_header:
  assumes "7 \<le> length d"
  obtains t c n rest where "d = t # c @ n @ rest" "length c = 2" "length n = 4"
proof
  from assms obtain t d' where "d = t # d'" by (cases d) auto
  then show "d = hd d # take 2 (tl d) @ take 4 (drop 2 (tl d)) @ drop 4 (drop 2 (tl d))"
    by (simp only: append_take_drop_id list.sel)
qed (use assms in auto)

text \<open>A buffer that holds the whole frame and does not start with the literal \<open>AMQP\<close>.\<close>

lemma decode_frame_whole:
  assumes len: "length c = 2" "length n = 4" "be_int n = int (length payload)"
    and t: "take 4 (t # c @ n @ payload @ [e]) \<noteq> amqp_literal"
  shows "decode_frame (t # c @ n @ payload @ e # rest) =
    (if e = FRAME_END
     then bindE (decode_payload (uint t) (be_int c) payload) (\<lambda>f. Inr (length payload + 8, Some f))
     else Inl (InvalidFrameError ''Invalid FRAME_END marker''))"
proof -
  let ?d = "t # c @ n @ payload @ e # rest"
  have "py_slice 7 (7 + length payload) ?d = payload"
    using py_slice_append_mid[of "t # c @ n" payload "e # rest"] len by simp
  moreover have "py_slice (7 + length payload) (8 + length payload) ?d = [e]"
    using py_slice_append_mid[of "t # c @ n @ payload" "[e]" rest] len by simp
  moreover have "py_slice 0 4 ?d \<noteq> amqp_literal"
    using t len by (simp add: py_slice_def take_Cons')
  ultimately show ?thesis
    unfolding decode_frame_def unpack_header_append[OF len(1,2)]
    by (cases "e = FRAME_END") (simp_all add: len spec_constants Let_def add.commute)
qed

section \<open>Marshalled frames\<close>

lemma marshal_pieces_layout:
  assumes "marshal_pieces ft ch pieces = Inr bs"
  obtains t c n where "bs = t # c @ n @ concat pieces @ [FRAME_END]" "length c = 2" "length n = 4"
    "be_int n = int (length (concat pieces))" "be_int c = ch" "uint t = ft"
proof -
  from assms obtain t c n where tcn: "pack_uint 1 ft = Inr t" "pack_uint 2 ch = Inr c"
    "pack_uint 4 (int (length (concat pieces))) = Inr n" "bs = (t @ c @ n) @ concat pieces @ [FRAME_END]"
    by (auto simp: marshal_pieces_def Let_def result_simps)
  note l = tcn(1-3)[THEN pack_uint_length] and v = tcn(1-3)[THEN pack_uint_be_int]
  from l(1) obtain b where "t = [b]" by (auto simp: length_Suc_conv)
  with l v tcn(4) show ?thesis by (intro that[of b c n]) (auto simp: be_int_one)
qed

lemma not_amqp: "uint t \<noteq> 65 \<Longrightarrow> take 4 (t # bs) \<noteq> amqp_literal"
  by (auto simp: amqp_literal_def take_Cons')

lemma decode_marshalled:
  assumes "marshal_pieces ft ch pieces = Inr bs" "ft \<noteq> 65" "decode_payload ft ch (concat pieces) = Inr f"
  shows "decode_frame (bs @ rest) = Inr (length bs, Some f)"
proof -
  obtain t c n where l: "bs = t # c @ n @ concat pieces @ [FRAME_END]" "length c = 2" "length n = 4"
    "be_int n = int (length (concat pieces))" "be_int c = ch" "uint t = ft"
    using assms(1) by (rule marshal_pieces_layout)
  then show ?thesis
    using decode_frame_whole[OF l(2-4) not_amqp, of t FRAME_END rest] assms(2,3)
    by (simp del: length_concat)
qed

lemma frame_type_not_A:
  "FRAME_METHOD \<noteq> 65" "FRAME_HEADER \<noteq> 65" "FRAME_BODY \<noteq> 65" "FRAME_HEARTBEAT \<noteq> 65"
  by (simp_all add: spec_constants)

text \<open>What a frame is after the wire: its method or its properties in their wire form.\<close>

fun wire_frame :: "frame \<Rightarrow> frame" where
  "wire_frame (Method_Frame c m) = Method_Frame c (method_wire m)"
| "wire_frame (Header_Frame c n p) = Header_Frame c n (properties_wire p)"
| "wire_frame (ProtocolHeader a b c) = new_ProtocolHeader (Some a) (Some b) (Some c)"
| "wire_frame f = f"

fun valid_frame :: "frame \<Rightarrow> bool" where
  "valid_frame (Method_Frame c m) \<longleftrightarrow> valid_method m \<and> \<not> is_update_secret m"
| "valid_frame (Header_Frame c n p) \<longleftrightarrow> valid_times (headers p)"
| "valid_frame f \<longleftrightarrow> True"

lemma decode_method_payload:
  assumes "method_encode m = Inr pieces" "pack_uint 4 (method_INDEX m) = Inr p"
    "valid_method m" "\<not> is_update_secret m"
  shows "decode_payload FRAME_METHOD c (concat (p # pieces)) = Inr (Method_Frame c (method_wire m))"
proof -
  from method_found[OF assms(4)] assms(1,3) obtain m' where m': "new_method (method_INDEX m) = Inr m'"
    "decodes (method_decode m') (concat pieces) (method_wire m)" by blast
  from decodesD[OF m'(2), of p "[]"] pack_uint_length[OF assms(2)]
    unpack_uint_pack[OF assms(2), of "[]" "concat pieces"] m'(1)
  show ?thesis by (simp add: decode_payload_def decode_method_frame_def)
qed

lemma decode_header_payload:
  assumes "properties_encode props = Inr pieces" "pack_uint 8 body_size = Inr p"
    "valid_times (headers props)"
  shows "decode_payload FRAME_HEADER c (concat ((be_bytes 2 0x003C @ [0, 0] @ p) # pieces))
    = Inr (Header_Frame c body_size (properties_wire props))"
proof -
  let ?d = "be_bytes 2 0x003C @ [0, 0] @ p @ concat pieces"
  have p: "length p = 8" by (rule pack_uint_length[OF assms(2)])
  have "pack_uint 2 0x003C = Inr (be_bytes 2 0x003C)" "pack_uint 2 0 = Inr [0, 0]"
    by (simp_all add: pack_uint_def numeral_2_eq_2)
  from unpack_uint_pack[OF this(1), of "[]" "[0, 0] @ p @ concat pieces"]
    unpack_uint_pack[OF this(2), of "be_bytes 2 0x003C" "p @ concat pieces"]
    unpack_uint_pack[OF assms(2), of "be_bytes 2 0x003C @ [0, 0]" "concat pieces"]
  have u: "unpack_uint 2 ?d 0 = Inr 0x003C" "unpack_uint 2 ?d 2 = Inr 0" "unpack_uint 8 ?d 4 = Inr body_size"
    by (simp_all del: be_bytes.simps)
  have "drop 12 ?d = concat pieces"
    using p by (simp add: numeral_2_eq_2)
  moreover have "properties_decode (concat pieces) 0 = Inr (properties_wire props)"
    using properties_reads[OF assms(1,3), of "[]" "[]"] by simp
  ultimately show ?thesis
    using u by (simp add: decode_payload_def decode_header_frame_def spec_constants assertE_def)
qed

section \<open>Properties\<close>

lemma marshal_decodes:
  assumes "marshal f = Inr bs" "valid_frame f"
  shows "decode_frame (bs @ rest) = Inr (length bs, Some (wire_frame f))"
proof (cases f)
  case (Method_Frame c m)
  with assms obtain pieces p where mp: "method_encode m = Inr pieces" "pack_uint 4 (method_INDEX m) = Inr p"
    "marshal_pieces FRAME_METHOD c (p # pieces) = Inr bs"
    by (auto simp: result_simps)
  from assms(2) Method_Frame have "valid_method m" "\<not> is_update_secret m" by simp_all
  from decode_marshalled[OF mp(3) frame_type_not_A(1) decode_method_payload[OF mp(1,2) this]]
  show ?thesis by (simp add: Method_Frame)
next
  case (Header_Frame c n props)
  with assms obtain pieces p where mp: "properties_encode props = Inr pieces" "pack_uint 8 n = Inr p"
    "marshal_pieces FRAME_HEADER c ((be_bytes 2 0x003C @ [0, 0] @ p) # pieces) = Inr bs"
    by (auto simp: result_simps simp del: be_bytes.simps)
  from assms(2) Header_Frame have "valid_times (headers props)" by simp
  from decode_marshalled[OF mp(3) frame_type_not_A(2) decode_header_payload[OF mp(1,2) this]]
  show ?thesis by (simp add: Header_Frame)
next
  case (Body_Frame c b)
  have "decode_payload FRAME_BODY c (concat [b]) = Inr f"
    by (simp add: decode_payload_def spec_constants Body_Frame)
  from decode_marshalled[OF _ frame_type_not_A(3) this] assms(1) show ?thesis
    by (simp add: Body_Frame)
next
  case Heartbeat_Frame
  have "decode_payload FRAME_HEARTBEAT 0 (concat []) = Inr f"
    by (simp add: decode_payload_def spec_constants Heartbeat_Frame)
  from decode_marshalled[OF _ frame_type_not_A(4) this] assms(1) show ?thesis
    by (simp add: Heartbeat_Frame)
next
  case (ProtocolHeader x y z)
  with assms(1) obtain a b c where abc: "pack_uint 1 x = Inr a" "pack_uint 1 y = Inr b" "pack_uint 1 z = Inr c"
    "bs = [65, 77, 81, 80, 0] @ a @ b @ c" by (auto simp: result_simps)
  note l = abc(1-3)[THEN pack_uint_length]
  have "unpack_version (bs @ rest) = Inr (x, y, z)"
    using unpack_uint_pack[OF abc(1), of "[65, 77, 81, 80, 0]" "b @ c @ rest"]
      unpack_uint_pack[OF abc(2), of "[65, 77, 81, 80, 0] @ a" "c @ rest"]
      unpack_uint_pack[OF abc(3), of "[65, 77, 81, 80, 0] @ a @ b" rest] l
    by (simp add: unpack_version_def abc(4) eval_nat_numeral)
  moreover have "py_slice 0 4 (bs @ rest) = amqp_literal"
    by (simp add: abc(4) py_slice_def amqp_literal_def)
  ultimately show ?thesis
    using l by (simp add: decode_frame_def ProtocolHeader abc(4))
qed



section \<open>What decoding depends on\<close>

text \<open>The cases of \<open>decode_frame\<close>: nothing yet, an error, or a whole frame.\<close>

lemma unpack_version_cases:
  "(\<exists>r. unpack_version d = Inr r) \<longleftrightarrow> 8 \<le> length d"
proof
  assume "\<exists>r. unpack_version d = Inr r"
  then obtain n where "unpack_uint 1 d 7 = Inr n" by (auto simp: unpack_version_def result_simps)
  then show "8 \<le> length d" using unpack_uint_length by fastforce
qed (auto simp: unpack_version_def unpack_uint_def unpack_from_def)

lemma amqp_prefix: "py_slice 0 4 d = amqp_literal \<Longrightarrow> 4 \<le> length d"
  by (drule arg_cong[of _ _ length]) (simp add: py_slice_def amqp_literal_def)

lemma unpack_uint_more:
  "unpack_uint n d off = Inr i \<Longrightarrow> unpack_uint n (d @ rest) off = Inr i"
  by (auto simp: unpack_uint_def unpack_from_def py_slice_def split: if_splits)

lemma decode_frame_stable:
  assumes "decode_frame d \<noteq> Inr (0, None)"
  shows "decode_frame (d @ rest) = decode_frame d"
proof (cases "py_slice 0 4 d = amqp_literal")
  case True
  with assms obtain r where r: "unpack_version d = Inr r"
    by (cases "unpack_version d") (auto simp: decode_frame_def)
  then have "unpack_version (d @ rest) = Inr r"
    by (auto simp: unpack_version_def result_simps dest: unpack_uint_more)
  moreover have "py_slice 0 4 (d @ rest) = amqp_literal"
    using True amqp_prefix[OF True] by (simp add: py_slice_def)
  ultimately show ?thesis using True r by (simp add: decode_frame_def)
next
  case False
  with assms obtain ft ch n where h: "unpack_header d = Inr (ft, ch, n)"
    by (cases "unpack_header d") (auto simp: decode_frame_def)
  then have h': "unpack_header (d @ rest) = Inr (ft, ch, n)"
    by (auto simp: unpack_header_def result_simps dest: unpack_uint_more)
  from h assms False have len: "FRAME_HEADER_SIZE + nat n + FRAME_END_SIZE \<le> length d"
    by (auto simp: decode_frame_def Let_def split: if_splits)
  then have "py_slice i j (d @ rest) = py_slice i j d" if "j \<le> FRAME_HEADER_SIZE + nat n + FRAME_END_SIZE" for i j
    using that by (auto simp: py_slice_def)
  moreover have "4 \<le> length d" using len by (simp add: spec_constants)
  ultimately show ?thesis
    using False h h' len by (simp add: decode_frame_def Let_def py_slice_def[of 0])
qed

text \<open>
  \<open>decode_frame\<close> is insensitive to how much of the stream has arrived: once it
  has returned a frame or refused the stream, more bytes behind change nothing. Only the
  answer "not yet" can change.
\<close>

theorem decode_frame_more:
  assumes "decode_frame d \<noteq> Inr (0, None)"
  shows "decode_frame (d @ rest) = decode_frame d"
  using assms by (rule decode_frame_stable)

lemma decode_frame_more_witness:
  "decode_frame ([8, 0, 0, 0, 0, 0, 0, 206] @ [1]) = Inr (8, Some Heartbeat_Frame)"
proof -
  have "decode_frame [8, 0, 0, 0, 0, 0, 0, 206] = Inr (8, Some Heartbeat_Frame)" by code_simp
  with decode_frame_more[of "[8, 0, 0, 0, 0, 0, 0, 206]" "[1]"] show ?thesis by simp
qed

lemma decode_frame_length:
  "case decode_frame d of
     Inr (n, Some f) \<Rightarrow> 8 \<le> n \<and> n \<le> length d
   | Inr (n, None) \<Rightarrow> n = 0
   | Inl e \<Rightarrow> 8 \<le> length d"
proof (cases "py_slice 0 4 d = amqp_literal")
  case True
  then show ?thesis
    using unpack_version_cases[of d] by (cases "unpack_version d") (auto simp: decode_frame_def)
next
  case False
  show ?thesis
  proof (cases "unpack_header d")
    case (Inr r)
    obtain ft ch n where r: "r = (ft, ch, n)" by (cases r)
    show ?thesis
      using False Inr r by (auto simp: decode_frame_def Let_def spec_constants result_simps
          split: sum.split if_splits option.split)
  qed (use False in \<open>simp add: decode_frame_def\<close>)
qed

text \<open>
  What \<open>decode_frame\<close> says it consumed is there: a frame takes at least eight
  bytes and no more than the buffer holds, no frame means that nothing was consumed, and an
  error is raised only about a frame that has arrived in full.
\<close>

theorem decode_frame_consumes:
  "case decode_frame d of
     Inr (n, Some f) \<Rightarrow> 8 \<le> n \<and> n \<le> length d
   | Inr (n, None) \<Rightarrow> n = 0
   | Inl e \<Rightarrow> 8 \<le> length d"
  by (rule decode_frame_length)

text \<open>
  A frame that is not yet complete is left in the buffer: on every proper
  prefix of a marshalled frame \<open>decode_frame\<close> consumes nothing and returns no frame.
\<close>

theorem decode_frame_incomplete:
  assumes "marshal f = Inr (p @ q)" "q \<noteq> []" "valid_frame f"
  shows "decode_frame p = Inr (0, None)"
proof (rule ccontr)
  assume "decode_frame p \<noteq> Inr (0, None)"
  from decode_frame_stable[OF this, of q] marshal_decodes[OF assms(1,3), of "[]"]
  have "decode_frame p = Inr (length (p @ q), Some (wire_frame f))" by simp
  with decode_frame_length[of p] assms(2) show False by simp
qed

lemma decode_frame_incomplete_witness:
  "decode_frame [8, 0, 0, 0, 0, 0, 0] = Inr (0, None)"
proof -
  have "marshal Heartbeat_Frame = Inr ([8, 0, 0, 0, 0, 0, 0] @ [206])" by code_simp
  from decode_frame_incomplete[OF this] show ?thesis by simp
qed

text \<open>
  A frame whose last octet is not the frame end is refused, whatever its type and
  before its payload is looked at.
\<close>

theorem bad_frame_end_refused:
  assumes "length c = 2" "length n = 4" "be_int n = int (length payload)" "t \<noteq> 65" "e \<noteq> FRAME_END"
  shows "decode_frame (t # c @ n @ payload @ e # rest)
    = Inl (InvalidFrameError ''Invalid FRAME_END marker'')"
proof -
  have "take 4 (t # c @ n @ payload @ [e]) \<noteq> amqp_literal"
    using assms(4) by (simp add: amqp_literal_def take_Cons')
  from decode_frame_whole[OF assms(1-3) this, of rest] assms(5) show ?thesis by simp
qed

lemma bad_frame_end_refused_witness:
  "decode_frame [3, 0, 1, 0, 0, 0, 1, 42, 0] = Inl (InvalidFrameError ''Invalid FRAME_END marker'')"
  using bad_frame_end_refused[of "[0, 1]" "[0, 0, 0, 1]" "[42]" 3 0 "[]"]
  by (simp add: be_int_def FRAME_END_def)

end
