(* ===== verification/Amqp_Stream.thy ===== *)
theory Amqp_Stream
  imports Amqp_Frame
begin

text \<open>
  The frame buffer of \<open>pika/connection.py\<close>: bytes from the socket are appended to it, and
  frames are taken off it and processed as long as there is a whole one. What a frame does
  to the connection is the parameter \<open>process\<close>. The locale \<open>frame_source\<close> is what the loop
  relies on in \<open>decode_frame\<close>; from it follows that the way the stream is cut into chunks
  does not matter.
\<close>

section \<open>The read loop\<close>

record 's reader =
  frame_buffer :: bytes
  bytes_received :: nat
  handler :: 's

type_synonym 's processor = "frame \<Rightarrow> 's \<Rightarrow> py_error option \<times> 's"

definition trim_frame_buffer :: "nat \<Rightarrow> 's reader \<Rightarrow> 's reader" where
  "trim_frame_buffer byte_count r =
     r\<lparr>frame_buffer := drop byte_count (frame_buffer r),
       bytes_received := bytes_received r + byte_count\<rparr>"

definition read_frame :: "'s reader \<Rightarrow> py_error + nat \<times> frame option" where
  "read_frame r = decode_frame (frame_buffer r)"

lemma read_frame_consumes:
  "read_frame r = Inr (n, Some f) \<Longrightarrow> 8 \<le> n \<and> n \<le> length (frame_buffer r)"
  using decode_frame_length[of "frame_buffer r"] by (simp add: read_frame_def)

text \<open>
  The \<open>while\<close> loop of \<open>_on_data_available\<close>. The first component is the exception that left
  it; the state is kept as the exception found it.
\<close>

function read_loop :: "'s processor \<Rightarrow> 's reader \<Rightarrow> py_error option \<times> 's reader" where
  "read_loop process r =
     (if frame_buffer r = [] then (None, r)
      else case read_frame r of
        Inl e \<Rightarrow> (Some e, r)
      | Inr (consumed_count, None) \<Rightarrow> (None, r)
      | Inr (consumed_count, Some frame_value) \<Rightarrow>
          let r = trim_frame_buffer consumed_count r in
          case process frame_value (handler r) of
            (Some e, s) \<Rightarrow> (Some e, r\<lparr>handler := s\<rparr>)
          | (None, s) \<Rightarrow> read_loop process (r\<lparr>handler := s\<rparr>))"
  by pat_completeness auto

termination
  by (relation "measure (\<lambda>(_, r). length (frame_buffer r))")
    (auto simp: trim_frame_buffer_def dest: read_frame_consumes)

declare read_loop.simps [simp del]

lemma read_loop_frame:
  assumes "decode_frame b = Inr (n, Some f)" "b \<noteq> []" "process f s = (None, s')"
  shows "read_loop process \<lparr>frame_buffer = b, bytes_received = k, handler = s\<rparr>
    = read_loop process \<lparr>frame_buffer = drop n b, bytes_received = k + n, handler = s'\<rparr>"
  using assms by (subst read_loop.simps) (simp add: read_frame_def trim_frame_buffer_def)

lemma read_loop_wait:
  assumes "b = [] \<or> decode_frame b = Inr (0, None)"
  shows "read_loop process \<lparr>frame_buffer = b, bytes_received = k, handler = s\<rparr>
    = (None, \<lparr>frame_buffer = b, bytes_received = k, handler = s\<rparr>)"
  using assms by (subst read_loop.simps) (auto simp: read_frame_def)

definition on_data_available :: "'s processor \<Rightarrow> bytes \<Rightarrow> 's reader \<Rightarrow> py_error option \<times> 's reader" where
  "on_data_available process data_in r =
     read_loop process (r\<lparr>frame_buffer := frame_buffer r @ data_in\<rparr>)"

text \<open>The adapter calls it with one chunk after the other; an exception ends that.\<close>

fun on_chunks :: "'s processor \<Rightarrow> bytes list \<Rightarrow> 's reader \<Rightarrow> py_error option \<times> 's reader" where
  "on_chunks process [] r = (None, r)"
| "on_chunks process (c # cs) r =
     (case on_data_available process c r of
        (Some e, r) \<Rightarrow> (Some e, r)
      | (None, r) \<Rightarrow> on_chunks process cs r)"

section \<open>What the loop relies on\<close>

locale frame_source =
  fixes decode :: "'d list \<Rightarrow> 'e + nat \<times> 'f option"
    and loop :: "('f \<Rightarrow> 's \<Rightarrow> 'e option \<times> 's) \<Rightarrow> 'd list \<times> nat \<times> 's \<Rightarrow> 'e option \<times> ('d list \<times> nat \<times> 's)"
  assumes stable: "decode d \<noteq> Inr (0, None) \<Longrightarrow> decode (d @ xs) = decode d"
    and consumed: "decode d = Inr (n, Some f) \<Longrightarrow> 0 < n \<and> n \<le> length d"
    and not_yet: "decode d = Inr (n, None) \<Longrightarrow> n = 0"
    and loop: "loop process (buf, k, s) =
      (if buf = [] then (None, (buf, k, s))
       else case decode buf of
         Inl e \<Rightarrow> (Some e, (buf, k, s))
       | Inr (n, None) \<Rightarrow> (None, (buf, k, s))
       | Inr (n, Some f) \<Rightarrow>
           (case process f s of
              (Some e, s) \<Rightarrow> (Some e, (drop n buf, k + n, s))
            | (None, s) \<Rightarrow> loop process (drop n buf, k + n, s)))"
begin

text \<open>Running the loop on a part of the stream first makes no difference.\<close>

lemma loop_append:
  "loop process (a @ b, k, s) =
    (case loop process (a, k, s) of
       (Some e, (buf, k, s)) \<Rightarrow> (Some e, (buf @ b, k, s))
     | (None, (buf, k, s)) \<Rightarrow> loop process (buf @ b, k, s))"
proof (induction "length a" arbitrary: a k s rule: less_induct)
  case less
  show ?case
  proof (cases "a = [] \<or> decode a = Inr (0, None)")
    case True
    then have "loop process (a, k, s) = (None, (a, k, s))" by (auto simp: loop[of process a])
    then show ?thesis by simp
  next
    case False
    then have dec: "decode (a @ b) = decode a" "a \<noteq> []" using stable by blast+
    show ?thesis
    proof (cases "decode a")
      case (Inl e)
      with dec show ?thesis by (simp add: loop[of process a] loop[of process "a @ b"])
    next
      case (Inr r)
      with False not_yet[of a] obtain n f where r: "decode a = Inr (n, Some f)"
        by (cases r; cases "snd r") auto
      with consumed have n: "0 < n" "n \<le> length a" by blast+
      obtain x s' where p: "process f s = (x, s')" by fastforce
      have ih: "loop process (drop n a @ b, k + n, s') =
          (case loop process (drop n a, k + n, s') of
             (Some e, (buf, k, s)) \<Rightarrow> (Some e, (buf @ b, k, s))
           | (None, (buf, k, s)) \<Rightarrow> loop process (buf @ b, k, s))"
        using n by (intro less) simp
      show ?thesis
        using dec r p n ih
        by (cases x) (simp_all add: loop[of process a] loop[of process "a @ b"])
    qed
  qed
qed

text \<open>When the loop has ended, running it again does nothing.\<close>

lemma loop_settled:
  "loop process (a, k, s) = (None, (buf, k', s')) \<Longrightarrow> loop process (buf, k', s') = (None, (buf, k', s'))"
proof (induction "length a" arbitrary: a k s rule: less_induct)
  case less
  show ?case
  proof (cases "\<exists>n f. a \<noteq> [] \<and> decode a = Inr (n, Some f)")
    case True
    then obtain n f where d: "a \<noteq> []" "decode a = Inr (n, Some f)" by blast
    obtain x s2 where p: "process f s = (x, s2)" by fastforce
    from less.prems d p have "loop process (drop n a, k + n, s2) = (None, (buf, k', s'))"
      by (cases x) (simp_all add: loop[of process a])
    moreover from consumed[OF d(2)] have "length (drop n a) < length a" by simp linarith
    ultimately show ?thesis by (intro less.hyps[of "drop n a"])
  next
    case False
    then have "loop process (a, k, s) = (None, (a, k, s)) \<or> (\<exists>e. loop process (a, k, s) = (Some e, (a, k, s)))"
      by (auto simp: loop[of process a] split: sum.split option.split prod.split)
    with less.prems show ?thesis by auto
  qed
qed

text \<open>What it takes off the buffer it has counted.\<close>

lemma loop_conserves:
  "loop process (a, k, s) = (x, (buf, k', s')) \<Longrightarrow> \<exists>taken. a = taken @ buf \<and> k' = k + length taken"
proof (induction "length a" arbitrary: a k s rule: less_induct)
  case less
  show ?case
  proof (cases "\<exists>n f s2. a \<noteq> [] \<and> decode a = Inr (n, Some f) \<and> process f s = (None, s2)")
    case True
    then obtain n f s2 where d: "a \<noteq> []" "decode a = Inr (n, Some f)" "process f s = (None, s2)" by blast
    with less.prems have "loop process (drop n a, k + n, s2) = (x, (buf, k', s'))"
      by (simp add: loop[of process a])
    moreover from consumed[OF d(2)] have "length (drop n a) < length a" "n \<le> length a"
      by simp_all linarith
    ultimately obtain taken where "drop n a = taken @ buf" "k' = k + n + length taken" "n \<le> length a"
      using less.hyps[of "drop n a" "k + n" s2] by auto
    then show ?thesis
      by (intro exI[of _ "take n a @ taken"]) (simp, metis append_take_drop_id)
  next
    case False
    have "buf = a \<and> k' = k \<or> (\<exists>n f. decode a = Inr (n, Some f) \<and> buf = drop n a \<and> k' = k + n)"
    proof (cases "\<exists>n f. a \<noteq> [] \<and> decode a = Inr (n, Some f)")
      case True
      then obtain n f where d: "a \<noteq> []" "decode a = Inr (n, Some f)" by blast
      obtain e s2 where "process f s = (Some e, s2)"
        using False d by (metis option.exhaust surj_pair)
      with d less.prems show ?thesis by (simp add: loop[of process a])
    next
      case False
      then have "\<exists>y. loop process (a, k, s) = (y, (a, k, s))"
        by (auto simp: loop[of process a] split: sum.split option.split prod.split)
      with less.prems show ?thesis by auto
    qed
    then show ?thesis
    proof
      assume "\<exists>n f. decode a = Inr (n, Some f) \<and> buf = drop n a \<and> k' = k + n"
      then obtain n f where n: "decode a = Inr (n, Some f)" "buf = drop n a" "k' = k + n" by blast
      with consumed[OF n(1)] show ?thesis by (intro exI[of _ "take n a"]) simp
    qed simp
  qed
qed

end

text \<open>\<open>decode_frame\<close> and the loop above are such a source.\<close>

definition reader_of :: "bytes \<times> nat \<times> 's \<Rightarrow> 's reader" where
  "reader_of = (\<lambda>(buf, k, s). \<lparr>frame_buffer = buf, bytes_received = k, handler = s\<rparr>)"

definition parts_of :: "'s reader \<Rightarrow> bytes \<times> nat \<times> 's" where
  "parts_of r = (frame_buffer r, bytes_received r, handler r)"

lemma parts_of_reader [simp]: "parts_of (reader_of x) = x" "reader_of (parts_of r) = r"
  by (cases x) (simp_all add: parts_of_def reader_of_def)

definition loop_parts :: "'s processor \<Rightarrow> bytes \<times> nat \<times> 's \<Rightarrow> py_error option \<times> (bytes \<times> nat \<times> 's)" where
  "loop_parts process x = apsnd parts_of (read_loop process (reader_of x))"

interpretation wire: frame_source decode_frame loop_parts
proof
  fix d xs :: bytes
  show "decode_frame d \<noteq> Inr (0, None) \<Longrightarrow> decode_frame (d @ xs) = decode_frame d"
    by (rule decode_frame_stable)
  show "0 < n \<and> n \<le> length d" if "decode_frame d = Inr (n, Some f)" for n f
    using that decode_frame_length[of d] by auto
  show "n = 0" if "decode_frame d = Inr (n, None)" for n
    using that decode_frame_length[of d] by simp
next
  fix process :: "'s processor" and buf k s
  show "loop_parts process (buf, k, s) =
      (if buf = [] then (None, (buf, k, s))
       else case decode_frame buf of
         Inl e \<Rightarrow> (Some e, (buf, k, s))
       | Inr (n, None) \<Rightarrow> (None, (buf, k, s))
       | Inr (n, Some f) \<Rightarrow>
           (case process f s of
              (Some e, s) \<Rightarrow> (Some e, (drop n buf, k + n, s))
            | (None, s) \<Rightarrow> loop_parts process (drop n buf, k + n, s)))"
    by (simp add: loop_parts_def reader_of_def parts_of_def read_loop.simps read_frame_def
        trim_frame_buffer_def split: sum.split option.split prod.split)
qed

lemma read_loop_parts: "read_loop process r = apsnd reader_of (loop_parts process (parts_of r))"
  by (cases "read_loop process r") (simp add: loop_parts_def)

lemma on_data_parts:
  "on_data_available process d r =
    apsnd reader_of (loop_parts process (frame_buffer r @ d, bytes_received r, handler r))"
  by (simp add: on_data_available_def read_loop_parts parts_of_def)

lemma on_data_cases:
  obtains x buf k s where "loop_parts process (frame_buffer r @ d, bytes_received r, handler r) = (x, (buf, k, s))"
    "on_data_available process d r = (x, reader_of (buf, k, s))"
  by (cases "loop_parts process (frame_buffer r @ d, bytes_received r, handler r)")
    (auto simp: on_data_parts)

lemma on_data_append:
  "on_data_available process (a @ b) r =
    (case on_data_available process a r of
       (Some e, q) \<Rightarrow> (Some e, q\<lparr>frame_buffer := frame_buffer q @ b\<rparr>)
     | (None, q) \<Rightarrow> on_data_available process b q)"
proof (rule on_data_cases[of process r a])
  fix x buf k s
  assume *: "loop_parts process (frame_buffer r @ a, bytes_received r, handler r) = (x, (buf, k, s))"
    "on_data_available process a r = (x, reader_of (buf, k, s))"
  show ?thesis
    using wire.loop_append[of process "frame_buffer r @ a" b "bytes_received r" "handler r"] *
    by (cases x) (simp_all add: on_data_parts reader_of_def)
qed

lemma on_data_settled:
  assumes "on_data_available process a r = (None, q)"
  shows "on_data_available process [] q = (None, q)"
proof (rule on_data_cases[of process r a])
  fix x buf k s
  assume *: "loop_parts process (frame_buffer r @ a, bytes_received r, handler r) = (x, (buf, k, s))"
    "on_data_available process a r = (x, reader_of (buf, k, s))"
  with assms have q: "x = None" "q = reader_of (buf, k, s)" by simp_all
  from wire.loop_settled[OF *(1)[unfolded q(1)]] show ?thesis
    by (simp add: on_data_parts q(2) reader_of_def)
qed

lemma on_chunks_whole:
  assumes "on_data_available process [] r = (None, r)"
  shows "case on_data_available process (concat cs) r of
      (None, q) \<Rightarrow> on_chunks process cs r = (None, q)
    | (Some e, q) \<Rightarrow> \<exists>buf. on_chunks process cs r = (Some e, q\<lparr>frame_buffer := buf\<rparr>)"
  using assms
proof (induction cs arbitrary: r)
  case (Cons c cs)
  obtain x q where c: "on_data_available process c r = (x, q)" by fastforce
  show ?case
  proof (cases x)
    case None
    with Cons.IH[OF on_data_settled[of process c r q]] c show ?thesis
      by (auto simp: on_data_append split: prod.splits option.splits)
  next
    case (Some e)
    have "\<exists>buf. q = q\<lparr>frame_buffer := buf\<rparr>" by (rule exI[of _ "frame_buffer q"]) simp
    with Some c show ?thesis by (simp add: on_data_append)
  qed
qed simp

section \<open>Properties\<close>

text \<open>
  C18 (equivalence). How the socket cuts the byte stream into chunks makes no difference: the
  frames processed, the bytes counted, the state they lead to and the exception that ends
  the reading, if one does, are those of the whole stream arriving at once.
\<close>

theorem chunks_do_not_matter:
  assumes "on_data_available process [] r = (None, r)"
  shows "case on_data_available process (concat cs) r of
      (None, q) \<Rightarrow> on_chunks process cs r = (None, q)
    | (Some e, q) \<Rightarrow> \<exists>buf. on_chunks process cs r = (Some e, q\<lparr>frame_buffer := buf\<rparr>)"
  using assms by (rule on_chunks_whole)

text \<open>A handler that records the frames.\<close>

definition record_frame :: "frame list processor" where
  "record_frame f s = (None, s @ [f])"

lemma chunks_do_not_matter_witness:
  "on_chunks record_frame [[8, 0, 0, 0, 0], [0, 0, 206, 8]]
      \<lparr>frame_buffer = [], bytes_received = 0, handler = []\<rparr>
    = (None, \<lparr>frame_buffer = [8], bytes_received = 8, handler = [Heartbeat_Frame]\<rparr>)"
proof -
  let ?r = "\<lparr>frame_buffer = [], bytes_received = 0, handler = []\<rparr> :: frame list reader"
  have "decode_frame [8, 0, 0, 0, 0, 0, 0, 206, 8] = Inr (8, Some Heartbeat_Frame)" by code_simp
  moreover have "decode_frame [8] = Inr (0, None)" by code_simp
  ultimately have "on_data_available record_frame (concat [[8, 0, 0, 0, 0], [0, 0, 206, 8]]) ?r
      = (None, \<lparr>frame_buffer = [8], bytes_received = 8, handler = [Heartbeat_Frame]\<rparr>)"
    by (simp add: on_data_available_def read_loop_frame read_loop_wait record_frame_def)
  moreover have "on_data_available record_frame [] ?r = (None, ?r)"
    by (simp add: on_data_available_def read_loop.simps)
  ultimately show ?thesis
    using chunks_do_not_matter[of record_frame ?r "[[8, 0, 0, 0, 0], [0, 0, 206, 8]]"] by simp
qed

section \<open>Streams of marshalled frames\<close>

lemma on_data_frames:
  assumes "traverseE marshal fs = Inr bss" "\<forall>f \<in> set fs. valid_frame f"
    and process: "\<And>f s. process f s = (None, g f s)"
  shows "loop_parts process (concat bss, k, s)
    = (None, ([], k + length (concat bss), fold g (map wire_frame fs) s))"
  using assms(1,2)
proof (induction fs arbitrary: bss k s)
  case Nil
  then show ?case by (simp add: wire.loop)
next
  case (Cons f fs)
  then obtain b bs where b: "marshal f = Inr b" "traverseE marshal fs = Inr bs" "bss = b # bs"
    by (auto simp: result_simps)
  from Cons.prems have "valid_frame f" by simp
  from marshal_decodes[OF b(1) this] have dec: "decode_frame (b @ concat bs) = Inr (length b, Some (wire_frame f))" .
  with decode_frame_length[of "b @ concat bs"] have "b \<noteq> []" by auto
  then have "loop_parts process (b @ concat bs, k, s)
      = loop_parts process (concat bs, k + length b, g (wire_frame f) s)"
    by (subst wire.loop) (simp add: dec process)
  with Cons.IH[OF b(2)] Cons.prems(2) show ?case
    by (simp add: b(3) add.assoc del: length_concat)
qed

lemma stream_frames:
  assumes "traverseE marshal fs = Inr bss" "\<forall>f \<in> set fs. valid_frame f"
    and "\<And>f s. process f s = (None, g f s)" "frame_buffer r = []" "concat cs = concat bss"
  shows "on_chunks process cs r = (None, \<lparr>frame_buffer = [],
    bytes_received = bytes_received r + length (concat bss),
    handler = fold g (map wire_frame fs) (handler r)\<rparr>)"
proof -
  have "on_data_available process (concat cs) r = (None, reader_of ([],
      bytes_received r + length (concat bss), fold g (map wire_frame fs) (handler r)))"
    using on_data_frames[OF assms(1-3)] assms(4,5) by (simp add: on_data_parts del: length_concat)
  moreover have "on_data_available process [] r = (None, r)"
    using assms(4) by (simp add: on_data_available_def read_loop.simps)
  ultimately show ?thesis
    using on_chunks_whole[of process r cs] by (simp add: reader_of_def del: length_concat)
qed

text \<open>
  Whatever sequence of frames the peer has marshalled, and however the bytes
  are cut into chunks on the way: the frames are processed one after the other in the order
  sent, each in its wire form, every byte is counted, and the buffer is empty afterwards.
\<close>

theorem stream_delivers_frames:
  assumes "traverseE marshal fs = Inr bss" "\<forall>f \<in> set fs. valid_frame f"
    and "\<And>f s. process f s = (None, g f s)" "frame_buffer r = []" "concat cs = concat bss"
  shows "on_chunks process cs r = (None, \<lparr>frame_buffer = [],
    bytes_received = bytes_received r + length (concat bss),
    handler = fold g (map wire_frame fs) (handler r)\<rparr>)"
  using assms by (rule stream_frames)

lemma stream_delivers_frames_witness:
  "on_chunks record_frame [[8, 0, 0, 0], [0, 0, 0, 206, 3, 0, 1, 0, 0], [0, 1, 42, 206]]
      \<lparr>frame_buffer = [], bytes_received = 0, handler = []\<rparr>
    = (None, \<lparr>frame_buffer = [], bytes_received = 17, handler = [Heartbeat_Frame, Body_Frame 1 [42]]\<rparr>)"
proof -
  have "traverseE marshal [Heartbeat_Frame, Body_Frame 1 [42]]
      = Inr [[8, 0, 0, 0, 0, 0, 0, 206], [3, 0, 1, 0, 0, 0, 1, 42, 206]]" by code_simp
  from stream_delivers_frames[OF this, of record_frame "\<lambda>f s. s @ [f]"
      "\<lparr>frame_buffer = [], bytes_received = 0, handler = []\<rparr>"
      "[[8, 0, 0, 0], [0, 0, 0, 206, 3, 0, 1, 0, 0], [0, 1, 42, 206]]"]
  show ?thesis by (simp add: record_frame_def)
qed

text \<open>
  Reading loses and invents no byte: what has been counted as received plus what
  is still in the buffer is what has come in, whether the loop has ended or was left by an
  exception.
\<close>

theorem no_byte_lost:
  "\<exists>taken. frame_buffer r @ d = taken @ frame_buffer (snd (on_data_available process d r))
    \<and> bytes_received (snd (on_data_available process d r)) = bytes_received r + length taken"
  by (rule on_data_cases[of process r d]) (auto dest!: wire.loop_conserves simp: reader_of_def)

end
