(* ===== verification/Amqp_Content.thy ===== *)
theory Amqp_Content
  imports Amqp_Stream
begin

text \<open>
  Messages with content: \<open>Connection._send_message\<close> turns a method, properties and a body
  into frames whose bodies fit the negotiated frame size, and \<open>ContentFrameAssembler\<close> of
  \<open>pika/channel.py\<close> puts them together again. The contract between them is the locale
  \<open>fragmenter\<close>; the assembler returns the message exactly once, with its last frame.
\<close>

section \<open>Fragments\<close>

text \<open>\<open>int(math.ceil(float(length) / k))\<close>, exact for bodies that fit into memory.\<close>

definition ceil_div :: "int \<Rightarrow> int \<Rightarrow> int" where
  "ceil_div n k = - (- n div k)"

text \<open>
  The loop over \<open>xrange(0, chunks)\<close>. \<open>None\<close> is the \<open>ZeroDivisionError\<close>; a negative limit
  leads to no chunk at all.
\<close>

definition body_chunks :: "int \<Rightarrow> bytes \<Rightarrow> bytes list option" where
  "body_chunks body_max_length body =
     (let length = int (length body) in
      if body_max_length = 0 then None
      else Some (map (\<lambda>chunk.
        let start = chunk * nat body_max_length;
            stop = start + nat body_max_length;
            stop = (if stop > nat length then nat length else stop)
        in py_slice start stop body) [0..<nat (ceil_div length body_max_length)]))"

text \<open>\<open>_get_body_frame_max_length\<close>\<close>

definition body_frame_max_length :: "int \<Rightarrow> int" where
  "body_frame_max_length frame_max = frame_max - int FRAME_HEADER_SIZE - int FRAME_END_SIZE"

definition body_frames :: "int \<Rightarrow> int \<Rightarrow> bytes \<Rightarrow> frame list option" where
  "body_frames channel_number body_max_length body =
     (if body = [] then Some []
      else case body_chunks body_max_length body of
        None \<Rightarrow> None
      | Some chunks \<Rightarrow> Some (map (Body_Frame channel_number) chunks))"

section \<open>Sending\<close>

datatype send_error = Send_Error py_error | ZeroDivisionError

record sender =
  bytes_sent :: nat
  frames_sent :: nat
  emitted :: "bytes list"

definition output_frame :: "bytes \<Rightarrow> 'z sender_scheme \<Rightarrow> 'z sender_scheme" where
  "output_frame marshaled_frame s =
     s\<lparr>bytes_sent := bytes_sent s + length marshaled_frame, frames_sent := frames_sent s + 1,
       emitted := emitted s @ [marshaled_frame]\<rparr>"

definition output_marshaled_frames ::
    "bytes list \<Rightarrow> 'z sender_scheme \<Rightarrow> 'z sender_scheme" where
  "output_marshaled_frames marshaled_frames s = fold output_frame marshaled_frames s"

text \<open>All frames are marshalled before the first is put out; an exception leaves nothing sent.\<close>

definition message_frames :: "int \<Rightarrow> int \<Rightarrow> meth \<Rightarrow> basic_properties \<Rightarrow> bytes \<Rightarrow> frame list option" where
  "message_frames body_max_length channel_number m props body =
     map_option (\<lambda>bodies. Method_Frame channel_number m
         # Header_Frame channel_number (int (length body)) props # bodies)
       (body_frames channel_number body_max_length body)"

definition send_message :: "int \<Rightarrow> int \<Rightarrow> meth \<Rightarrow> basic_properties \<Rightarrow> bytes \<Rightarrow> 'z sender_scheme \<Rightarrow> send_error + 'z sender_scheme" where
  "send_message body_max_length channel_number m props body s =
     (case traverseE marshal [Method_Frame channel_number m,
             Header_Frame channel_number (int (length body)) props] of
        Inl e \<Rightarrow> Inl (Send_Error e)
      | Inr heads \<Rightarrow>
          (case body_frames channel_number body_max_length body of
             None \<Rightarrow> Inl ZeroDivisionError
           | Some bodies \<Rightarrow>
               (case traverseE marshal bodies of
                  Inl e \<Rightarrow> Inl (Send_Error e)
                | Inr bodies \<Rightarrow> Inr (output_marshaled_frames (heads @ bodies) s))))"

section \<open>Assembling\<close>

datatype content_error = UnexpectedFrameError frame | BodyTooLongError int int | HeaderMissing

text \<open>\<open>HeaderMissing\<close> is the \<open>AttributeError\<close> of \<open>None.body_size\<close>.\<close>

record assembler =
  method_frame :: "frame option"
  header_frame :: "frame option"
  seen_so_far :: int
  body_fragments :: "bytes list"

definition new_assembler :: assembler where
  "new_assembler = \<lparr>method_frame = None, header_frame = None, seen_so_far = 0, body_fragments = []\<rparr>"

type_synonym content = "frame option \<times> frame option \<times> bytes"

definition finish :: "assembler \<Rightarrow> content option \<times> assembler" where
  "finish a = (Some (method_frame a, header_frame a, concat (body_fragments a)),
     a\<lparr>method_frame := None, header_frame := None, seen_so_far := 0, body_fragments := []\<rparr>)"

definition handle_body_frame :: "bytes \<Rightarrow> assembler \<Rightarrow> (content_error + content option) \<times> assembler" where
  "handle_body_frame fragment a =
     (let a = a\<lparr>seen_so_far := seen_so_far a + int (length fragment),
                body_fragments := body_fragments a @ [fragment]\<rparr>
      in case header_frame a of
           Some (Header_Frame _ body_size _) \<Rightarrow>
             if seen_so_far a = body_size then apfst Inr (finish a)
             else if seen_so_far a > body_size then (Inl (BodyTooLongError (seen_so_far a) body_size), a)
             else (Inr None, a)
         | _ \<Rightarrow> (Inl HeaderMissing, a))"

fun process :: "frame \<Rightarrow> assembler \<Rightarrow> (content_error + content option) \<times> assembler" where
  "process (Method_Frame c m) a =
     (if has_content (method_INDEX m) then (Inr None, a\<lparr>method_frame := Some (Method_Frame c m)\<rparr>)
      else (Inl (UnexpectedFrameError (Method_Frame c m)), a))"
| "process (Header_Frame c body_size props) a =
     (let a = a\<lparr>header_frame := Some (Header_Frame c body_size props)\<rparr>
      in if body_size = 0 then apfst Inr (finish a) else (Inr None, a))"
| "process (Body_Frame c fragment) a = handle_body_frame fragment a"
| "process f a = (Inl (UnexpectedFrameError f), a)"

text \<open>A channel feeds it frame by frame and hands on each message that comes out.\<close>

fun assemble :: "frame list \<Rightarrow> assembler \<Rightarrow> (content_error option \<times> content list) \<times> assembler" where
  "assemble [] a = ((None, []), a)"
| "assemble (f # fs) a =
     (case process f a of
        (Inl e, a) \<Rightarrow> ((Some e, []), a)
      | (Inr None, a) \<Rightarrow> assemble fs a
      | (Inr (Some c), a) \<Rightarrow> (case assemble fs a of ((e, cs), a) \<Rightarrow> ((e, c # cs), a)))"

section \<open>The contract of a fragmentation\<close>

text \<open>Pieces that are not empty, fit the limit, and make up the body in order.\<close>

locale fragmenter =
  fixes limit :: nat and fragments :: "'a list \<Rightarrow> 'a list list"
  assumes join: "concat (fragments body) = body"
    and nonempty: "fr \<in> set (fragments body) \<Longrightarrow> fr \<noteq> []"
    and fits: "fr \<in> set (fragments body) \<Longrightarrow> length fr \<le> limit"
begin

lemma fragments_Nil: "fragments [] = []"
proof (rule ccontr)
  assume "fragments [] \<noteq> []"
  then obtain fr frs where "fragments [] = fr # frs" by (cases "fragments []") auto
  with nonempty[of fr "[]"] join[of "[]"] show False by simp
qed

lemma prefixes_short:
  assumes "fragments body = xs @ ys" "ys \<noteq> []"
  shows "length (concat xs) < length body"
proof -
  from assms(2) obtain y ys' where y: "ys = y # ys'" by (cases ys) auto
  with nonempty[of y body] assms(1) have "y \<noteq> []" by simp
  then have "length (concat xs) < length (concat (xs @ ys))" by (simp add: y)
  with join[of body] assms(1) show ?thesis by simp
qed

end

text \<open>The chunks of a body, for a positive limit, are such a fragmentation.\<close>

lemma div_less_iff_int:
  assumes "0 < (k :: int)"
  shows "a div k < b \<longleftrightarrow> a < b * k"
proof -
  have a: "a = k * (a div k) + a mod k" "0 \<le> a mod k" "a mod k < k" using assms by simp_all
  show ?thesis
  proof
    assume "a div k < b"
    then have "k * (a div k) \<le> k * (b - 1)" using assms by (intro mult_left_mono) auto
    also have "k * (b - 1) = b * k - k" by (simp add: algebra_simps)
    finally show "a < b * k" using a by linarith
  next
    assume l: "a < b * k"
    show "a div k < b"
    proof (rule ccontr)
      assume "\<not> a div k < b"
      then have "k * b \<le> k * (a div k)" using assms by (intro mult_left_mono) auto
      moreover have "b * k = k * b" by simp
      ultimately show False using a l by linarith
    qed
  qed
qed

lemma less_ceil_div: "0 < k \<Longrightarrow> i < ceil_div n k \<longleftrightarrow> i * k < n"
proof -
  assume k: "0 < k"
  have "i < ceil_div n k \<longleftrightarrow> - n div k < - i" by (auto simp: ceil_div_def)
  also have "\<dots> \<longleftrightarrow> i * k < n" unfolding div_less_iff_int[OF k] by auto
  finally show ?thesis .
qed

definition fragments :: "nat \<Rightarrow> bytes \<Rightarrow> bytes list" where
  "fragments k body = map (\<lambda>i. take k (drop (i * k) body)) [0..<nat (ceil_div (int (length body)) (int k))]"

lemma body_chunks_fragments:
  assumes "0 < k"
  shows "body_chunks (int k) body = Some (fragments k body)"
proof -
  have "py_slice (i * k) (if i * k + k > length body then length body else i * k + k) body
      = take k (drop (i * k) body)" for i
    unfolding py_slice_def by simp
  with assms show ?thesis
    by (simp only: body_chunks_def fragments_def Let_def nat_int of_nat_eq_0_iff) simp
qed

lemma concat_slices: "concat (map (\<lambda>i. take k (drop (i * k) xs)) [0..<m]) = take (m * k) xs"
proof (induction m)
  case (Suc m)
  have "take (Suc m * k) xs = take (m * k + k) xs" by (simp add: add.commute)
  with Suc show ?case by (simp only: take_add) simp
qed simp

lemma less_fragments:
  assumes "0 < k"
  shows "i < nat (ceil_div (int n) (int k)) \<longleftrightarrow> i * k < n"
proof -
  have "i < nat (ceil_div (int n) (int k)) \<longleftrightarrow> int i < ceil_div (int n) (int k)" by linarith
  also have "\<dots> \<longleftrightarrow> i * k < n"
    using less_ceil_div[of "int k" "int i" "int n"] assms by (simp flip: of_nat_mult)
  finally show ?thesis .
qed

interpretation chunks: fragmenter "Suc k" "fragments (Suc k)" for k
proof
  fix body fr :: bytes
  let ?m = "nat (ceil_div (int (length body)) (int (Suc k)))"
  have "\<not> ?m * Suc k < length body"
    using less_fragments[of "Suc k" ?m "length body"] by (simp del: mult_Suc_right)
  then show "concat (fragments (Suc k) body) = body"
    by (simp add: fragments_def concat_slices del: mult_Suc_right)
  assume "fr \<in> set (fragments (Suc k) body)"
  then obtain i where i: "fr = take (Suc k) (drop (i * Suc k) body)" "i * Suc k < length body"
    by (auto simp: fragments_def less_fragments simp del: mult_Suc_right of_nat_Suc)
  then show "fr \<noteq> []" "length fr \<le> Suc k" by (auto simp del: mult_Suc_right)
qed

section \<open>The assembler\<close>

definition assembler_inv :: "assembler \<Rightarrow> bool" where
  "assembler_inv a \<longleftrightarrow> seen_so_far a = int (length (concat (body_fragments a)))
     \<and> (\<forall>h. header_frame a = Some h \<longrightarrow> (\<exists>c n p. h = Header_Frame c n p))"

lemma assembler_inv_new: "assembler_inv new_assembler"
  by (simp add: assembler_inv_def new_assembler_def)

lemma finish_new: "snd (finish a) = new_assembler"
  by (simp add: finish_def new_assembler_def)

lemma process_inv: "assembler_inv a \<Longrightarrow> assembler_inv (snd (process f a))"
  by (cases f) (auto simp: assembler_inv_def handle_body_frame_def finish_def Let_def apfst_def
      split: option.splits frame.splits)

text \<open>What comes out is what the header announced, unless the header announced nothing.\<close>

definition announced :: "content \<Rightarrow> bool" where
  "announced = (\<lambda>(m, h, body). \<exists>c n p. h = Some (Header_Frame c n p) \<and> (n \<noteq> 0 \<longrightarrow> int (length body) = n))"

lemma process_announced:
  assumes "assembler_inv a" "process f a = (Inr (Some x), a')"
  shows "announced x"
  using assms by (cases f)
    (auto simp: assembler_inv_def handle_body_frame_def finish_def Let_def announced_def
      split: option.splits frame.splits if_splits)

lemma assemble_announced:
  "assembler_inv a \<Longrightarrow> assemble fs a = ((e, cs), a') \<Longrightarrow> assembler_inv a' \<and> list_all announced cs"
proof (induction fs arbitrary: a e cs a')
  case (Cons f fs)
  obtain r q where q: "process f a = (r, q)" by fastforce
  from process_inv[OF Cons.prems(1), of f] q have inv: "assembler_inv q" by simp
  show ?case
  proof (cases r)
    case (Inr c)
    with Cons.IH[OF inv] Cons.prems q process_announced[OF Cons.prems(1), of f _ q] show ?thesis
      by (cases c) (auto split: prod.splits)
  qed (use Cons.prems q inv in auto)
qed simp

lemma assemble_bodies:
  assumes "frs \<noteq> []" "\<forall>fr \<in> set frs. fr \<noteq> []" "header_frame a = Some (Header_Frame c n props)"
    "assembler_inv a" "n = seen_so_far a + int (length (concat frs))"
  shows "assemble (map (Body_Frame c) frs) a = ((None,
    [(method_frame a, header_frame a, concat (body_fragments a) @ concat frs)]), new_assembler)"
  using assms
proof (induction frs arbitrary: a)
  case (Cons fr frs)
  let ?b = "a\<lparr>seen_so_far := seen_so_far a + int (length fr), body_fragments := body_fragments a @ [fr]\<rparr>"
  show ?case
  proof (cases "frs = []")
    case True
    with Cons.prems show ?thesis
      by (simp add: handle_body_frame_def Let_def finish_def new_assembler_def)
  next
    case False
    with Cons.prems(2) have "0 < length (concat frs)" by (cases frs) auto
    with Cons.prems have "process (Body_Frame c fr) a = (Inr None, ?b)"
      by (simp add: handle_body_frame_def Let_def del: length_concat)
    moreover have "assemble (map (Body_Frame c) frs) ?b = ((None,
        [(method_frame ?b, header_frame ?b, concat (body_fragments ?b) @ concat frs)]), new_assembler)"
      using False Cons.prems by (intro Cons.IH) (auto simp: assembler_inv_def)
    ultimately show ?thesis by simp
  qed
qed simp

lemma assemble_message:
  assumes "has_content (method_INDEX m)" "\<forall>fr \<in> set frs. fr \<noteq> []" "concat frs = body"
  shows "assemble (Method_Frame c m # Header_Frame c (int (length body)) props # map (Body_Frame c) frs)
      new_assembler
    = ((None, [(Some (Method_Frame c m), Some (Header_Frame c (int (length body)) props), body)]), new_assembler)"
proof (cases "frs = []")
  case True
  with assms show ?thesis by (simp add: new_assembler_def finish_def)
next
  case False
  with assms(2,3) have "body \<noteq> []" by (cases frs) auto
  with False assms assemble_bodies[OF False assms(2), of "new_assembler\<lparr>method_frame := Some (Method_Frame c m),
      header_frame := Some (Header_Frame c (int (length body)) props)\<rparr>" c "int (length body)" props]
  show ?thesis by (simp add: assembler_inv_def new_assembler_def)
qed

lemma method_wire_INDEX: "method_INDEX (method_wire m) = method_INDEX m"
proof (cases m)
  case (Connection_Class x) then show ?thesis by (cases x) simp_all
next
  case (Channel_Class x) then show ?thesis by (cases x) simp_all
next
  case (Access_Class x) then show ?thesis by (cases x) simp_all
next
  case (Exchange_Class x) then show ?thesis by (cases x) simp_all
next
  case (Queue_Class x) then show ?thesis by (cases x) simp_all
next
  case (Basic_Class x) then show ?thesis by (cases x) simp_all
next
  case (Tx_Class x) then show ?thesis by (cases x) simp_all
next
  case (Confirm_Class x) then show ?thesis by (cases x) simp_all
qed

lemma fold_output: "output_marshaled_frames bs s =
  s\<lparr>bytes_sent := bytes_sent s + length (concat bs), frames_sent := frames_sent s + length bs,
    emitted := emitted s @ bs\<rparr>"
  unfolding output_marshaled_frames_def
  by (induction bs arbitrary: s) (simp_all add: output_frame_def)

lemma traverseE_append:
  "traverseE f (xs @ ys) = bindE (traverseE f xs) (\<lambda>us. bindE (traverseE f ys) (\<lambda>vs. Inr (us @ vs)))"
proof (induction xs)
  case Nil
  show ?case by (cases "traverseE f ys") simp_all
qed (simp add: bindE_assoc)

lemma send_message_frames:
  assumes "send_message k c m props body s = Inr s'"
  obtains fs bs where "message_frames k c m props body = Some fs" "traverseE marshal fs = Inr bs"
    "s' = output_marshaled_frames bs s"
proof -
  from assms obtain heads bodies bs where h: "traverseE marshal [Method_Frame c m,
      Header_Frame c (int (length body)) props] = Inr heads" "body_frames c k body = Some bodies"
    "traverseE marshal bodies = Inr bs" "s' = output_marshaled_frames (heads @ bs) s"
    by (auto simp: send_message_def simp del: marshal.simps traverseE.simps split: sum.splits option.splits)
  with traverseE_append[of marshal "[Method_Frame c m, Header_Frame c (int (length body)) props]" bodies]
  show ?thesis by (intro that[of _ "heads @ bs"]) (simp_all add: message_frames_def del: traverseE.simps)
qed

section \<open>Properties\<close>

text \<open>
  A body is cut into non-empty fragments that join to the body, and the frame
  around each, header and end octet included, is no longer than the negotiated \<open>frame_max\<close>.
\<close>

theorem body_frames_fit:
  assumes "8 < frame_max"
  shows "\<exists>frs. body_frames c (body_frame_max_length frame_max) body = Some (map (Body_Frame c) frs)
    \<and> concat frs = body
    \<and> (\<forall>fr \<in> set frs. fr \<noteq> [] \<and> (case marshal (Body_Frame c fr) of
          Inr bs \<Rightarrow> int (length bs) \<le> frame_max | Inl e \<Rightarrow> True))"
proof -
  define k where "k = nat (frame_max - 9)"
  have k: "body_frame_max_length frame_max = int (Suc k)"
    using assms by (simp add: body_frame_max_length_def k_def spec_constants)
  have "int (length bs) \<le> frame_max"
    if fr: "fr \<in> set (fragments (Suc k) body)" and bs: "marshal (Body_Frame c fr) = Inr bs" for fr bs
  proof -
    from bs obtain t x n where "bs = t # x @ n @ concat [fr] @ [FRAME_END]" "length x = 2" "length n = 4"
      unfolding marshal.simps by (rule marshal_pieces_layout) (rule that)
    with chunks.fits[OF fr] show ?thesis using assms by (simp add: k_def)
  qed
  with chunks.join[of k body] chunks.nonempty[of _ k body] show ?thesis
    by (cases "body = []")
      (auto simp: body_frames_def k body_chunks_fragments split: sum.split
        intro!: exI[of _ "fragments (Suc k) body"] simp del: of_nat_Suc)
qed

lemma body_frames_fit_witness:
  "\<exists>frs. body_frames 1 (body_frame_max_length 10) [7, 8, 9] = Some (map (Body_Frame 1) frs)
    \<and> concat frs = [7, 8, 9]"
  using body_frames_fit[of 10 1 "[7, 8, 9]"] by auto

text \<open>
  C17 (roundtrip). A published message survives the wire: if \<open>_send_message\<close> puts it out at
  all, then from its bytes, however they are cut into chunks, the reader makes frames from
  which the assembler gives exactly one message, with the body unchanged and the method and
  properties in their wire form, and is ready for the next.
\<close>

theorem message_survives:
  assumes sent: "send_message (int (Suc k)) c m props body s = Inr s'" and s: "emitted s = []"
    and m: "has_content (method_INDEX m)" "valid_method m" "valid_times (headers props)"
    and cs: "concat cs = concat (emitted s')"
  shows "\<exists>fs n. on_chunks record_frame cs \<lparr>frame_buffer = [], bytes_received = 0, handler = []\<rparr>
      = (None, \<lparr>frame_buffer = [], bytes_received = n, handler = fs\<rparr>)
    \<and> assemble fs new_assembler
      = ((None, [(Some (Method_Frame c (method_wire m)),
            Some (Header_Frame c (int (length body)) (properties_wire props)), body)]), new_assembler)"
proof -
  from send_message_frames[OF sent] obtain fs bs where fs: "message_frames (int (Suc k)) c m props body = Some fs"
    "traverseE marshal fs = Inr bs" "s' = output_marshaled_frames bs s" by blast
  let ?frs = "if body = [] then [] else fragments (Suc k) body"
  have fs_eq: "fs = Method_Frame c m # Header_Frame c (int (length body)) props # map (Body_Frame c) ?frs"
    using fs(1) by (auto simp: message_frames_def body_frames_def body_chunks_fragments simp del: of_nat_Suc)
  have "\<not> is_update_secret m"
    using m(1) by (cases m rule: is_update_secret.cases) (simp_all add: has_content_def)
  with m(2,3) have valid: "\<forall>f \<in> set fs. valid_frame f" by (auto simp: fs_eq)
  have wire: "map wire_frame fs = Method_Frame c (method_wire m)
      # Header_Frame c (int (length body)) (properties_wire props) # map (Body_Frame c) ?frs"
    by (simp add: fs_eq)
  have frs: "\<forall>fr \<in> set ?frs. fr \<noteq> []" "concat ?frs = body"
    using chunks.nonempty[of _ k body] chunks.join[of k body] by auto
  have step: "record_frame f ss = (None, (\<lambda>f ss. ss @ [f]) f ss)" for f ss
    by (simp add: record_frame_def)
  have snoc: "fold (\<lambda>f ss. ss @ [f]) xs ys = ys @ xs" for xs ys :: "frame list"
    by (induction xs arbitrary: ys) simp_all
  have "concat cs = concat bs" using cs s by (simp add: fs(3) fold_output)
  from stream_frames[OF fs(2) valid step _ this, of "\<lparr>frame_buffer = [], bytes_received = 0, handler = []\<rparr>"]
  have "on_chunks record_frame cs \<lparr>frame_buffer = [], bytes_received = 0, handler = []\<rparr>
      = (None, \<lparr>frame_buffer = [], bytes_received = length (concat bs), handler = map wire_frame fs\<rparr>)"
    by (simp add: snoc del: length_concat)
  moreover have "assemble (map wire_frame fs) new_assembler = ((None, [(Some (Method_Frame c (method_wire m)),
      Some (Header_Frame c (int (length body)) (properties_wire props)), body)]), new_assembler)"
    unfolding wire by (rule assemble_message[OF _ frs]) (simp only: method_wire_INDEX m(1))
  ultimately show ?thesis by blast
qed

lemma message_survives_witness:
  "\<exists>s' fs n. send_message 2 1 (Basic_Class new_Basic_Publish) new_properties [7, 8, 9]
        \<lparr>bytes_sent = 0, frames_sent = 0, emitted = []\<rparr> = Inr s'
    \<and> on_chunks record_frame [concat (emitted s')] \<lparr>frame_buffer = [], bytes_received = 0, handler = []\<rparr>
        = (None, \<lparr>frame_buffer = [], bytes_received = n, handler = fs\<rparr>)
    \<and> snd (assemble fs new_assembler) = new_assembler"
proof -
  let ?m = "Basic_Class new_Basic_Publish" and ?s = "\<lparr>bytes_sent = 0, frames_sent = 0, emitted = []\<rparr>"
  have "be_bytes 2 0 = [0, 0]" by code_simp
  then have "flag_words 0 = Inr [[0, 0]]"
    by (simp add: flag_words.simps[of 0] pack_uint_def del: be_bytes.simps)
  then have "properties_encode new_properties = Inr [[0, 0]]"
    by (simp add: properties_encode_def attribute_steps_def new_properties_def)
  then have "\<exists>h. marshal (Header_Frame 1 3 new_properties) = Inr h"
    by (simp add: marshal_pieces_def pack_uint_def FRAME_HEADER_def del: be_bytes.simps)
  then obtain h where "marshal (Header_Frame 1 3 new_properties) = Inr h" by blast
  moreover obtain p where "marshal (Method_Frame 1 ?m) = Inr p"
  proof
    show "marshal (Method_Frame 1 ?m)
      = Inr [1, 0, 1, 0, 0, 0, 9, 0, 60, 0, 40, 0, 0, 0, 0, 0, 206]" by code_simp
  qed
  moreover have "body_frames 1 2 [7, 8, 9] = Some [Body_Frame 1 [7, 8], Body_Frame 1 [9]]" by code_simp
  moreover have "marshal (Body_Frame 1 [7, 8]) = Inr [3, 0, 1, 0, 0, 0, 2, 7, 8, 206]" by code_simp
  moreover have "marshal (Body_Frame 1 [9]) = Inr [3, 0, 1, 0, 0, 0, 1, 9, 206]" by code_simp
  ultimately have "\<exists>s'. send_message 2 1 ?m new_properties [7, 8, 9] ?s = Inr s'"
    by (simp add: send_message_def del: marshal.simps)
  then obtain s' where s': "send_message (int (Suc 1)) 1 ?m new_properties [7, 8, 9] ?s = Inr s'" by auto
  have "has_content (method_INDEX ?m)" "valid_method ?m" "valid_times (headers new_properties)"
    by (simp_all add: new_Basic_Publish_def has_content_def valid_method_def new_properties_def)
  from message_survives[OF s' _ this, of "[concat (emitted s')]"] s' show ?thesis by fastforce
qed

text \<open>
  Whatever frames arrive, in whatever order: the assembler's count is the
  size of the fragments it holds, and every message it gives has a header, whose body size,
  if it is not zero, is the size of the body.
\<close>

theorem assembled_as_announced:
  assumes "assemble fs new_assembler = ((e, cs), a)"
  shows "seen_so_far a = int (length (concat (body_fragments a))) \<and> list_all announced cs"
  using assemble_announced[OF assembler_inv_new assms] by (simp add: assembler_inv_def del: length_concat)

lemma assembled_as_announced_witness:
  "\<exists>a. assemble [Header_Frame 1 2 new_properties, Body_Frame 1 [7]] new_assembler = ((None, []), a)
    \<and> seen_so_far a = int (length (concat (body_fragments a)))"
proof -
  have "\<exists>a. assemble [Header_Frame 1 2 new_properties, Body_Frame 1 [7]] new_assembler = ((None, []), a)"
    by (simp add: handle_body_frame_def Let_def new_assembler_def)
  with assembled_as_announced show ?thesis by blast
qed

text \<open>
  A frame sequence that breaks off inside a body is not noticed: a header that
  announces an empty body is answered with the fragments left over from the message before.
\<close>

theorem stale_fragments_delivered:
  "snd (fst (assemble [Method_Frame c m, Header_Frame c 5 p, Body_Frame c [1, 2],
      Method_Frame c m', Header_Frame c 0 p'] new_assembler))
    = (if has_content (method_INDEX m) \<and> has_content (method_INDEX m')
       then [(Some (Method_Frame c m'), Some (Header_Frame c 0 p'), [1, 2])] else [])"
  by (simp add: handle_body_frame_def Let_def new_assembler_def finish_def)

text \<open>
  \<open>_send_message\<close> is all or nothing: it puts out the marshalled method, header
  and body frames in this order, counting each of them and its bytes, or it raises and the
  connection has sent nothing.
\<close>

theorem send_message_all_or_nothing:
  "case send_message k c m props body s of
     Inr s' \<Rightarrow> \<exists>fs bs. message_frames k c m props body = Some fs \<and> traverseE marshal fs = Inr bs
       \<and> s' = s\<lparr>bytes_sent := bytes_sent s + length (concat bs), frames_sent := frames_sent s + length fs,
            emitted := emitted s @ bs\<rparr>
   | Inl e \<Rightarrow> (case message_frames k c m props body of
       None \<Rightarrow> body \<noteq> [] \<and> k = 0
     | Some fs \<Rightarrow> \<exists>x. traverseE marshal fs = Inl x)"
proof (cases "send_message k c m props body s")
  case (Inr s')
  then obtain fs bs where fs: "message_frames k c m props body = Some fs" "traverseE marshal fs = Inr bs"
    "s' = output_marshaled_frames bs s" by (rule send_message_frames)
  then have "length bs = length fs" by (auto simp: traverseE_Inr_iff dest: list_all2_lengthD)
  with fs Inr show ?thesis by (simp add: fold_output del: length_concat)
next
  case (Inl e)
  show ?thesis
  proof (cases "body_frames c k body")
    case None
    with Inl show ?thesis
      by (auto simp: message_frames_def body_frames_def body_chunks_def Let_def split: if_splits option.splits)
  next
    case (Some bodies)
    let ?heads = "[Method_Frame c m, Header_Frame c (int (length body)) props]"
    have "\<exists>x. traverseE marshal (?heads @ bodies) = Inl x"
      using Inl Some unfolding traverseE_append send_message_def
      by (auto simp del: marshal.simps traverseE.simps split: sum.splits)
    with Some Inl show ?thesis by (simp add: message_frames_def del: traverseE.simps marshal.simps)
  qed
qed

end
