(* ===== verification/Heartbeat.thy ===== *)
theory Heartbeat
  imports Timer Exceptions Amqp_Content
begin

text \<open>
  \<open>pika/heartbeat.py\<close>, the part of \<open>pika/connection.py\<close> it works on, and the timer for blocked
  connections: the attributes of \<open>Connection\<close> that the checker reads and changes, sending a
  frame, terminating the stream, and the callbacks handed to \<open>_adapter_call_later\<close>. The timers
  are those of \<open>Timer\<close>; time is counted in half seconds, so that the send interval,
  \<open>timeout / 2\<close> seconds, is a whole number.
\<close>

section \<open>State\<close>

datatype conn_state = CONNECTION_CLOSED | CONNECTION_INIT | CONNECTION_PROTOCOL | CONNECTION_START
| CONNECTION_TUNE | CONNECTION_OPEN | CONNECTION_CLOSING

datatype conn_callback = Send_Heartbeat | Check_Heartbeat | Blocked_Timeout

record checker =
  timeout :: int
  hb_bytes_received :: nat
  hb_bytes_sent :: nat
  heartbeat_frames_received :: nat
  heartbeat_frames_sent :: nat
  idle_byte_intervals :: nat
  send_timer :: "nat option"
  check_timer :: "nat option"

text \<open>\<open>disconnects\<close> counts the calls of \<open>_adapter_disconnect_stream\<close>, which the adapter answers later.\<close>

record core = sender +
  connection_state :: conn_state
  conn_error :: "exn option"
  heartbeat_checker :: "checker option"
  blocked_conn_timer :: "nat option"
  received_bytes :: nat
  disconnects :: nat
  clock :: int

type_synonym ('z, 'a) conn_act = "('z core_scheme \<times> conn_callback timer, 'a) act"

section \<open>What the checker uses of the connection\<close>

definition adapter_call_later :: "int \<Rightarrow> conn_callback \<Rightarrow> ('z, nat) conn_act" where
  "adapter_call_later delay cb s =
     (case call_later (clock (fst s)) delay cb (snd s) of
        Inl e \<Rightarrow> (Inl (Python_Error e), s)
      | Inr (i, t) \<Rightarrow> (Inr i, (fst s, t)))"

definition adapter_remove_timeout :: "nat \<Rightarrow> ('z, unit) conn_act" where
  "adapter_remove_timeout i s = (Inr (), (fst s, remove_timeout i (snd s)))"

definition change :: "('z core_scheme \<Rightarrow> 'z core_scheme) \<Rightarrow> ('z, unit) conn_act" where
  "change f s = (Inr (), (f (fst s), snd s))"

definition send_frame :: "frame \<Rightarrow> ('z, unit) conn_act" where
  "send_frame f =
     andThen (query (\<lambda>s. connection_state (fst s))) (\<lambda>st.
     if st = CONNECTION_CLOSED then raise ConnectionWrongStateError
     else andThen (unless_error (marshal f)) (\<lambda>marshaled_frame.
          change (output_marshaled_frames [marshaled_frame])))"

section \<open>The checker\<close>

definition send_interval :: "checker \<Rightarrow> int" where
  "send_interval c = timeout c"

definition check_interval :: "checker \<Rightarrow> int" where
  "check_interval c = 2 * (timeout c + 5)"

definition start_send_timer :: "checker \<Rightarrow> ('z, checker) conn_act" where
  "start_send_timer c =
     andThen (adapter_call_later (send_interval c) Send_Heartbeat) (\<lambda>i. ret (c\<lparr>send_timer := Some i\<rparr>))"

definition update_counters :: "'z core_scheme \<Rightarrow> checker \<Rightarrow> checker" where
  "update_counters w c = c\<lparr>hb_bytes_sent := bytes_sent w, hb_bytes_received := received_bytes w\<rparr>"

definition start_check_timer :: "checker \<Rightarrow> ('z, checker) conn_act" where
  "start_check_timer c =
     andThen (query (\<lambda>s. update_counters (fst s) c)) (\<lambda>c.
     andThen (adapter_call_later (check_interval c) Check_Heartbeat) (\<lambda>i.
     ret (c\<lparr>check_timer := Some i\<rparr>)))"

text \<open>\<open>__init__\<close>\<close>

definition new_checker :: "int \<Rightarrow> ('z, checker) conn_act" where
  "new_checker timeout_value =
     (if timeout_value < 1 then raise (Python_Error ValueError)
      else andThen (start_send_timer \<lparr>timeout = timeout_value, hb_bytes_received = 0, hb_bytes_sent = 0,
             heartbeat_frames_received = 0, heartbeat_frames_sent = 0, idle_byte_intervals = 0,
             send_timer = None, check_timer = None\<rparr>) start_check_timer)"

definition received :: "checker \<Rightarrow> checker" where
  "received c = c\<lparr>heartbeat_frames_received := heartbeat_frames_received c + 1\<rparr>"

definition connection_is_idle :: "checker \<Rightarrow> bool" where
  "connection_is_idle c \<longleftrightarrow> idle_byte_intervals c > 0"

definition has_received_data :: "'z core_scheme \<Rightarrow> checker \<Rightarrow> bool" where
  "has_received_data w c \<longleftrightarrow> hb_bytes_received c \<noteq> received_bytes w"

definition send_heartbeat_frame :: "checker \<Rightarrow> ('z, checker) conn_act" where
  "send_heartbeat_frame c =
     andThen (send_frame Heartbeat_Frame) (\<lambda>_. ret (c\<lparr>heartbeat_frames_sent := heartbeat_frames_sent c + 1\<rparr>))"

definition stop :: "checker \<Rightarrow> ('z, checker) conn_act" where
  "stop c =
     andThen (case send_timer c of None \<Rightarrow> ret () | Some i \<Rightarrow> adapter_remove_timeout i) (\<lambda>_.
     andThen (case check_timer c of None \<Rightarrow> ret () | Some i \<Rightarrow> adapter_remove_timeout i) (\<lambda>_.
     ret (c\<lparr>send_timer := None, check_timer := None\<rparr>)))"

section \<open>The connection's side\<close>

definition attach :: "checker \<Rightarrow> ('z, unit) conn_act" where
  "attach c = change (\<lambda>w. w\<lparr>heartbeat_checker := Some c\<rparr>)"

text \<open>\<open>_remove_heartbeat\<close>, \<open>_terminate_stream\<close>\<close>

definition remove_heartbeat :: "('z, unit) conn_act" where
  "remove_heartbeat =
     andThen (query (\<lambda>s. heartbeat_checker (fst s))) (\<lambda>hc.
     case hc of
       None \<Rightarrow> ret ()
     | Some c \<Rightarrow> andThen (stop c) (\<lambda>_. change (\<lambda>w. w\<lparr>heartbeat_checker := None\<rparr>)))"

definition terminate_stream :: "exn option \<Rightarrow> ('z, unit) conn_act" where
  "terminate_stream error =
     andThen (case error of
        Some e \<Rightarrow> change (\<lambda>w. w\<lparr>conn_error := Some e\<rparr>)
      | None \<Rightarrow> andThen (query (\<lambda>s. conn_error (fst s))) (\<lambda>pending.
           if pending = None then raise (Python_Error AssertionError) else ret ())) (\<lambda>_.
     andThen remove_heartbeat (\<lambda>_.
     change (\<lambda>w. w\<lparr>disconnects := disconnects w + 1\<rparr>)))"

text \<open>\<open>_create_heartbeat_checker\<close> and the assignment of its result\<close>

definition create_heartbeat_checker :: "int option \<Rightarrow> ('z, unit) conn_act" where
  "create_heartbeat_checker heartbeat =
     (case heartbeat of
        Some h \<Rightarrow> if h > 0 then andThen (new_checker h) attach
                  else change (\<lambda>w. w\<lparr>heartbeat_checker := None\<rparr>)
      | None \<Rightarrow> change (\<lambda>w. w\<lparr>heartbeat_checker := None\<rparr>))"

section \<open>Callbacks of the timers\<close>

text \<open>\<open>_send_heartbeat\<close> and \<open>_check_heartbeat\<close> with \<open>_close_connection\<close>, on the attached checker\<close>

definition send_heartbeat :: "checker \<Rightarrow> ('z, unit) conn_act" where
  "send_heartbeat c = andThen (send_heartbeat_frame c) (\<lambda>c. andThen (start_send_timer c) attach)"

definition close_connection :: "checker \<Rightarrow> ('z, unit) conn_act" where
  "close_connection c = terminate_stream (Some (AMQPHeartbeatTimeout (timeout c)))"

definition check_heartbeat :: "checker \<Rightarrow> ('z, unit) conn_act" where
  "check_heartbeat c =
     andThen (query (\<lambda>s. has_received_data (fst s) c)) (\<lambda>alive.
     let c = (if alive then c\<lparr>idle_byte_intervals := 0\<rparr>
              else c\<lparr>idle_byte_intervals := idle_byte_intervals c + 1\<rparr>) in
     if connection_is_idle c then andThen (attach c) (\<lambda>_. close_connection c)
     else andThen (start_check_timer c) attach)"

text \<open>\<open>_on_blocked_connection_timeout\<close>, \<open>_on_connection_blocked\<close>, \<open>_on_connection_unblocked\<close>\<close>

definition on_blocked_connection_timeout :: "('z, unit) conn_act" where
  "on_blocked_connection_timeout =
     andThen (change (\<lambda>w. w\<lparr>blocked_conn_timer := None\<rparr>)) (\<lambda>_.
     terminate_stream (Some ConnectionBlockedTimeout))"

definition on_connection_blocked :: "int \<Rightarrow> ('z, unit) conn_act" where
  "on_connection_blocked blocked_timeout =
     andThen (query (\<lambda>s. blocked_conn_timer (fst s))) (\<lambda>armed.
     if armed \<noteq> None then ret ()
     else andThen (adapter_call_later (2 * blocked_timeout) Blocked_Timeout) (\<lambda>i.
          change (\<lambda>w. w\<lparr>blocked_conn_timer := Some i\<rparr>)))"

definition on_connection_unblocked :: "('z, unit) conn_act" where
  "on_connection_unblocked =
     andThen (query (\<lambda>s. blocked_conn_timer (fst s))) (\<lambda>armed.
     case armed of
       None \<Rightarrow> ret ()
     | Some i \<Rightarrow> andThen (adapter_remove_timeout i) (\<lambda>_. change (\<lambda>w. w\<lparr>blocked_conn_timer := None\<rparr>)))"

text \<open>
  The callbacks by name. The checker's methods are bound to the checker that is attached when its
  timers are armed; that no timer outlives it is part of the invariant below.
\<close>

fun callback_act :: "conn_callback \<Rightarrow> ('z, unit) conn_act" where
  "callback_act Send_Heartbeat =
     andThen (query (\<lambda>s. heartbeat_checker (fst s))) (\<lambda>hc. case hc of None \<Rightarrow> ret () | Some c \<Rightarrow> send_heartbeat c)"
| "callback_act Check_Heartbeat =
     andThen (query (\<lambda>s. heartbeat_checker (fst s))) (\<lambda>hc. case hc of None \<Rightarrow> ret () | Some c \<Rightarrow> check_heartbeat c)"
| "callback_act Blocked_Timeout = on_blocked_connection_timeout"

definition perform :: "(exn, conn_callback, 'z core_scheme) runner" where
  "perform cb s = (case callback_act cb s of (Inl e, s') \<Rightarrow> (Some e, s') | (Inr _, s') \<Rightarrow> (None, s'))"

section \<open>The timers are used through their operations only\<close>

named_theorems via_intros \<open>actions that use the timers through their operations\<close>

definition via_api :: "('z, 'a) conn_act \<Rightarrow> bool" where
  "via_api m \<longleftrightarrow> (\<forall>s. acts (snd s) (snd (snd (m s))))"

lemma acts_trans: "acts t t' \<Longrightarrow> acts t' t'' \<Longrightarrow> acts t t''"
  by (rotate_tac 1, induction rule: acts.induct) (auto intro: acts_later acts_remove)

lemma via_andThen [via_intros]: "\<lbrakk>via_api m; \<And>x. via_api (f x)\<rbrakk> \<Longrightarrow> via_api (andThen m f)"
  unfolding via_api_def andThen_def by (auto split: prod.splits sum.splits) (metis acts_trans snd_conv)+

lemma via_basic [via_intros]:
  "via_api (ret x)" "via_api (raise e)" "via_api (query q)" "via_api (unless_error r)" "via_api (change f)"
  by (auto simp: via_api_def ret_def raise_def query_def unless_error_def change_def
      split: sum.splits intro: acts_refl)

lemma via_adapter [via_intros]: "via_api (adapter_call_later d cb)" "via_api (adapter_remove_timeout i)"
  by (auto simp: via_api_def adapter_call_later_def adapter_remove_timeout_def split: sum.splits
      intro: acts_refl acts_later[OF acts_refl] acts_remove[OF acts_refl])

lemma via_cases [via_intros]:
  "\<lbrakk>b \<Longrightarrow> via_api m; \<not> b \<Longrightarrow> via_api m'\<rbrakk> \<Longrightarrow> via_api (if b then m else m')"
  "\<lbrakk>o' = None \<Longrightarrow> via_api m; \<And>x. o' = Some x \<Longrightarrow> via_api (f x)\<rbrakk> \<Longrightarrow> via_api (case o' of None \<Rightarrow> m | Some x \<Rightarrow> f x)"
  by (auto split: option.splits)

lemma via_send_frame [via_intros]: "via_api (send_frame f)"
  unfolding send_frame_def by (intro via_intros)

lemma via_start_send_timer [via_intros]: "via_api (start_send_timer c)"
  unfolding start_send_timer_def by (intro via_intros)

lemma via_start_check_timer [via_intros]: "via_api (start_check_timer c)"
  unfolding start_check_timer_def by (intro via_intros)

lemma via_new_checker [via_intros]: "via_api (new_checker n)"
  unfolding new_checker_def by (intro via_intros)

lemma via_send_heartbeat_frame [via_intros]: "via_api (send_heartbeat_frame c)"
  unfolding send_heartbeat_frame_def by (intro via_intros)

lemma via_stop [via_intros]: "via_api (stop c)"
  unfolding stop_def by (intro via_intros)

lemma via_attach [via_intros]: "via_api (attach c)"
  unfolding attach_def by (intro via_intros)

lemma via_remove_heartbeat [via_intros]: "via_api (remove_heartbeat)"
  unfolding remove_heartbeat_def by (intro via_intros)

lemma via_terminate_stream [via_intros]: "via_api (terminate_stream e)"
  unfolding terminate_stream_def by (intro via_intros)

lemma via_create_heartbeat_checker [via_intros]: "via_api (create_heartbeat_checker h)"
  unfolding create_heartbeat_checker_def by (intro via_intros)

lemma via_send_heartbeat [via_intros]: "via_api (send_heartbeat c)"
  unfolding send_heartbeat_def by (intro via_intros)

lemma via_check_heartbeat [via_intros]: "via_api (check_heartbeat c)"
  unfolding check_heartbeat_def close_connection_def Let_def by (intro via_intros)

lemma via_on_blocked_connection_timeout [via_intros]: "via_api (on_blocked_connection_timeout)"
  unfolding on_blocked_connection_timeout_def by (intro via_intros)

lemma via_on_connection_blocked [via_intros]: "via_api (on_connection_blocked n)"
  unfolding on_connection_blocked_def by (intro via_intros)

lemma via_on_connection_unblocked [via_intros]: "via_api (on_connection_unblocked)"
  unfolding on_connection_unblocked_def by (intro via_intros)

lemma via_callback: "via_api (callback_act cb)"
  by (induction cb) (unfold callback_act.simps, (intro via_intros)+)

interpretation heartbeat: timer_client perform
proof unfold_locales
  fix t cb and w :: "'z core_scheme"
  have "acts t (snd (snd (callback_act cb (w, t))))"
    using via_callback[of cb] unfolding via_api_def by (metis snd_conv)
  then show "acts t (snd (snd (perform cb (w, t))))"
    by (auto simp: perform_def split: prod.splits sum.splits)
qed

section \<open>The invariant\<close>

text \<open>
  Each timeout that can still call has an owner, an attribute that holds its handle, and each
  owner's timeout can still call.
\<close>

fun owner :: "conn_callback \<Rightarrow> 'z core_scheme \<Rightarrow> nat option" where
  "owner Send_Heartbeat w = Option.bind (heartbeat_checker w) send_timer"
| "owner Check_Heartbeat w = Option.bind (heartbeat_checker w) check_timer"
| "owner Blocked_Timeout w = blocked_conn_timer w"

definition owns :: "('c \<Rightarrow> nat option) \<Rightarrow> (nat \<Rightarrow> 'c option) \<Rightarrow> bool" where
  "owns own act \<longleftrightarrow> (\<forall>i cb. act i = Some cb \<longleftrightarrow> own cb = Some i)"

lemma ownsD: "owns own act \<Longrightarrow> act i = Some cb \<longleftrightarrow> own cb = Some i"
  by (simp add: owns_def)

lemma owns_disarm:
  assumes "owns own act" "own cb = Some i"
  shows "owns (own(cb := None)) (act(i := None))"
proof -
  have "act i = Some cb" using assms by (simp add: ownsD)
  then have uniq: "cb' = cb" if "own cb' = Some i" for cb'
    using that ownsD[OF assms(1), of i cb'] by simp
  show ?thesis
    unfolding owns_def
  proof (intro allI)
    fix j cb'
    show "(act(i := None)) j = Some cb' \<longleftrightarrow> (own(cb := None)) cb' = Some j"
    proof (cases "j = i")
      case True
      have "(own(cb := None)) cb' \<noteq> Some i" using uniq[of cb'] by (cases "cb' = cb") auto
      with True show ?thesis by simp
    next
      case False
      then have "own cb \<noteq> Some j" using assms(2) by simp
      with False ownsD[OF assms(1), of j cb'] show ?thesis by (cases "cb' = cb") simp_all
    qed
  qed
qed

lemma owns_arm:
  assumes "owns own act" "act n = None" "own cb = None"
  shows "owns (own(cb := Some n)) (act(n := Some cb))"
proof -
  have "own cb' \<noteq> Some n" "act i \<noteq> Some cb" for cb' i
    using assms ownsD[OF assms(1), of n cb'] ownsD[OF assms(1), of i cb] by auto
  note other = this
  show ?thesis
    unfolding owns_def
  proof (intro allI)
    fix j cb'
    show "(act(n := Some cb)) j = Some cb' \<longleftrightarrow> (own(cb := Some n)) cb' = Some j"
      using other(1)[of cb'] other(2)[of j] ownsD[OF assms(1), of j cb']
      by (cases "j = n"; cases "cb' = cb") simp_all
  qed
qed

lemma owns_rearm:
  assumes "owns own act" "act n = None" "own cb = Some i"
  shows "owns (own(cb := Some n)) (act(n := Some cb, i := None))"
proof -
  have "act i = Some cb" using assms(1,3) by (simp add: ownsD)
  then have "n \<noteq> i" using assms(2) by auto
  with owns_arm[OF owns_disarm[OF assms(1,3)], of n cb] assms(2)
  show ?thesis by (simp add: fun_upd_twist)
qed

definition owned :: "'z core_scheme \<times> conn_callback timer \<Rightarrow> bool" where
  "owned s \<longleftrightarrow> owns (\<lambda>cb. owner cb (fst s)) (action (snd s))"

definition checker_ok :: "'z core_scheme \<times> conn_callback timer \<Rightarrow> checker \<Rightarrow> bool" where
  "checker_ok s c \<longleftrightarrow> connection_state (fst s) \<noteq> CONNECTION_CLOSED \<and> 1 \<le> timeout c
     \<and> idle_byte_intervals c = 0 \<and> hb_bytes_received c \<le> received_bytes (fst s)
     \<and> (\<exists>i. send_timer c = Some i \<and> deadline (snd s) i \<le> clock (fst s) + send_interval c)
     \<and> (\<exists>i. check_timer c = Some i \<and> deadline (snd s) i \<le> clock (fst s) + check_interval c)"

definition core_inv :: "nat set \<Rightarrow> 'z core_scheme \<times> conn_callback timer \<Rightarrow> bool" where
  "core_inv R s \<longleftrightarrow> timer_inv {} R (snd s) \<and> 0 \<le> clock (fst s) \<and> owned s
     \<and> pred_option (checker_ok s) (heartbeat_checker (fst s))"

lemma heartbeat_marshal: "marshal Heartbeat_Frame = Inr [8, 0, 0, 0, 0, 0, 0, 206]"
  by code_simp

text \<open>What \<open>call_later\<close> does when the delay is not negative.\<close>

definition scheduled :: "int \<Rightarrow> 'c \<Rightarrow> 'c timer \<Rightarrow> 'c timer" where
  "scheduled d cb t = (case call_later 0 d cb t of Inl _ \<Rightarrow> t | Inr (_, t') \<Rightarrow> t')"

lemma scheduled:
  assumes "timer_inv L R t" "0 \<le> now" "0 \<le> d"
  shows "call_later now d cb t = Inr (next_timeout t, scheduled (now + d) cb t)"
    "timer_inv L R (scheduled (now + d) cb t)"
    "deadline (scheduled (now + d) cb t) = (deadline t)(next_timeout t := now + d)"
    "action (scheduled (now + d) cb t) = (action t)(next_timeout t := Some cb)"
    "next_timeout (scheduled (now + d) cb t) = Suc (next_timeout t)"
proof -
  from assms(1) obtain heap where "timeout_heap t = Some heap" by (auto simp: timer_inv_def)
  with assms(2,3) show c: "call_later now d cb t = Inr (next_timeout t, scheduled (now + d) cb t)"
    by (simp add: call_later_def new_timeout_def scheduled_def)
  from call_later_inv[OF assms(1) c] call_later_open[OF assms(1) c]
  show "timer_inv L R (scheduled (now + d) cb t)"
    "deadline (scheduled (now + d) cb t) = (deadline t)(next_timeout t := now + d)"
    "action (scheduled (now + d) cb t) = (action t)(next_timeout t := Some cb)"
    "next_timeout (scheduled (now + d) cb t) = Suc (next_timeout t)" by simp_all
qed

lemma core_invD:
  assumes "core_inv R s"
  shows "timer_inv {} R (snd s)" "0 \<le> clock (fst s)" "owned s"
    "heartbeat_checker (fst s) = Some c \<Longrightarrow> checker_ok s c"
  using assms by (auto simp: core_inv_def)

lemma live_old: "\<lbrakk>timer_inv L R t; action t i \<noteq> None\<rbrakk> \<Longrightarrow> i < next_timeout t"
  by (auto simp: timer_inv_def)

lemma fresh: "timer_inv L R t \<Longrightarrow> action t (next_timeout t) = None"
  using live_old less_irrefl by blast

lemma adapter_call_later_ok:
  assumes "core_inv R s" "0 \<le> d"
  shows "adapter_call_later d cb s
    = (Inr (next_timeout (snd s)), (fst s, scheduled (clock (fst s) + d) cb (snd s)))"
  using scheduled(1)[OF core_invD(1)[OF assms(1)] core_invD(2)[OF assms(1)] assms(2)]
  by (simp add: adapter_call_later_def)

definition heartbeat_sent :: "conn_callback timer \<Rightarrow> checker \<Rightarrow> 'z core_scheme \<Rightarrow> 'z core_scheme" where
  "heartbeat_sent t c w = output_marshaled_frames [[8, 0, 0, 0, 0, 0, 0, 206]] w
    \<lparr>heartbeat_checker := Some (c\<lparr>heartbeat_frames_sent := heartbeat_frames_sent c + 1, send_timer := Some (next_timeout t)\<rparr>)\<rparr>"

lemma send_heartbeat_eq:
  assumes "core_inv R (w, t)" "heartbeat_checker w = Some c"
  shows "callback_act Send_Heartbeat (w, t) =
    (Inr (), (heartbeat_sent t c w, scheduled (clock w + send_interval c) Send_Heartbeat t))"
proof -
  have ok: "checker_ok (w, t) c" using core_invD(4)[OF assms(1)] assms(2) by simp
  then have "0 \<le> send_interval c" by (simp add: checker_ok_def send_interval_def)
  with ok assms(2) scheduled(1)[OF core_invD(1)[OF assms(1)] core_invD(2)[OF assms(1)], simplified]
  show ?thesis
    by (simp add: send_heartbeat_def send_heartbeat_frame_def send_frame_def heartbeat_sent_def
        act_simps heartbeat_marshal checker_ok_def start_send_timer_def adapter_call_later_def attach_def change_def
        output_marshaled_frames_def output_frame_def send_interval_def del: marshal.simps)
qed

lemma send_heartbeat_step:
  assumes inv: "core_inv (insert i R) (w, t)" and i: "i \<notin> R" "action t i = Some Send_Heartbeat"
    and p: "perform Send_Heartbeat (w, t) = (e, w', t')"
  shows "e = None \<and> core_inv R (w', t'\<lparr>action := (action t')(i := None)\<rparr>)"
proof -
  note D = core_invD[OF inv]
  from D(3) i(2) obtain c where c: "heartbeat_checker w = Some c" "send_timer c = Some i"
    by (auto simp: owned_def ownsD bind_eq_Some_conv)
  from D(4)[of c] c have ok: "checker_ok (w, t) c" by simp
  let ?d = "send_interval c"
  have d: "0 \<le> ?d" "0 \<le> clock w" using ok D(2) by (auto simp: checker_ok_def send_interval_def)
  note sch = scheduled[OF D(1)[simplified] d(2,1), of Send_Heartbeat]
  have new: "i < next_timeout t" using live_old[OF D(1), of i] i(2) by simp
  have r: "e = None" "w' = heartbeat_sent t c w" "t' = scheduled (clock w + ?d) Send_Heartbeat t"
    using p send_heartbeat_eq[OF inv c(1)] by (auto simp: perform_def simp del: callback_act.simps)
  have "timer_inv {} R (t'\<lparr>action := (action t')(i := None)\<rparr>)"
    using heartbeat.done_inv(1)[OF sch(2) i(1)] r(3) by simp
  moreover have "owned (w', t'\<lparr>action := (action t')(i := None)\<rparr>)"
  proof -
    have "(\<lambda>cb. owner cb w') = (\<lambda>cb. owner cb w)(Send_Heartbeat := Some (next_timeout t))"
      using c r(2) by (intro ext, rename_tac cb, case_tac cb) (auto simp: heartbeat_sent_def output_marshaled_frames_def output_frame_def)
    with owns_rearm[OF D(3)[unfolded owned_def] fresh[OF D(1)], of Send_Heartbeat i] c r(3) sch(4)
    show ?thesis by (simp add: owned_def)
  qed
  moreover have "checker_ok (w', t'\<lparr>action := (action t')(i := None)\<rparr>) (the (heartbeat_checker w'))"
    using ok c r sch(3) by (auto simp: checker_ok_def heartbeat_sent_def output_marshaled_frames_def output_frame_def send_interval_def check_interval_def)
  ultimately show ?thesis using inv r by (simp add: core_inv_def heartbeat_sent_def output_marshaled_frames_def output_frame_def)
qed

text \<open>\<open>_remove_heartbeat\<close> takes both timers of the checker out of use.\<close>

lemma remove_timeout_action: "action (remove_timeout i t) = (action t)(i := None)"
  by (auto simp: remove_timeout_def)

lemma remove_timeout_deadline: "deadline (remove_timeout i t) = deadline t"
  "next_timeout (remove_timeout i t) = next_timeout t"
  by (auto simp: remove_timeout_def)

lemma owns_none: "\<lbrakk>owns own act; own cb = None\<rbrakk> \<Longrightarrow> owns (own(cb := None)) act"
  by (metis fun_upd_triv)

definition without_timer :: "nat option \<Rightarrow> 'c timer \<Rightarrow> 'c timer" where
  "without_timer h t = (case h of None \<Rightarrow> t | Some i \<Rightarrow> remove_timeout i t)"

lemma without_timer:
  assumes "timer_inv L R t" "owns own (action t)"
  shows "timer_inv L R (without_timer (own cb) t)" "owns (own(cb := None)) (action (without_timer (own cb) t))"
    "deadline (without_timer (own cb) t) = deadline t"
  using remove_timeout_inv[OF assms(1)] owns_disarm[OF assms(2), of cb] owns_none[OF assms(2), of cb] assms
  by (auto simp: without_timer_def remove_timeout_action remove_timeout_deadline split: option.splits)

definition without_heartbeat :: "'z core_scheme \<Rightarrow> conn_callback timer \<Rightarrow> conn_callback timer" where
  "without_heartbeat w t =
     without_timer (owner Check_Heartbeat w) (without_timer (owner Send_Heartbeat w) t)"

lemma remove_heartbeat_eq:
  "remove_heartbeat (w, t) = (Inr (), (w\<lparr>heartbeat_checker := None\<rparr>, without_heartbeat w t))"
  by (auto simp: remove_heartbeat_def act_simps stop_def adapter_remove_timeout_def change_def without_heartbeat_def
      without_timer_def split: option.splits)

lemma without_heartbeat:
  assumes "timer_inv L R t" "owns own (action t)"
    "own Send_Heartbeat = owner Send_Heartbeat w" "own Check_Heartbeat = owner Check_Heartbeat w"
  shows "timer_inv L R (without_heartbeat w t)"
    "owns (own(Send_Heartbeat := None, Check_Heartbeat := None)) (action (without_heartbeat w t))"
    "deadline (without_heartbeat w t) = deadline t"
proof -
  note 1 = without_timer[OF assms(1,2), of Send_Heartbeat]
  note 2 = without_timer[OF 1(1,2), of Check_Heartbeat]
  from 1 2 show "timer_inv L R (without_heartbeat w t)"
    "owns (own(Send_Heartbeat := None, Check_Heartbeat := None)) (action (without_heartbeat w t))"
    "deadline (without_heartbeat w t) = deadline t"
    unfolding without_heartbeat_def using assms(3,4) by (simp_all del: owner.simps)
qed

definition terminated :: "exn \<Rightarrow> 'z core_scheme \<Rightarrow> 'z core_scheme" where
  "terminated e w = w\<lparr>conn_error := Some e, heartbeat_checker := None, disconnects := disconnects w + 1\<rparr>"

lemma terminate_stream_eq:
  "terminate_stream (Some e) (w, t) = (Inr (), (terminated e w, without_heartbeat w t))"
proof -
  have "without_heartbeat (w\<lparr>conn_error := Some e\<rparr>) t = without_heartbeat w t"
    by (simp add: without_heartbeat_def)
  then show ?thesis by (simp add: terminate_stream_def act_simps change_def remove_heartbeat_eq terminated_def)
qed

lemma owner_terminated:
  "(\<lambda>cb. owner cb (terminated e w)) = (\<lambda>cb. owner cb w)(Send_Heartbeat := None, Check_Heartbeat := None)"
  by (intro ext, rename_tac cb, case_tac cb) (auto simp: terminated_def)

lemma terminate_stream_inv:
  assumes "core_inv R (w, t)"
  shows "core_inv R (terminated e w, without_heartbeat w t)"
proof -
  note D = core_invD[OF assms]
  note W = without_heartbeat[OF D(1)[simplified] D(3)[unfolded owned_def, simplified], of w]
  show ?thesis using W assms by (simp add: core_inv_def owned_def owner_terminated) (simp add: terminated_def)
qed

lemma check_heartbeat_eq:
  assumes "heartbeat_checker w = Some c" "checker_ok (w, t) c" "core_inv R (w, t)"
  shows "callback_act Check_Heartbeat (w, t) =
    (if hb_bytes_received c = received_bytes w
     then (Inr (), (terminated (AMQPHeartbeatTimeout (timeout c)) w, without_heartbeat w t))
     else (Inr (), (w\<lparr>heartbeat_checker := Some (update_counters w c\<lparr>check_timer := Some (next_timeout t)\<rparr>)\<rparr>,
            scheduled (clock w + check_interval c) Check_Heartbeat t)))"
proof (cases "hb_bytes_received c = received_bytes w")
  case True
  have "without_heartbeat (w\<lparr>heartbeat_checker := Some (c\<lparr>idle_byte_intervals := n\<rparr>)\<rparr>) t = without_heartbeat w t" for n
    using assms(1) by (simp add: without_heartbeat_def)
  with True assms(1,2) show ?thesis
    by (simp add: check_heartbeat_def act_simps has_received_data_def connection_is_idle_def attach_def change_def
        close_connection_def terminate_stream_eq checker_ok_def terminated_def)
next
  case False
  have "c\<lparr>idle_byte_intervals := 0\<rparr> = c" "idle_byte_intervals c = 0" using assms(2) by (simp_all add: checker_ok_def)
  moreover have "0 \<le> check_interval c" using assms(2) by (simp add: checker_ok_def check_interval_def)
  ultimately show ?thesis using False assms(1) scheduled(1)[OF core_invD(1)[OF assms(3)] core_invD(2)[OF assms(3)], simplified]
    by (simp add: check_heartbeat_def act_simps has_received_data_def connection_is_idle_def attach_def change_def
        start_check_timer_def adapter_call_later_def update_counters_def check_interval_def)
qed

lemma check_heartbeat_step:
  assumes inv: "core_inv (insert i R) (w, t)" and i: "i \<notin> R" "action t i = Some Check_Heartbeat"
    and p: "perform Check_Heartbeat (w, t) = (e, w', t')"
  shows "e = None \<and> core_inv R (w', t'\<lparr>action := (action t')(i := None)\<rparr>)"
proof -
  note D = core_invD[OF inv]
  from D(3) i(2) obtain c where c: "heartbeat_checker w = Some c" "check_timer c = Some i"
    by (auto simp: owned_def ownsD bind_eq_Some_conv)
  from D(4)[of c] c have ok: "checker_ok (w, t) c" by simp
  note eq = check_heartbeat_eq[OF c(1) ok inv]
  show ?thesis
  proof (cases "hb_bytes_received c = received_bytes w")
    case True
    with eq p have r: "e = None" "w' = terminated (AMQPHeartbeatTimeout (timeout c)) w" "t' = without_heartbeat w t"
      by (auto simp: perform_def)
    have inv': "core_inv (insert i R) (w', t')" unfolding r by (rule terminate_stream_inv[OF inv])
    have "owner cb w' \<noteq> Some i" for cb
      using core_invD(3)[OF inv] i(2) ownsD[of "\<lambda>cb. owner cb w" "action t" i cb]
      by (cases cb) (auto simp: r(2) terminated_def owned_def)
    then have "action t' i = None"
      using ownsD[OF core_invD(3)[OF inv', unfolded owned_def], of i] by (cases "action t' i") auto
    then have "t'\<lparr>action := (action t')(i := None)\<rparr> = t'" by (simp add: fun_upd_idem)
    with heartbeat.done_inv(1)[OF core_invD(1)[OF inv', simplified] i(1)] inv' r(1)
    show ?thesis by (simp add: core_inv_def)
  next
    case False
    let ?c = "update_counters w c\<lparr>check_timer := Some (next_timeout t)\<rparr>"
    from False eq p have r: "e = None" "w' = w\<lparr>heartbeat_checker := Some ?c\<rparr>"
      "t' = scheduled (clock w + check_interval c) Check_Heartbeat t"
      by (auto simp: perform_def)
    have d: "0 \<le> check_interval c" "0 \<le> clock w" using ok D(2) by (auto simp: checker_ok_def check_interval_def)
    note sch = scheduled[OF D(1)[simplified] d(2,1), of Check_Heartbeat]
    have new: "j < next_timeout t" if "send_timer c = Some j" for j
      using live_old[OF D(1), of j] ownsD[OF D(3)[unfolded owned_def], of j Send_Heartbeat] that c by simp
    have "timer_inv {} R (t'\<lparr>action := (action t')(i := None)\<rparr>)"
      using heartbeat.done_inv(1)[OF sch(2) i(1)] r(3) by simp
    moreover have "owned (w', t'\<lparr>action := (action t')(i := None)\<rparr>)"
    proof -
      have "(\<lambda>cb. owner cb w') = (\<lambda>cb. owner cb w)(Check_Heartbeat := Some (next_timeout t))"
        using c r(2) by (intro ext, rename_tac cb, case_tac cb) (auto simp: update_counters_def)
      with owns_rearm[OF D(3)[unfolded owned_def] fresh[OF D(1)], of Check_Heartbeat i] c r(3) sch(4)
      show ?thesis by (simp add: owned_def)
    qed
    moreover have "checker_ok (w', t'\<lparr>action := (action t')(i := None)\<rparr>) ?c"
      using ok c r sch(3) new by (fastforce simp: checker_ok_def send_interval_def check_interval_def update_counters_def)
    ultimately show ?thesis using inv r by (simp add: core_inv_def)
  qed
qed

definition blocked_out :: "'z core_scheme \<Rightarrow> 'z core_scheme" where
  "blocked_out w = (terminated ConnectionBlockedTimeout w)\<lparr>blocked_conn_timer := None\<rparr>"

lemma blocked_timeout_eq:
  "callback_act Blocked_Timeout (w, t) = (Inr (), (blocked_out w, without_heartbeat w t))"
proof -
  have "without_heartbeat (w\<lparr>blocked_conn_timer := None\<rparr>) t = without_heartbeat w t"
    by (simp add: without_heartbeat_def)
  then show ?thesis
    by (simp add: on_blocked_connection_timeout_def act_simps change_def terminate_stream_eq terminated_def blocked_out_def)
qed

lemma blocked_timeout_step:
  assumes inv: "core_inv (insert i R) (w, t)" and i: "i \<notin> R" "action t i = Some Blocked_Timeout"
    and p: "perform Blocked_Timeout (w, t) = (e, w', t')"
  shows "e = None \<and> core_inv R (w', t'\<lparr>action := (action t')(i := None)\<rparr>)"
proof -
  note D = core_invD[OF inv]
  from D(3) i(2) have b: "blocked_conn_timer w = Some i" by (auto simp: owned_def ownsD)
  have r: "e = None" "w' = (terminated ConnectionBlockedTimeout w)\<lparr>blocked_conn_timer := None\<rparr>" "t' = without_heartbeat w t"
    using p blocked_timeout_eq[of w t] by (auto simp: perform_def blocked_out_def simp del: callback_act.simps)
  have inv': "core_inv (insert i R) (terminated ConnectionBlockedTimeout w, t')"
    unfolding r by (rule terminate_stream_inv[OF inv])
  have "(\<lambda>cb. owner cb w') = (\<lambda>cb. owner cb (terminated ConnectionBlockedTimeout w))(Blocked_Timeout := None)"
    using r(2) by (intro ext, rename_tac cb, case_tac cb) (auto simp: terminated_def)
  with owns_disarm[OF core_invD(3)[OF inv', unfolded owned_def], of Blocked_Timeout i] b
  have "owned (w', t'\<lparr>action := (action t')(i := None)\<rparr>)" by (simp add: owned_def terminated_def)
  with heartbeat.done_inv(1)[OF core_invD(1)[OF inv', simplified] i(1)] inv' r(1,2)
  show ?thesis by (simp add: core_inv_def terminated_def)
qed

lemma perform_step:
  assumes "core_inv (insert i R) (w, t)" "i \<notin> R" "action t i = Some cb" "perform cb (w, t) = (e, w', t')"
  shows "e = None \<and> core_inv R (w', t'\<lparr>action := (action t')(i := None)\<rparr>)"
proof (cases cb)
  case Send_Heartbeat
  with assms show ?thesis using send_heartbeat_step by blast
next
  case Check_Heartbeat
  with assms show ?thesis using check_heartbeat_step by blast
next
  case Blocked_Timeout
  with assms show ?thesis using blocked_timeout_step by blast
qed

lemma core_inv_timer:
  assumes "core_inv R (w, t)" "timer_inv {} R' t'" "action t' = action t" "deadline t' = deadline t"
  shows "core_inv R' (w, t')"
proof -
  have "checker_ok (w, t') c = checker_ok (w, t) c" for c using assms(4) by (simp add: checker_ok_def)
  with assms show ?thesis by (auto simp: core_inv_def owned_def elim!: option.pred_mono_strong)
qed

lemma skipped_step:
  assumes "core_inv (insert i R) (w, t)" "i \<notin> R" "action t i = None"
  shows "core_inv R (w, t\<lparr>num_cancellations := num_cancellations t - 1\<rparr>)"
  by (rule core_inv_timer[OF assms(1) heartbeat.done_inv(2)[OF core_invD(1)[OF assms(1), simplified] assms(2,3)]]) simp_all

lemma off_heap_step:
  assumes "core_inv {} (w, t)" "off_heap now t = (ready, t')"
  shows "core_inv (set ready) (w, t')"
  using core_inv_timer[OF assms(1)] off_heap[OF core_invD(1)[OF assms(1), simplified] assms(2)] by simp

lemma garbage_step:
  assumes "core_inv {} (w, t)" "collect_garbage t = Inr t'"
  shows "core_inv {} (w, t') \<and> on_heap t' \<subseteq> on_heap t \<and> action t' = action t \<and> deadline t' = deadline t"
  using core_inv_timer[OF assms(1)] collect_garbage_inv[OF core_invD(1)[OF assms(1), simplified]] assms(2) by auto

text \<open>A round keeps the invariant, and with it whatever the callbacks and the bookkeeping keep.\<close>

lemma round_keeps:
  assumes inv: "core_inv {} (w, t)" and Q: "Q {} (w, t)"
    and call: "\<And>R i w t cb e w' t'. \<lbrakk>core_inv (insert i R) (w, t); Q (insert i R) (w, t); i \<notin> R; action t i = Some cb;
        perform cb (w, t) = (e, w', t')\<rbrakk> \<Longrightarrow> Q R (w', t'\<lparr>action := (action t')(i := None)\<rparr>)"
    and skip: "\<And>R i w t n. \<lbrakk>core_inv (insert i R) (w, t); Q (insert i R) (w, t); i \<notin> R; action t i = None\<rbrakk> \<Longrightarrow>
        Q R (w, t\<lparr>num_cancellations := n\<rparr>)"
    and off: "\<And>ready t'. off_heap now t = (ready, t') \<Longrightarrow> Q (set ready) (w, t')"
    and gc: "\<And>w t t'. \<lbrakk>core_inv {} (w, t); Q {} (w, t); on_heap t' \<subseteq> on_heap t; action t' = action t; deadline t' = deadline t\<rbrakk>
        \<Longrightarrow> Q {} (w, t')"
    and p: "process_timeouts perform now (w, t) = (e, called, s)"
  shows "e = None \<and> core_inv {} s \<and> Q {} s"
proof (rule heartbeat.round_rule[where J = "\<lambda>R s. core_inv R s \<and> Q R s" and L = "{}", OF _ _ _ _ _ _ p], goal_cases)
  case (1 R i w t)
  then show ?case using skipped_step skip by blast
next
  case (2 R i w t cb e w' t')
  then show ?case using perform_step call by blast
next
  case (3 R w t)
  then show ?case using core_invD(1) by fastforce
next
  case (4 ready t')
  then show ?case using off_heap_step[OF inv] off by blast
next
  case (5 w t t')
  then show ?case using garbage_step gc by blast
next
  case 6
  then show ?case using inv Q by simp
qed

section \<open>The connection's timers over time\<close>

text \<open>
  What the rest of the connection, the peer and time do. \<open>Tune\<close> is the step of \<open>_on_connection_tune\<close>
  that creates the checker, \<open>Stream_Gone\<close> that of \<open>_on_stream_terminated\<close> up to the state CLOSED.
\<close>

datatype core_event = Tune "int option" | Bytes_In nat | Frames_Out "bytes list" | Heartbeat_In
| Blocked int | Unblocked | Terminate exn | Stream_Gone | Enter conn_state | Tick nat | Io_Round

fun core_step :: "core_event \<Rightarrow> 'z core_scheme \<times> conn_callback timer \<Rightarrow> ('z core_scheme \<times> conn_callback timer) option" where
  "core_step (Tune heartbeat) s =
     (if heartbeat_checker (fst s) = None \<and> connection_state (fst s) \<noteq> CONNECTION_CLOSED
      then Some (snd (create_heartbeat_checker heartbeat s)) else None)"
| "core_step (Bytes_In n) s = Some (snd (change (\<lambda>w. w\<lparr>received_bytes := received_bytes w + n\<rparr>) s))"
| "core_step (Frames_Out fs) s = Some (snd (change (output_marshaled_frames fs) s))"
| "core_step Heartbeat_In s =
     Some (snd (change (\<lambda>w. w\<lparr>heartbeat_checker := map_option received (heartbeat_checker w)\<rparr>) s))"
| "core_step (Blocked n) s = (if 0 \<le> n then Some (snd (on_connection_blocked n s)) else None)"
| "core_step Unblocked s = Some (snd (on_connection_unblocked s))"
| "core_step (Terminate e) s = Some (snd (terminate_stream (Some e) s))"
| "core_step Stream_Gone s =
     Some (snd (andThen remove_heartbeat (\<lambda>_. change (\<lambda>w. w\<lparr>connection_state := CONNECTION_CLOSED\<rparr>)) s))"
| "core_step (Enter st) s =
     (if st \<noteq> CONNECTION_CLOSED then Some (snd (change (\<lambda>w. w\<lparr>connection_state := st\<rparr>) s)) else None)"
| "core_step (Tick d) s = Some (snd (change (\<lambda>w. w\<lparr>clock := clock w + int d\<rparr>) s))"
| "core_step Io_Round s = (let (_, _, s') = process_timeouts perform (clock (fst s)) s in Some s')"

definition new_core :: "core \<times> conn_callback timer" where
  "new_core = (\<lparr>bytes_sent = 0, frames_sent = 0, emitted = [], connection_state = CONNECTION_INIT,
     conn_error = None, heartbeat_checker = None, blocked_conn_timer = None,
     received_bytes = 0, disconnects = 0, clock = 0\<rparr>, new_timer)"

lemma core_inv_change:
  assumes "core_inv R (w, t)" "heartbeat_checker w' = heartbeat_checker w" "blocked_conn_timer w' = blocked_conn_timer w"
    "clock w \<le> clock w'" "received_bytes w \<le> received_bytes w'"
    "connection_state w' = CONNECTION_CLOSED \<longrightarrow> heartbeat_checker w = None"
  shows "core_inv R (w', t)"
proof -
  have "owner cb w' = owner cb w" for cb using assms(2,3) by (cases cb) auto
  moreover have "checker_ok (w', t) c" if "heartbeat_checker w = Some c" for c
    using core_invD(4)[OF assms(1), of c] that assms(4-6) by (force simp: checker_ok_def)
  ultimately show ?thesis
    using assms by (cases "heartbeat_checker w") (auto simp: core_inv_def owned_def)
qed

lemma core_open: "\<lbrakk>core_inv R (w, t); connection_state w = CONNECTION_CLOSED\<rbrakk> \<Longrightarrow> heartbeat_checker w = None"
  by (cases "heartbeat_checker w") (auto simp: core_inv_def checker_ok_def)

lemma new_core_inv: "core_inv {} new_core"
  using timer_inv_new by (auto simp: new_core_def core_inv_def owned_def owns_def new_timer_def)
    (case_tac cb; simp)

lemma output_fields [simp]:
  "heartbeat_checker (output_marshaled_frames fs w) = heartbeat_checker w"
  "blocked_conn_timer (output_marshaled_frames fs w) = blocked_conn_timer w"
  "clock (output_marshaled_frames fs w) = clock w"
  "received_bytes (output_marshaled_frames fs w) = received_bytes w"
  "connection_state (output_marshaled_frames fs w) = connection_state w"
  "conn_error (output_marshaled_frames fs w) = conn_error w"
  "disconnects (output_marshaled_frames fs w) = disconnects w"
  unfolding output_marshaled_frames_def by (induction fs arbitrary: w) (simp_all add: output_frame_def)

lemma create_heartbeat_checker_eq:
  assumes "core_inv R (w, t)" "0 < h"
  defines "t1 \<equiv> scheduled (clock w + h) Send_Heartbeat t"
  shows "create_heartbeat_checker (Some h) (w, t) =
    (Inr (), (w\<lparr>heartbeat_checker := Some \<lparr>timeout = h, hb_bytes_received = received_bytes w, hb_bytes_sent = bytes_sent w,
        heartbeat_frames_received = 0, heartbeat_frames_sent = 0, idle_byte_intervals = 0,
        send_timer = Some (next_timeout t), check_timer = Some (next_timeout t1)\<rparr>\<rparr>,
      scheduled (clock w + 2 * (h + 5)) Check_Heartbeat t1))"
proof -
  have d: "0 \<le> clock w" "0 \<le> h" "0 \<le> 2 * (h + 5)" using assms core_invD(2)[OF assms(1)] by auto
  note s1 = scheduled[OF core_invD(1)[OF assms(1), simplified] d(1,2), of Send_Heartbeat]
  note s2 = scheduled(1)[OF s1(2) d(1,3), of Check_Heartbeat]
  show ?thesis
    using assms(2) s1(1) s2
    by (simp add: create_heartbeat_checker_def new_checker_def act_simps start_send_timer_def start_check_timer_def
        adapter_call_later_def send_interval_def check_interval_def update_counters_def attach_def change_def t1_def)
qed

lemma tune_step:
  assumes "core_inv {} (w, t)" "heartbeat_checker w = None" "connection_state w \<noteq> CONNECTION_CLOSED"
  shows "core_inv {} (snd (create_heartbeat_checker heartbeat (w, t)))"
proof (cases "\<exists>h. heartbeat = Some h \<and> 0 < h")
  case True
  then obtain h where h: "heartbeat = Some h" "0 < h" by blast
  note D = core_invD[OF assms(1)]
  have d: "0 \<le> clock w" "0 \<le> h" "0 \<le> 2 * (h + 5)" using h D(2) by auto
  note s1 = scheduled[OF D(1)[simplified] d(1,2), of Send_Heartbeat]
  let ?t1 = "scheduled (clock w + h) Send_Heartbeat t"
  note s2 = scheduled[OF s1(2) d(1,3), of Check_Heartbeat]
  let ?s = "snd (create_heartbeat_checker (Some h) (w, t))"
  note eq = create_heartbeat_checker_eq[OF assms(1) h(2)]
  have "(\<lambda>cb. owner cb (fst ?s)) = (\<lambda>cb. owner cb w)(Send_Heartbeat := Some (next_timeout t), Check_Heartbeat := Some (next_timeout ?t1))"
    using assms(2) unfolding eq by (intro ext, rename_tac cb, case_tac cb) auto
  moreover have "owns ((\<lambda>cb. owner cb w)(Send_Heartbeat := Some (next_timeout t))) (action ?t1)"
    using owns_arm[OF D(3)[unfolded owned_def] fresh[OF D(1)], of Send_Heartbeat] assms(2) s1(4) by simp
  then have "owns ((\<lambda>cb. owner cb w)(Send_Heartbeat := Some (next_timeout t), Check_Heartbeat := Some (next_timeout ?t1))) (action (snd ?s))"
    using owns_arm[where n = "next_timeout ?t1" and cb = Check_Heartbeat] fresh[OF s1(2)] assms(2) s2(4)
    unfolding eq by simp
  ultimately have "owned ?s" by (simp add: owned_def)
  then show ?thesis
    using h s2 s1(3,5) assms d unfolding eq h(1)
    by (simp add: core_inv_def checker_ok_def send_interval_def check_interval_def)
next
  case False
  have "w\<lparr>heartbeat_checker := None\<rparr> = w" using assms(2) by simp
  then have "snd (create_heartbeat_checker heartbeat (w, t)) = (w, t)"
    using False by (cases heartbeat) (auto simp: create_heartbeat_checker_def change_def)
  with assms(1) show ?thesis by simp
qed

lemma blocked_step:
  assumes "core_inv {} (w, t)" "0 \<le> n"
  shows "core_inv {} (snd (on_connection_blocked n (w, t)))"
proof (cases "blocked_conn_timer w")
  case None
  note D = core_invD[OF assms(1)]
  have d: "0 \<le> clock w" "0 \<le> 2 * n" using assms(2) D(2) by auto
  note sch = scheduled[OF D(1)[simplified] d, of Blocked_Timeout]
  let ?w = "w\<lparr>blocked_conn_timer := Some (next_timeout t)\<rparr>" and ?t = "scheduled (clock w + 2 * n) Blocked_Timeout t"
  have eq: "snd (on_connection_blocked n (w, t)) = (?w, ?t)"
    using None sch(1) by (simp add: on_connection_blocked_def act_simps adapter_call_later_def change_def)
  have "(\<lambda>cb. owner cb ?w) = (\<lambda>cb. owner cb w)(Blocked_Timeout := Some (next_timeout t))"
    by (intro ext, rename_tac cb, case_tac cb) auto
  with owns_arm[OF D(3)[unfolded owned_def] fresh[OF D(1)], of Blocked_Timeout] None sch(4)
  have "owned (?w, ?t)" by (simp add: owned_def)
  moreover have "checker_ok (?w, ?t) c" if "heartbeat_checker w = Some c" for c
  proof -
    have "j < next_timeout t" if "send_timer c = Some j \<or> check_timer c = Some j" for j
      using live_old[OF D(1), of j] ownsD[OF D(3)[unfolded owned_def], of j Send_Heartbeat]
        ownsD[OF D(3)[unfolded owned_def], of j Check_Heartbeat] that \<open>heartbeat_checker w = Some c\<close> by auto
    with D(4)[of c] that sch(3) show ?thesis by (fastforce simp: checker_ok_def)
  qed
  ultimately show ?thesis
    using assms sch unfolding eq by (cases "heartbeat_checker w") (auto simp: core_inv_def)
qed (use assms in \<open>simp add: on_connection_blocked_def act_simps\<close>)

lemma unblocked_step:
  assumes "core_inv {} (w, t)"
  shows "core_inv {} (snd (on_connection_unblocked (w, t)))"
proof (cases "blocked_conn_timer w")
  case (Some i)
  note D = core_invD[OF assms(1)]
  let ?w = "w\<lparr>blocked_conn_timer := None\<rparr>" and ?t = "remove_timeout i t"
  have eq: "snd (on_connection_unblocked (w, t)) = (?w, ?t)"
    using Some by (simp add: on_connection_unblocked_def act_simps adapter_remove_timeout_def change_def)
  have "(\<lambda>cb. owner cb ?w) = (\<lambda>cb. owner cb w)(Blocked_Timeout := None)"
    by (intro ext, rename_tac cb, case_tac cb) auto
  with owns_disarm[OF D(3)[unfolded owned_def], of Blocked_Timeout i] Some
  have "owned (?w, ?t)" by (simp add: owned_def remove_timeout_action)
  moreover have "checker_ok (?w, ?t) c = checker_ok (w, t) c" for c
    by (simp add: checker_ok_def remove_timeout_deadline)
  ultimately show ?thesis
    using assms remove_timeout_inv[OF D(1), of i] unfolding eq by (auto simp: core_inv_def elim!: option.pred_mono_strong)
qed (use assms in \<open>simp add: on_connection_unblocked_def act_simps\<close>)

lemma stream_gone_step:
  assumes "core_inv {} (w, t)"
  shows "core_inv {} (w\<lparr>heartbeat_checker := None, connection_state := CONNECTION_CLOSED\<rparr>, without_heartbeat w t)"
proof -
  from terminate_stream_inv[OF assms, of StreamLostError]
  have "core_inv {} (terminated StreamLostError w, without_heartbeat w t)" .
  then show ?thesis by (rule core_inv_change) (simp_all add: terminated_def)
qed

lemma core_step_inv:
  assumes "core_inv {} s" "core_step ev s = Some s'"
  shows "core_inv {} s'"
proof -
  obtain w t where s: "s = (w, t)" by (cases s)
  show ?thesis
  proof (cases ev)
    case (Tune h)
    with assms s show ?thesis using tune_step by (auto split: if_splits)
  next
    case (Bytes_In n)
    with assms s core_open[of "{}" w t] show ?thesis by (auto simp: change_def elim!: core_inv_change)
  next
    case (Frames_Out fs)
    with assms s have "s' = (output_marshaled_frames fs w, t)" by (simp add: change_def)
    with core_inv_change[of "{}" w t "output_marshaled_frames fs w"] core_open[of "{}" w t] assms s show ?thesis by simp
  next
    case Heartbeat_In
    let ?w = "w\<lparr>heartbeat_checker := map_option received (heartbeat_checker w)\<rparr>"
    have "owner cb ?w = owner cb w" for cb by (cases cb; cases "heartbeat_checker w") (auto simp: received_def)
    moreover have "checker_ok (?w, t) (received c) = checker_ok (w, t) c" for c
      by (simp add: checker_ok_def received_def send_interval_def check_interval_def)
    ultimately show ?thesis using assms s Heartbeat_In
      by (cases "heartbeat_checker w") (auto simp: core_inv_def owned_def change_def)
  next
    case (Blocked n)
    with assms s show ?thesis using blocked_step by (auto split: if_splits)
  next
    case Unblocked
    with assms s show ?thesis using unblocked_step by auto
  next
    case (Terminate e)
    with assms s show ?thesis using terminate_stream_inv by (auto simp: terminate_stream_eq)
  next
    case Stream_Gone
    with assms s show ?thesis using stream_gone_step by (auto simp: act_simps remove_heartbeat_eq change_def)
  next
    case (Enter st)
    with assms s show ?thesis by (auto simp: change_def split: if_splits elim!: core_inv_change)
  next
    case (Tick d)
    with assms s core_open[of "{}" w t] show ?thesis by (auto simp: change_def elim!: core_inv_change)
  next
    case Io_Round
    obtain e called s2 where p: "process_timeouts perform (clock w) (w, t) = (e, called, s2)" by (metis prod_cases3)
    with assms(2) Io_Round s have "s' = s2" by simp
    with round_keeps[where Q = "\<lambda>_ _. True", OF _ _ _ _ _ _ p] assms(1) s show ?thesis by simp
  qed
qed

interpretation heart: invariant_system new_core core_step "core_inv {}"
  by unfold_locales (use new_core_inv core_step_inv in blast)+

section \<open>What a round does to the checker\<close>

text \<open>Nothing has come in since the window began: when its timer is due, the stream is terminated.\<close>

definition expiring :: "nat \<Rightarrow> checker \<Rightarrow> 'z core_scheme \<times> conn_callback timer \<Rightarrow> bool" where
  "expiring i c s \<longleftrightarrow>
     (case heartbeat_checker (fst s) of
        None \<Rightarrow> conn_error (fst s) \<in> {Some (AMQPHeartbeatTimeout (timeout c)), Some ConnectionBlockedTimeout}
      | Some c' \<Rightarrow> check_timer c' = Some i \<and> timeout c' = timeout c \<and> hb_bytes_received c' = received_bytes (fst s))"

text \<open>Something has come in: the stream is not terminated on that account, and a new window begins.\<close>

definition renewing :: "nat \<Rightarrow> checker \<Rightarrow> 'z core_scheme \<Rightarrow> nat set \<Rightarrow> 'z core_scheme \<times> conn_callback timer \<Rightarrow> bool" where
  "renewing i c w0 R s \<longleftrightarrow>
     conn_error (fst s) \<in> {conn_error w0, Some ConnectionBlockedTimeout} \<and> received_bytes (fst s) = received_bytes w0
     \<and> clock (fst s) = clock w0
     \<and> (case heartbeat_checker (fst s) of
          None \<Rightarrow> conn_error (fst s) = Some ConnectionBlockedTimeout
        | Some c' \<Rightarrow> timeout c' = timeout c \<and>
            (check_timer c' = Some i \<and> hb_bytes_received c' = hb_bytes_received c
             \<or> hb_bytes_received c' = received_bytes w0
               \<and> (\<exists>k. check_timer c' = Some k \<and> k \<notin> R \<and> k \<noteq> i \<and> deadline (snd s) k = clock w0 + check_interval c)))"

lemma owner_of:
  assumes "core_inv R (w, t)" "action t i = Some cb"
  shows "owner cb w = Some i"
  using core_invD(3)[OF assms(1)] assms(2) by (simp add: owned_def ownsD)

text \<open>What a callback does, with the checker whose timer has called it.\<close>

lemma perform_cases:
  assumes inv: "core_inv R (w, t)" and i: "action t i = Some cb" and p: "perform cb (w, t) = (e, w', t')"
  obtains (send) d where "cb = Send_Heartbeat" "heartbeat_checker w = Some d" "send_timer d = Some i"
      "w' = heartbeat_sent t d w" "t' = scheduled (clock w + send_interval d) Send_Heartbeat t"
  | (silent) d where "cb = Check_Heartbeat" "heartbeat_checker w = Some d" "check_timer d = Some i"
      "hb_bytes_received d = received_bytes w" "w' = terminated (AMQPHeartbeatTimeout (timeout d)) w"
  | (alive) d where "cb = Check_Heartbeat" "heartbeat_checker w = Some d" "check_timer d = Some i"
      "hb_bytes_received d \<noteq> received_bytes w"
      "w' = w\<lparr>heartbeat_checker := Some (update_counters w d\<lparr>check_timer := Some (next_timeout t)\<rparr>)\<rparr>"
      "t' = scheduled (clock w + check_interval d) Check_Heartbeat t"
  | (blocked) "cb = Blocked_Timeout" "w' = blocked_out w"
proof (cases cb)
  case Send_Heartbeat
  then obtain d where d: "heartbeat_checker w = Some d" "send_timer d = Some i"
    using owner_of[OF inv i] by (auto simp: bind_eq_Some_conv)
  with p Send_Heartbeat send_heartbeat_eq[OF inv d(1)] send show ?thesis
    by (auto simp: perform_def simp del: callback_act.simps)
next
  case Check_Heartbeat
  then obtain d where d: "heartbeat_checker w = Some d" "check_timer d = Some i"
    using owner_of[OF inv i] by (auto simp: bind_eq_Some_conv)
  have "checker_ok (w, t) d" using core_invD(4)[OF inv, of d] d(1) by simp
  note eq = check_heartbeat_eq[OF d(1) this inv]
  show ?thesis
  proof (cases "hb_bytes_received d = received_bytes w")
    case True
    with p Check_Heartbeat eq d silent show ?thesis by (auto simp: perform_def simp del: callback_act.simps)
  next
    case False
    with p Check_Heartbeat eq d alive show ?thesis by (auto simp: perform_def simp del: callback_act.simps)
  qed
next
  case Blocked_Timeout
  with p blocked_timeout_eq[of w t] blocked show ?thesis by (auto simp: perform_def simp del: callback_act.simps)
qed

lemma heartbeat_sent_fields [simp]:
  "conn_error (heartbeat_sent t d w) = conn_error w" "received_bytes (heartbeat_sent t d w) = received_bytes w"
  "clock (heartbeat_sent t d w) = clock w"
  "heartbeat_checker (heartbeat_sent t d w)
    = Some (d\<lparr>heartbeat_frames_sent := heartbeat_frames_sent d + 1, send_timer := Some (next_timeout t)\<rparr>)"
  by (simp_all add: heartbeat_sent_def)

lemma expiring_call:
  assumes "core_inv (insert j R) (w, t)" "expiring i c (w, t)" "action t j = Some cb" "perform cb (w, t) = (e, w', t')"
  shows "expiring i c (w', t'\<lparr>action := (action t')(j := None)\<rparr>)"
  using assms(1,3,4)
proof (cases rule: perform_cases)
  case (silent d)
  with assms(2) show ?thesis by (simp add: expiring_def terminated_def)
qed (use assms(2) in \<open>simp_all add: expiring_def terminated_def blocked_out_def\<close>)

lemma renewing_call:
  assumes inv: "core_inv (insert j R) (w, t)" and x: "renewing i c w0 (insert j R) (w, t)"
    and c: "hb_bytes_received c \<noteq> received_bytes w0"
    and j: "j \<notin> R" "action t j = Some cb" and p: "perform cb (w, t) = (e, w', t')"
  shows "renewing i c w0 R (w', t'\<lparr>action := (action t')(j := None)\<rparr>)"
  using inv j(2) p
proof (cases rule: perform_cases)
  case (send d)
  note D = core_invD[OF inv]
  have "0 \<le> send_interval d" "0 \<le> clock w" using D(2) D(4)[of d] send(2) by (auto simp: checker_ok_def send_interval_def)
  note sch = scheduled[OF D(1)[simplified] this(2,1), of Send_Heartbeat]
  have "k < next_timeout t" if "check_timer d = Some k" for k
    using live_old[OF D(1), of k] ownsD[OF D(3)[unfolded owned_def], of k Check_Heartbeat] that send(2) by simp
  with x send sch(3) show ?thesis by (fastforce simp: renewing_def)
next
  case (silent d)
  with x c show ?thesis by (auto simp: renewing_def)
next
  case (alive d)
  note D = core_invD[OF inv]
  have n: "0 \<le> check_interval d" "0 \<le> clock w" using D(2) D(4)[of d] alive(2) by (auto simp: checker_ok_def check_interval_def)
  note sch = scheduled[OF D(1)[simplified] n(2,1), of Check_Heartbeat]
  have "next_timeout t \<notin> R" using D(1) by (auto simp: timer_inv_def)
  moreover have "next_timeout t \<noteq> j" using live_old[OF D(1), of j] j(2) by auto
  moreover have "j = i" using x alive by (auto simp: renewing_def)
  ultimately show ?thesis
    using x alive sch(3) by (auto simp: renewing_def update_counters_def check_interval_def)
next
  case blocked
  with x show ?thesis by (simp add: renewing_def blocked_out_def terminated_def)
qed

lemma core_step_round:
  "core_step Io_Round (w, t) = Some (snd (snd (process_timeouts perform (clock w) (w, t))))"
  by (simp split: prod.splits)

lemma check_due:
  assumes inv: "core_inv {} (w, t)" and c: "heartbeat_checker w = Some c" "check_timer c = Some i" "deadline t i \<le> clock w"
  shows "i \<in> on_heap t" "action t i = Some Check_Heartbeat"
    "snd (snd (process_timeouts perform (clock w) (w, t))) = (w', t') \<Longrightarrow> i \<notin> on_heap t'"
proof -
  show a: "action t i = Some Check_Heartbeat"
    using ownsD[OF core_invD(3)[OF inv, unfolded owned_def], of i Check_Heartbeat] c by simp
  then show h: "i \<in> on_heap t" using core_invD(1)[OF inv] by (auto simp: timer_inv_def on_heap_def)
  assume p: "snd (snd (process_timeouts perform (clock w) (w, t))) = (w', t')"
  then obtain e called where "process_timeouts perform (clock w) (w, t) = (e, called, w', t')" by (metis prod.collapse)
  from heartbeat.round[OF core_invD(1)[OF inv, simplified] this] h a c(3) show "i \<notin> on_heap t'"
    by (auto simp: due_def)
qed

lemma still_armed:
  assumes "core_inv {} (w, t)" "heartbeat_checker w = Some c" "check_timer c = Some i"
  shows "i \<in> on_heap t"
proof -
  have "action t i = Some Check_Heartbeat"
    using ownsD[OF core_invD(3)[OF assms(1), unfolded owned_def], of i Check_Heartbeat] assms(2,3) by simp
  then show ?thesis using core_invD(1)[OF assms(1)] by (auto simp: timer_inv_def on_heap_def)
qed

lemma round_silent:
  assumes inv: "core_inv {} (w, t)" and c: "heartbeat_checker w = Some c" "check_timer c = Some i" "deadline t i \<le> clock w"
    "hb_bytes_received c = received_bytes w" and p: "process_timeouts perform (clock w) (w, t) = (e, called, w', t')"
  shows "heartbeat_checker w' = None
    \<and> conn_error w' \<in> {Some (AMQPHeartbeatTimeout (timeout c)), Some ConnectionBlockedTimeout}"
proof -
  have "e = None \<and> core_inv {} (w', t') \<and> expiring i c (w', t')"
  proof (rule round_keeps[where Q = "\<lambda>_. expiring i c", OF inv _ _ _ _ _ p])
    show "expiring i c (w, t)" "\<And>ready t1. expiring i c (w, t1)" using c by (simp_all add: expiring_def)
    show "expiring i c (w1, t1\<lparr>num_cancellations := n\<rparr>)" "expiring i c (w1, t2)" if "expiring i c (w1, t1)" for w1 t1 t2 n
      using that by (auto simp: expiring_def split: option.splits)
  qed (rule expiring_call)
  with check_due(3)[OF inv c(1-3), of w' t'] still_armed[of w' t'] p show ?thesis
    by (auto simp: expiring_def split: option.splits)
qed

lemma round_alive:
  assumes inv: "core_inv {} (w, t)" and c: "heartbeat_checker w = Some c" "check_timer c = Some i" "deadline t i \<le> clock w"
    "hb_bytes_received c \<noteq> received_bytes w" and p: "process_timeouts perform (clock w) (w, t) = (e, called, w', t')"
  shows "conn_error w' \<in> {conn_error w, Some ConnectionBlockedTimeout}
    \<and> (case heartbeat_checker w' of
         None \<Rightarrow> conn_error w' = Some ConnectionBlockedTimeout
       | Some c' \<Rightarrow> timeout c' = timeout c \<and> hb_bytes_received c' = received_bytes w
           \<and> (\<exists>k. check_timer c' = Some k \<and> deadline t' k = clock w + check_interval c))"
proof -
  have "e = None \<and> core_inv {} (w', t') \<and> renewing i c w {} (w', t')"
  proof (rule round_keeps[where Q = "renewing i c w", OF inv _ _ _ _ _ p])
    show "renewing i c w {} (w, t)" using c by (simp add: renewing_def)
    show "renewing i c w (set ready) (w, t1)" for ready t1 using c by (simp add: renewing_def)
    show "renewing i c w R (w1, t1\<lparr>num_cancellations := n\<rparr>)"
      if "renewing i c w (insert j R) (w1, t1)" for R j w1 t1 n
      using that by (auto simp: renewing_def split: option.splits)
    show "renewing i c w {} (w1, t2)" if "renewing i c w {} (w1, t1)" "deadline t2 = deadline t1" for w1 t1 t2
      using that by (auto simp: renewing_def split: option.splits)
  next
    fix R j w1 t1 cb e w2 t2
    assume "core_inv (insert j R) (w1, t1)" "renewing i c w (insert j R) (w1, t1)" "j \<notin> R" "action t1 j = Some cb"
      "perform cb (w1, t1) = (e, w2, t2)"
    with c(4) show "renewing i c w R (w2, t2\<lparr>action := (action t2)(j := None)\<rparr>)" by (intro renewing_call)
  qed
  with check_due(3)[OF inv c(1-3), of w' t'] still_armed[of w' t'] p show ?thesis
    by (auto simp: renewing_def split: option.splits)
qed

section \<open>Properties\<close>

definition idle_core :: "core_event list \<Rightarrow> core \<times> conn_callback timer" where
  "idle_core evs = the (run core_step ([Tune (Some 2), Tick 14] @ evs) new_core)"

lemma idle_core_reach: "reach new_core core_step (idle_core [])" "reach new_core core_step (idle_core [Bytes_In 3])"
proof -
  have "run core_step [Tune (Some 2), Tick 14] new_core = Some (idle_core [])"
    "run core_step [Tune (Some 2), Tick 14, Bytes_In 3] new_core = Some (idle_core [Bytes_In 3])"
    by (simp_all add: idle_core_def new_core_def change_def)
  from this[THEN run_reach[OF _ reach_init]]
  show "reach new_core core_step (idle_core [])" "reach new_core core_step (idle_core [Bytes_In 3])" .
qed

lemma idle_core_checker:
  "heartbeat_checker (fst (idle_core evs)) = Some \<lparr>timeout = 2, hb_bytes_received = 0, hb_bytes_sent = 0,
     heartbeat_frames_received = 0, heartbeat_frames_sent = 0, idle_byte_intervals = 0,
     send_timer = Some 0, check_timer = Some 1\<rparr>"
  "deadline (snd (idle_core evs)) 1 = 14" "clock (fst (idle_core evs)) = 14"
  "received_bytes (fst (idle_core evs)) = (if evs = [] then 0 else 3)" "conn_error (fst (idle_core evs)) = None"
  if "evs \<in> {[], [Bytes_In 3]}"
  using that by auto (code_simp+)

lemma idle_core_round:
  obtains w t w' t' where "idle_core evs = (w, t)" "core_step Io_Round (w, t) = Some (w', t')"
  by (metis core_step_round surj_pair)

text \<open>
  C16 (invariant). As long as a checker is attached, the connection is not closed and exactly two
  timeouts are pending for it: the next heartbeat, due within the send interval, and the next
  check, due within the check interval. Without a checker none of its callbacks is left behind.
\<close>

theorem heartbeat_timers_armed:
  assumes "reach new_core core_step (w, t)"
  shows "case heartbeat_checker w of
      None \<Rightarrow> (\<forall>i. action t i \<noteq> Some Send_Heartbeat \<and> action t i \<noteq> Some Check_Heartbeat)
    | Some c \<Rightarrow> connection_state w \<noteq> CONNECTION_CLOSED
        \<and> (\<exists>i j. {k. action t k = Some Send_Heartbeat} = {i} \<and> {k. action t k = Some Check_Heartbeat} = {j}
            \<and> {i, j} \<subseteq> on_heap t \<and> deadline t i \<le> clock w + send_interval c \<and> deadline t j \<le> clock w + check_interval c)"
proof -
  have inv: "core_inv {} (w, t)" using heart.inv_reach[OF assms] .
  note own = ownsD[OF core_invD(3)[OF inv, unfolded owned_def], simplified]
  have heap: "i \<in> on_heap t" if "action t i = Some cb" for i cb
    using core_invD(1)[OF inv] that by (auto simp: timer_inv_def on_heap_def)
  show ?thesis
  proof (cases "heartbeat_checker w")
    case None
    then show ?thesis using own by simp
  next
    case (Some c)
    then have ok: "checker_ok (w, t) c" using core_invD(4)[OF inv, of c] by simp
    then obtain i j where ij: "send_timer c = Some i" "check_timer c = Some j" by (auto simp: checker_ok_def)
    have "{k. action t k = Some Send_Heartbeat} = {i}" "{k. action t k = Some Check_Heartbeat} = {j}"
      using own Some ij by auto
    with ok ij Some heap show ?thesis by (auto simp: checker_ok_def intro!: exI[of _ i] exI[of _ j])
  qed
qed

lemma heartbeat_timers_armed_witness:
  "\<exists>w t. reach new_core core_step (w, t) \<and> connection_state w \<noteq> CONNECTION_CLOSED
     \<and> (\<exists>i. {k. action t k = Some Check_Heartbeat} = {i} \<and> i \<in> on_heap t)"
proof -
  obtain w t where s: "idle_core [] = (w, t)" by fastforce
  with idle_core_reach(1) have r: "reach new_core core_step (w, t)" by simp
  with heartbeat_timers_armed[OF r] idle_core_checker(1)[of "[]"] s show ?thesis by (auto intro!: exI[of _ w] exI[of _ t])
qed





end
