(* ===== verification/Callbacks.thy ===== *)
theory Callbacks
  imports Amqp_Spec
begin

text \<open>
  \<open>CallbackManager\<close> of \<open>pika/callback.py\<close>: callbacks registered under a prefix (usually a
  channel number) and a key (usually the name of a method class), each with its use counter,
  the only caller it answers to and the attributes it expects. \<open>process\<close> first settles the
  registrations and then calls, so its model returns the callbacks to call and the new stack.
\<close>

section \<open>Equality of Python values\<close>

text \<open>\<open>==\<close>: numbers compare by value across their types, containers element by element.\<close>

fun number_of :: "pyval \<Rightarrow> (int \<times> int) option" where
  "number_of (PBool b) = Some (of_bool b, 0)"
| "number_of (PInt i) = Some (i, 0)"
| "number_of (PLong i) = Some (i, 0)"
| "number_of (PDecimal c e) = Some (c, e)"
| "number_of _ = None"

fun same_number :: "int \<times> int \<Rightarrow> int \<times> int \<Rightarrow> bool" where
  "same_number (c, e) (c', e') = (c * 10 ^ nat (e - min e e') = c' * 10 ^ nat (e' - min e e'))"

definition scalar_eq :: "pyval \<Rightarrow> pyval \<Rightarrow> bool" where
  "scalar_eq v w = (case (number_of v, number_of w) of
      (Some m, Some n) \<Rightarrow> same_number m n
    | (None, None) \<Rightarrow> v = w
    | _ \<Rightarrow> False)"

primrec py_eq :: "pyval \<Rightarrow> pyval \<Rightarrow> bool" where
  "py_eq PNone w = scalar_eq PNone w"
| "py_eq (PBool b) w = scalar_eq (PBool b) w"
| "py_eq (PInt i) w = scalar_eq (PInt i) w"
| "py_eq (PLong i) w = scalar_eq (PLong i) w"
| "py_eq (PStr s) w = scalar_eq (PStr s) w"
| "py_eq (PBytes b) w = scalar_eq (PBytes b) w"
| "py_eq (PDecimal c e) w = scalar_eq (PDecimal c e) w"
| "py_eq PDecimalSpecial w = scalar_eq PDecimalSpecial w"
| "py_eq (PDatetime s u) w = scalar_eq (PDatetime s u) w"
| "py_eq (POther n) w = scalar_eq (POther n) w"
| "py_eq (PList xs) w = (case w of
      PList ys \<Rightarrow> list_all2 (\<lambda>eq y. eq y) (map py_eq xs) ys
    | _ \<Rightarrow> False)"
| "py_eq (PDict d) w = (case w of
      PDict d' \<Rightarrow> length d = length d'
        \<and> list_all (\<lambda>(eq_key, eq_val). list_ex (\<lambda>(k, v). eq_key k \<and> eq_val v) d')
            (map (map_prod py_eq py_eq) d)
    | _ \<Rightarrow> False)"

section \<open>Dicts\<close>

definition dict_del :: "'k \<Rightarrow> ('k \<times> 'v) list \<Rightarrow> ('k \<times> 'v) list" where
  "dict_del k d = filter (\<lambda>(k', v). k' \<noteq> k) d"

lemma map_of_dict_del: "map_of (dict_del k d) = (map_of d)(k := None)"
  by (induction d) (auto simp: dict_del_def fun_eq_iff)

lemma distinct_dict_del: "distinct (map fst d) \<Longrightarrow> distinct (map fst (dict_del k d))"
  by (simp add: dict_del_def distinct_map_filter)

section \<open>Registrations\<close>

type_synonym attrs = "(string \<times> pyval) list"

text \<open>The callback dictionary. \<open>calls\<close> is present only where \<open>one_shot\<close> is true.\<close>

record 'c entry =
  callback :: 'c
  one_shot :: bool
  only_caller :: "nat option"
  arguments :: "attrs option"
  calls :: int

type_synonym 'c stack = "(string \<times> (string \<times> 'c entry list) list) list"

definition new_stack :: "'c stack" where
  "new_stack = []"

text \<open>\<open>name_or_value\<close>: AMQP classes and frames are replaced by the name of the class.\<close>

datatype key_value = Amqp_Subclass string | Frame_Of_Method meth | Amqp_Object string | Plain_Value string

fun name_or_value :: "key_value \<Rightarrow> string" where
  "name_or_value (Amqp_Subclass name) = name"
| "name_or_value (Frame_Of_Method m) = method_NAME m"
| "name_or_value (Amqp_Object name) = name"
| "name_or_value (Plain_Value s) = s"

definition entries :: "string \<Rightarrow> string \<Rightarrow> 'c stack \<Rightarrow> 'c entry list option" where
  "entries prefix key st = (case map_of st prefix of None \<Rightarrow> None | Some d \<Rightarrow> map_of d key)"

definition set_entries :: "string \<Rightarrow> string \<Rightarrow> 'c entry list \<Rightarrow> 'c stack \<Rightarrow> 'c stack" where
  "set_entries prefix key es st =
     dict_set prefix (dict_set key es (case map_of st prefix of None \<Rightarrow> [] | Some d \<Rightarrow> d)) st"

text \<open>What makes a second registration a duplicate; it identifies a registration under its key.\<close>

definition same_registration :: "'c entry \<Rightarrow> 'c entry \<Rightarrow> bool" where
  "same_registration e e' \<longleftrightarrow> callback e = callback e' \<and> arguments e = arguments e' \<and> only_caller e = only_caller e'"

definition new_entry :: "'c \<Rightarrow> bool \<Rightarrow> nat option \<Rightarrow> attrs option \<Rightarrow> 'c entry" where
  "new_entry cb once caller args =
     \<lparr>callback = cb, one_shot = once, only_caller = caller, arguments = args, calls = 1\<rparr>"

text \<open>The loop of \<open>add\<close>: the first duplicate gets another use if it is one-shot.\<close>

fun count_duplicate :: "'c entry \<Rightarrow> 'c entry list \<Rightarrow> 'c entry list option" where
  "count_duplicate e [] = None"
| "count_duplicate e (x # xs) =
     (if same_registration x e
      then Some ((if one_shot x then x\<lparr>calls := calls x + 1\<rparr> else x) # xs)
      else map_option ((#) x) (count_duplicate e xs))"

definition add :: "string \<Rightarrow> string \<Rightarrow> 'c \<Rightarrow> bool \<Rightarrow> nat option \<Rightarrow> attrs option \<Rightarrow> 'c stack \<Rightarrow> 'c stack" where
  "add prefix key cb once caller args st =
     (let es = (case entries prefix key st of None \<Rightarrow> [] | Some es \<Rightarrow> es);
          e = new_entry cb once caller args
      in set_entries prefix key
           (case count_duplicate e es of Some es' \<Rightarrow> es' | None \<Rightarrow> es @ [e]) st)"

definition cleanup :: "string \<Rightarrow> 'c stack \<Rightarrow> bool \<times> 'c stack" where
  "cleanup prefix st =
     (case map_of st prefix of
        None \<Rightarrow> (False, st)
      | Some d \<Rightarrow> if d = [] then (False, st) else (True, dict_del prefix st))"

definition pending :: "string \<Rightarrow> string \<Rightarrow> 'c stack \<Rightarrow> nat option" where
  "pending prefix key st = map_option length (entries prefix key st)"

text \<open>\<open>_cleanup_callback_dict\<close>, for a prefix that is there.\<close>

definition cleanup_callback_dict :: "string \<Rightarrow> string \<Rightarrow> 'c stack \<Rightarrow> 'c stack" where
  "cleanup_callback_dict prefix key st =
     (let d = the (map_of st prefix);
          d = (if key \<noteq> [] \<and> map_of d key = Some [] then dict_del key d else d)
      in if d = [] then dict_del prefix st else dict_set prefix d st)"

section \<open>Matching\<close>

text \<open>The first argument of the event: a dict, a frame with a method, or another object.\<close>

datatype cb_arg = Arg_Dict attrs | Arg_Frame meth | Arg_Object attrs

definition attrs_match :: "attrs \<Rightarrow> attrs \<Rightarrow> bool" where
  "attrs_match val expectation = list_all (\<lambda>(k, w).
     case map_of val k of None \<Rightarrow> False | Some v \<Rightarrow> py_eq v w) expectation"

text \<open>\<open>_dict_arguments_match\<close> uses \<open>get\<close>, for which a missing key is \<open>None\<close>.\<close>

definition dict_arguments_match :: "attrs \<Rightarrow> attrs \<Rightarrow> bool" where
  "dict_arguments_match val expectation = list_all (\<lambda>(k, w).
     py_eq (case map_of val k of None \<Rightarrow> PNone | Some v \<Rightarrow> v) w) expectation"

fun arguments_match :: "'c entry \<Rightarrow> cb_arg option \<Rightarrow> bool" where
  "arguments_match e arg =
     (case arguments e of
        None \<Rightarrow> True
      | Some expectation \<Rightarrow>
          (case arg of
             None \<Rightarrow> False
           | Some (Arg_Dict d) \<Rightarrow> dict_arguments_match d expectation
           | Some (Arg_Frame m) \<Rightarrow> attrs_match (method_dict m) expectation
           | Some (Arg_Object a) \<Rightarrow> attrs_match a expectation))"

definition should_process :: "'c entry \<Rightarrow> nat \<Rightarrow> cb_arg option \<Rightarrow> bool" where
  "should_process e caller arg \<longleftrightarrow>
     arguments_match e arg \<and> (case only_caller e of None \<Rightarrow> True | Some c \<Rightarrow> c = caller)"

section \<open>Removing and processing\<close>

text \<open>
  \<open>remove\<close> passes \<open>[arguments]\<close> to the matching, so \<open>None\<close> arrives there as an object
  without attributes.
\<close>

definition remove_arg :: "attrs option \<Rightarrow> cb_arg option" where
  "remove_arg args = Some (case args of None \<Rightarrow> Arg_Object [] | Some d \<Rightarrow> Arg_Dict d)"

definition remove_cb :: "string \<Rightarrow> string \<Rightarrow> 'c option \<Rightarrow> attrs option \<Rightarrow> 'c stack \<Rightarrow> bool \<times> 'c stack" where
  "remove_cb prefix key callback_value args st =
     (case entries prefix key st of
        None \<Rightarrow> (False, st)
      | Some es \<Rightarrow>
          let st = (case callback_value of
                      None \<Rightarrow> st
                    | Some cb \<Rightarrow> set_entries prefix key
                        (filter (\<lambda>e. \<not> (callback e = cb \<and> arguments_match e (remove_arg args))) es) st)
          in (True, cleanup_callback_dict prefix key st))"

definition remove_all :: "string \<Rightarrow> string \<Rightarrow> 'c stack \<Rightarrow> 'c stack" where
  "remove_all prefix key st =
     (case entries prefix key st of
        None \<Rightarrow> st
      | Some es \<Rightarrow> cleanup_callback_dict prefix key
          (dict_set prefix (dict_del key (the (map_of st prefix))) st))"

text \<open>
  \<open>_use_one_shot_callback\<close>: the registration loses a use, and with its last use whatever
  \<open>remove\<close> finds for its callback and arguments is removed. The dictionary may have left the
  stack already, removed with another registration of the same event.
\<close>

definition use_one_shot :: "string \<Rightarrow> string \<Rightarrow> 'c entry \<Rightarrow> 'c stack \<Rightarrow> 'c stack" where
  "use_one_shot prefix key e st =
     (if calls e - 1 \<le> 0 then snd (remove_cb prefix key (Some (callback e)) (arguments e) st)
      else case entries prefix key st of
        None \<Rightarrow> st
      | Some es \<Rightarrow> set_entries prefix key
          (map (\<lambda>x. if same_registration x e then x\<lparr>calls := calls x - 1\<rparr> else x) es) st)"

fun process_entries :: "string \<Rightarrow> string \<Rightarrow> nat \<Rightarrow> cb_arg option \<Rightarrow> 'c entry list \<Rightarrow> 'c stack \<Rightarrow> 'c list \<times> 'c stack" where
  "process_entries prefix key caller arg [] st = ([], st)"
| "process_entries prefix key caller arg (e # es) st =
     (if should_process e caller arg then
        (let st = (if one_shot e then use_one_shot prefix key e st else st);
             (cbs, st) = process_entries prefix key caller arg es st
         in (callback e # cbs, st))
      else process_entries prefix key caller arg es st)"

definition process_event :: "string \<Rightarrow> string \<Rightarrow> nat \<Rightarrow> cb_arg option \<Rightarrow> 'c stack \<Rightarrow> bool \<times> 'c list \<times> 'c stack" where
  "process_event prefix key caller arg st =
     (case entries prefix key st of
        None \<Rightarrow> (False, [], st)
      | Some es \<Rightarrow> (let (cbs, st) = process_entries prefix key caller arg es st in (True, cbs, st)))"

section \<open>What the operations do to one key\<close>

named_theorems stack_simps \<open>lookups after an operation on the stack\<close>

lemma entries_set [stack_simps]:
  "entries p k (set_entries p' k' es st) = (if p = p' \<and> k = k' then Some es else entries p k st)"
  by (auto simp: entries_def set_entries_def map_of_dict_set split: option.splits)

lemma entries_prefix: "entries p k st = Some es \<Longrightarrow> \<exists>d. map_of st p = Some d \<and> map_of d k = Some es"
  by (auto simp: entries_def split: option.splits)

lemma prefix_set [stack_simps]:
  "map_of (set_entries p' k' es st) p =
    (if p = p' then Some (dict_set k' es (case map_of st p of None \<Rightarrow> [] | Some d \<Rightarrow> d)) else map_of st p)"
  by (simp add: set_entries_def map_of_dict_set)

lemma dict_del_Nil: "dict_del k d = [] \<Longrightarrow> map_of d k' = None \<or> k' = k"
proof -
  assume "dict_del k d = []"
  then have "map_of (dict_del k d) k' = None" by simp
  then show ?thesis by (simp add: map_of_dict_del split: if_splits)
qed

lemma entries_cleanup:
  assumes "map_of st p \<noteq> None"
  shows "entries p' k' (cleanup_callback_dict p k st) =
    (if p' = p \<and> k' = k \<and> k \<noteq> [] \<and> entries p k st = Some [] then None else entries p' k' st)"
  using assms dict_del_Nil[of k "the (map_of st p)" k']
  by (auto simp: cleanup_callback_dict_def entries_def Let_def map_of_dict_set map_of_dict_del)

lemma prefix_cleanup:
  assumes "map_of st p \<noteq> None"
  shows "map_of (cleanup_callback_dict p k st) p' \<noteq> Some [] \<or> p' \<noteq> p \<and> map_of st p' = Some []"
  using assms by (auto simp: cleanup_callback_dict_def Let_def map_of_dict_set map_of_dict_del)

lemma dict_set_same: "map_of d k = Some v \<Longrightarrow> dict_set k v d = d"
  by (induction d) auto

section \<open>The invariant\<close>

definition registration :: "'c entry \<Rightarrow> 'c \<times> attrs option \<times> nat option" where
  "registration e = (callback e, arguments e, only_caller e)"

lemma same_registration_iff: "same_registration e e' \<longleftrightarrow> registration e = registration e'"
  by (auto simp: same_registration_def registration_def)

text \<open>The expected attributes are a dict.\<close>

definition valid_args :: "attrs option \<Rightarrow> bool" where
  "valid_args args \<longleftrightarrow> (case args of None \<Rightarrow> True | Some a \<Rightarrow> distinct (map fst a))"

definition entries_ok :: "'c entry list \<Rightarrow> bool" where
  "entries_ok es \<longleftrightarrow> es \<noteq> [] \<and> distinct (map registration es)
     \<and> (\<forall>e \<in> set es. 1 \<le> calls e \<and> valid_args (arguments e))"

definition stack_inv :: "'c stack \<Rightarrow> bool" where
  "stack_inv st \<longleftrightarrow> (\<forall>p. map_of st p \<noteq> Some []) \<and> (\<forall>p. entries p [] st = None)
     \<and> (\<forall>p k es. entries p k st = Some es \<longrightarrow> entries_ok es)"

lemma stack_invD:
  assumes "stack_inv st"
  shows "entries p k st = Some es \<Longrightarrow> entries_ok es" "entries p k st = Some es \<Longrightarrow> k \<noteq> []"
  using assms by (auto simp: stack_inv_def)

lemma dict_set_not_Nil [simp]: "dict_set k v d \<noteq> []"
  by (cases "(k, v, d)" rule: dict_set.cases) auto

lemma stack_inv_set:
  assumes "stack_inv st" "entries_ok es" "k \<noteq> []"
  shows "stack_inv (set_entries p k es st)"
  using assms by (auto simp: stack_inv_def stack_simps)

text \<open>Writing back fewer registrations, with the key and the prefix gone when none is left.\<close>

lemma stack_inv_settle:
  assumes inv: "stack_inv st" and es: "entries p k st = Some es0" and ok: "es = [] \<or> entries_ok es"
  shows "stack_inv (cleanup_callback_dict p k (set_entries p k es st))"
proof -
  let ?t = "set_entries p k es st"
  have p: "map_of ?t p \<noteq> None" by (simp add: stack_simps)
  have k: "k \<noteq> []" using stack_invD(2)[OF inv es] .
  have "entries_ok xs" if "entries p' k' (cleanup_callback_dict p k ?t) = Some xs" for p' k' xs
    using that inv ok k unfolding entries_cleanup[OF p]
    by (auto simp: stack_simps stack_inv_def split: if_splits)
  moreover have "entries p' [] (cleanup_callback_dict p k ?t) = None" for p'
    using inv k unfolding entries_cleanup[OF p] by (auto simp: stack_simps stack_inv_def)
  moreover have "map_of (cleanup_callback_dict p k ?t) p' \<noteq> Some []" for p'
    using prefix_cleanup[OF p, of k p'] inv by (auto simp: stack_simps stack_inv_def split: if_splits)
  ultimately show ?thesis by (simp add: stack_inv_def)
qed

lemma entries_settle:
  assumes "k \<noteq> []"
  shows "entries p' k' (cleanup_callback_dict p k (set_entries p k es st)) =
    (if p' = p \<and> k' = k then (if es = [] then None else Some es) else entries p' k' st)"
  using assms by (subst entries_cleanup) (auto simp: stack_simps)

lemma count_duplicate_ok:
  assumes "distinct (map registration es)" "\<forall>x \<in> set es. 1 \<le> calls x \<and> valid_args (arguments x)"
  shows "case count_duplicate e es of
      Some es' \<Rightarrow> map registration es' = map registration es
        \<and> (\<forall>x \<in> set es'. 1 \<le> calls x \<and> valid_args (arguments x))
    | None \<Rightarrow> registration e \<notin> registration ` set es"
  using assms by (induction es)
    (auto simp: same_registration_iff registration_def split: option.splits)

lemma stack_inv_add:
  assumes inv: "stack_inv st" and k: "k \<noteq> []" and args: "valid_args args"
  shows "stack_inv (add p k cb once caller args st)"
proof -
  let ?es = "case entries p k st of None \<Rightarrow> [] | Some es \<Rightarrow> es" and ?e = "new_entry cb once caller args"
  have es: "distinct (map registration ?es)" "\<forall>x \<in> set ?es. 1 \<le> calls x \<and> valid_args (arguments x)"
    using stack_invD(1)[OF inv, of p k] by (cases "entries p k st"; simp add: entries_ok_def)+
  have "entries_ok (case count_duplicate ?e ?es of Some es' \<Rightarrow> es' | None \<Rightarrow> ?es @ [?e])"
  proof (cases "count_duplicate ?e ?es")
    case None
    with count_duplicate_ok[OF es, of ?e] es args show ?thesis
      by (auto simp: entries_ok_def new_entry_def)
  next
    case (Some es')
    then have "?es \<noteq> []" by auto
    with Some count_duplicate_ok[OF es, of ?e] es have "es' \<noteq> []" "map registration es' = map registration ?es"
      by auto
    with Some count_duplicate_ok[OF es, of ?e] es show ?thesis by (auto simp: entries_ok_def)
  qed
  then show ?thesis using inv k by (auto simp: add_def Let_def intro: stack_inv_set)
qed

lemma entries_ok_filter: "entries_ok es \<Longrightarrow> filter P es = [] \<or> entries_ok (filter P es)"
  by (auto simp: entries_ok_def distinct_map_filter)

lemma stack_inv_remove: "stack_inv st \<Longrightarrow> stack_inv (snd (remove_cb p k v args st))"
proof -
  assume inv: "stack_inv st"
  show ?thesis
  proof (cases "entries p k st")
    case (Some es)
    with inv have ok: "entries_ok es" "k \<noteq> []" by (auto dest: stack_invD)
    show ?thesis
    proof (cases v)
      case None
      have "set_entries p k es st = st"
        using Some by (auto simp: set_entries_def entries_def dict_set_same split: option.splits)
      with stack_inv_settle[OF inv Some, of es] ok None Some show ?thesis
        by (simp add: remove_cb_def)
    next
      case (Some cb)
      with \<open>entries p k st = Some es\<close> ok show ?thesis
        by (auto simp: remove_cb_def Let_def intro!: stack_inv_settle[OF inv] dest: entries_ok_filter)
    qed
  qed (simp add: remove_cb_def inv)
qed

lemma cleanup_after_remove_all:
  assumes "map_of st p = Some d"
  shows "cleanup_callback_dict p k (dict_set p (dict_del k d) st)
    = (if dict_del k d = [] then dict_del p (dict_set p [] st) else dict_set p (dict_del k d) (dict_set p (dict_del k d) st))"
  by (simp add: cleanup_callback_dict_def map_of_dict_set map_of_dict_del Let_def)

lemma entries_remove_all:
  assumes "entries p k st = Some es"
  shows "entries p' k' (remove_all p k st) = (if p' = p \<and> k' = k then None else entries p' k' st)"
    "map_of (remove_all p k st) p' = Some [] \<Longrightarrow> p' \<noteq> p \<and> map_of st p' = Some []"
proof -
  obtain d where d: "map_of st p = Some d" using entries_prefix[OF assms] by blast
  show "entries p' k' (remove_all p k st) = (if p' = p \<and> k' = k then None else entries p' k' st)"
    using assms d dict_del_Nil[of k d k']
    by (auto simp: remove_all_def cleanup_after_remove_all entries_def map_of_dict_set map_of_dict_del)
  show "map_of (remove_all p k st) p' = Some [] \<Longrightarrow> p' \<noteq> p \<and> map_of st p' = Some []"
    using assms d by (auto simp: remove_all_def cleanup_after_remove_all map_of_dict_set map_of_dict_del split: if_splits)
qed

lemma stack_inv_remove_all: "stack_inv st \<Longrightarrow> stack_inv (remove_all p k st)"
proof (cases "entries p k st")
  case (Some es)
  assume "stack_inv st"
  with entries_remove_all[OF Some] show ?thesis by (auto simp: stack_inv_def split: if_splits)
qed (simp add: remove_all_def)

lemma entries_cleanup_prefix:
  "entries p' k' (snd (cleanup p st)) = (if p' = p then None else entries p' k' st)"
  by (auto simp: cleanup_def entries_def map_of_dict_del split: option.splits)

lemma stack_inv_cleanup_prefix: "stack_inv st \<Longrightarrow> stack_inv (snd (cleanup p st))"
  by (auto simp: stack_inv_def entries_cleanup_prefix)
    (auto simp: cleanup_def map_of_dict_del split: option.splits if_splits)

section \<open>The registrations an event leaves behind\<close>

text \<open>A one-shot registration in its last use, that the event matches.\<close>

definition exhausted :: "nat \<Rightarrow> cb_arg option \<Rightarrow> 'c entry \<Rightarrow> bool" where
  "exhausted caller arg e \<longleftrightarrow> should_process e caller arg \<and> one_shot e \<and> calls e \<le> 1"

text \<open>The removal of \<open>x\<close> takes \<open>e\<close> with it.\<close>

definition removed_by :: "'c entry \<Rightarrow> 'c entry \<Rightarrow> bool" where
  "removed_by x e \<longleftrightarrow> callback e = callback x \<and> arguments_match e (remove_arg (arguments x))"

definition used :: "nat \<Rightarrow> cb_arg option \<Rightarrow> 'c entry \<Rightarrow> 'c entry" where
  "used caller arg e = (if should_process e caller arg \<and> one_shot e then e\<lparr>calls := calls e - 1\<rparr> else e)"

definition settled :: "nat \<Rightarrow> cb_arg option \<Rightarrow> 'c entry list \<Rightarrow> 'c entry list" where
  "settled caller arg es = map (used caller arg)
     (filter (\<lambda>e. \<not> (\<exists>x \<in> set es. exhausted caller arg x \<and> removed_by x e)) es)"

lemma py_eq_refl: "py_eq v v"
proof (induction v)
  case (PDict d)
  have "list_ex (\<lambda>(k', v'). py_eq k k' \<and> py_eq v v') d" if "(k, v) \<in> set d" for k v
    using that PDict by (auto simp: list_ex_iff intro!: bexI[of _ "(k, v)"])
  then show ?case by (auto simp: list_all_iff)
next
  case (PList xs)
  then show ?case by (auto simp: list_all2_conv_all_nth)
qed (simp_all add: scalar_eq_def)

lemma removed_by_self: "valid_args (arguments e) \<Longrightarrow> removed_by e e"
  by (auto simp: valid_args_def removed_by_def remove_arg_def dict_arguments_match_def list_all_iff py_eq_refl
      split: option.splits)

definition some_entries :: "'c entry list \<Rightarrow> 'c entry list option" where
  "some_entries es = (if es = [] then None else Some es)"

definition use_entry :: "'c entry \<Rightarrow> 'c entry list \<Rightarrow> 'c entry list" where
  "use_entry e es = (if calls e \<le> 1 then filter (\<lambda>x. \<not> removed_by e x) es
     else map (\<lambda>x. if same_registration x e then x\<lparr>calls := calls x - 1\<rparr> else x) es)"

lemma use_one_shot_entries:
  assumes "k \<noteq> []" "entries p k st = some_entries es"
  shows "entries p' k' (use_one_shot p k e st) =
      (if p' = p \<and> k' = k then some_entries (use_entry e es) else entries p' k' st)"
    and "\<forall>p'. map_of st p' \<noteq> Some [] \<Longrightarrow> map_of (use_one_shot p k e st) p' \<noteq> Some []"
proof -
  have eq: "use_one_shot p k e st = (if es = [] then st
      else if calls e \<le> 1 then cleanup_callback_dict p k (set_entries p k (use_entry e es) st)
      else set_entries p k (use_entry e es) st)"
    using assms by (auto simp: use_one_shot_def remove_cb_def use_entry_def removed_by_def some_entries_def Let_def)
  show "entries p' k' (use_one_shot p k e st) =
      (if p' = p \<and> k' = k then some_entries (use_entry e es) else entries p' k' st)"
    using assms unfolding eq by (auto simp: entries_settle stack_simps some_entries_def use_entry_def)
  assume shape: "\<forall>p'. map_of st p' \<noteq> Some []"
  have "map_of (set_entries p k (use_entry e es) st) p \<noteq> None" by (simp add: stack_simps)
  from prefix_cleanup[OF this, of k p'] shape
  show "map_of (use_one_shot p k e st) p' \<noteq> Some []"
    unfolding eq by (auto simp: stack_simps split: if_splits)
qed

text \<open>The list under the key after some of its registrations have been looked at.\<close>

definition halfway :: "nat \<Rightarrow> cb_arg option \<Rightarrow> 'c entry list \<Rightarrow> 'c entry list \<Rightarrow> 'c entry list" where
  "halfway caller arg seen es = map (\<lambda>e. if e \<in> set seen then used caller arg e else e)
     (filter (\<lambda>e. \<not> (\<exists>x \<in> set seen. exhausted caller arg x \<and> removed_by x e)) es)"

lemma used_fields [simp]:
  "callback (used c a e) = callback e" "arguments (used c a e) = arguments e"
  "only_caller (used c a e) = only_caller e" "one_shot (used c a e) = one_shot e"
  by (simp_all add: used_def)

lemma arguments_match_used [simp]: "arguments_match (used c a e) = arguments_match e"
  by (auto simp: fun_eq_iff)

lemma removed_by_used [simp]: "removed_by x (used c a e) = removed_by x e"
  by (simp add: removed_by_def)

lemma halfway_skip:
  assumes "\<not> (should_process e caller arg \<and> one_shot e)"
  shows "halfway caller arg (seen @ [e]) es = halfway caller arg seen es"
proof -
  have "used caller arg e = e" "\<not> exhausted caller arg e" using assms by (auto simp: used_def exhausted_def)
  then show ?thesis by (auto simp: halfway_def intro!: map_cong filter_cong)
qed

lemma halfway_use:
  assumes e: "should_process e caller arg" "one_shot e" and all: "distinct (map registration es)"
    "e \<in> set es" "set seen \<subseteq> set es" "e \<notin> set seen" "valid_args (arguments e)"
  shows "halfway caller arg (seen @ [e]) es = use_entry e (halfway caller arg seen es)"
proof (cases "calls e \<le> 1")
  case True
  let ?f = "\<lambda>x. if x \<in> set seen then used caller arg x else x"
  have "use_entry e (halfway caller arg seen es)
      = map ?f (filter (\<lambda>x. \<not> removed_by e x \<and> \<not> (\<exists>y \<in> set seen. exhausted caller arg y \<and> removed_by y x)) es)"
    using True by (auto simp: use_entry_def halfway_def filter_map o_def intro!: map_cong filter_cong)
  moreover have "exhausted caller arg e" "removed_by e e"
    using e True removed_by_self all(5) by (auto simp: exhausted_def)
  ultimately show ?thesis by (auto simp: halfway_def intro!: map_cong filter_cong)
next
  case False
  have "x = e" if "x \<in> set es" "registration x = registration e" for x
    using all(1,2) that by (auto simp: distinct_map dest: inj_onD)
  then have reg: "same_registration x e \<longleftrightarrow> x = e" "same_registration (used caller arg x) e \<longleftrightarrow> x = e"
    if "x \<in> set es" for x using that by (auto simp: same_registration_iff registration_def)
  have "\<not> exhausted caller arg e" using False by (simp add: exhausted_def)
  moreover have "used caller arg e = e\<lparr>calls := calls e - 1\<rparr>" using e by (simp add: used_def)
  ultimately show ?thesis using False reg all(4)
    by (auto simp: halfway_def use_entry_def intro!: map_cong filter_cong)
qed

lemma process_entries_settles:
  assumes "all = seen @ es" "distinct (map registration all)" "\<forall>e \<in> set all. valid_args (arguments e)" "k \<noteq> []"
    "entries p k st = some_entries (halfway caller arg seen all)" "\<forall>p. map_of st p \<noteq> Some []"
    "process_entries p k caller arg es st = (cbs, st')"
  shows "cbs = map callback (filter (\<lambda>e. should_process e caller arg) es)
    \<and> (\<forall>p' k'. entries p' k' st' =
         (if p' = p \<and> k' = k then some_entries (halfway caller arg all all) else entries p' k' st))
    \<and> (\<forall>p. map_of st' p \<noteq> Some [])"
  using assms
proof (induction es arbitrary: seen st cbs)
  case (Cons e es)
  note prems = Cons.prems
  show ?case
  proof (cases "should_process e caller arg \<and> one_shot e")
    case False
    with prems(7) obtain cbs' where cbs: "process_entries p k caller arg es st = (cbs', st')"
      "cbs = (if should_process e caller arg then [callback e] else []) @ cbs'"
      by (auto split: if_splits prod.splits)
    have "entries p k st = some_entries (halfway caller arg (seen @ [e]) all)"
      using prems(5) halfway_skip[OF False] by simp
    from Cons.IH[OF _ prems(2-4) this prems(6) cbs(1)] prems(1) cbs(2) show ?thesis by simp
  next
    case True
    let ?st = "use_one_shot p k e st"
    from True prems(7) obtain cbs' where cbs: "process_entries p k caller arg es ?st = (cbs', st')"
      "cbs = callback e # cbs'" by (auto simp: Let_def split: prod.splits)
    note u = use_one_shot_entries[where e = e, OF prems(4,5)]
    have "e \<notin> set seen" using prems(1,2) by auto
    then have "halfway caller arg (seen @ [e]) all = use_entry e (halfway caller arg seen all)"
      using True prems(1-3) by (intro halfway_use) auto
    then have "entries p k ?st = some_entries (halfway caller arg (seen @ [e]) all)" by (simp add: u(1))
    from Cons.IH[OF _ prems(2-4) this _ cbs(1)] prems(1,6) u cbs(2) True show ?thesis by simp
  qed
qed simp

lemma entries_ok_settled:
  fixes es :: "'c entry list"
  assumes "entries_ok es"
  shows "settled caller arg es = [] \<or> entries_ok (settled caller arg es)"
proof -
  have "registration \<circ> used caller arg = (registration :: 'c entry \<Rightarrow> _)" by (auto simp: registration_def fun_eq_iff)
  moreover have "1 \<le> calls (used caller arg e)"
    if "e \<in> set es" "\<not> (\<exists>x \<in> set es. exhausted caller arg x \<and> removed_by x e)" for e
  proof (cases "should_process e caller arg \<and> one_shot e")
    case True
    from that assms have "\<not> exhausted caller arg e" using removed_by_self by (auto simp: entries_ok_def)
    with True show ?thesis by (simp add: exhausted_def used_def)
  next
    case False
    with that assms show ?thesis by (auto simp: entries_ok_def used_def)
  qed
  ultimately show ?thesis using assms by (auto simp: entries_ok_def settled_def distinct_map_filter)
qed

lemma halfway_all: "halfway caller arg es es = settled caller arg es"
  by (auto simp: halfway_def settled_def intro!: map_cong)

lemma process_event_settles:
  assumes inv: "stack_inv st" and es: "entries p k st = Some es"
    and run: "process_event p k caller arg st = (found, cbs, st')"
  shows "found \<and> cbs = map callback (filter (\<lambda>e. should_process e caller arg) es)
    \<and> (\<forall>p' k'. entries p' k' st' =
         (if p' = p \<and> k' = k then some_entries (settled caller arg es) else entries p' k' st))
    \<and> stack_inv st'"
proof -
  from stack_invD[OF inv es] have ok: "entries_ok es" "k \<noteq> []" by auto
  have shape: "\<forall>p. map_of st p \<noteq> Some []" using inv by (simp add: stack_inv_def)
  from es run have p: "found" "process_entries p k caller arg es st = (cbs, st')"
    by (auto simp: process_event_def split: prod.splits)
  have h: "entries p k st = some_entries (halfway caller arg [] es)"
    using es ok by (simp add: halfway_def some_entries_def entries_ok_def)
  have "distinct (map registration es)" "\<forall>e \<in> set es. valid_args (arguments e)"
    using ok by (auto simp: entries_ok_def)
  from process_entries_settles[OF _ this ok(2) h shape p(2)] p(1)
  have *: "cbs = map callback (filter (\<lambda>e. should_process e caller arg) es)"
    "\<And>p' k'. entries p' k' st' =
       (if p' = p \<and> k' = k then some_entries (settled caller arg es) else entries p' k' st)"
    "\<forall>p. map_of st' p \<noteq> Some []" by (simp_all add: halfway_all)
  moreover have "stack_inv st'"
    using * inv ok(2) entries_ok_settled[OF ok(1), of caller arg]
    by (auto simp: stack_inv_def some_entries_def split: if_splits)
  ultimately show ?thesis using p(1) by blast
qed

section \<open>Histories of a callback manager\<close>

datatype 'c cb_event =
  Add string string 'c bool "nat option" "attrs option"
| Remove string string "'c option" "attrs option"
| Remove_all string string
| Cleanup string
| Clear
| Process string string nat "cb_arg option"

text \<open>Keys are names of methods and events, so they are not empty.\<close>

fun cb_step :: "'c cb_event \<Rightarrow> 'c stack \<Rightarrow> 'c stack option" where
  "cb_step (Add p k cb once caller args) st =
     (if k \<noteq> [] \<and> valid_args args then Some (add p k cb once caller args st) else None)"
| "cb_step (Remove p k v args) st = Some (snd (remove_cb p k v args st))"
| "cb_step (Remove_all p k) st = Some (remove_all p k st)"
| "cb_step (Cleanup p) st = Some (snd (cleanup p st))"
| "cb_step Clear st = Some new_stack"
| "cb_step (Process p k caller arg) st = Some (snd (snd (process_event p k caller arg st)))"

lemma stack_inv_new: "stack_inv new_stack"
  by (simp add: stack_inv_def new_stack_def entries_def)

interpretation callbacks: invariant_system new_stack cb_step stack_inv
proof
  show "stack_inv new_stack" by (rule stack_inv_new)
next
  fix st e t assume inv: "stack_inv st" and step: "cb_step e st = Some t"
  show "stack_inv t"
  proof (cases e)
    case (Add p k cb once caller args)
    with step have "k \<noteq> []" "valid_args args" "t = add p k cb once caller args st"
      by (simp_all split: if_splits)
    with stack_inv_add[OF inv] show ?thesis by simp
  next
    case (Remove p k v args)
    with step stack_inv_remove[OF inv, of p k v args] show ?thesis by simp
  next
    case (Remove_all p k)
    with step stack_inv_remove_all[OF inv, of p k] show ?thesis by simp
  next
    case (Cleanup p)
    with step stack_inv_cleanup_prefix[OF inv, of p] show ?thesis by simp
  next
    case Clear
    with step stack_inv_new show ?thesis by simp
  next
    case (Process p k caller arg)
    obtain f cbs st' where run: "process_event p k caller arg st = (f, cbs, st')" by (metis surj_pair)
    with Process step have t: "t = st'" by simp
    show ?thesis
    proof (cases "entries p k st")
      case None
      with run t inv show ?thesis by (simp add: process_event_def)
    next
      case (Some es)
      from process_event_settles[OF inv this run] t show ?thesis by blast
    qed
  qed
qed

section \<open>Properties\<close>

text \<open>
  In every history of a callback manager: no prefix and no key is left
  without registrations, under a key no two registrations agree in callback, arguments and
  caller, and every registration has at least one use left.
\<close>

theorem callback_stack_invariant:
  assumes "reach new_stack cb_step st"
  shows "(\<forall>p. map_of st p \<noteq> Some [])
    \<and> (\<forall>p k es. entries p k st = Some es \<longrightarrow>
         es \<noteq> [] \<and> distinct (map registration es) \<and> (\<forall>e \<in> set es. 1 \<le> calls e))"
  using callbacks.inv_reach[OF assms] by (auto simp: stack_inv_def entries_ok_def)

lemma callback_stack_invariant_witness:
  "\<exists>st. reach new_stack cb_step st \<and> entries ''1'' ''k'' st = Some [new_entry (7::nat) True None None]
    \<and> (\<forall>p. map_of st p \<noteq> Some [])"
proof (intro exI conjI)
  let ?st = "add ''1'' ''k'' (7::nat) True None None new_stack"
  show r: "reach new_stack cb_step ?st"
    by (rule reach_step[OF reach_init, where e = "Add ''1'' ''k'' (7::nat) True None None"]) (simp add: valid_args_def)
  show "entries ''1'' ''k'' ?st = Some [new_entry (7::nat) True None None]"
    by (simp add: add_def new_stack_def entries_def set_entries_def)
  from callback_stack_invariant[OF r] show "\<forall>p. map_of ?st p \<noteq> Some []" by blast
qed

text \<open>
  The loop of \<open>process\<close>, which removes registrations from the list it
  has copied while it goes through the copy, has a closed form: the callbacks called are those
  of the matching registrations, each once and in the order of registration; a matching
  one-shot registration loses a use; one in its last use goes, with every registration of
  the same callback whose arguments its removal matches; no other key is touched.
\<close>

theorem process_closed_form:
  assumes "reach new_stack cb_step st" "entries p k st = Some es"
    and "process_event p k caller arg st = (found, cbs, st')"
  shows "found \<and> cbs = map callback (filter (\<lambda>e. should_process e caller arg) es)
    \<and> (\<forall>p' k'. entries p' k' st' =
         (if p' = p \<and> k' = k
          then (if settled caller arg es = [] then None else Some (settled caller arg es))
          else entries p' k' st))"
  using process_event_settles[OF callbacks.inv_reach[OF assms(1)] assms(2,3)]
  by (simp add: some_entries_def)

lemma process_closed_form_witness:
  "\<exists>st. process_event ''1'' ''k'' 0 None (add ''1'' ''k'' (7::nat) True None None new_stack) = (True, [7], st)
    \<and> entries ''1'' ''k'' st = None"
proof -
  let ?st = "add ''1'' ''k'' (7::nat) True None None new_stack"
  have r: "reach new_stack cb_step ?st"
    by (rule reach_step[OF reach_init, where e = "Add ''1'' ''k'' (7::nat) True None None"]) (simp add: valid_args_def)
  have es: "entries ''1'' ''k'' ?st = Some [new_entry (7::nat) True None None]"
    by (simp add: add_def new_stack_def entries_def set_entries_def)
  obtain f cbs st where p: "process_event ''1'' ''k'' 0 None ?st = (f, cbs, st)" by (metis surj_pair)
  from process_closed_form[OF r es p] p show ?thesis
    by (simp add: settled_def should_process_def new_entry_def exhausted_def removed_by_def)
qed

text \<open>
  \<open>remove\<close> with a prefix and a key only, documented to remove all callbacks for
  them, removes none: the stack stays as it is, and the answer is whether there are any.
\<close>

theorem remove_without_callback:
  assumes "reach new_stack cb_step st"
  shows "remove_cb p k None args st = (entries p k st \<noteq> None, st)"
proof (cases "entries p k st")
  case (Some es)
  with callbacks.inv_reach[OF assms] have "es \<noteq> []" "\<forall>p. map_of st p \<noteq> Some []"
    by (auto simp: stack_inv_def entries_ok_def)
  with Some show ?thesis
    by (auto simp: remove_cb_def cleanup_callback_dict_def entries_def Let_def dict_set_same
        split: option.splits)
qed (simp add: remove_cb_def)

lemma remove_without_callback_witness:
  "remove_cb ''1'' ''k'' None None (add ''1'' ''k'' (7::nat) True None None new_stack)
    = (True, add ''1'' ''k'' (7::nat) True None None new_stack)"
proof -
  let ?st = "add ''1'' ''k'' (7::nat) True None None new_stack"
  have r: "reach new_stack cb_step ?st"
    by (rule reach_step[OF reach_init, where e = "Add ''1'' ''k'' (7::nat) True None None"]) (simp add: valid_args_def)
  have es: "entries ''1'' ''k'' ?st = Some [new_entry (7::nat) True None None]"
    by (simp add: add_def new_stack_def entries_def set_entries_def)
  from remove_without_callback[OF r, of "''1''" "''k''" None] es show ?thesis by simp
qed

section \<open>Use counts\<close>

text \<open>Fire an event several times; what was called each time.\<close>

fun fire :: "nat \<Rightarrow> string \<Rightarrow> string \<Rightarrow> nat \<Rightarrow> cb_arg option \<Rightarrow> 'c stack \<Rightarrow> 'c list list" where
  "fire 0 p k caller arg st = []"
| "fire (Suc n) p k caller arg st =
     (case process_event p k caller arg st of (found, cbs, st) \<Rightarrow> cbs # fire n p k caller arg st)"

lemma add_times:
  assumes "entries p k st = None"
  shows "entries p k ((add p k cb True c args ^^ Suc n) st)
    = Some [(new_entry cb True c args)\<lparr>calls := 1 + int n\<rparr>]"
proof (induction n)
  case 0
  with assms show ?case by (simp add: add_def Let_def stack_simps new_entry_def)
next
  case (Suc n)
  then show ?case
    by (simp only: funpow.simps o_apply)
      (simp add: add_def Let_def stack_simps new_entry_def same_registration_def)
qed

lemma fire_one:
  assumes "k \<noteq> []" "valid_args args" "should_process (new_entry cb True c args) caller arg"
    "entries p k st = (if n = 0 then None else Some [(new_entry cb True c args)\<lparr>calls := int n\<rparr>])"
  shows "fire m p k caller arg st = replicate (min n m) [cb] @ replicate (m - n) []"
  using assms(4)
proof (induction m arbitrary: n st)
  case (Suc m)
  let ?e = "(new_entry cb True c args)\<lparr>calls := int n\<rparr>"
  show ?case
  proof (cases n)
    case 0
    with Suc.prems have "process_event p k caller arg st = (False, [], st)" by (simp add: process_event_def)
    with Suc.IH[of st 0] Suc.prems 0 show ?thesis by simp
  next
    case (Suc n')
    with Suc.prems have es: "entries p k st = some_entries [?e]" by (simp add: some_entries_def)
    let ?st = "use_one_shot p k ?e st"
    have sp: "should_process ?e caller arg" using assms(3) by (simp add: should_process_def)
    have "process_event p k caller arg st = (True, [cb], ?st)"
      using es sp by (simp add: process_event_def some_entries_def new_entry_def)
    moreover have "entries p k ?st = (if n' = 0 then None else Some [(new_entry cb True c args)\<lparr>calls := int n'\<rparr>])"
    proof -
      have "removed_by ?e ?e" using assms(2) by (intro removed_by_self) (simp add: new_entry_def)
      then show ?thesis
        using use_one_shot_entries(1)[OF assms(1) es, of p k ?e] Suc
        by (cases "n' = 0") (simp_all add: use_entry_def some_entries_def same_registration_def)
    qed
    ultimately show ?thesis using Suc.IH[of ?st n'] Suc by simp
  qed
qed simp

text \<open>
  Registering the same one-shot callback \<open>n\<close> times (as the concurrent
  RPCs of a channel do) makes it answer the next \<open>n\<close> matching events, once each, and no
  event after these.
\<close>

theorem one_shot_answers_as_often_as_added:
  assumes "entries p k st = None" "k \<noteq> []" "valid_args args"
    "should_process (new_entry cb True c args) caller arg"
  shows "fire m p k caller arg ((add p k cb True c args ^^ n) st)
    = replicate (min n m) [cb] @ replicate (m - n) []"
proof (cases n)
  case 0
  with fire_one[OF assms(2-4), where st = st and p = p and n = 0] assms(1) show ?thesis by simp
next
  case (Suc n')
  have "entries p k ((add p k cb True c args ^^ n) st)
      = (if n = 0 then None else Some [(new_entry cb True c args)\<lparr>calls := int n\<rparr>])"
    unfolding Suc using add_times[where n = n' and cb = cb and c = c and args = args, OF assms(1)] by (simp del: funpow.simps)
  from fire_one[OF assms(2-4) this] show ?thesis .
qed

lemma one_shot_answers_as_often_as_added_witness:
  "fire 3 ''1'' ''k'' 0 None ((add ''1'' ''k'' (7::nat) True None None ^^ 2) new_stack) = [[7], [7], []]"
  using one_shot_answers_as_often_as_added[of "''1''" "''k''" new_stack None "7::nat" None 0 None 3 2]
  by (simp add: entries_def new_stack_def valid_args_def should_process_def new_entry_def numeral_eq_Suc)

end
