(* ===== verification/Endpoint.thy ===== *)
theory Endpoint
  imports Heartbeat Callbacks Parameters
begin

text \<open>
  The state that \<open>Connection\<close> of \<open>pika/connection.py\<close> and \<open>Channel\<close> of \<open>pika/channel.py\<close> share, and
  the ways they send. Channel objects live in a list, their position is their identity; the
  connection's dict of channels maps numbers to objects. Registered callbacks are bound methods,
  the datatype \<open>handler\<close>, or functions of the application, which are known by a number.
\<close>

section \<open>Handlers\<close>

datatype chan_handler = On_getempty | On_cancel | On_flow | On_close_from_broker | On_openok | On_closeok
| On_cancelok | On_eventok | On_flowok | On_synchronous_complete

text \<open>
  \<open>functools.partial\<close> makes a new object each time, so the registrations for blocked
  connections carry a serial number.
\<close>

datatype handler = On_connection_start | On_connection_tune | On_connection_open_ok
| On_connection_close_from_broker | On_connection_close_ok
| Partial_on_connection_blocked nat | Partial_on_connection_unblocked nat | Partial_application nat nat
| Default_on_connection_error | On_channel_cleanup
| Of_channel nat chan_handler
| Application nat

text \<open>What an application callback is called with.\<close>

datatype notice =
  Frame_Notice meth
| Channel_Opened nat
| Channel_Closed nat exn
| Message nat meth basic_properties bytes
| Flow_Active pyval
| Connection_Opened
| Connection_Failed exn
| Connection_Closed exn

section \<open>State\<close>

datatype chan_state = CLOSED | OPENING | OPEN | CLOSING

text \<open>A reply is a method class, by its name, with the arguments it has to match.\<close>

type_synonym reply = "string \<times> attrs option"
type_synonym request = "meth \<times> handler option \<times> reply list"

record channel =
  channel_number :: int
  chan_state :: chan_state
  flow_active :: pyval
  content_assembler :: assembler
  blocked :: "request list"
  blocking :: "string option"
  has_on_flow_callback :: bool
  cancelled :: "pyval list"
  consumers :: "(pyval \<times> nat) list"
  consumers_with_noack :: "pyval list"
  on_flowok_callback :: "nat option"
  on_getok_callback :: "nat option"
  on_openok_callback :: "nat option"
  closing_reason :: "exn option"

text \<open>
  \<open>user_log\<close> records the calls of application callbacks; \<open>python_version\<close> is what the platform
  answers. The rest are the attributes of \<open>Connection\<close>.
\<close>

record endpoint = core +
  params :: parameters
  callback_stack :: "handler stack"
  partials :: nat
  channels :: "(int \<times> nat) list"
  objects :: "channel list"
  opened :: bool
  body_max_length :: "int option"
  frame_buffer :: bytes
  frames_received :: nat
  server_properties :: pyval
  server_capabilities :: pyval
  known_hosts :: pyval
  python_version :: "nat list"
  user_log :: "(nat \<times> notice) list"

type_synonym 'z conn = "'z endpoint_scheme \<times> conn_callback timer"
type_synonym ('z, 'a) op = "('z conn, 'a) act"

section \<open>Python pieces\<close>

text \<open>\<open>str(n)\<close> of a channel number, the prefix of its callbacks\<close>

fun digits :: "nat \<Rightarrow> string" where
  "digits n = (if n < 10 then [char_of (48 + n)] else digits (n div 10) @ [char_of (48 + n mod 10)])"

declare digits.simps [simp del]

definition py_str :: "int \<Rightarrow> string" where
  "py_str i = (if i < 0 then CHR 0x2D # digits (nat (- i)) else digits (nat i))"

definition try_finally :: "('s, 'a) act \<Rightarrow> ('s, unit) act \<Rightarrow> ('s, 'a) act" where
  "try_finally m f s = (case m s of (r, s') \<Rightarrow>
     (case f s' of (Inl e, s'') \<Rightarrow> (Inl e, s'') | (Inr _, s'') \<Rightarrow> (r, s'')))"

definition try_except :: "('s, unit) act \<Rightarrow> (exn \<Rightarrow> ('s, unit) act) \<Rightarrow> ('s, unit) act" where
  "try_except m f s = (case m s of (Inl e, s') \<Rightarrow> f e s' | (Inr u, s') \<Rightarrow> (Inr u, s'))"

definition assert :: "bool \<Rightarrow> ('s, unit) act" where
  "assert b = (if b then ret () else raise (Python_Error AssertionError))"

text \<open>\<open>method.name\<close>\<close>

definition attr :: "string \<Rightarrow> meth \<Rightarrow> ('s, pyval) act" where
  "attr name m = (case map_of (method_dict m) name of
     Some v \<Rightarrow> ret v | None \<Rightarrow> raise (Python_Error AttributeError))"

section \<open>Access to the state\<close>

definition get :: "('z endpoint_scheme \<Rightarrow> 'a) \<Rightarrow> ('z, 'a) op" where
  "get f = query (\<lambda>s. f (fst s))"

definition chan :: "nat \<Rightarrow> (channel \<Rightarrow> 'a) \<Rightarrow> ('z, 'a) op" where
  "chan c f = get (\<lambda>w. f (objects w ! c))"

definition set_chan :: "nat \<Rightarrow> (channel \<Rightarrow> channel) \<Rightarrow> ('z, unit) op" where
  "set_chan c f = change (\<lambda>w. w\<lparr>objects := (objects w)[c := f (objects w ! c)]\<rparr>)"

text \<open>\<open>CallbackManager.add\<close>; the connection's prefix is \<open>str(0)\<close>.\<close>

definition add_callback :: "int \<Rightarrow> string \<Rightarrow> handler \<Rightarrow> bool \<Rightarrow> nat option \<Rightarrow> attrs option \<Rightarrow> ('z, unit) op" where
  "add_callback n key h once caller args =
     change (\<lambda>w. w\<lparr>callback_stack := add (py_str n) key h once caller args (callback_stack w)\<rparr>)"

definition set_connection_state :: "conn_state \<Rightarrow> ('z, unit) op" where
  "set_connection_state st = change (\<lambda>w. w\<lparr>connection_state := st\<rparr>)"

section \<open>Sending\<close>

text \<open>\<open>Connection._send_message\<close> needs the limit set in \<open>_on_connection_tune\<close>; before that it is \<open>None\<close>.\<close>

definition conn_send_message :: "int \<Rightarrow> meth \<Rightarrow> basic_properties \<Rightarrow> bytes \<Rightarrow> ('z, unit) op" where
  "conn_send_message number m props body s =
     (case body_max_length (fst s) of
        None \<Rightarrow> (case traverseE marshal [Method_Frame number m, Header_Frame number (int (length body)) props] of
            Inl e \<Rightarrow> (Inl (Python_Error e), s)
          | Inr heads \<Rightarrow> if body = [] then (Inr (), (output_marshaled_frames heads (fst s), snd s))
              else (Inl (Python_Error TypeError), s))
      | Some k \<Rightarrow> (case send_message k number m props body (fst s) of
            Inl (Send_Error e) \<Rightarrow> (Inl (Python_Error e), s)
          | Inl ZeroDivisionError \<Rightarrow> (Inl ZeroDivision, s)
          | Inr w \<Rightarrow> (Inr (), (w, snd s))))"

definition conn_send_method :: "int \<Rightarrow> meth \<Rightarrow> (basic_properties \<times> bytes) option \<Rightarrow> ('z, unit) op" where
  "conn_send_method number m content =
     (case content of
        Some (props, body) \<Rightarrow> conn_send_message number m props body
      | None \<Rightarrow> send_frame (Method_Frame number m))"

text \<open>\<open>Connection._rpc\<close>\<close>

definition conn_rpc :: "int \<Rightarrow> meth \<Rightarrow> handler option \<Rightarrow> string list \<Rightarrow> ('z, unit) op" where
  "conn_rpc number m callback_value acceptable_replies =
     andThen (case callback_value of
        None \<Rightarrow> ret ()
      | Some h \<Rightarrow> sequence (map (\<lambda>r. add_callback number r h True None None) acceptable_replies)) (\<lambda>_.
     conn_send_method number m None)"

end
