(* ===== verification/Channel.thy ===== *)
theory Channel
  imports Endpoint
begin

text \<open>
  The operations of \<open>Channel\<close> of \<open>pika/channel.py\<close> that the application calls. They send or queue
  and register callbacks; none of them calls an application callback. The first argument of an
  operation is the channel object. The callbacks a frame is answered with are in \<open>Channel_Handlers\<close>.
\<close>

section \<open>Construction and state\<close>

definition new_channel :: "int \<Rightarrow> nat option \<Rightarrow> channel" where
  "new_channel number on_open_callback = \<lparr>channel_number = number, chan_state = CLOSED, flow_active = PBool True,
     content_assembler = new_assembler, blocked = [], blocking = None, has_on_flow_callback = False,
     cancelled = [], consumers = [], consumers_with_noack = [], on_flowok_callback = None,
     on_getok_callback = None, on_openok_callback = on_open_callback, closing_reason = None\<rparr>"

definition set_state :: "nat \<Rightarrow> chan_state \<Rightarrow> ('z, unit) op" where
  "set_state c st = set_chan c (\<lambda>ch. ch\<lparr>chan_state := st\<rparr>)"

definition raise_if_not_open :: "nat \<Rightarrow> ('z, unit) op" where
  "raise_if_not_open c = andThen (chan c chan_state) (\<lambda>st. if st = OPEN then ret () else raise ChannelWrongStateError)"

definition chan_add :: "nat \<Rightarrow> string \<Rightarrow> handler \<Rightarrow> bool \<Rightarrow> nat option \<Rightarrow> attrs option \<Rightarrow> ('z, unit) op" where
  "chan_add c key h once caller args =
     andThen (chan c channel_number) (\<lambda>n. add_callback n key h once caller args)"

text \<open>\<open>_send_method\<close>\<close>

definition chan_send :: "nat \<Rightarrow> meth \<Rightarrow> (basic_properties \<times> bytes) option \<Rightarrow> ('z, unit) op" where
  "chan_send c m content = andThen (chan c channel_number) (\<lambda>n. conn_send_method n m content)"

section \<open>Requests\<close>

text \<open>
  \<open>_rpc\<close>. A request with replies blocks the channel until one of them arrives; meanwhile further
  requests are queued. The object itself is the only caller its callbacks of frames do not check.
\<close>

definition register_reply :: "nat \<Rightarrow> handler option \<Rightarrow> reply \<Rightarrow> ('z, unit) op" where
  "register_reply c callback_value r =
     andThen (chan_add c (fst r) (Of_channel c On_synchronous_complete) True None (snd r)) (\<lambda>_.
     case callback_value of
       None \<Rightarrow> ret ()
     | Some h \<Rightarrow> chan_add c (fst r) h True None (snd r))"

definition transmit :: "nat \<Rightarrow> request \<Rightarrow> ('z, unit) op" where
  "transmit c rq = (case rq of (m, callback_value, replies) \<Rightarrow>
     andThen (chan_send c m None) (\<lambda>_.
     if replies = [] then ret ()
     else andThen (set_chan c (\<lambda>ch. ch\<lparr>blocking := Some (method_NAME m)\<rparr>)) (\<lambda>_.
          sequence (map (register_reply c callback_value) replies))))"

definition rpc :: "nat \<Rightarrow> request \<Rightarrow> ('z, unit) op" where
  "rpc c rq = (case rq of (m, callback_value, replies) \<Rightarrow>
     andThen (assert (method_synchronous m)) (\<lambda>_.
     if callback_value \<noteq> None \<and> replies = [] then raise (Python_Error ValueError)
     else andThen (chan c chan_state) (\<lambda>st.
     if st = CLOSED then raise_if_not_open c
     else andThen (chan c blocking) (\<lambda>b.
     if b \<noteq> None then set_chan c (\<lambda>ch. ch\<lparr>blocked := blocked ch @ [rq]\<rparr>)
     else transmit c rq))))"

section \<open>Registering callbacks\<close>

definition add_callback_for :: "nat \<Rightarrow> nat \<Rightarrow> reply list \<Rightarrow> bool \<Rightarrow> ('z, unit) op" where
  "add_callback_for c cb replies once =
     sequence (map (\<lambda>r. chan_add c (fst r) (Application cb) once None None) replies)"

definition add_on_cancel_callback :: "nat \<Rightarrow> nat \<Rightarrow> ('z, unit) op" where
  "add_on_cancel_callback c cb = chan_add c ''Basic.Cancel'' (Application cb) False None None"

definition add_on_close_callback :: "nat \<Rightarrow> nat \<Rightarrow> ('z, unit) op" where
  "add_on_close_callback c cb = chan_add c ''_on_channel_close'' (Application cb) False (Some (Suc c)) None"

definition add_on_flow_callback :: "nat \<Rightarrow> nat \<Rightarrow> ('z, unit) op" where
  "add_on_flow_callback c cb =
     andThen (set_chan c (\<lambda>ch. ch\<lparr>has_on_flow_callback := True\<rparr>)) (\<lambda>_.
     chan_add c ''Channel.Flow'' (Application cb) False None None)"

definition add_on_return_callback :: "nat \<Rightarrow> nat \<Rightarrow> ('z, unit) op" where
  "add_on_return_callback c cb = chan_add c ''_on_return'' (Application cb) False None None"

section \<open>Basic\<close>

definition basic_ack :: "nat \<Rightarrow> pyval \<Rightarrow> pyval \<Rightarrow> ('z, unit) op" where
  "basic_ack c delivery_tag multiple =
     andThen (raise_if_not_open c) (\<lambda>_. chan_send c (Basic_Class (Basic_Ack delivery_tag multiple)) None)"

definition basic_nack :: "nat \<Rightarrow> pyval \<Rightarrow> pyval \<Rightarrow> pyval \<Rightarrow> ('z, unit) op" where
  "basic_nack c delivery_tag multiple requeue =
     andThen (raise_if_not_open c) (\<lambda>_. chan_send c (Basic_Class (Basic_Nack delivery_tag multiple requeue)) None)"

fun is_integer :: "pyval \<Rightarrow> bool" where
  "is_integer (PInt i) = True"
| "is_integer (PLong i) = True"
| "is_integer (PBool b) = True"
| "is_integer _ = False"

definition basic_reject :: "nat \<Rightarrow> pyval \<Rightarrow> pyval \<Rightarrow> ('z, unit) op" where
  "basic_reject c delivery_tag requeue =
     andThen (raise_if_not_open c) (\<lambda>_.
     if \<not> is_integer delivery_tag then raise (Python_Error TypeError)
     else chan_send c (Basic_Class (Basic_Reject delivery_tag requeue)) None)"

definition string_arg :: "pyval \<Rightarrow> ('z, unit) op" where
  "string_arg v = (case v of PStr _ \<Rightarrow> ret () | _ \<Rightarrow> raise (Python_Error TypeError))"

definition basic_cancel :: "nat \<Rightarrow> pyval \<Rightarrow> nat option \<Rightarrow> ('z, unit) op" where
  "basic_cancel c consumer_tag cb =
     andThen (string_arg consumer_tag) (\<lambda>_.
     andThen (raise_if_not_open c) (\<lambda>_.
     andThen (chan c cancelled) (\<lambda>tags.
     andThen (chan c consumers) (\<lambda>cons.
     if consumer_tag \<in> set tags then ret ()
     else if consumer_tag \<notin> fst ` set cons then ret ()
     else andThen (case cb of
            None \<Rightarrow> set_chan c (\<lambda>ch. ch\<lparr>consumers := dict_del consumer_tag (consumers ch)\<rparr>)
          | Some f \<Rightarrow> chan_add c ''Basic.CancelOk'' (Application f) True None None) (\<lambda>_.
     andThen (set_chan c (\<lambda>ch. ch\<lparr>cancelled := List.insert consumer_tag (cancelled ch)\<rparr>)) (\<lambda>_.
     rpc c (Basic_Class (Basic_Cancel consumer_tag (PBool (cb = None))),
            if cb = None then None else Some (Of_channel c On_cancelok),
            if cb = None then [] else [(''Basic.CancelOk'', Some [(''consumer_tag'', consumer_tag)])])))))))"

text \<open>\<open>arguments or dict()\<close>; an absent or empty consumer tag is replaced by \<open>generated\<close>, made of a random UUID.\<close>

definition or_dict :: "pyval \<Rightarrow> pyval" where
  "or_dict v = (if truthy v then v else PDict [])"

definition basic_consume :: "nat \<Rightarrow> pyval \<Rightarrow> nat \<Rightarrow> pyval \<Rightarrow> pyval \<Rightarrow> pyval \<Rightarrow> pyval \<Rightarrow> nat option \<Rightarrow> pyval \<Rightarrow> ('z, pyval) op" where
  "basic_consume c queue on_message_callback auto_ack exclusive consumer_tag arguments_value cb generated =
     andThen (string_arg queue) (\<lambda>_.
     andThen (raise_if_not_open c) (\<lambda>_.
     let consumer_tag = (if truthy consumer_tag then consumer_tag else generated) in
     andThen (chan c consumers) (\<lambda>cons.
     andThen (chan c cancelled) (\<lambda>tags.
     if consumer_tag \<in> fst ` set cons \<or> consumer_tag \<in> set tags then raise (DuplicateConsumerTag consumer_tag)
     else andThen (if truthy auto_ack
            then set_chan c (\<lambda>ch. ch\<lparr>consumers_with_noack := List.insert consumer_tag (consumers_with_noack ch)\<rparr>)
            else ret ()) (\<lambda>_.
     andThen (set_chan c (\<lambda>ch. ch\<lparr>consumers := dict_set consumer_tag on_message_callback (consumers ch)\<rparr>)) (\<lambda>_.
     andThen (rpc c (Basic_Class (Basic_Consume (PInt 0) queue consumer_tag (PBool False) auto_ack exclusive
              (PBool False) (or_dict arguments_value)),
            Some (case cb of None \<Rightarrow> Of_channel c On_eventok | Some f \<Rightarrow> Application f),
            [(''Basic.ConsumeOk'', Some [(''consumer_tag'', consumer_tag)])])) (\<lambda>_.
     ret consumer_tag)))))))"

definition basic_get :: "nat \<Rightarrow> pyval \<Rightarrow> nat \<Rightarrow> pyval \<Rightarrow> ('z, unit) op" where
  "basic_get c queue cb auto_ack =
     andThen (string_arg queue) (\<lambda>_.
     andThen (chan c on_getok_callback) (\<lambda>waiting.
     if waiting \<noteq> None then raise DuplicateGetOkCallback
     else andThen (set_chan c (\<lambda>ch. ch\<lparr>on_getok_callback := Some cb\<rparr>)) (\<lambda>_.
     chan_send c (Basic_Class (Basic_Get (PInt 0) queue auto_ack)) None)))"

text \<open>A body of text is encoded; one that is no text is taken as the bytes it is.\<close>

definition body_bytes :: "pyval \<Rightarrow> ('z, bytes) op" where
  "body_bytes body = (case body of
     PStr s \<Rightarrow> unless_error (utf8_encode s) | PBytes b \<Rightarrow> ret b | _ \<Rightarrow> raise (Python_Error TypeError))"

definition basic_publish :: "nat \<Rightarrow> pyval \<Rightarrow> pyval \<Rightarrow> pyval \<Rightarrow> basic_properties option \<Rightarrow> pyval \<Rightarrow> ('z, unit) op" where
  "basic_publish c exch routing_key body props mandatory =
     andThen (raise_if_not_open c) (\<lambda>_.
     andThen (body_bytes body) (\<lambda>b.
     chan_send c (Basic_Class (Basic_Publish (PInt 0) exch routing_key mandatory (PBool False)))
       (Some (case props of None \<Rightarrow> new_properties | Some p \<Rightarrow> p, b))))"

text \<open>\<open>int(value) < 0\<close> of \<open>validators.zero_or_greater\<close>\<close>

definition zero_or_greater :: "pyval \<Rightarrow> ('z, unit) op" where
  "zero_or_greater v = andThen (unless_error (int_conversion (Value v))) (\<lambda>i.
     if i < 0 then raise (Python_Error ValueError) else ret ())"

text \<open>\<open>_rpc\<close> with one reply class and an optional callback of the application\<close>

definition request :: "nat \<Rightarrow> meth \<Rightarrow> nat option \<Rightarrow> reply list \<Rightarrow> ('z, unit) op" where
  "request c m cb replies = rpc c (m, map_option Application cb, replies)"

definition basic_qos :: "nat \<Rightarrow> pyval \<Rightarrow> pyval \<Rightarrow> pyval \<Rightarrow> nat option \<Rightarrow> ('z, unit) op" where
  "basic_qos c prefetch_size prefetch_count global_qos cb =
     andThen (raise_if_not_open c) (\<lambda>_.
     andThen (zero_or_greater prefetch_size) (\<lambda>_.
     andThen (zero_or_greater prefetch_count) (\<lambda>_.
     request c (Basic_Class (Basic_Qos prefetch_size prefetch_count global_qos)) cb [(''Basic.QosOk'', None)])))"

definition basic_recover :: "nat \<Rightarrow> pyval \<Rightarrow> nat option \<Rightarrow> ('z, unit) op" where
  "basic_recover c requeue cb =
     andThen (raise_if_not_open c) (\<lambda>_.
     request c (Basic_Class (Basic_Recover requeue)) cb [(''Basic.RecoverOk'', None)])"

section \<open>Confirm, exchanges, queues, transactions, flow\<close>

text \<open>\<open>self.server_capabilities.get(name, False)\<close>\<close>

definition capability :: "string \<Rightarrow> ('z, pyval) op" where
  "capability name =
     andThen (get server_capabilities) (\<lambda>caps.
     case caps of
       PDict d \<Rightarrow> ret (case map_of d (PStr (pystr name)) of None \<Rightarrow> PBool False | Some v \<Rightarrow> v)
     | _ \<Rightarrow> raise (Python_Error AttributeError))"

text \<open>\<open>publisher_confirms and basic_nack\<close>: the second is looked up only if the first holds.\<close>

definition confirm_delivery :: "nat \<Rightarrow> nat \<Rightarrow> nat option \<Rightarrow> ('z, unit) op" where
  "confirm_delivery c ack_nack_callback cb =
     andThen (raise_if_not_open c) (\<lambda>_.
     andThen (capability ''publisher_confirms'') (\<lambda>confirms.
     andThen (if truthy confirms then capability ''basic.nack'' else ret confirms) (\<lambda>able.
     if \<not> truthy able then raise MethodNotImplemented
     else andThen (chan_add c ''Basic.Ack'' (Application ack_nack_callback) False None None) (\<lambda>_.
     andThen (chan_add c ''Basic.Nack'' (Application ack_nack_callback) False None None) (\<lambda>_.
     request c (Confirm_Class (Confirm_Select (PBool (cb = None)))) cb
       (if cb = None then [] else [(''Confirm.SelectOk'', None)]))))))"

definition nowait_reply :: "nat option \<Rightarrow> string \<Rightarrow> reply list" where
  "nowait_reply cb name = (if cb = None then [] else [(name, None)])"

definition exchange_bind :: "nat \<Rightarrow> pyval \<Rightarrow> pyval \<Rightarrow> pyval \<Rightarrow> pyval \<Rightarrow> nat option \<Rightarrow> ('z, unit) op" where
  "exchange_bind c destination source routing_key arguments_value cb =
     andThen (raise_if_not_open c) (\<lambda>_.
     andThen (string_arg destination) (\<lambda>_.
     andThen (string_arg source) (\<lambda>_.
     request c (Exchange_Class (Exchange_Bind (PInt 0) destination source routing_key (PBool (cb = None))
       (or_dict arguments_value))) cb (nowait_reply cb ''Exchange.BindOk''))))"

definition exchange_declare :: "nat \<Rightarrow> pyval \<Rightarrow> exchange_type + pyval \<Rightarrow> pyval \<Rightarrow> pyval \<Rightarrow> pyval \<Rightarrow> pyval \<Rightarrow> pyval \<Rightarrow> nat option \<Rightarrow> ('z, unit) op" where
  "exchange_declare c exch ex_type passive durable auto_delete internal arguments_value cb =
     andThen (string_arg exch) (\<lambda>_.
     andThen (raise_if_not_open c) (\<lambda>_.
     request c (Exchange_Class (Exchange_Declare (PInt 0) exch
         (case ex_type of Inl t \<Rightarrow> exchange_type_value t | Inr v \<Rightarrow> v) passive durable auto_delete internal
         (PBool (cb = None)) (or_dict arguments_value))) cb (nowait_reply cb ''Exchange.DeclareOk'')))"

definition exchange_delete :: "nat \<Rightarrow> pyval \<Rightarrow> pyval \<Rightarrow> nat option \<Rightarrow> ('z, unit) op" where
  "exchange_delete c exch if_unused cb =
     andThen (raise_if_not_open c) (\<lambda>_.
     request c (Exchange_Class (Exchange_Delete (PInt 0) exch if_unused (PBool (cb = None)))) cb
       (nowait_reply cb ''Exchange.DeleteOk''))"

definition exchange_unbind :: "nat \<Rightarrow> pyval \<Rightarrow> pyval \<Rightarrow> pyval \<Rightarrow> pyval \<Rightarrow> nat option \<Rightarrow> ('z, unit) op" where
  "exchange_unbind c destination source routing_key arguments_value cb =
     andThen (raise_if_not_open c) (\<lambda>_.
     request c (Exchange_Class (Exchange_Unbind (PInt 0) destination source routing_key (PBool (cb = None))
       arguments_value)) cb (nowait_reply cb ''Exchange.UnbindOk''))"

definition flow :: "nat \<Rightarrow> pyval \<Rightarrow> nat option \<Rightarrow> ('z, unit) op" where
  "flow c active cb =
     andThen (raise_if_not_open c) (\<lambda>_.
     andThen (set_chan c (\<lambda>ch. ch\<lparr>on_flowok_callback := cb\<rparr>)) (\<lambda>_.
     rpc c (Channel_Class (Channel_Flow active), Some (Of_channel c On_flowok), [(''Channel.FlowOk'', None)])))"

definition queue_bind :: "nat \<Rightarrow> pyval \<Rightarrow> pyval \<Rightarrow> pyval \<Rightarrow> pyval \<Rightarrow> nat option \<Rightarrow> ('z, unit) op" where
  "queue_bind c queue exch routing_key arguments_value cb =
     andThen (string_arg queue) (\<lambda>_.
     andThen (string_arg exch) (\<lambda>_.
     andThen (raise_if_not_open c) (\<lambda>_.
     request c (Queue_Class (Queue_Bind (PInt 0) queue exch (if routing_key = PNone then queue else routing_key)
       (PBool (cb = None)) (or_dict arguments_value))) cb (nowait_reply cb ''Queue.BindOk''))))"

text \<open>A declared queue is answered with its name; a name made by the broker is not known here.\<close>

definition queue_declare :: "nat \<Rightarrow> pyval \<Rightarrow> pyval \<Rightarrow> pyval \<Rightarrow> pyval \<Rightarrow> pyval \<Rightarrow> pyval \<Rightarrow> nat option \<Rightarrow> ('z, unit) op" where
  "queue_declare c queue passive durable exclusive auto_delete arguments_value cb =
     andThen (string_arg queue) (\<lambda>_.
     andThen (raise_if_not_open c) (\<lambda>_.
     request c (Queue_Class (Queue_Declare (PInt 0) queue passive durable exclusive auto_delete (PBool (cb = None))
       (or_dict arguments_value))) cb
       (if cb = None then []
        else [(''Queue.DeclareOk'', if truthy queue then Some [(''queue'', queue)] else None)])))"

definition queue_delete :: "nat \<Rightarrow> pyval \<Rightarrow> pyval \<Rightarrow> pyval \<Rightarrow> nat option \<Rightarrow> ('z, unit) op" where
  "queue_delete c queue if_unused if_empty cb =
     andThen (raise_if_not_open c) (\<lambda>_.
     andThen (string_arg queue) (\<lambda>_.
     request c (Queue_Class (Queue_Delete (PInt 0) queue if_unused if_empty (PBool (cb = None)))) cb
       (nowait_reply cb ''Queue.DeleteOk'')))"

definition queue_purge :: "nat \<Rightarrow> pyval \<Rightarrow> nat option \<Rightarrow> ('z, unit) op" where
  "queue_purge c queue cb =
     andThen (raise_if_not_open c) (\<lambda>_.
     andThen (string_arg queue) (\<lambda>_.
     request c (Queue_Class (Queue_Purge (PInt 0) queue (PBool (cb = None)))) cb (nowait_reply cb ''Queue.PurgeOk'')))"

definition queue_unbind :: "nat \<Rightarrow> pyval \<Rightarrow> pyval \<Rightarrow> pyval \<Rightarrow> pyval \<Rightarrow> nat option \<Rightarrow> ('z, unit) op" where
  "queue_unbind c queue exch routing_key arguments_value cb =
     andThen (raise_if_not_open c) (\<lambda>_.
     andThen (string_arg queue) (\<lambda>_.
     request c (Queue_Class (Queue_Unbind (PInt 0) queue exch (if routing_key = PNone then queue else routing_key)
       (or_dict arguments_value))) cb [(''Queue.UnbindOk'', None)]))"

definition tx_commit :: "nat \<Rightarrow> nat option \<Rightarrow> ('z, unit) op" where
  "tx_commit c cb = andThen (raise_if_not_open c) (\<lambda>_. request c (Tx_Class Tx_Commit) cb [(''Tx.CommitOk'', None)])"

definition tx_rollback :: "nat \<Rightarrow> nat option \<Rightarrow> ('z, unit) op" where
  "tx_rollback c cb = andThen (raise_if_not_open c) (\<lambda>_. request c (Tx_Class Tx_Rollback) cb [(''Tx.RollbackOk'', None)])"

definition tx_select :: "nat \<Rightarrow> nat option \<Rightarrow> ('z, unit) op" where
  "tx_select c cb = andThen (raise_if_not_open c) (\<lambda>_. request c (Tx_Class Tx_Select) cb [(''Tx.SelectOk'', None)])"

section \<open>Opening and closing\<close>

text \<open>\<open>_add_callbacks\<close> and \<open>open\<close>\<close>

definition add_callbacks :: "nat \<Rightarrow> ('z, unit) op" where
  "add_callbacks c = sequence
     [chan_add c ''Basic.GetEmpty'' (Of_channel c On_getempty) False None None,
      chan_add c ''Basic.Cancel'' (Of_channel c On_cancel) False None None,
      chan_add c ''Channel.Flow'' (Of_channel c On_flow) False None None,
      chan_add c ''Channel.Close'' (Of_channel c On_close_from_broker) True None None]"

definition open_channel :: "nat \<Rightarrow> ('z, unit) op" where
  "open_channel c =
     andThen (set_state c OPENING) (\<lambda>_.
     andThen (add_callbacks c) (\<lambda>_.
     rpc c (Channel_Class new_Channel_Open, Some (Of_channel c On_openok), [(''Channel.OpenOk'', None)])))"

definition cancel_unless_cancelled :: "nat \<Rightarrow> pyval \<Rightarrow> ('z, unit) op" where
  "cancel_unless_cancelled c consumer_tag =
     andThen (chan c cancelled) (\<lambda>tags.
     if consumer_tag \<in> set tags then ret () else basic_cancel c consumer_tag None)"

definition close_channel :: "nat \<Rightarrow> pyval \<Rightarrow> pyval \<Rightarrow> ('z, unit) op" where
  "close_channel c reply_code reply_text =
     andThen (chan c chan_state) (\<lambda>st.
     if st = CLOSED \<or> st = CLOSING then raise_if_not_open c
     else andThen (set_chan c (\<lambda>ch. ch\<lparr>closing_reason := Some (ChannelClosedByClient reply_code reply_text)\<rparr>)) (\<lambda>_.
     andThen (chan c consumers) (\<lambda>cons.
     andThen (sequence (map (cancel_unless_cancelled c) (map fst cons))) (\<lambda>_.
     andThen (set_state c CLOSING) (\<lambda>_.
     rpc c (Channel_Class (Channel_Close reply_code reply_text (PInt 0) (PInt 0)),
            Some (Of_channel c On_closeok), [(''Channel.CloseOk'', None)]))))))"

end
