(* ===== verification/Connection.thy ===== *)
theory Connection
  imports Channel
begin

text \<open>
  The operations of \<open>Connection\<close> of \<open>pika/connection.py\<close> that call no application callback: the
  constructor, opening channels, closing, the negotiation of the tuning values. What a frame and
  the end of the stream are answered with is in \<open>Handlers\<close>.
\<close>

section \<open>Construction\<close>

definition add_connection_start_callback :: "('z, unit) op" where
  "add_connection_start_callback = add_callback 0 ''Connection.Start'' On_connection_start True None None"

definition add_connection_tune_callback :: "('z, unit) op" where
  "add_connection_tune_callback = add_callback 0 ''Connection.Tune'' On_connection_tune True None None"

definition fresh_partial :: "('z, nat) op" where
  "fresh_partial = andThen (get partials) (\<lambda>k. andThen (change (\<lambda>w. w\<lparr>partials := Suc k\<rparr>)) (\<lambda>_. ret k))"

definition add_blocked_callback :: "(nat \<Rightarrow> handler) \<Rightarrow> ('z, unit) op" where
  "add_blocked_callback h = andThen fresh_partial (\<lambda>k. add_callback 0 ''Connection.Blocked'' (h k) False None None)"

definition add_unblocked_callback :: "(nat \<Rightarrow> handler) \<Rightarrow> ('z, unit) op" where
  "add_unblocked_callback h = andThen fresh_partial (\<lambda>k. add_callback 0 ''Connection.Unblocked'' (h k) False None None)"

text \<open>\<open>_init_connection_state\<close>\<close>

definition wipe :: "'z endpoint_scheme \<Rightarrow> 'z endpoint_scheme" where
  "wipe w = w\<lparr>connection_state := CONNECTION_CLOSED, server_properties := PNone, frame_buffer := [], channels := [],
     bytes_sent := 0, received_bytes := 0, frames_sent := 0, frames_received := 0, heartbeat_checker := None,
     conn_error := None\<rparr>"

definition drop_blocked_timer :: "('z, unit) op" where
  "drop_blocked_timer =
     andThen (get blocked_conn_timer) (\<lambda>armed.
     case armed of
       None \<Rightarrow> ret ()
     | Some i \<Rightarrow> andThen (adapter_remove_timeout i) (\<lambda>_. change (\<lambda>w. w\<lparr>blocked_conn_timer := None\<rparr>)))"

definition init_connection_state :: "('z, unit) op" where
  "init_connection_state =
     andThen (change wipe) (\<lambda>_.
     andThen add_connection_start_callback (\<lambda>_.
     andThen (add_callback 0 ''Connection.Close'' On_connection_close_from_broker True None None) (\<lambda>_.
     andThen (get params) (\<lambda>p.
     if blocked_connection_timeout p = None then ret ()
     else andThen drop_blocked_timer (\<lambda>_.
          andThen (add_blocked_callback Partial_on_connection_blocked) (\<lambda>_.
          add_unblocked_callback Partial_on_connection_unblocked))))))"

definition add_conn_callback :: "string \<Rightarrow> handler \<Rightarrow> ('z, unit) op" where
  "add_conn_callback key h = add_callback 0 key h False None None"

definition conn_add_on_open_callback :: "nat \<Rightarrow> ('z, unit) op" where
  "conn_add_on_open_callback cb = add_conn_callback ''_on_connection_open_ok'' (Application cb)"

definition conn_add_on_close_callback :: "nat \<Rightarrow> ('z, unit) op" where
  "conn_add_on_close_callback cb = add_conn_callback ''_on_connection_closed'' (Application cb)"

definition conn_add_on_open_error_callback :: "nat \<Rightarrow> bool \<Rightarrow> ('z, unit) op" where
  "conn_add_on_open_error_callback cb remove_default =
     andThen (if remove_default
        then change (\<lambda>w. w\<lparr>callback_stack :=
            snd (remove_cb (py_str 0) ''_on_connection_error'' (Some Default_on_connection_error) None (callback_stack w))\<rparr>)
        else ret ()) (\<lambda>_.
     add_conn_callback ''_on_connection_error'' (Application cb))"

definition conn_add_on_blocked_callback :: "nat \<Rightarrow> ('z, unit) op" where
  "conn_add_on_blocked_callback cb = add_blocked_callback (\<lambda>k. Partial_application k cb)"

definition conn_add_on_unblocked_callback :: "nat \<Rightarrow> ('z, unit) op" where
  "conn_add_on_unblocked_callback cb = add_unblocked_callback (\<lambda>k. Partial_application k cb)"

text \<open>\<open>__init__\<close>, on the attributes it sets before; the adapter connects the stream on its own.\<close>

definition blank_connection :: "nat list \<Rightarrow> parameters \<Rightarrow> unit conn" where
  "blank_connection version p = (\<lparr>bytes_sent = 0, frames_sent = 0, emitted = [], connection_state = CONNECTION_CLOSED,
     conn_error = None, heartbeat_checker = None, blocked_conn_timer = None, received_bytes = 0, disconnects = 0,
     clock = 0, params = p, callback_stack = new_stack, partials = 0, channels = [], objects = [], opened = False,
     body_max_length = None, frame_buffer = [], frames_received = 0, server_properties = PNone,
     server_capabilities = PNone, known_hosts = PNone, python_version = version, user_log = []\<rparr>, new_timer)"

definition connection_init :: "nat option \<Rightarrow> nat option \<Rightarrow> nat option \<Rightarrow> ('z, unit) op" where
  "connection_init on_open on_open_error on_close =
     sequence
       [init_connection_state,
        add_conn_callback ''_on_connection_error''
          (case on_open_error of None \<Rightarrow> Default_on_connection_error | Some cb \<Rightarrow> Application cb),
        case on_open of None \<Rightarrow> ret () | Some cb \<Rightarrow> conn_add_on_open_callback cb,
        case on_close of None \<Rightarrow> ret () | Some cb \<Rightarrow> conn_add_on_close_callback cb,
        set_connection_state CONNECTION_INIT]"

definition new_connection :: "nat list \<Rightarrow> parameters \<Rightarrow> nat option \<Rightarrow> nat option \<Rightarrow> nat option \<Rightarrow> unit conn" where
  "new_connection version p on_open on_open_error on_close =
     snd (connection_init on_open on_open_error on_close (blank_connection version p))"

section \<open>Channels\<close>

text \<open>\<open>channel_max\<close> is never zero, so \<open>or pika.channel.MAX_CHANNELS\<close> is not reached.\<close>

definition channel_limit :: "parameters \<Rightarrow> int" where
  "channel_limit p = (if channel_max p = 0 then MAX_CHANNELS else channel_max p)"

definition next_channel_number :: "int \<Rightarrow> (int \<times> nat) list \<Rightarrow> exn + int" where
  "next_channel_number limit chans =
     (if int (length chans) \<ge> limit then Inl NoFreeChannels
      else Inr (case find (\<lambda>num. map_of chans num = None) [1..int (length chans)] of
            Some num \<Rightarrow> num
          | None \<Rightarrow> int (length chans) + 1))"

definition register_channel :: "int \<Rightarrow> nat option \<Rightarrow> ('z, nat) op" where
  "register_channel number on_open =
     andThen (get (\<lambda>w. length (objects w))) (\<lambda>c.
     andThen (change (\<lambda>w. w\<lparr>objects := objects w @ [new_channel number on_open],
       channels := dict_set number c (channels w)\<rparr>)) (\<lambda>_. ret c))"

definition conn_channel :: "int option \<Rightarrow> nat option \<Rightarrow> ('z, nat) op" where
  "conn_channel number on_open =
     andThen (get connection_state) (\<lambda>st.
     if st \<noteq> CONNECTION_OPEN then raise ConnectionWrongStateError
     else andThen (get channels) (\<lambda>chans.
     andThen (get params) (\<lambda>p.
     andThen (case number of
         Some n \<Rightarrow> if n \<noteq> 0 then ret n
                   else (case next_channel_number (channel_limit p) chans of Inl e \<Rightarrow> raise e | Inr n \<Rightarrow> ret n)
       | None \<Rightarrow> (case next_channel_number (channel_limit p) chans of Inl e \<Rightarrow> raise e | Inr n \<Rightarrow> ret n)) (\<lambda>n.
     andThen (register_channel n on_open) (\<lambda>c.
     andThen (chan_add c ''_on_channel_cleanup'' On_channel_cleanup True (Some (Suc c)) None) (\<lambda>_.
     andThen (open_channel c) (\<lambda>_. ret c)))))))"

definition update_secret :: "pyval \<Rightarrow> pyval \<Rightarrow> nat option \<Rightarrow> ('z, unit) op" where
  "update_secret new_secret reason cb =
     andThen (get connection_state) (\<lambda>st.
     if st \<noteq> CONNECTION_OPEN then raise ConnectionWrongStateError
     else conn_rpc 0 (Connection_Class (Connection_UpdateSecret new_secret reason)) (map_option Application cb)
            [''Connection.UpdateSecretOk''])"

section \<open>Closing\<close>

definition send_connection_close :: "pyval \<Rightarrow> pyval \<Rightarrow> ('z, unit) op" where
  "send_connection_close reply_code reply_text =
     conn_rpc 0 (Connection_Class (Connection_Close reply_code reply_text (PInt 0) (PInt 0)))
       (Some On_connection_close_ok) [''Connection.CloseOk'']"

text \<open>\<open>self._error.reply_code\<close> and \<open>reply_text\<close>, which only the exceptions for closing have\<close>

fun closing_reply :: "exn option \<Rightarrow> (pyval \<times> pyval) option" where
  "closing_reply (Some (ConnectionClosedByClient code txt)) = Some (code, txt)"
| "closing_reply (Some (ConnectionClosedByBroker code txt)) = Some (code, txt)"
| "closing_reply (Some (ChannelClosedByClient code txt)) = Some (code, txt)"
| "closing_reply (Some (ChannelClosedByBroker code txt)) = Some (code, txt)"
| "closing_reply _ = None"

definition on_close_ready :: "('z, unit) op" where
  "on_close_ready =
     andThen (get connection_state) (\<lambda>st.
     if st = CONNECTION_CLOSED then ret ()
     else andThen (get conn_error) (\<lambda>e.
     case closing_reply e of
       None \<Rightarrow> raise (Python_Error AttributeError)
     | Some (code, txt) \<Rightarrow> send_connection_close code txt))"

definition close_one :: "pyval \<Rightarrow> pyval \<Rightarrow> int \<Rightarrow> ('z, unit) op" where
  "close_one reply_code reply_text number =
     andThen (get (\<lambda>w. map_of (channels w) number)) (\<lambda>found.
     case found of
       None \<Rightarrow> raise (Python_Error KeyError)
     | Some c \<Rightarrow> andThen (chan c chan_state) (\<lambda>st.
         if st = CLOSING \<or> st = CLOSED then ret () else close_channel c reply_code reply_text))"

definition close_channels :: "pyval \<Rightarrow> pyval \<Rightarrow> ('z, unit) op" where
  "close_channels reply_code reply_text =
     andThen (get connection_state) (\<lambda>st.
     andThen (assert (st = CONNECTION_OPEN)) (\<lambda>_.
     andThen (get channels) (\<lambda>chans.
     sequence (map (close_one reply_code reply_text) (map fst chans)))))"

definition conn_close :: "pyval \<Rightarrow> pyval \<Rightarrow> ('z, unit) op" where
  "conn_close reply_code reply_text =
     andThen (get connection_state) (\<lambda>st.
     if st = CONNECTION_CLOSING \<or> st = CONNECTION_CLOSED then raise ConnectionWrongStateError
     else andThen (get channels) (\<lambda>chans.
     andThen (if chans = [] then ret () else close_channels reply_code reply_text) (\<lambda>_.
     andThen (set_connection_state CONNECTION_CLOSING) (\<lambda>_.
     andThen (get opened) (\<lambda>was_open.
     if \<not> was_open then terminate_stream (Some ConnectionOpenAborted)
     else andThen (change (\<lambda>w. w\<lparr>conn_error := Some (ConnectionClosedByClient reply_code reply_text)\<rparr>)) (\<lambda>_.
     andThen (get channels) (\<lambda>chans.
     if chans = [] then on_close_ready else ret ())))))))"

text \<open>\<open>_on_channel_cleanup\<close>\<close>

definition on_channel_cleanup :: "nat \<Rightarrow> ('z, unit) op" where
  "on_channel_cleanup c =
     andThen (chan c channel_number) (\<lambda>number.
     andThen (change (\<lambda>w. w\<lparr>channels := dict_del number (channels w)\<rparr>)) (\<lambda>_.
     andThen (get connection_state) (\<lambda>st.
     andThen (get channels) (\<lambda>chans.
     if st = CONNECTION_CLOSING \<and> chans = [] then on_close_ready else ret ()))))"

definition on_stream_connected :: "('z, unit) op" where
  "on_stream_connected =
     andThen (set_connection_state CONNECTION_PROTOCOL) (\<lambda>_.
     send_frame (new_ProtocolHeader None None None))"

section \<open>Negotiation\<close>

definition negotiate_integer_value :: "int option \<Rightarrow> int option \<Rightarrow> int" where
  "negotiate_integer_value client_value server_value =
     (let client = (case client_value of None \<Rightarrow> 0 | Some v \<Rightarrow> v);
          server = (case server_value of None \<Rightarrow> 0 | Some v \<Rightarrow> v)
      in if client = 0 \<or> server = 0 then max client server else min client server)"

definition tune_heartbeat_timeout :: "arg option \<Rightarrow> arg \<Rightarrow> arg" where
  "tune_heartbeat_timeout client_value server_value =
     (case client_value of None \<Rightarrow> server_value | Some v \<Rightarrow> v)"

text \<open>\<open>_client_properties\<close>\<close>

definition text_key :: "string \<Rightarrow> pyval" where
  "text_key s = PStr (pystr s)"

definition own_properties :: "nat list \<Rightarrow> (pyval \<times> pyval) list" where
  "own_properties version =
     [(text_key ''product'', text_key ''Pika Python Client Library''),
      (text_key ''platform'', PStr (pystr ''Python '' @ version)),
      (text_key ''capabilities'', PDict
         [(text_key ''authentication_failure_close'', PBool True),
          (text_key ''basic.nack'', PBool True),
          (text_key ''connection.blocked'', PBool True),
          (text_key ''consumer_cancel_notify'', PBool True),
          (text_key ''publisher_confirms'', PBool True)]),
      (text_key ''information'', text_key ''See http://pika.rtfd.org''),
      (text_key ''version'', text_key ''1.3.2'')]"

definition client_properties_of :: "nat list \<Rightarrow> parameters \<Rightarrow> pyval" where
  "client_properties_of version p =
     PDict (fold (\<lambda>(k, v). dict_set k v)
       (case client_properties p of None \<Rightarrow> [] | Some d \<Rightarrow> d) (own_properties version))"

definition send_connection_start_ok :: "string \<Rightarrow> bytes \<Rightarrow> ('z, unit) op" where
  "send_connection_start_ok authentication_type response =
     andThen (get python_version) (\<lambda>version.
     andThen (get params) (\<lambda>p.
     conn_send_method 0 (Connection_Class (Connection_StartOk (client_properties_of version p)
       (text_key authentication_type) (PBytes response) (PStr (locale_name p)))) None))"

definition heartbeat_value :: "heartbeat_setting option \<Rightarrow> pyval" where
  "heartbeat_value h = (case h of None \<Rightarrow> PNone | Some (Seconds i) \<Rightarrow> PInt i | Some (Heartbeat_callback f) \<Rightarrow> POther f)"

definition send_connection_tune_ok :: "('z, unit) op" where
  "send_connection_tune_ok =
     andThen (get params) (\<lambda>p.
     conn_send_method 0 (Connection_Class (Connection_TuneOk (PInt (channel_max p)) (PInt (frame_max p))
       (heartbeat_value (heartbeat p)))) None)"

definition send_connection_open :: "('z, unit) op" where
  "send_connection_open =
     andThen (get params) (\<lambda>p.
     conn_rpc 0 (Connection_Class (Connection_Open (PStr (virtual_host p)) (PStr []) (PBool True)))
       (Some On_connection_open_ok) [''Connection.OpenOk''])"

end
