(* ===== verification/Handlers.thy ===== *)
theory Handlers
  imports Connection
begin

text \<open>
  What the endpoint does with frames and with the end of the stream: the callbacks of
  \<open>Channel\<close> and \<open>Connection\<close>, the dispatch over \<open>CallbackManager.process\<close>, reading the input.
  The callbacks of the application are a parameter, the record \<open>application\<close>.
\<close>

section \<open>The application\<close>

record 'z application =
  react :: "nat \<Rightarrow> notice \<Rightarrow> ('z, unit) op"
  choose_heartbeat :: "nat \<Rightarrow> pyval \<Rightarrow> ('z, arg) op"

definition call_app :: "'z application \<Rightarrow> nat \<Rightarrow> notice \<Rightarrow> ('z, unit) op" where
  "call_app A cb n = andThen (change (\<lambda>w. w\<lparr>user_log := user_log w @ [(cb, n)]\<rparr>)) (\<lambda>_. react A cb n)"

text \<open>
  \<open>CallbackManager.process\<close>: the registrations are settled first, then the callbacks are called
  in order; an exception of one leaves out the others.
\<close>

definition dispatch :: "int \<Rightarrow> string \<Rightarrow> nat \<Rightarrow> cb_arg option \<Rightarrow> (handler \<Rightarrow> ('z, unit) op) \<Rightarrow> ('z, bool) op" where
  "dispatch n key caller arg run_handler s =
     (let (found, hs, st) = process_event (py_str n) key caller arg (callback_stack (fst s))
      in andThen (change (\<lambda>w. w\<lparr>callback_stack := st\<rparr>)) (\<lambda>_.
         andThen (sequence (map run_handler hs)) (\<lambda>_. ret found)) s)"

definition chan_dispatch :: "nat \<Rightarrow> string \<Rightarrow> (handler \<Rightarrow> ('z, unit) op) \<Rightarrow> ('z, bool) op" where
  "chan_dispatch c key run_handler =
     andThen (chan c channel_number) (\<lambda>n. dispatch n key (Suc c) (Some (Arg_Object [])) run_handler)"

text \<open>
  The keys that are no methods only have callbacks of the application, and the two of the
  connection named here; any other would be called with arguments it does not take.
\<close>

definition call_event :: "'z application \<Rightarrow> notice \<Rightarrow> handler \<Rightarrow> ('z, unit) op" where
  "call_event A n h =
     (case h of
        Application cb \<Rightarrow> call_app A cb n
      | Default_on_connection_error \<Rightarrow> (case n of Connection_Failed e \<Rightarrow> raise e | _ \<Rightarrow> raise (Python_Error TypeError))
      | _ \<Rightarrow> raise (Python_Error TypeError))"

definition call_cleanup :: "'z application \<Rightarrow> nat \<Rightarrow> handler \<Rightarrow> ('z, unit) op" where
  "call_cleanup A c h = (case h of On_channel_cleanup \<Rightarrow> on_channel_cleanup c | _ \<Rightarrow> raise (Python_Error TypeError))"

section \<open>Closing a channel\<close>

definition cleanup_channel :: "'z application \<Rightarrow> nat \<Rightarrow> ('z, unit) op" where
  "cleanup_channel A c =
     andThen (chan_dispatch c ''_on_channel_cleanup'' (call_cleanup A c)) (\<lambda>_.
     andThen (set_chan c (\<lambda>ch. ch\<lparr>consumers := []\<rparr>)) (\<lambda>_.
     andThen (chan c channel_number) (\<lambda>n.
     change (\<lambda>w. w\<lparr>callback_stack := snd (cleanup (py_str n) (callback_stack w))\<rparr>))))"

definition transition_to_closed :: "'z application \<Rightarrow> nat \<Rightarrow> ('z, unit) op" where
  "transition_to_closed A c =
     andThen (chan c chan_state) (\<lambda>st.
     andThen (assert (st \<noteq> CLOSED)) (\<lambda>_.
     andThen (chan c closing_reason) (\<lambda>reason.
     case reason of
       None \<Rightarrow> raise (Python_Error AssertionError)
     | Some e \<Rightarrow>
         andThen (set_state c CLOSED) (\<lambda>_.
         try_finally
           (andThen (chan_dispatch c ''_on_channel_close'' (call_event A (Channel_Closed c e))) (\<lambda>_. ret ()))
           (cleanup_channel A c)))))"

definition on_close_meta :: "'z application \<Rightarrow> nat \<Rightarrow> exn option \<Rightarrow> ('z, unit) op" where
  "on_close_meta A c reason =
     andThen (chan c chan_state) (\<lambda>st.
     if st = CLOSED then ret ()
     else andThen (set_chan c (\<lambda>ch. ch\<lparr>closing_reason := reason\<rparr>)) (\<lambda>_. transition_to_closed A c))"

text \<open>
  \<open>_drain_blocked_methods_on_remote_close\<close>. Every round takes a request off the queue and none
  adds one: a round that calls the application has closed the channel before.
\<close>

fun drain_blocked :: "nat \<Rightarrow> 'z application \<Rightarrow> nat \<Rightarrow> ('z, unit) op" where
  "drain_blocked 0 A c = ret ()"
| "drain_blocked (Suc fuel) A c =
     andThen (chan c blocked) (\<lambda>rqs.
     case rqs of
       [] \<Rightarrow> ret ()
     | rq # rqs \<Rightarrow>
         andThen (set_chan c (\<lambda>ch. ch\<lparr>blocked := rqs\<rparr>)) (\<lambda>_.
         andThen (case rq of
             (Channel_Class (Channel_Close _ _ _ _), _) \<Rightarrow>
               andThen (chan c closing_reason) (\<lambda>reason. on_close_meta A c reason)
           | _ \<Rightarrow> ret ()) (\<lambda>_.
         drain_blocked fuel A c)))"

definition drain_blocked_methods_on_remote_close :: "'z application \<Rightarrow> nat \<Rightarrow> ('z, unit) op" where
  "drain_blocked_methods_on_remote_close A c =
     andThen (chan c (\<lambda>ch. length (blocked ch))) (\<lambda>n. drain_blocked n A c)"

section \<open>Callbacks of a channel\<close>

text \<open>\<open>_on_synchronous_complete\<close>: the queue is sent up to the next request that blocks.\<close>

fun release_blocked :: "nat \<Rightarrow> nat \<Rightarrow> ('z, unit) op" where
  "release_blocked 0 c = ret ()"
| "release_blocked (Suc fuel) c =
     andThen (chan c blocked) (\<lambda>rqs.
     andThen (chan c blocking) (\<lambda>b.
     case rqs of
       [] \<Rightarrow> ret ()
     | rq # rqs \<Rightarrow>
         if b \<noteq> None then ret ()
         else andThen (set_chan c (\<lambda>ch. ch\<lparr>blocked := rqs\<rparr>)) (\<lambda>_.
              andThen (rpc c rq) (\<lambda>_. release_blocked fuel c))))"

definition on_synchronous_complete :: "nat \<Rightarrow> ('z, unit) op" where
  "on_synchronous_complete c =
     andThen (set_chan c (\<lambda>ch. ch\<lparr>blocking := None\<rparr>)) (\<lambda>_.
     andThen (chan c (\<lambda>ch. length (blocked ch))) (\<lambda>n. release_blocked n c))"

definition cleanup_consumer_ref :: "nat \<Rightarrow> pyval \<Rightarrow> ('z, unit) op" where
  "cleanup_consumer_ref c consumer_tag =
     set_chan c (\<lambda>ch. ch\<lparr>consumers_with_noack := removeAll consumer_tag (consumers_with_noack ch),
       consumers := dict_del consumer_tag (consumers ch),
       cancelled := removeAll consumer_tag (cancelled ch)\<rparr>)"

definition on_close_from_broker :: "'z application \<Rightarrow> nat \<Rightarrow> meth \<Rightarrow> ('z, unit) op" where
  "on_close_from_broker A c m =
     andThen (chan c chan_state) (\<lambda>st.
     andThen (assert (st \<noteq> CLOSED)) (\<lambda>_.
     andThen (chan_send c (Channel_Class Channel_CloseOk) None) (\<lambda>_.
     andThen (attr ''reply_code'' m) (\<lambda>code.
     andThen (attr ''reply_text'' m) (\<lambda>txt.
     andThen (set_chan c (\<lambda>ch. ch\<lparr>closing_reason := Some (ChannelClosedByBroker code txt)\<rparr>)) (\<lambda>_.
     andThen (chan c chan_state) (\<lambda>st.
     if st = CLOSING then drain_blocked_methods_on_remote_close A c
     else transition_to_closed A c)))))))"

definition on_openok :: "'z application \<Rightarrow> nat \<Rightarrow> ('z, unit) op" where
  "on_openok A c =
     andThen (chan c chan_state) (\<lambda>st.
     if st = CLOSING then ret ()
     else andThen (set_state c OPEN) (\<lambda>_.
          andThen (chan c on_openok_callback) (\<lambda>cb.
          case cb of None \<Rightarrow> ret () | Some f \<Rightarrow> call_app A f (Channel_Opened c))))"

definition on_flowok :: "'z application \<Rightarrow> nat \<Rightarrow> meth \<Rightarrow> ('z, unit) op" where
  "on_flowok A c m =
     andThen (attr ''active'' m) (\<lambda>active.
     andThen (set_chan c (\<lambda>ch. ch\<lparr>flow_active := active\<rparr>)) (\<lambda>_.
     andThen (chan c on_flowok_callback) (\<lambda>cb.
     case cb of
       None \<Rightarrow> ret ()
     | Some f \<Rightarrow> andThen (call_app A f (Flow_Active active)) (\<lambda>_.
                set_chan c (\<lambda>ch. ch\<lparr>on_flowok_callback := None\<rparr>)))))"

fun chan_callback :: "'z application \<Rightarrow> nat \<Rightarrow> chan_handler \<Rightarrow> meth \<Rightarrow> ('z, unit) op" where
  "chan_callback A c On_getempty m = set_chan c (\<lambda>ch. ch\<lparr>on_getok_callback := None\<rparr>)"
| "chan_callback A c On_cancel m =
     andThen (attr ''consumer_tag'' m) (\<lambda>tag.
     andThen (chan c cancelled) (\<lambda>tags.
     if tag \<in> set tags then ret () else cleanup_consumer_ref c tag))"
| "chan_callback A c On_flow m = ret ()"
| "chan_callback A c On_close_from_broker m = on_close_from_broker A c m"
| "chan_callback A c On_openok m = on_openok A c"
| "chan_callback A c On_closeok m = transition_to_closed A c"
| "chan_callback A c On_cancelok m = andThen (attr ''consumer_tag'' m) (cleanup_consumer_ref c)"
| "chan_callback A c On_eventok m = ret ()"
| "chan_callback A c On_flowok m = on_flowok A c m"
| "chan_callback A c On_synchronous_complete m = on_synchronous_complete c"

section \<open>Content\<close>

definition on_deliver :: "'z application \<Rightarrow> nat \<Rightarrow> meth \<Rightarrow> basic_properties \<Rightarrow> bytes \<Rightarrow> ('z, unit) op" where
  "on_deliver A c m props body =
     andThen (attr ''consumer_tag'' m) (\<lambda>tag.
     andThen (chan c id) (\<lambda>ch.
     if tag \<in> set (cancelled ch)
     then (if chan_state ch = OPEN \<and> tag \<notin> set (consumers_with_noack ch)
           then andThen (attr ''delivery_tag'' m) (\<lambda>delivery_tag. basic_reject c delivery_tag (PBool True))
           else ret ())
     else case map_of (consumers ch) tag of
       None \<Rightarrow> ret ()
     | Some f \<Rightarrow> call_app A f (Message c m props body)))"

definition on_getok :: "'z application \<Rightarrow> nat \<Rightarrow> meth \<Rightarrow> basic_properties \<Rightarrow> bytes \<Rightarrow> ('z, unit) op" where
  "on_getok A c m props body =
     andThen (chan c on_getok_callback) (\<lambda>cb.
     case cb of
       None \<Rightarrow> ret ()
     | Some f \<Rightarrow> andThen (set_chan c (\<lambda>ch. ch\<lparr>on_getok_callback := None\<rparr>)) (\<lambda>_.
                call_app A f (Message c m props body)))"

definition on_return :: "'z application \<Rightarrow> nat \<Rightarrow> meth \<Rightarrow> basic_properties \<Rightarrow> bytes \<Rightarrow> ('z, unit) op" where
  "on_return A c m props body =
     andThen (chan_dispatch c ''_on_return'' (call_event A (Message c m props body))) (\<lambda>_. ret ())"

definition on_content :: "'z application \<Rightarrow> nat \<Rightarrow> content \<Rightarrow> ('z, unit) op" where
  "on_content A c r =
     (case r of
        (Some (Method_Frame _ (Basic_Class (Basic_Deliver t d rd x k))), Some (Header_Frame _ _ props), body) \<Rightarrow>
          on_deliver A c (Basic_Class (Basic_Deliver t d rd x k)) props body
      | (Some (Method_Frame _ (Basic_Class (Basic_GetOk d rd x k n))), Some (Header_Frame _ _ props), body) \<Rightarrow>
          on_getok A c (Basic_Class (Basic_GetOk d rd x k n)) props body
      | (Some (Method_Frame _ (Basic_Class (Basic_Return code txt x k))), Some (Header_Frame _ _ props), body) \<Rightarrow>
          on_return A c (Basic_Class (Basic_Return code txt x k)) props body
      | (Some (Method_Frame _ _), _) \<Rightarrow> ret ()
      | _ \<Rightarrow> raise (Python_Error AttributeError))"

definition handle_content_frame :: "'z application \<Rightarrow> nat \<Rightarrow> frame \<Rightarrow> ('z, unit) op" where
  "handle_content_frame A c f =
     andThen (chan c (\<lambda>ch. process f (content_assembler ch))) (\<lambda>(r, a).
     andThen (set_chan c (\<lambda>ch. ch\<lparr>content_assembler := a\<rparr>)) (\<lambda>_.
     case r of
       Inl (UnexpectedFrameError _) \<Rightarrow> ret ()
     | Inl (BodyTooLongError seen expected) \<Rightarrow> raise (BodyTooLong seen expected)
     | Inl HeaderMissing \<Rightarrow> raise (Python_Error AttributeError)
     | Inr None \<Rightarrow> ret ()
     | Inr (Some content) \<Rightarrow> on_content A c content))"

section \<open>Callbacks of the connection\<close>

definition check_for_protocol_mismatch :: "meth \<Rightarrow> ('z, unit) op" where
  "check_for_protocol_mismatch m =
     andThen (attr ''version_major'' m) (\<lambda>major.
     andThen (attr ''version_minor'' m) (\<lambda>minor.
     case PROTOCOL_VERSION of (major', minor', _) \<Rightarrow>
       if py_eq major (PInt major') \<and> py_eq minor (PInt minor') then ret () else raise ProtocolVersionMismatch))"

text \<open>A dict has no attribute \<open>capabilities\<close>, so the entry is not deleted.\<close>

definition set_server_information :: "meth \<Rightarrow> ('z, unit) op" where
  "set_server_information m =
     andThen (attr ''server_properties'' m) (\<lambda>props.
     andThen (change (\<lambda>w. w\<lparr>server_properties := props\<rparr>)) (\<lambda>_.
     case props of
       PDict d \<Rightarrow> change (\<lambda>w. w\<lparr>server_capabilities :=
           (case map_of d (text_key ''capabilities'') of None \<Rightarrow> PDict [] | Some v \<Rightarrow> v)\<rparr>)
     | _ \<Rightarrow> raise (Python_Error AttributeError)))"

definition get_credentials :: "meth \<Rightarrow> ('z, string \<times> bytes) op" where
  "get_credentials m =
     andThen (attr ''mechanisms'' m) (\<lambda>mechanisms.
     andThen (get (\<lambda>w. creds (params w))) (\<lambda>c.
     andThen (unless_error (response_for mechanisms c)) (\<lambda>response.
     case response of
       None \<Rightarrow> raise AuthenticationError
     | Some r \<Rightarrow> andThen (change (\<lambda>w. w\<lparr>params := (params w)\<lparr>creds := erase_credentials c\<rparr>\<rparr>)) (\<lambda>_. ret r))))"

definition on_connection_start :: "meth \<Rightarrow> ('z, unit) op" where
  "on_connection_start m =
     andThen (set_connection_state CONNECTION_START) (\<lambda>_.
     try_except
       (andThen (check_for_protocol_mismatch m) (\<lambda>_.
        andThen (set_server_information m) (\<lambda>_.
        andThen add_connection_tune_callback (\<lambda>_.
        andThen (get_credentials m) (\<lambda>(auth_type, response).
        send_connection_start_ok auth_type response)))))
       (\<lambda>e. terminate_stream (Some e)))"

definition set_params :: "(parameters \<Rightarrow> py_error + parameters) \<Rightarrow> ('z, unit) op" where
  "set_params f =
     andThen (get params) (\<lambda>p.
     andThen (unless_error (f p)) (\<lambda>p. change (\<lambda>w. w\<lparr>params := p\<rparr>)))"

definition int_field :: "pyval \<Rightarrow> int option" where
  "int_field v = integral (Value v)"

text \<open>A callable heartbeat setting is asked first; its answer is validated and takes precedence.\<close>

definition tune_heartbeat :: "'z application \<Rightarrow> pyval \<Rightarrow> ('z, unit) op" where
  "tune_heartbeat A server_value =
     andThen (get (\<lambda>w. heartbeat (params w))) (\<lambda>h.
     andThen (case h of
         Some (Heartbeat_callback f) \<Rightarrow>
           andThen (choose_heartbeat A f server_value) (\<lambda>answer.
           if answer = Value PNone \<or> (case answer of Callable _ \<Rightarrow> True | _ \<Rightarrow> False) then raise (Python_Error TypeError)
           else set_params (set_heartbeat answer))
       | _ \<Rightarrow> ret ()) (\<lambda>_.
     andThen (get (\<lambda>w. heartbeat (params w))) (\<lambda>h.
     set_params (set_heartbeat (tune_heartbeat_timeout
       (case h of None \<Rightarrow> None | Some (Seconds i) \<Rightarrow> Some (Value (PInt i)) | Some (Heartbeat_callback f) \<Rightarrow> Some (Callable f))
       (Value server_value))))))"

definition heartbeat_seconds :: "heartbeat_setting option \<Rightarrow> int option" where
  "heartbeat_seconds h = (case h of Some (Seconds i) \<Rightarrow> Some i | _ \<Rightarrow> None)"

definition on_connection_tune :: "'z application \<Rightarrow> meth \<Rightarrow> ('z, unit) op" where
  "on_connection_tune A m =
     andThen (set_connection_state CONNECTION_TUNE) (\<lambda>_.
     andThen (attr ''channel_max'' m) (\<lambda>server_channel_max.
     andThen (set_params (\<lambda>p. set_channel_max (Value (PInt (negotiate_integer_value
        (Some (channel_max p)) (int_field server_channel_max)))) p)) (\<lambda>_.
     andThen (attr ''frame_max'' m) (\<lambda>server_frame_max.
     andThen (set_params (\<lambda>p. set_frame_max (Value (PInt (negotiate_integer_value
        (Some (frame_max p)) (int_field server_frame_max)))) p)) (\<lambda>_.
     andThen (attr ''heartbeat'' m) (\<lambda>server_heartbeat.
     andThen (tune_heartbeat A server_heartbeat) (\<lambda>_.
     andThen (change (\<lambda>w. w\<lparr>body_max_length := Some (body_frame_max_length (frame_max (params w)))\<rparr>)) (\<lambda>_.
     andThen (get (\<lambda>w. heartbeat_seconds (heartbeat (params w)))) (\<lambda>h.
     andThen (create_heartbeat_checker h) (\<lambda>_.
     andThen send_connection_tune_ok (\<lambda>_. send_connection_open)))))))))))"

definition on_connection_open_ok :: "'z application \<Rightarrow> meth \<Rightarrow> ('z, unit) op" where
  "on_connection_open_ok A m =
     andThen (change (\<lambda>w. w\<lparr>opened := True\<rparr>)) (\<lambda>_.
     andThen (attr ''known_hosts'' m) (\<lambda>hosts.
     andThen (change (\<lambda>w. w\<lparr>known_hosts := hosts\<rparr>)) (\<lambda>_.
     andThen (set_connection_state CONNECTION_OPEN) (\<lambda>_.
     andThen (dispatch 0 ''_on_connection_open_ok'' 0 (Some (Arg_Object [])) (call_event A Connection_Opened)) (\<lambda>_.
     ret ())))))"

definition on_connection_close_from_broker :: "meth \<Rightarrow> ('z, unit) op" where
  "on_connection_close_from_broker m =
     andThen (attr ''reply_code'' m) (\<lambda>code.
     andThen (attr ''reply_text'' m) (\<lambda>txt. terminate_stream (Some (ConnectionClosedByBroker code txt))))"

text \<open>
  The timeout for a blocked connection in the model's clock, rounded up to whole seconds. For an
  infinite one, which never expires, the model arms no timer, and neither for a NaN.
\<close>

definition blocked_seconds :: "number option \<Rightarrow> int option" where
  "blocked_seconds x = (case x of
     Some (Integral i) \<Rightarrow> Some i | Some (Real_float (Finite q)) \<Rightarrow> Some \<lceil>q\<rceil> | _ \<Rightarrow> None)"

definition on_blocked :: "('z, unit) op" where
  "on_blocked =
     andThen (get (\<lambda>w. blocked_seconds (blocked_connection_timeout (params w)))) (\<lambda>secs.
     case secs of None \<Rightarrow> ret () | Some n \<Rightarrow> on_connection_blocked n)"

definition frame_callback :: "'z application \<Rightarrow> meth \<Rightarrow> handler \<Rightarrow> ('z, unit) op" where
  "frame_callback A m h =
     (case h of
        On_connection_start \<Rightarrow> on_connection_start m
      | On_connection_tune \<Rightarrow> on_connection_tune A m
      | On_connection_open_ok \<Rightarrow> on_connection_open_ok A m
      | On_connection_close_from_broker \<Rightarrow> on_connection_close_from_broker m
      | On_connection_close_ok \<Rightarrow> terminate_stream None
      | Partial_on_connection_blocked _ \<Rightarrow> on_blocked
      | Partial_on_connection_unblocked _ \<Rightarrow> on_connection_unblocked
      | Partial_application _ cb \<Rightarrow> call_app A cb (Frame_Notice m)
      | Application cb \<Rightarrow> call_app A cb (Frame_Notice m)
      | Of_channel c ch \<Rightarrow> chan_callback A c ch m
      | Default_on_connection_error \<Rightarrow> raise (Python_Error TypeError)
      | On_channel_cleanup \<Rightarrow> raise (Python_Error TypeError))"

section \<open>Frames\<close>

text \<open>\<open>_process_callbacks\<close>: an entry of the stack is never empty, so \<open>pending\<close> is true of every entry.\<close>

definition process_callbacks :: "'z application \<Rightarrow> frame \<Rightarrow> ('z, bool) op" where
  "process_callbacks A f =
     (case f of
        Method_Frame n m \<Rightarrow>
          andThen (get (\<lambda>w. pending (py_str n) (method_NAME m) (callback_stack w))) (\<lambda>count.
          if count = None \<or> count = Some 0 then ret False
          else andThen (dispatch n (method_NAME m) 0 (Some (Arg_Frame m)) (frame_callback A m)) (\<lambda>_. ret True))
      | _ \<Rightarrow> ret False)"

definition deliver_frame_to_channel :: "'z application \<Rightarrow> int \<Rightarrow> frame \<Rightarrow> ('z, unit) op" where
  "deliver_frame_to_channel A n f =
     andThen (get (\<lambda>w. map_of (channels w) n)) (\<lambda>found.
     case found of None \<Rightarrow> ret () | Some c \<Rightarrow> handle_content_frame A c f)"

definition heartbeat_received :: "('z, unit) op" where
  "heartbeat_received = change (\<lambda>w. w\<lparr>heartbeat_checker := map_option received (heartbeat_checker w)\<rparr>)"

fun process_frame :: "'z application \<Rightarrow> frame \<Rightarrow> ('z, unit) op" where
  "process_frame A (ProtocolHeader a b d) = ret ()"
| "process_frame A f =
     andThen (change (\<lambda>w. w\<lparr>frames_received := frames_received w + 1\<rparr>)) (\<lambda>_.
     andThen (process_callbacks A f) (\<lambda>handled.
     if handled then ret ()
     else case f of
       Heartbeat_Frame \<Rightarrow> heartbeat_received
     | _ \<Rightarrow> (case channel_number_of f of
          Some n \<Rightarrow> if n > 0 then deliver_frame_to_channel A n f else ret ()
        | None \<Rightarrow> ret ())))"

text \<open>
  \<open>_on_data_available\<close>. Each frame takes at least its header and end octet off the buffer, to
  which no callback adds, so a round per octet is enough.
\<close>

fun read_frames :: "nat \<Rightarrow> 'z application \<Rightarrow> ('z, unit) op" where
  "read_frames 0 A = ret ()"
| "read_frames (Suc fuel) A =
     andThen (get frame_buffer) (\<lambda>buffer.
     if buffer = [] then ret ()
     else andThen (unless_error (decode_frame buffer)) (\<lambda>(consumed, f).
     case f of
       None \<Rightarrow> ret ()
     | Some f \<Rightarrow>
         andThen (change (\<lambda>w. w\<lparr>frame_buffer := drop consumed (frame_buffer w),
           received_bytes := received_bytes w + consumed\<rparr>)) (\<lambda>_.
         andThen (process_frame A f) (\<lambda>_. read_frames fuel A))))"

definition data_available :: "'z application \<Rightarrow> bytes \<Rightarrow> ('z, unit) op" where
  "data_available A data_in =
     andThen (change (\<lambda>w. w\<lparr>frame_buffer := frame_buffer w @ data_in\<rparr>)) (\<lambda>_.
     andThen (get (\<lambda>w. length (frame_buffer w))) (\<lambda>n. read_frames n A))"

section \<open>The end of the stream\<close>

definition opening_error :: "conn_state \<Rightarrow> exn \<Rightarrow> exn" where
  "opening_error st e =
     (if isinstance e C_StreamLostError \<or> isinstance e C_ConnectionClosedByBroker then
        (case st of
           CONNECTION_PROTOCOL \<Rightarrow> IncompatibleProtocolError e
         | CONNECTION_START \<Rightarrow> ProbableAuthenticationError e
         | CONNECTION_TUNE \<Rightarrow> ProbableAccessDeniedError e
         | _ \<Rightarrow> e)
      else e)"

definition remove_callbacks :: "string list \<Rightarrow> ('z, unit) op" where
  "remove_callbacks names =
     sequence (map (\<lambda>name. change (\<lambda>w. w\<lparr>callback_stack :=
       snd (remove_cb (py_str 0) name None None (callback_stack w))\<rparr>)) names)"

definition close_meta_one :: "'z application \<Rightarrow> int \<Rightarrow> ('z, unit) op" where
  "close_meta_one A number =
     andThen (get (\<lambda>w. map_of (channels w) number)) (\<lambda>found.
     case found of
       None \<Rightarrow> ret ()
     | Some c \<Rightarrow> andThen (get conn_error) (\<lambda>e. on_close_meta A c e))"

definition on_stream_terminated :: "'z application \<Rightarrow> exn option \<Rightarrow> ('z, unit) op" where
  "on_stream_terminated A error =
     andThen (case error of
        Some e \<Rightarrow> change (\<lambda>w. w\<lparr>conn_error := Some e\<rparr>)
      | None \<Rightarrow> andThen (get conn_error) (\<lambda>pending_error. assert (pending_error \<noteq> None))) (\<lambda>_.
     andThen remove_heartbeat (\<lambda>_.
     andThen (remove_callbacks [''Connection.Close'', ''Connection.Start'']) (\<lambda>_.
     andThen (get (\<lambda>w. blocked_connection_timeout (params w))) (\<lambda>blocked_timeout.
     andThen (if blocked_timeout = None then ret ()
              else remove_callbacks [''Connection.Blocked'', ''Connection.Unblocked'']) (\<lambda>_.
     andThen (change (\<lambda>w. if opened w then w
        else w\<lparr>conn_error := map_option (opening_error (connection_state w)) (conn_error w)\<rparr>)) (\<lambda>_.
     andThen (set_connection_state CONNECTION_CLOSED) (\<lambda>_.
     andThen (get channels) (\<lambda>chans.
     andThen (sequence (map (close_meta_one A) (map fst chans))) (\<lambda>_.
     andThen (get opened) (\<lambda>was_open.
     andThen (get conn_error) (\<lambda>e.
     andThen (case e of
         None \<Rightarrow> ret ()
       | Some e \<Rightarrow> andThen (if \<not> was_open
             then dispatch 0 ''_on_connection_error'' 0 (Some (Arg_Object [])) (call_event A (Connection_Failed e))
             else dispatch 0 ''_on_connection_closed'' 0 (Some (Arg_Object [])) (call_event A (Connection_Closed e))) (\<lambda>_. ret ())) (\<lambda>_.
     init_connection_state))))))))))))"

end
