(* ===== verification/Relations.thy ===== *)
theory Relations
  imports Handlers
begin

text \<open>
  What the primitive actions do to a state, as equations, and the rules that carry a relation
  between states through the combinators: the locale \<open>op_relation\<close> proves them once for every
  reflexive and transitive relation, under a precondition that the relation keeps.
\<close>

section \<open>What the primitive actions do\<close>

named_theorems op_simps \<open>primitive actions on a state\<close>

lemma chan_eq [op_simps]: "chan c f s = (Inr (f (objects (fst s) ! c)), s)"
  by (simp add: chan_def get_def query_def)

lemma get_eq [op_simps]: "get f s = (Inr (f (fst s)), s)"
  by (simp add: get_def query_def)

lemma set_chan_eq [op_simps]:
  "set_chan c f s = (Inr (), ((fst s)\<lparr>objects := (objects (fst s))[c := f (objects (fst s) ! c)]\<rparr>, snd s))"
  by (simp add: set_chan_def change_def)

lemma add_callback_eq [op_simps]:
  "add_callback n key h once caller args s
    = (Inr (), ((fst s)\<lparr>callback_stack := add (py_str n) key h once caller args (callback_stack (fst s))\<rparr>, snd s))"
  by (simp add: add_callback_def change_def)

lemma chan_add_eq [op_simps]:
  "chan_add c key h once caller args s
    = (Inr (), ((fst s)\<lparr>callback_stack := add (py_str (channel_number (objects (fst s) ! c))) key h once caller args
        (callback_stack (fst s))\<rparr>, snd s))"
  by (simp add: chan_add_def andThen_def op_simps)

lemma change_eq [op_simps]: "change f s = (Inr (), (f (fst s), snd s))"
  by (simp add: change_def)

lemma basic_eqs [op_simps]:
  "ret x s = (Inr x, s)" "raise e s = (Inl e, s)" "query q s = (Inr (q s), s)"
  "assert True s = (Inr (), s)" "assert False s = (Inl (Python_Error AssertionError), s)"
  by (simp_all add: act_simps assert_def)

lemma andThen_chan [op_simps]: "andThen (chan c f) k s = k (f (objects (fst s) ! c)) s"
  by (simp add: andThen_def op_simps)

lemma andThen_get [op_simps]: "andThen (get g) k s = k (g (fst s)) s"
  by (simp add: andThen_def op_simps)

lemma andThen_basic [op_simps]: "andThen (ret x) k s = k x s" "andThen (raise e) k s = (Inl e, s)"
  by (simp_all add: andThen_def op_simps)

lemma andThen_assoc: "andThen (andThen m f) k = andThen m (\<lambda>x. andThen (f x) k)"
  by (auto simp: fun_eq_iff andThen_def split: prod.splits sum.splits)

lemma andThen_done: "m s = (Inr x, s') \<Longrightarrow> andThen m k s = k x s'"
  by (simp add: andThen_def)

lemma if_act [op_simps]: "(if b then m else m') s = (if b then m s else m' s)"
  by simp

lemma andThen_update [op_simps]:
  "andThen (set_chan c h) k s = k () ((fst s)\<lparr>objects := (objects (fst s))[c := h (objects (fst s) ! c)]\<rparr>, snd s)"
  "andThen (change u) k s = k () (u (fst s), snd s)"
  "andThen (assert b) k s = (if b then k () s else (Inl (Python_Error AssertionError), s))"
  by (simp_all add: andThen_def op_simps assert_def)

lemma andThen_register [op_simps]:
  "andThen (add_callback n key h once caller args) k s
    = k () ((fst s)\<lparr>callback_stack := add (py_str n) key h once caller args (callback_stack (fst s))\<rparr>, snd s)"
  "andThen (adapter_remove_timeout i) k s = k () (fst s, remove_timeout i (snd s))"
  by (simp_all add: andThen_def op_simps adapter_remove_timeout_def)

section \<open>Relations that actions keep\<close>

definition holds :: "('z conn \<Rightarrow> bool) \<Rightarrow> ('z conn \<Rightarrow> 'z conn \<Rightarrow> bool) \<Rightarrow> ('z, 'a) op \<Rightarrow> bool" where
  "holds P R m \<longleftrightarrow> (\<forall>s. P s \<longrightarrow> R s (snd (m s)))"

named_theorems op_intros \<open>composed actions that keep a relation\<close>

lemma holdsD: "\<lbrakk>holds P R m; P s; m s = (r, s')\<rbrakk> \<Longrightarrow> R s s'"
  by (metis holds_def snd_conv)

locale op_relation =
  fixes P :: "'z conn \<Rightarrow> bool" and R :: "'z conn \<Rightarrow> 'z conn \<Rightarrow> bool"
  assumes refl: "R s s"
    and trans: "R s t \<Longrightarrow> R t u \<Longrightarrow> R s u"
    and stable: "P s \<Longrightarrow> R s t \<Longrightarrow> P t"
begin

lemma andThen_intro [op_intros]:
  assumes m: "holds P R m" and f: "\<And>x. holds P R (f x)"
  shows "holds P R (andThen m f)"
  unfolding holds_def
proof (intro allI impI)
  fix s assume s: "P s"
  obtain r s1 where 1: "m s = (r, s1)" by (metis surj_pair)
  have R1: "R s s1" using holdsD[OF m s 1] .
  show "R s (snd (andThen m f s))"
  proof (cases r)
    case (Inl e)
    with 1 R1 show ?thesis by (simp add: andThen_def)
  next
    case (Inr x)
    have "R s1 (snd (f x s1))" using f[of x] stable[OF s R1] unfolding holds_def by blast
    with 1 Inr trans[OF R1] show ?thesis by (simp add: andThen_def)
  qed
qed

lemma basic_intro [op_intros]:
  "holds P R (ret x)" "holds P R (raise e)" "holds P R (get g)" "holds P R (chan c h)" "holds P R (query q)"
  "holds P R (assert b)" "holds P R (attr name m)" "holds P R (unless_error v)" "holds P R (string_arg w)"
  by (auto simp: holds_def op_simps refl assert_def attr_def unless_error_def string_arg_def
      split: option.split sum.split pyval.split)

lemma if_intro [op_intros]:
  "\<lbrakk>b \<Longrightarrow> holds P R m; \<not> b \<Longrightarrow> holds P R m'\<rbrakk> \<Longrightarrow> holds P R (if b then m else m')"
  by simp

lemma option_intro [op_intros]:
  "\<lbrakk>holds P R m; \<And>x. holds P R (f x)\<rbrakk> \<Longrightarrow> holds P R (case v of None \<Rightarrow> m | Some x \<Rightarrow> f x)"
  by (cases v) auto

lemma prod_intro [op_intros]: "(\<And>x y. holds P R (f x y)) \<Longrightarrow> holds P R (case v of (x, y) \<Rightarrow> f x y)"
  by (cases v) auto

lemma sequence_intro:
  assumes "\<And>m. m \<in> set ms \<Longrightarrow> holds P R m"
  shows "holds P R (sequence ms)"
  using assms
proof (induction ms)
  case Nil
  show ?case unfolding sequence.simps by (rule basic_intro)
next
  case (Cons m ms)
  then show ?case unfolding sequence.simps by (intro andThen_intro) auto
qed

lemma map_intro [op_intros]: "(\<And>x. x \<in> set xs \<Longrightarrow> holds P R (f x)) \<Longrightarrow> holds P R (sequence (map f xs))"
  by (intro sequence_intro) auto

lemma finally_intro [op_intros]:
  assumes m: "holds P R m" and f: "holds P R f"
  shows "holds P R (try_finally m f)"
  unfolding holds_def
proof (intro allI impI)
  fix s assume s: "P s"
  obtain r s1 where 1: "m s = (r, s1)" by (metis surj_pair)
  obtain r2 s2 where 2: "f s1 = (r2, s2)" by (metis surj_pair)
  have R1: "R s s1" using holdsD[OF m s 1] .
  have "R s s2" using trans[OF R1 holdsD[OF f stable[OF s R1] 2]] .
  with 1 2 show "R s (snd (try_finally m f s))" by (simp add: try_finally_def split: sum.split)
qed

lemma except_intro [op_intros]:
  assumes m: "holds P R m" and f: "\<And>e. holds P R (f e)"
  shows "holds P R (try_except m f)"
  unfolding holds_def
proof (intro allI impI)
  fix s assume s: "P s"
  obtain r s1 where 1: "m s = (r, s1)" by (metis surj_pair)
  have R1: "R s s1" using holdsD[OF m s 1] .
  show "R s (snd (try_except m f s))"
  proof (cases r)
    case (Inl e)
    have "R s1 (snd (f e s1))" using f[of e] stable[OF s R1] unfolding holds_def by blast
    with 1 Inl trans[OF R1] show ?thesis by (simp add: try_except_def)
  qed (use 1 R1 in \<open>simp add: try_except_def\<close>)
qed

lemma change_intro: "(\<And>w t. P (w, t) \<Longrightarrow> R (w, t) (u w, t)) \<Longrightarrow> holds P R (change u)"
  by (simp add: holds_def op_simps)

lemma dispatch_intro:
  assumes st: "\<And>s b hs st. P s \<Longrightarrow> process_event (py_str n) key caller arg (callback_stack (fst s)) = (b, hs, st)
      \<Longrightarrow> R s ((fst s)\<lparr>callback_stack := st\<rparr>, snd s)"
    and run: "\<And>h. holds P R (f h)"
  shows "holds P R (dispatch n key caller arg f)"
  unfolding holds_def
proof (intro allI impI)
  fix s assume s: "P s"
  obtain b hs st where p: "process_event (py_str n) key caller arg (callback_stack (fst s)) = (b, hs, st)"
    by (metis prod_cases3)
  let ?s = "((fst s)\<lparr>callback_stack := st\<rparr>, snd s)"
  have R1: "R s ?s" using st[OF s p] .
  have "holds P R (andThen (sequence (map f hs)) (\<lambda>_. ret b))"
    by (intro andThen_intro map_intro basic_intro) (rule run)
  then have "R ?s (snd (andThen (sequence (map f hs)) (\<lambda>_. ret b) ?s))"
    using stable[OF s R1] unfolding holds_def by blast
  with trans[OF R1] show "R s (snd (dispatch n key caller arg f s))" by (simp add: dispatch_def p op_simps)
qed

end

end
