(* ===== verification/Requests.thy ===== *)
theory Requests
  imports Relations
begin

text \<open>
  The request queue of a channel. A channel has at most one request outstanding; \<open>_rpc\<close> sends or
  queues, \<open>_on_synchronous_complete\<close> sends from the queue. The abstract queue is the locale
  \<open>fifo_sender\<close>; the operations of the code refine it, so requests leave in the order in which they
  have been made.
\<close>

section \<open>Sending on a channel\<close>

text \<open>Registering a reply changes the callbacks only.\<close>

definition callbacks_only :: "'z conn \<Rightarrow> 'z conn \<Rightarrow> bool" where
  "callbacks_only s s' \<longleftrightarrow> (\<exists>st. s' = ((fst s)\<lparr>callback_stack := st\<rparr>, snd s))"

lemma callbacks_only_refl: "callbacks_only s s"
  by (auto simp: callbacks_only_def intro: exI[of _ "callback_stack (fst s)"])

lemma callbacks_only_trans: "callbacks_only s s' \<Longrightarrow> callbacks_only s' s'' \<Longrightarrow> callbacks_only s s''"
  by (auto simp: callbacks_only_def)

lemma register_reply_only: "\<exists>s'. register_reply c h r s = (Inr (), s') \<and> callbacks_only s s'"
  by (cases h) (auto simp: register_reply_def andThen_def op_simps callbacks_only_def)

lemma register_replies_only:
  "\<exists>s'. sequence (map (register_reply c h) replies) s = (Inr (), s') \<and> callbacks_only s s'"
proof (induction replies arbitrary: s)
  case Nil
  then show ?case by (simp add: op_simps callbacks_only_refl)
next
  case (Cons r rs)
  obtain s1 where 1: "register_reply c h r s = (Inr (), s1)" "callbacks_only s s1"
    using register_reply_only by blast
  from Cons.IH[of s1] 1 show ?case by (auto simp: act_simps intro: callbacks_only_trans)
qed

section \<open>The abstract queue\<close>

text \<open>Whether a request is outstanding, and the requests that wait; a step returns what it sends.\<close>

type_synonym 'r fifo = "bool \<times> 'r list"

fun flush :: "('r \<Rightarrow> bool) \<Rightarrow> 'r list \<Rightarrow> 'r list \<times> 'r fifo" where
  "flush blocks [] = ([], False, [])"
| "flush blocks (r # rs) = (if blocks r then ([r], True, rs) else apfst ((#) r) (flush blocks rs))"

fun fifo_submit :: "('r \<Rightarrow> bool) \<Rightarrow> 'r \<Rightarrow> 'r fifo \<Rightarrow> 'r list \<times> 'r fifo" where
  "fifo_submit blocks r (True, q) = ([], True, q @ [r])"
| "fifo_submit blocks r (False, q) = ([r], blocks r, q)"

fun fifo_complete :: "('r \<Rightarrow> bool) \<Rightarrow> 'r fifo \<Rightarrow> 'r list \<times> 'r fifo" where
  "fifo_complete blocks (b, q) = flush blocks q"

datatype 'r queue_event = Submit 'r | Complete

fun fifo_step :: "('r \<Rightarrow> bool) \<Rightarrow> 'r queue_event \<Rightarrow> 'r fifo \<Rightarrow> 'r list \<times> 'r fifo" where
  "fifo_step blocks (Submit r) = fifo_submit blocks r"
| "fifo_step blocks Complete = fifo_complete blocks"

text \<open>A queue that waits for nothing is empty.\<close>

definition fifo_ok :: "'r fifo \<Rightarrow> bool" where
  "fifo_ok q \<longleftrightarrow> (fst q \<or> snd q = [])"

fun submitted :: "'r queue_event \<Rightarrow> 'r list" where
  "submitted (Submit r) = [r]"
| "submitted Complete = []"

lemma flush_all: "flush blocks rs = (out, q) \<Longrightarrow> out @ snd q = rs \<and> fifo_ok q"
proof (induction rs arbitrary: out q)
  case (Cons r rs)
  then show ?case by (cases "flush blocks rs") (auto simp: fifo_ok_def split: if_splits)
qed (auto simp: fifo_ok_def)

text \<open>At most the last request sent blocks.\<close>

lemma flush_blocks: "flush blocks rs = (out, q) \<Longrightarrow> length (filter blocks out) = of_bool (fst q)"
proof (induction rs arbitrary: out q)
  case (Cons r rs)
  then show ?case by (cases "flush blocks rs") (auto split: if_splits)
qed auto

lemma fifo_step_ok:
  assumes "fifo_ok q" "fifo_step blocks ev q = (out, q')"
  shows "fifo_ok q'" "out @ snd q' = snd q @ submitted ev"
proof -
  show "fifo_ok q'" "out @ snd q' = snd q @ submitted ev"
    using assms flush_all[of blocks "snd q" out q']
    by (cases ev; cases q; cases "fst q"; auto simp: fifo_ok_def)+
qed

section \<open>A sender that refines it\<close>

locale fifo_sender =
  fixes blocks :: "'r \<Rightarrow> bool" and view :: "'s \<Rightarrow> 'r fifo" and wire :: "'s \<Rightarrow> 'r \<Rightarrow> 'f"
    and outbox :: "'s \<Rightarrow> 'f list" and step :: "'r queue_event \<Rightarrow> 's \<Rightarrow> 's option" and ready :: "'s \<Rightarrow> bool"
  assumes refines: "\<lbrakk>ready s; step ev s = Some s'\<rbrakk> \<Longrightarrow>
      fifo_step blocks ev (view s) = (out, q) \<Longrightarrow>
      view s' = q \<and> outbox s' = outbox s @ map (wire s) out \<and> ready s' \<and> wire s' = wire s"
begin

lemma in_order:
  assumes "ready s" "fifo_ok (view s)" "run step evs s = Some s'"
  shows "\<exists>out. outbox s' = outbox s @ map (wire s) out
    \<and> out @ snd (view s') = snd (view s) @ concat (map submitted evs) \<and> fifo_ok (view s')"
  using assms
proof (induction evs arbitrary: s)
  case Nil
  then show ?case by auto
next
  case (Cons ev evs)
  from Cons.prems(3) obtain s1 where s1: "step ev s = Some s1" "run step evs s1 = Some s'"
    by (auto split: option.splits)
  obtain out q where o: "fifo_step blocks ev (view s) = (out, q)" by (metis surj_pair)
  from refines[OF Cons.prems(1) s1(1) o]
  have r: "view s1 = q" "outbox s1 = outbox s @ map (wire s) out" "ready s1" "wire s1 = wire s" by auto
  note ok = fifo_step_ok[OF Cons.prems(2) o]
  from Cons.IH[OF r(3) _ s1(2)] r(1) ok(1) obtain out' where
    "outbox s' = outbox s1 @ map (wire s1) out'"
    "out' @ snd (view s') = snd q @ concat (map submitted evs)" "fifo_ok (view s')" by auto
  with r ok(2) show ?case by (intro exI[of _ "out @ out'"]) simp
qed

end

section \<open>The channel's queue\<close>

definition queue_step :: "nat \<Rightarrow> request queue_event \<Rightarrow> 'z conn \<Rightarrow> 'z conn option" where
  "queue_step c ev s =
     (case (case ev of Submit rq \<Rightarrow> rpc c rq s | Complete \<Rightarrow> on_synchronous_complete c s) of
        (Inr _, s') \<Rightarrow> Some s' | (Inl _, _) \<Rightarrow> None)"

definition queue_view :: "nat \<Rightarrow> 'z conn \<Rightarrow> request fifo" where
  "queue_view c s = (blocking (objects (fst s) ! c) \<noteq> None, blocked (objects (fst s) ! c))"

definition blocking_request :: "request \<Rightarrow> bool" where
  "blocking_request rq \<longleftrightarrow> snd (snd rq) \<noteq> []"

definition frame_bytes :: "int \<Rightarrow> request \<Rightarrow> bytes" where
  "frame_bytes n rq = (case marshal (Method_Frame n (fst rq)) of Inr bs \<Rightarrow> bs | Inl _ \<Rightarrow> [])"

definition request_wire :: "nat \<Rightarrow> 'z conn \<Rightarrow> request \<Rightarrow> bytes" where
  "request_wire c s = frame_bytes (channel_number (objects (fst s) ! c))"

definition made_channel :: "nat \<Rightarrow> 'z conn \<Rightarrow> bool" where
  "made_channel c s \<longleftrightarrow> c < length (objects (fst s))"

text \<open>What sending does: \<open>refined c s s' out q\<close>.\<close>

definition sent_to :: "nat \<Rightarrow> 'z conn \<Rightarrow> 'z conn \<Rightarrow> request list \<Rightarrow> request fifo \<Rightarrow> bool" where
  "sent_to c s s' out q \<longleftrightarrow> queue_view c s' = q \<and> emitted (fst s') = emitted (fst s) @ map (request_wire c s) out
     \<and> made_channel c s' \<and> request_wire c s' = request_wire c s"

lemma send_frame_Inr:
  assumes "send_frame f s = (Inr u, s')"
  shows "\<exists>bs. marshal f = Inr bs \<and> s' = (output_marshaled_frames [bs] (fst s), snd s)"
  using assms
  by (auto simp: send_frame_def andThen_def query_def raise_def unless_error_def change_def
      simp del: marshal.simps split: if_splits sum.splits)

lemma output_one [simp]:
  "emitted (output_marshaled_frames [bs] w) = emitted w @ [bs]"
  "objects (output_marshaled_frames [bs] w) = objects w"
  by (simp_all add: output_marshaled_frames_def output_frame_def)

lemma callbacks_only_fields:
  assumes "callbacks_only s s'"
  shows "objects (fst s') = objects (fst s)" "emitted (fst s') = emitted (fst s)" "connection_state (fst s') = connection_state (fst s)"
  using assms by (auto simp: callbacks_only_def)

lemma transmit_sent:
  assumes "transmit c rq s = (Inr u, s')" "made_channel c s" "blocking (objects (fst s) ! c) = None"
  shows "sent_to c s s' [rq] (blocking_request rq, blocked (objects (fst s) ! c))"
proof -
  obtain m h replies where rq: "rq = (m, h, replies)" by (cases rq)
  let ?n = "channel_number (objects (fst s) ! c)"
  from assms(1) obtain s1 where s1: "chan_send c m None s = (Inr (), s1)"
    by (auto simp: transmit_def rq andThen_def split: prod.splits sum.splits)
  then have "send_frame (Method_Frame ?n m) s = (Inr (), s1)"
    by (simp add: chan_send_def conn_send_method_def op_simps)
  then obtain bs where bs: "marshal (Method_Frame ?n m) = Inr bs" "s1 = (output_marshaled_frames [bs] (fst s), snd s)"
    using send_frame_Inr by blast
  have wire: "request_wire c s rq = bs" by (simp add: request_wire_def frame_bytes_def rq bs(1) del: marshal.simps)
  show ?thesis
  proof (cases "replies = []")
    case True
    with assms s1 have "s' = s1" by (simp add: transmit_def rq andThen_def op_simps)
    with bs True wire assms show ?thesis
      by (simp add: sent_to_def queue_view_def made_channel_def request_wire_def blocking_request_def rq)
  next
    case False
    let ?s2 = "((fst s1)\<lparr>objects := (objects (fst s1))[c := (objects (fst s1) ! c)\<lparr>blocking := Some (method_NAME m)\<rparr>]\<rparr>, snd s1)"
    obtain s3 where "sequence (map (register_reply c h) replies) ?s2 = (Inr (), s3)" "callbacks_only ?s2 s3"
      using register_replies_only by blast
    with assms(1) s1 False have "s' = s3" by (simp add: transmit_def rq andThen_def op_simps)
    with callbacks_only_fields[OF \<open>callbacks_only ?s2 s3\<close>] bs False wire assms show ?thesis
      by (auto simp: sent_to_def queue_view_def made_channel_def request_wire_def blocking_request_def rq)
  qed
qed

lemma rpc_eq:
  "rpc c rq s =
    (if \<not> method_synchronous (fst rq) then (Inl (Python_Error AssertionError), s)
     else if fst (snd rq) \<noteq> None \<and> snd (snd rq) = [] then (Inl (Python_Error ValueError), s)
     else if chan_state (objects (fst s) ! c) = CLOSED then (Inl ChannelWrongStateError, s)
     else if blocking (objects (fst s) ! c) \<noteq> None
     then (Inr (), ((fst s)\<lparr>objects := (objects (fst s))[c := (objects (fst s) ! c)\<lparr>blocked := blocked (objects (fst s) ! c) @ [rq]\<rparr>]\<rparr>, snd s))
     else transmit c rq s)"
  by (cases rq) (simp add: rpc_def op_simps raise_if_not_open_def)

lemma rpc_sent:
  assumes "rpc c rq s = (Inr u, s')" "made_channel c s"
    and q: "fifo_submit blocking_request rq (queue_view c s) = (out, q)"
  shows "sent_to c s s' out q"
proof (cases "blocking (objects (fst s) ! c)")
  case None
  with assms(1) have "transmit c rq s = (Inr u, s')" by (auto simp: rpc_eq split: if_splits)
  from transmit_sent[OF this assms(2) None] q None show ?thesis by (simp add: queue_view_def)
next
  case (Some b)
  with assms(1) have "s' = ((fst s)\<lparr>objects := (objects (fst s))[c := (objects (fst s) ! c)\<lparr>blocked := blocked (objects (fst s) ! c) @ [rq]\<rparr>]\<rparr>, snd s)"
    by (auto simp: rpc_eq split: if_splits)
  with Some q assms(2) show ?thesis
    by (auto simp: sent_to_def queue_view_def made_channel_def request_wire_def)
qed

lemma sent_to_trans:
  assumes "sent_to c s s1 out q" "sent_to c s1 s2 out' q'"
  shows "sent_to c s s2 (out @ out') q'"
  using assms by (simp add: sent_to_def)

text \<open>The loop with fuel for the whole queue is the abstract flush.\<close>

lemma release_sent:
  assumes "release_blocked fuel c s = (Inr u, s')" "made_channel c s" "blocking (objects (fst s) ! c) = None"
    "length (blocked (objects (fst s) ! c)) \<le> fuel" "flush blocking_request (blocked (objects (fst s) ! c)) = (out, q)"
  shows "sent_to c s s' out q"
  using assms
proof (induction fuel arbitrary: s out q)
  case 0
  then show ?case by (auto simp: op_simps sent_to_def queue_view_def)
next
  case (Suc fuel)
  show ?case
  proof (cases "blocked (objects (fst s) ! c)")
    case Nil
    with Suc.prems show ?thesis by (auto simp: op_simps sent_to_def queue_view_def)
  next
    case (Cons rq rqs)
    let ?s1 = "((fst s)\<lparr>objects := (objects (fst s))[c := (objects (fst s) ! c)\<lparr>blocked := rqs\<rparr>]\<rparr>, snd s)"
    have s1: "made_channel c ?s1" "blocking (objects (fst ?s1) ! c) = None" "blocked (objects (fst ?s1) ! c) = rqs"
      using Suc.prems(2,3) by (simp_all add: made_channel_def)
    from Suc.prems(1,3) Cons obtain s2 where s2: "rpc c rq ?s1 = (Inr (), s2)" "release_blocked fuel c s2 = (Inr u, s')"
      by (auto simp: op_simps andThen_def[of "rpc c rq"] split: prod.splits sum.splits)
    have s1v: "sent_to c s ?s1 [] (False, rqs)"
      using Suc.prems(2,3) by (simp add: sent_to_def queue_view_def made_channel_def request_wire_def)
    have "fifo_submit blocking_request rq (queue_view c ?s1) = ([rq], blocking_request rq, rqs)"
      using s1 by (simp add: queue_view_def)
    from sent_to_trans[OF s1v rpc_sent[OF s2(1) s1(1) this]]
    have s2v: "sent_to c s s2 [rq] (blocking_request rq, rqs)" by simp
    show ?thesis
    proof (cases "blocking_request rq")
      case True
      have "s' = s2"
      proof (cases fuel)
        case (Suc n)
        with s2(2) s2v True show ?thesis
          by (auto simp: op_simps sent_to_def queue_view_def split: list.splits)
      qed (use s2(2) in \<open>simp add: op_simps\<close>)
      with True s2v Suc.prems(5) Cons show ?thesis by simp
    next
      case False
      obtain out' q' where f: "flush blocking_request rqs = (out', q')" by (metis surj_pair)
      have "made_channel c s2" "blocking (objects (fst s2) ! c) = None" "blocked (objects (fst s2) ! c) = rqs"
        using s2v False by (simp_all add: sent_to_def queue_view_def)
      with Suc.IH[OF s2(2)] Suc.prems(4) Cons f have "sent_to c s2 s' out' q'" by simp
      from sent_to_trans[OF s2v this] False f Suc.prems(5) Cons show ?thesis by simp
    qed
  qed
qed

lemma complete_sent:
  assumes "on_synchronous_complete c s = (Inr u, s')" "made_channel c s"
    "fifo_complete blocking_request (queue_view c s) = (out, q)"
  shows "sent_to c s s' out q"
proof -
  let ?s1 = "((fst s)\<lparr>objects := (objects (fst s))[c := (objects (fst s) ! c)\<lparr>blocking := None\<rparr>]\<rparr>, snd s)"
  have "release_blocked (length (blocked (objects (fst s) ! c))) c ?s1 = (Inr u, s')"
    using assms(1,2) by (simp add: on_synchronous_complete_def op_simps made_channel_def)
  from release_sent[OF this] assms(2,3) have "sent_to c ?s1 s' out q"
    by (simp add: made_channel_def queue_view_def)
  then show ?thesis using assms(2) by (simp add: sent_to_def made_channel_def request_wire_def)
qed

interpretation requests: fifo_sender blocking_request "queue_view c" "request_wire c" "\<lambda>s. emitted (fst s)"
  "queue_step c" "made_channel c" for c
proof unfold_locales
  fix ev s s' out q
  assume "made_channel c s" "queue_step c ev s = Some s'" "fifo_step blocking_request ev (queue_view c s) = (out, q)"
  then have "sent_to c s s' out q"
    by (cases ev) (auto simp: queue_step_def intro: rpc_sent complete_sent split: prod.splits sum.splits)
  then show "queue_view c s' = q \<and> emitted (fst s') = emitted (fst s) @ map (request_wire c s) out
    \<and> made_channel c s' \<and> request_wire c s' = request_wire c s" by (simp add: sent_to_def)
qed

section \<open>Properties\<close>


definition open_endpoint :: "unit conn" where
  "open_endpoint = (let (w, t) = blank_connection [] new_Parameters in
     (w\<lparr>connection_state := CONNECTION_OPEN, opened := True, body_max_length := Some 131064,
        objects := [(new_channel 1 None)\<lparr>chan_state := OPEN\<rparr>], channels := [(1, 0)]\<rparr>, t))"

definition qos_request :: "int \<Rightarrow> request" where
  "qos_request n = (Basic_Class (Basic_Qos (PInt 0) (PInt n) (PBool False)), None, [(''Basic.QosOk'', None)])"


end
