(* ===== verification/Lifecycle.thy ===== *)
theory Lifecycle
  imports Requests
begin

text \<open>
  Opening, tuning and ending a connection, and deliveries: what single operations of
  \<open>Connection\<close> and \<open>Handlers\<close> do, on every branch.
\<close>

section \<open>Channel numbers\<close>

lemma all_used:
  assumes "\<forall>num \<in> {1..int (length chans)}. map_of chans num \<noteq> None"
  shows "fst ` set chans = {1..int (length chans)}"
proof (rule card_seteq[symmetric])
  show "{1..int (length chans)} \<subseteq> fst ` set chans" using assms by (force simp: map_of_eq_None_iff)
  have "card (fst ` set chans) \<le> card (set chans)" by (rule card_image_le) simp
  also have "\<dots> \<le> length chans" by (rule card_length)
  finally show "card (fst ` set chans) \<le> card {1..int (length chans)}" by simp
qed simp

lemma find_first:
  assumes "find P [a..b] = Some n"
  shows "P n" "a \<le> n" "n \<le> b" "\<forall>k. a \<le> k \<and> k < n \<longrightarrow> \<not> P k"
proof -
  from assms obtain i where i: "i < length [a..b]" "P ([a..b] ! i)" "n = [a..b] ! i" "\<forall>j<i. \<not> P ([a..b] ! j)"
    by (auto simp: find_Some_iff)
  then have n: "n = a + int i" by simp
  show "P n" "a \<le> n" "n \<le> b" using i n by auto
  show "\<forall>k. a \<le> k \<and> k < n \<longrightarrow> \<not> P k"
  proof (intro allI impI)
    fix k assume k: "a \<le> k \<and> k < n"
    then have "nat (k - a) < i" using n by linarith
    with i have "\<not> P ([a..b] ! nat (k - a))" by blast
    moreover have "[a..b] ! nat (k - a) = k" by (subst nth_upto) (use k i n in auto)
    ultimately show "\<not> P k" by simp
  qed
qed

text \<open>
  The number for a new channel is the smallest positive one that no open channel
  has, and not above the negotiated limit; the request fails exactly when as many channels are
  open as the limit allows.
\<close>

theorem fresh_channel_number:
  "case next_channel_number limit chans of
     Inl e \<Rightarrow> e = NoFreeChannels \<and> limit \<le> int (length chans)
   | Inr n \<Rightarrow> 1 \<le> n \<and> n \<le> limit \<and> n \<notin> fst ` set chans \<and> {1..<n} \<subseteq> fst ` set chans"
proof (cases "int (length chans) \<ge> limit")
  case False
  let ?find = "find (\<lambda>num. map_of chans num = None) [1..int (length chans)]"
  show ?thesis
  proof (cases ?find)
    case None
    then have "\<forall>num \<in> {1..int (length chans)}. map_of chans num \<noteq> None" by (auto simp: find_None_iff)
    from all_used[OF this] None False show ?thesis by (auto simp: next_channel_number_def)
  next
    case (Some n)
    note f = find_first[OF this]
    have "k \<in> fst ` set chans" if "1 \<le> k" "k < n" for k
      using f(4) that by (auto simp: map_of_eq_None_iff)
    with Some f False show ?thesis by (auto simp: next_channel_number_def map_of_eq_None_iff)
  qed
qed (simp add: next_channel_number_def)

section \<open>Deliveries\<close>

text \<open>
  A delivery goes to the callback of the consumer it names, once, with the message;
  when the consumer has been cancelled no callback is called, and the message is rejected, to
  be requeued, if the channel is open and the consumer acknowledges; without a consumer the
  message is dropped.
\<close>

theorem deliveries_routed:
  fixes s :: "'z conn" and c :: nat
  defines "ch \<equiv> objects (fst s) ! c"
  shows "on_deliver A c (Basic_Class (Basic_Deliver tag dtag rd x k)) props body s =
    (if tag \<in> set (cancelled ch)
     then if chan_state ch = OPEN \<and> tag \<notin> set (consumers_with_noack ch)
          then basic_reject c dtag (PBool True) s else (Inr (), s)
     else case map_of (consumers ch) tag of
        None \<Rightarrow> (Inr (), s)
      | Some f \<Rightarrow> react A f (Message c (Basic_Class (Basic_Deliver tag dtag rd x k)) props body)
          ((fst s)\<lparr>user_log := user_log (fst s) @ [(f, Message c (Basic_Class (Basic_Deliver tag dtag rd x k)) props body)]\<rparr>, snd s))"
  by (simp add: on_deliver_def attr_def op_simps ch_def call_app_def split: option.split)

section \<open>Tuning\<close>

lemma set_params_eq [op_simps]:
  "set_params f s = (case f (params (fst s)) of
     Inl e \<Rightarrow> (Inl (Python_Error e), s) | Inr p \<Rightarrow> (Inr (), ((fst s)\<lparr>params := p\<rparr>, snd s)))"
  by (simp add: set_params_def op_simps andThen_def unless_error_def split: sum.split)

lemma andThen_set_params [op_simps]:
  "andThen (set_params f) k s = (case f (params (fst s)) of
     Inl e \<Rightarrow> (Inl (Python_Error e), s) | Inr p \<Rightarrow> k () ((fst s)\<lparr>params := p\<rparr>, snd s))"
  by (simp add: andThen_def op_simps split: sum.split)

lemma set_connection_state_eq [op_simps]:
  "andThen (set_connection_state st) k s = k () ((fst s)\<lparr>connection_state := st\<rparr>, snd s)"
  by (simp add: set_connection_state_def op_simps)

lemma attr_eq [op_simps]:
  "andThen (attr name m) k s = (case map_of (method_dict m) name of
     Some v \<Rightarrow> k v s | None \<Rightarrow> (Inl (Python_Error AttributeError), s))"
  by (simp add: attr_def op_simps split: option.split)

text \<open>Making the checker changes only the checker and the timers.\<close>

lemma adapter_call_later_only: "\<exists>r t'. adapter_call_later d cb s = (r, fst s, t')"
  by (cases s) (auto simp: adapter_call_later_def split: sum.splits)

lemma new_checker_only: "\<exists>r t'. new_checker h s = (r, fst s, t')"
proof (cases "h < 1")
  case False
  define c where "c = \<lparr>timeout = h, hb_bytes_received = 0, hb_bytes_sent = 0, heartbeat_frames_received = 0,
    heartbeat_frames_sent = 0, idle_byte_intervals = 0, send_timer = None, check_timer = None\<rparr>"
  obtain r1 t1 where 1: "adapter_call_later (send_interval c) Send_Heartbeat s = (r1, fst s, t1)"
    using adapter_call_later_only by blast
  have new: "new_checker h s = andThen (start_send_timer c) start_check_timer s"
    using False by (simp add: new_checker_def c_def)
  show ?thesis
  proof (cases r1)
    case (Inl e)
    with 1 show ?thesis unfolding new by (simp add: start_send_timer_def act_simps)
  next
    case (Inr i)
    let ?c = "update_counters (fst s) (c\<lparr>send_timer := Some i\<rparr>)"
    obtain r2 t2 where "adapter_call_later (check_interval ?c) Check_Heartbeat (fst s, t1) = (r2, fst s, t2)"
      using adapter_call_later_only[of _ _ "(fst s, t1)"] by force
    with 1 Inr show ?thesis
      unfolding new by (cases r2) (simp_all add: start_send_timer_def start_check_timer_def act_simps)
  qed
qed (cases s; simp add: new_checker_def act_simps)

lemma create_heartbeat_checker_only:
  "\<exists>r hc t'. create_heartbeat_checker h s = (r, (fst s)\<lparr>heartbeat_checker := hc\<rparr>, t')"
proof (cases "\<exists>i. h = Some i \<and> 0 < i")
  case True
  then obtain i where i: "h = Some i" "0 < i" by blast
  obtain r t' where r: "new_checker i s = (r, fst s, t')" using new_checker_only by blast
  show ?thesis
  proof (cases r)
    case (Inl e)
    with i r have "create_heartbeat_checker h s
        = (Inl e, (fst s)\<lparr>heartbeat_checker := heartbeat_checker (fst s)\<rparr>, t')"
      by (simp add: create_heartbeat_checker_def andThen_def)
    then show ?thesis by blast
  next
    case (Inr c)
    with i r have "create_heartbeat_checker h s = (Inr (), (fst s)\<lparr>heartbeat_checker := Some c\<rparr>, t')"
      by (simp add: create_heartbeat_checker_def andThen_def attach_def change_def)
    then show ?thesis by blast
  qed
next
  case False
  then have "create_heartbeat_checker h s = (Inr (), (fst s)\<lparr>heartbeat_checker := None\<rparr>, snd s)"
    by (auto simp: create_heartbeat_checker_def change_def split: option.splits)
  then show ?thesis by blast
qed

text \<open>Sending changes only what the sender counts.\<close>

lemma send_frame_only:
  "case send_frame f s of
     (Inl e, s') \<Rightarrow> s' = s
   | (Inr u, s') \<Rightarrow> connection_state (fst s) \<noteq> CONNECTION_CLOSED
       \<and> (\<exists>bs. marshal f = Inr bs \<and> s' = (output_marshaled_frames [bs] (fst s), snd s))"
  by (auto simp: send_frame_def andThen_def query_def raise_def unless_error_def change_def
      simp del: marshal.simps split: sum.splits)

text \<open>What the tuning leaves: the negotiated values are in force whatever the sending does.\<close>

definition tuned :: "int \<Rightarrow> int \<Rightarrow> int \<Rightarrow> parameters \<Rightarrow> parameters" where
  "tuned a b h p = p\<lparr>channel_max := (if a = 0 then channel_max p else min (channel_max p) a),
     frame_max := (if b = 0 then frame_max p else min (frame_max p) b),
     heartbeat := Some (case heartbeat p of Some v \<Rightarrow> v | None \<Rightarrow> Seconds h)\<rparr>"

definition tune_method :: "int \<Rightarrow> int \<Rightarrow> int \<Rightarrow> meth" where
  "tune_method a b h = Connection_Class (Connection_Tune (PInt a) (PInt b) (PInt h))"

lemma tune_dict:
  "map_of (method_dict (tune_method a b h)) ''channel_max'' = Some (PInt a)"
  "map_of (method_dict (tune_method a b h)) ''frame_max'' = Some (PInt b)"
  "map_of (method_dict (tune_method a b h)) ''heartbeat'' = Some (PInt h)"
  by (simp_all add: tune_method_def)

lemma negotiate: 
  "\<lbrakk>1 \<le> a; 0 \<le> b\<rbrakk> \<Longrightarrow> negotiate_integer_value (Some a) (Some b) = (if b = 0 then a else min a b)"
  by (simp add: negotiate_integer_value_def)

definition finish_tuning :: "('z, unit) op" where
  "finish_tuning =
     andThen (change (\<lambda>w. w\<lparr>body_max_length := Some (body_frame_max_length (frame_max (params w)))\<rparr>)) (\<lambda>_.
     andThen (get (\<lambda>w. heartbeat_seconds (heartbeat (params w)))) (\<lambda>h.
     andThen (create_heartbeat_checker h) (\<lambda>_.
     andThen send_connection_tune_ok (\<lambda>_. send_connection_open))))"

lemma tune_heartbeat_eq:
  assumes "0 \<le> h" "\<forall>f. heartbeat (params (fst s)) \<noteq> Some (Heartbeat_callback f)" "params_ok (params (fst s))"
  shows "tune_heartbeat A (PInt h) s = (Inr (), ((fst s)\<lparr>params := (params (fst s))
    \<lparr>heartbeat := Some (case heartbeat (params (fst s)) of Some v \<Rightarrow> v | None \<Rightarrow> Seconds h)\<rparr>\<rparr>, snd s))"
proof (cases "heartbeat (params (fst s))")
  case None
  with assms(1) show ?thesis by (simp add: tune_heartbeat_def op_simps tune_heartbeat_timeout_def set_heartbeat_def)
next
  case (Some v)
  then obtain i where "v = Seconds i" "0 \<le> i" using assms(2,3) by (cases v) (auto simp: params_ok_def)
  with Some show ?thesis by (simp add: tune_heartbeat_def op_simps tune_heartbeat_timeout_def set_heartbeat_def)
qed

lemma tune_eq:
  assumes ok: "params_ok p" "params (fst s) = p"
    and r: "0 \<le> a" "a \<le> MAX_CHANNELS" "0 \<le> b" "0 \<le> h" "\<forall>f. heartbeat p \<noteq> Some (Heartbeat_callback f)"
  shows "on_connection_tune A (tune_method a b h) s =
    (if 0 < b \<and> b < FRAME_MIN_SIZE
     then (Inl (Python_Error ValueError), ((fst s)\<lparr>connection_state := CONNECTION_TUNE,
        params := p\<lparr>channel_max := channel_max (tuned a b h p)\<rparr>\<rparr>, snd s))
     else finish_tuning ((fst s)\<lparr>connection_state := CONNECTION_TUNE, params := tuned a b h p\<rparr>, snd s))"
proof -
  let ?a = "negotiate_integer_value (Some (channel_max p)) (Some a)"
  let ?b = "negotiate_integer_value (Some (frame_max p)) (Some b)"
  let ?p1 = "p\<lparr>channel_max := channel_max (tuned a b h p)\<rparr>" and ?p2 = "p\<lparr>channel_max := channel_max (tuned a b h p), frame_max := frame_max (tuned a b h p)\<rparr>"
  have le: "1 \<le> channel_max p" "1 \<le> frame_max p" using ok by (simp_all add: params_ok_def FRAME_MIN_SIZE_def)
  have ch: "set_channel_max (Value (PInt ?a)) p = Inr ?p1"
    using ok r le by (auto simp: set_channel_max_def tuned_def params_ok_def negotiate)
  have fr: "set_frame_max (Value (PInt ?b)) ?p1
      = (if 0 < b \<and> b < FRAME_MIN_SIZE then Inl ValueError else Inr ?p2)"
    using ok r le by (auto simp: set_frame_max_def tuned_def params_ok_def negotiate FRAME_MIN_SIZE_def)
  let ?s2 = "((fst s)\<lparr>connection_state := CONNECTION_TUNE, params := ?p2\<rparr>, snd s)"
  have hb: "tune_heartbeat A (PInt h) ?s2 = (Inr (), ((fst s)\<lparr>connection_state := CONNECTION_TUNE, params := tuned a b h p\<rparr>, snd s))"
    if "\<not> (0 < b \<and> b < FRAME_MIN_SIZE)"
  proof -
    have "params_ok (params (fst ?s2))"
      using ok r le that by (auto simp: params_ok_def tuned_def)
    with tune_heartbeat_eq[of h ?s2 A] r show ?thesis by (simp add: tuned_def)
  qed
  show ?thesis
  proof (cases "0 < b \<and> b < FRAME_MIN_SIZE")
    case True
    with ok ch fr show ?thesis by (simp add: on_connection_tune_def op_simps tune_dict int_field_def)
  next
    case False
    have "on_connection_tune A (tune_method a b h) s = andThen (tune_heartbeat A (PInt h)) (\<lambda>_. finish_tuning) ?s2"
      using False ok ch fr by (auto simp: on_connection_tune_def op_simps tune_dict int_field_def finish_tuning_def)
    also have "\<dots> = finish_tuning ((fst s)\<lparr>connection_state := CONNECTION_TUNE, params := tuned a b h p\<rparr>, snd s)"
      by (rule andThen_done) (rule hb[OF False])
    finally show ?thesis using False by auto
  qed
qed

definition tune_ok_frame :: "parameters \<Rightarrow> frame" where
  "tune_ok_frame p = Method_Frame 0 (Connection_Class (Connection_TuneOk (PInt (channel_max p)) (PInt (frame_max p))
     (heartbeat_value (heartbeat p))))"

definition open_frame :: "parameters \<Rightarrow> frame" where
  "open_frame p = Method_Frame 0 (Connection_Class (Connection_Open (PStr (virtual_host p)) (PStr []) (PBool True)))"

definition sends :: "frame list \<Rightarrow> 'z conn \<Rightarrow> 'z conn \<Rightarrow> bool" where
  "sends fs s s' \<longleftrightarrow> (\<exists>bss. traverseE marshal fs = Inr bss \<and> emitted (fst s') = emitted (fst s) @ bss)"

lemma output_one_fields [simp]:
  "params (output_marshaled_frames [bs] w) = params w" "body_max_length (output_marshaled_frames [bs] w) = body_max_length w"
  by (simp_all add: output_marshaled_frames_def output_frame_def)

lemma send_cases:
  assumes "send_frame f s = (r, s')"
  shows "params (fst s') = params (fst s) \<and> body_max_length (fst s') = body_max_length (fst s)
    \<and> connection_state (fst s') = connection_state (fst s) \<and> (r = Inr () \<longrightarrow> sends [f] s s') \<and> (r \<noteq> Inr () \<longrightarrow> s' = s)"
  using assms send_frame_only[where f = f and s = s]
  by (cases r) (auto simp: sends_def simp del: marshal.simps)

lemma sends_trans: "\<lbrakk>sends fs s s1; sends gs s1 s2\<rbrakk> \<Longrightarrow> sends (fs @ gs) s s2"
  by (auto simp: sends_def traverseE_append simp del: traverseE.simps)

lemma finish_tuning_result:
  assumes "finish_tuning s = (r, s')"
  defines "p \<equiv> params (fst s)"
  shows "params (fst s') = p \<and> body_max_length (fst s') = Some (body_frame_max_length (frame_max p))
    \<and> connection_state (fst s') = connection_state (fst s) \<and> (r = Inr () \<longrightarrow> sends [tune_ok_frame p, open_frame p] s s')"
proof -
  let ?w = "(fst s)\<lparr>body_max_length := Some (body_frame_max_length (frame_max p))\<rparr>"
  obtain r1 hc t' where 1: "create_heartbeat_checker (heartbeat_seconds (heartbeat p)) (?w, snd s)
      = (r1, ?w\<lparr>heartbeat_checker := hc\<rparr>, t')"
    using create_heartbeat_checker_only[of _ "(?w, snd s)"] by force
  let ?s1 = "(?w\<lparr>heartbeat_checker := hc\<rparr>, t')"
  have r: "finish_tuning s = andThen (create_heartbeat_checker (heartbeat_seconds (heartbeat p)))
      (\<lambda>_. andThen send_connection_tune_ok (\<lambda>_. send_connection_open)) (?w, snd s)"
    by (simp add: finish_tuning_def op_simps p_def)
  show ?thesis
  proof (cases r1)
    case (Inl e)
    with r 1 assms(1) have "s' = ?s1" "r = Inl e" by (simp_all add: andThen_def)
    then show ?thesis by (simp add: p_def)
  next
    case (Inr u)
    have p1: "params (fst ?s1) = p" by (simp add: p_def)
    obtain r2 s2 where 2: "send_frame (tune_ok_frame p) ?s1 = (r2, s2)" by (metis surj_pair)
    note c2 = send_cases[OF 2]
    have t: "send_connection_tune_ok ?s1 = (r2, s2)"
      using 2 p1 by (simp add: send_connection_tune_ok_def op_simps conn_send_method_def tune_ok_frame_def)
    show ?thesis
    proof (cases r2)
      case (Inl e)
      with r 1 Inr t assms(1) have "s' = s2" "r = Inl e" by (simp_all add: andThen_def)
      with c2 p1 show ?thesis by simp
    next
      case (Inr u2)
      let ?s3 = "((fst s2)\<lparr>callback_stack := add (py_str 0) ''Connection.OpenOk'' On_connection_open_ok True None None (callback_stack (fst s2))\<rparr>, snd s2)"
      obtain r4 s4 where 4: "send_frame (open_frame p) ?s3 = (r4, s4)" by (metis surj_pair)
      note c4 = send_cases[OF 4]
      have "send_connection_open s2 = (r4, s4)"
        using 4 c2 p1 by (simp add: send_connection_open_def op_simps conn_rpc_def conn_send_method_def open_frame_def andThen_def act_simps)
      with r 1 \<open>r1 = Inr u\<close> t Inr assms(1) have e: "s' = s4" "r = r4" by (simp_all add: andThen_def)
      have "sends [tune_ok_frame p] s s2" using c2 Inr by (simp add: sends_def)
      moreover have "r4 = Inr () \<longrightarrow> sends [open_frame p] s2 s4" using c4 by (simp add: sends_def)
      ultimately have "r4 = Inr () \<longrightarrow> sends [tune_ok_frame p, open_frame p] s s4"
        using sends_trans[of "[tune_ok_frame p]" s s2 "[open_frame p]" s4] by simp
      with e c2 c4 p1 show ?thesis by simp
    qed
  qed
qed

text \<open>
  C19 (functional). Tuning, for any proposal of the broker and a heartbeat setting that is no
  callback: afterwards the connection's limits are the smaller of both sides (a broker's zero
  leaves the client's), the client's heartbeat takes precedence, a body frame of the maximal
  length fits the frame limit, and what was agreed has been answered and the virtual host
  requested, in this order. A frame limit below the minimum of AMQP raises \<open>ValueError\<close>: then
  nothing is answered, and the connection stays in TUNE.
\<close>

theorem tuning_negotiates:
  assumes "params_ok p" "params (fst s) = p" "0 \<le> a" "a \<le> MAX_CHANNELS" "0 \<le> b" "0 \<le> h"
    "\<forall>f. heartbeat p \<noteq> Some (Heartbeat_callback f)"
    "on_connection_tune A (tune_method a b h) s = (r, s')"
  shows "connection_state (fst s') = CONNECTION_TUNE
    \<and> (if 0 < b \<and> b < FRAME_MIN_SIZE
       then r = Inl (Python_Error ValueError) \<and> emitted (fst s') = emitted (fst s)
       else params_ok (params (fst s')) \<and> params (fst s') = tuned a b h p
         \<and> body_max_length (fst s') = Some (frame_max (params (fst s')) - 8)
         \<and> (r = Inr () \<longrightarrow> sends [tune_ok_frame (tuned a b h p), open_frame p] s s'))"
proof (cases "0 < b \<and> b < FRAME_MIN_SIZE")
  case True
  with assms show ?thesis by (auto simp: tune_eq)
next
  case False
  let ?s = "((fst s)\<lparr>connection_state := CONNECTION_TUNE, params := tuned a b h p\<rparr>, snd s)"
  have "finish_tuning ?s = (r, s')" using assms False by (auto simp: tune_eq)
  note f = finish_tuning_result[OF this]
  have "params_ok (tuned a b h p)"
    using assms(1-7) False by (auto simp: params_ok_def tuned_def FRAME_MIN_SIZE_def split: option.splits)
  moreover have "open_frame (tuned a b h p) = open_frame p" by (simp add: open_frame_def tuned_def)
  ultimately show ?thesis
    using f False by (auto simp: body_frame_max_length_def FRAME_HEADER_SIZE_def FRAME_END_SIZE_def sends_def)
qed

definition passive_app :: "'z application" where
  "passive_app = \<lparr>react = \<lambda>_ _. ret (), choose_heartbeat = \<lambda>_ v. ret (Value v)\<rparr>"

lemma tuning_negotiates_witness:
  "\<exists>r s'. on_connection_tune passive_app (tune_method 10 8192 60) (blank_connection [] new_Parameters) = (r, s')
    \<and> channel_max (params (fst s')) = 10 \<and> frame_max (params (fst s')) = 8192 \<and> heartbeat (params (fst s')) = Some (Seconds 60)"
proof -
  obtain r s' where r: "on_connection_tune passive_app (tune_method 10 8192 60) (blank_connection [] new_Parameters) = (r, s')"
    by (metis surj_pair)
  have p: "params (fst (blank_connection [] new_Parameters)) = new_Parameters" by (simp add: blank_connection_def)
  from tuning_negotiates[where a = 10 and b = 8192 and h = 60, OF new_Parameters_ok p _ _ _ _ _ r] r show ?thesis
    by (auto simp: new_Parameters_def tuned_def MAX_CHANNELS_def FRAME_MIN_SIZE_def FRAME_MAX_SIZE_def)
qed

section \<open>The end of the stream\<close>

text \<open>Registrations that answer every event: kept, without arguments, for every caller or for this one.\<close>

definition plain_entries :: "nat \<Rightarrow> handler entry list \<Rightarrow> nat list \<Rightarrow> bool" where
  "plain_entries caller es cbs \<longleftrightarrow> es \<noteq> [] \<and> map callback es = map Application cbs
     \<and> list_all (\<lambda>e. \<not> one_shot e \<and> arguments e = None \<and> only_caller e \<in> {None, Some caller}) es"

lemma process_plain:
  assumes "list_all (\<lambda>e. \<not> one_shot e \<and> arguments e = None \<and> only_caller e \<in> {None, Some caller}) es"
  shows "process_entries p k caller arg es st = (map callback es, st)"
  using assms by (induction es) (auto simp: should_process_def)

lemma entries_remove_none:
  assumes "k' \<noteq> k"
  shows "entries p k' (snd (remove_cb p k None None st)) = entries p k' st"
proof (cases "entries p k st")
  case None
  then show ?thesis by (simp add: remove_cb_def)
next
  case (Some es)
  then have "map_of st p \<noteq> None" by (auto simp: entries_def split: option.splits)
  with Some assms show ?thesis by (simp add: remove_cb_def entries_cleanup)
qed

lemma remove_callbacks_log:
  "\<exists>st. remove_callbacks names s = (Inr (), ((fst s)\<lparr>callback_stack := st\<rparr>, snd s))
    \<and> (\<forall>k. k \<notin> set names \<longrightarrow> entries (py_str 0) k st = entries (py_str 0) k (callback_stack (fst s)))"
proof (induction names arbitrary: s)
  case Nil
  have "s = ((fst s)\<lparr>callback_stack := callback_stack (fst s)\<rparr>, snd s)" by simp
  then have "remove_callbacks [] s = (Inr (), ((fst s)\<lparr>callback_stack := callback_stack (fst s)\<rparr>, snd s))"
    by (simp add: remove_callbacks_def op_simps)
  then show ?case by blast
next
  case (Cons name names)
  let ?s = "((fst s)\<lparr>callback_stack := snd (remove_cb (py_str 0) name None None (callback_stack (fst s)))\<rparr>, snd s)"
  from Cons.IH[of ?s] obtain st where st: "remove_callbacks names ?s = (Inr (), ((fst ?s)\<lparr>callback_stack := st\<rparr>, snd ?s))"
    "\<forall>k. k \<notin> set names \<longrightarrow> entries (py_str 0) k st = entries (py_str 0) k (callback_stack (fst ?s))" by blast
  have "remove_callbacks (name # names) s = remove_callbacks names ?s"
    by (simp add: remove_callbacks_def op_simps)
  with st show ?case by (auto simp: entries_remove_none intro!: exI[of _ st])
qed

text \<open>An application whose callbacks return and leave the record of calls alone.\<close>

definition polite :: "'z application \<Rightarrow> bool" where
  "polite A \<longleftrightarrow> (\<forall>cb n s. \<exists>s'. react A cb n s = (Inr (), s') \<and> user_log (fst s') = user_log (fst s))"

lemma call_all_polite:
  assumes "polite A"
  shows "\<exists>s'. sequence (map (call_event A n) (map Application cbs)) s = (Inr (), s')
    \<and> user_log (fst s') = user_log (fst s) @ map (\<lambda>cb. (cb, n)) cbs"
proof (induction cbs arbitrary: s)
  case (Cons cb cbs)
  let ?s = "((fst s)\<lparr>user_log := user_log (fst s) @ [(cb, n)]\<rparr>, snd s)"
  obtain s1 where s1: "react A cb n ?s = (Inr (), s1)" "user_log (fst s1) = user_log (fst ?s)"
    using assms unfolding polite_def by blast
  from Cons.IH[of s1] obtain s2 where "sequence (map (call_event A n) (map Application cbs)) s1 = (Inr (), s2)"
    "user_log (fst s2) = user_log (fst s1) @ map (\<lambda>cb. (cb, n)) cbs" by blast
  moreover have "call_event A n (Application cb) s = (Inr (), s1)"
    using s1 by (simp add: call_event_def call_app_def op_simps)
  then have "sequence (map (call_event A n) (map Application (cb # cbs))) s
      = sequence (map (call_event A n) (map Application cbs)) s1"
    by (simp add: andThen_done)
  ultimately have "sequence (map (call_event A n) (map Application (cb # cbs))) s = (Inr (), s2)" by simp
  moreover have "user_log (fst s2) = user_log (fst s) @ map (\<lambda>cb. (cb, n)) (cb # cbs)"
    using s1 \<open>user_log (fst s2) = _\<close> by simp
  ultimately show ?case by blast
qed (simp add: op_simps)

lemma dispatch_plain:
  assumes "polite A" "entries (py_str n) k (callback_stack (fst s)) = Some es" "plain_entries caller es cbs"
  shows "\<exists>s'. dispatch n k caller arg (call_event A no) s = (Inr True, s')
    \<and> user_log (fst s') = user_log (fst s) @ map (\<lambda>cb. (cb, no)) cbs"
proof -
  have p: "process_event (py_str n) k caller arg (callback_stack (fst s)) = (True, map Application cbs, callback_stack (fst s))"
    using assms(2,3) by (simp add: process_event_def process_plain plain_entries_def)
  obtain s' where "sequence (map (call_event A no) (map Application cbs)) s = (Inr (), s')"
    "user_log (fst s') = user_log (fst s) @ map (\<lambda>cb. (cb, no)) cbs" using call_all_polite[OF assms(1)] by blast
  then show ?thesis by (simp add: dispatch_def p op_simps andThen_def)
qed

text \<open>What touches the endpoint but not the record of calls.\<close>

definition same_log :: "'z conn \<Rightarrow> 'z conn \<Rightarrow> bool" where
  "same_log s s' \<longleftrightarrow> user_log (fst s') = user_log (fst s)"

interpretation silent: op_relation "\<lambda>_. True" same_log
  by unfold_locales (simp_all add: same_log_def)

lemma same_log_basic:
  "holds (\<lambda>_. True) same_log (add_callback n key h once caller args)"
  "holds (\<lambda>_. True) same_log (adapter_remove_timeout i)"
  by (auto simp: holds_def same_log_def op_simps adapter_remove_timeout_def)

lemma same_log_change: "(\<And>w. user_log (f w) = user_log w) \<Longrightarrow> holds (\<lambda>_. True) same_log (change f)"
  by (simp add: holds_def same_log_def op_simps)

lemma same_log_init: "holds (\<lambda>_. True) same_log init_connection_state"
  unfolding init_connection_state_def add_connection_start_callback_def drop_blocked_timer_def
    add_blocked_callback_def add_unblocked_callback_def fresh_partial_def
  by (intro op_intros same_log_basic same_log_change) (simp_all add: wipe_def)

lemma remove_heartbeat_only:
  "remove_heartbeat s = (Inr (), (fst s)\<lparr>heartbeat_checker := None\<rparr>, without_heartbeat (fst s) (snd s))"
  by (metis prod.collapse remove_heartbeat_eq)

lemma init_connection_state_done:
  "\<exists>s'. init_connection_state s = (Inr (), s') \<and> connection_state (fst s') = CONNECTION_CLOSED
    \<and> user_log (fst s') = user_log (fst s)"
  unfolding init_connection_state_def add_connection_start_callback_def drop_blocked_timer_def
    add_blocked_callback_def add_unblocked_callback_def fresh_partial_def wipe_def
  by (cases "blocked_conn_timer (fst s)"; cases "blocked_connection_timeout (params (fst s))")
    (simp_all add: op_simps andThen_assoc)

lemma remove_callbacks_eq:
  obtains st where "\<And>f. andThen (remove_callbacks names) f s = f () ((fst s)\<lparr>callback_stack := st\<rparr>, snd s)"
    and "\<And>k. k \<notin> set names \<Longrightarrow> entries (py_str 0) k st = entries (py_str 0) k (callback_stack (fst s))"
proof -
  obtain st where st: "remove_callbacks names s = (Inr (), ((fst s)\<lparr>callback_stack := st\<rparr>, snd s))"
    "\<forall>k. k \<notin> set names \<longrightarrow> entries (py_str 0) k st = entries (py_str 0) k (callback_stack (fst s))"
    using remove_callbacks_log by blast
  show ?thesis by (rule that[of st]) (use st in \<open>simp_all add: andThen_def\<close>)
qed

definition told :: "'z conn \<Rightarrow> exn \<Rightarrow> string \<times> (exn \<Rightarrow> notice)" where
  "told s e = (if opened (fst s) then (''_on_connection_closed'', Connection_Closed)
     else (''_on_connection_error'', \<lambda>e. Connection_Failed (opening_error (connection_state (fst s)) e)))"

lemma ret_bind: "andThen (ret x) k = k x"
  by (simp add: fun_eq_iff op_simps)

lemma error_first:
  fixes w :: "'z endpoint_scheme"
  shows "w\<lparr>connection_state := a, conn_error := b\<rparr> = w\<lparr>conn_error := b, connection_state := a\<rparr>"
    "w\<lparr>callback_stack := c, conn_error := b\<rparr> = w\<lparr>conn_error := b, callback_stack := c\<rparr>"
    "w\<lparr>heartbeat_checker := d, conn_error := b\<rparr> = w\<lparr>conn_error := b, heartbeat_checker := d\<rparr>"
  by simp_all

lemma stream_terminated_eq:
  assumes "channels (fst s) = []"
  shows "\<exists>s1. on_stream_terminated A (Some e) s
      = andThen (dispatch 0 (fst (told s e)) 0 (Some (Arg_Object [])) (call_event A (snd (told s e) e)))
          (\<lambda>_. init_connection_state) s1
    \<and> user_log (fst s1) = user_log (fst s)
    \<and> entries (py_str 0) (fst (told s e)) (callback_stack (fst s1)) = entries (py_str 0) (fst (told s e)) (callback_stack (fst s))"
proof -
  let ?s1 = "((fst s)\<lparr>conn_error := Some e, heartbeat_checker := None\<rparr>,
    without_heartbeat ((fst s)\<lparr>conn_error := Some e\<rparr>) (snd s))"
  let ?names = "[''Connection.Close'', ''Connection.Start'']" and ?more = "[''Connection.Blocked'', ''Connection.Unblocked'']"
  obtain st where st: "\<And>f :: unit \<Rightarrow> (_, unit) op. andThen (remove_callbacks ?names) f ?s1 = f () ((fst ?s1)\<lparr>callback_stack := st\<rparr>, snd ?s1)"
    "\<And>k. k \<notin> set ?names \<Longrightarrow> entries (py_str 0) k st = entries (py_str 0) k (callback_stack (fst ?s1))"
    by (rule remove_callbacks_eq[of ?names ?s1]) (rule that, assumption+)
  let ?s2 = "((fst ?s1)\<lparr>callback_stack := st\<rparr>, snd ?s1)"
  obtain st' where st': "\<And>f :: unit \<Rightarrow> (_, unit) op. andThen (remove_callbacks ?more) f ?s2 = f () ((fst ?s2)\<lparr>callback_stack := st'\<rparr>, snd ?s2)"
    "\<And>k. k \<notin> set ?more \<Longrightarrow> entries (py_str 0) k st' = entries (py_str 0) k (callback_stack (fst ?s2))"
    by (rule remove_callbacks_eq[of ?more ?s2]) (rule that, assumption+)
  let ?st = "if blocked_connection_timeout (params (fst s)) = None then st else st'"
  let ?k = "fst (told s e)"
  let ?s3 = "((fst ?s1)\<lparr>callback_stack := ?st, connection_state := CONNECTION_CLOSED,
    conn_error := Some (if opened (fst s) then e else opening_error (connection_state (fst s)) e)\<rparr>, snd ?s1)"
  have k: "entries (py_str 0) ?k ?st = entries (py_str 0) ?k (callback_stack (fst s))"
    using st(2)[of ?k] st'(2)[of ?k] by (auto simp: told_def split: if_splits)
  have "on_stream_terminated A (Some e) s
      = andThen (dispatch 0 ?k 0 (Some (Arg_Object [])) (call_event A (snd (told s e) e))) (\<lambda>_. init_connection_state) ?s3"
    using assms
    by (simp add: on_stream_terminated_def op_simps andThen_done[OF remove_heartbeat_only] st(1)[simplified] st'(1)[simplified] told_def
        andThen_assoc ret_bind error_first error_first set_connection_state_eq)
  with k show ?thesis by (intro exI[of _ ?s3]) simp
qed


text \<open>A connection that is closed before it has been opened, with one callback for each event.\<close>

lemma new_connection_entries:
  defines "w \<equiv> fst (new_connection [] new_Parameters (Some 1) (Some 2) (Some 3))"
  shows "\<exists>es. entries (py_str 0) ''_on_connection_error'' (callback_stack w) = Some es \<and> plain_entries 0 es [2]"
    "opened w = False" "channels w = []" "user_log w = []" "connection_state w = CONNECTION_INIT"
  by (simp_all add: w_def new_connection_def connection_init_def init_connection_state_def blank_connection_def op_simps
      add_connection_start_callback_def add_conn_callback_def conn_add_on_open_callback_def conn_add_on_close_callback_def
      set_connection_state_def wipe_def new_Parameters_def andThen_assoc stack_simps entries_def[of _ _ "[]"] add_def new_entry_def same_registration_def new_stack_def plain_entries_def)


end
