(* ===== verification/System.thy ===== *)
theory System
  imports Lifecycle
begin

text \<open>
  A connection over time: the calls an application can make, \<open>api_call\<close>, and the events that
  drive it, \<open>conn_event\<close> with \<open>conn_step\<close>. What an application callback does is a sequence of
  calls; the locale \<open>op_relation\<close> carries a relation between states from the primitive actions to
  every operation, and is instantiated with the relations the properties need.
\<close>

section \<open>Calls\<close>

datatype api_call =
  Add_callback nat nat "reply list" bool | Add_on_cancel nat nat | Add_on_close nat nat | Add_on_flow nat nat
| Add_on_return nat nat | Ack nat pyval pyval | Nack nat pyval pyval pyval | Reject nat pyval pyval
| Cancel nat pyval "nat option" | Consume nat pyval nat pyval pyval pyval pyval "nat option" pyval
| Get nat pyval nat pyval | Publish nat pyval pyval pyval "basic_properties option" pyval
| Qos nat pyval pyval pyval "nat option" | Recover nat pyval "nat option" | Confirm nat nat "nat option"
| Bind_exchange nat pyval pyval pyval pyval "nat option"
| Declare_exchange nat pyval "exchange_type + pyval" pyval pyval pyval pyval pyval "nat option"
| Delete_exchange nat pyval pyval "nat option" | Unbind_exchange nat pyval pyval pyval pyval "nat option"
| Flow nat pyval "nat option" | Bind_queue nat pyval pyval pyval pyval "nat option"
| Declare_queue nat pyval pyval pyval pyval pyval pyval "nat option"
| Delete_queue nat pyval pyval pyval "nat option" | Purge_queue nat pyval "nat option"
| Unbind_queue nat pyval pyval pyval pyval "nat option"
| Commit nat "nat option" | Rollback nat "nat option" | Select_tx nat "nat option"
| Close_channel nat pyval pyval
| Open_channel "int option" "nat option" | Update_secret pyval pyval "nat option" | Close_connection pyval pyval
| Conn_on_open nat | Conn_on_close nat | Conn_on_open_error nat bool | Conn_on_blocked nat | Conn_on_unblocked nat

fun call_act :: "api_call \<Rightarrow> ('z, unit) op" where
  "call_act (Add_callback c cb replies once) = add_callback_for c cb replies once"
| "call_act (Add_on_cancel c cb) = add_on_cancel_callback c cb"
| "call_act (Add_on_close c cb) = add_on_close_callback c cb"
| "call_act (Add_on_flow c cb) = add_on_flow_callback c cb"
| "call_act (Add_on_return c cb) = add_on_return_callback c cb"
| "call_act (Ack c t m) = basic_ack c t m"
| "call_act (Nack c t m r) = basic_nack c t m r"
| "call_act (Reject c t r) = basic_reject c t r"
| "call_act (Cancel c tag cb) = basic_cancel c tag cb"
| "call_act (Consume c q f auto_ack ex tag args cb g) =
     andThen (basic_consume c q f auto_ack ex tag args cb g) (\<lambda>_. ret ())"
| "call_act (Get c q f auto_ack) = basic_get c q f auto_ack"
| "call_act (Publish c ex key body props mandatory) = basic_publish c ex key body props mandatory"
| "call_act (Qos c sz n g cb) = basic_qos c sz n g cb"
| "call_act (Recover c r cb) = basic_recover c r cb"
| "call_act (Confirm c f cb) = confirm_delivery c f cb"
| "call_act (Bind_exchange c d src key args cb) = exchange_bind c d src key args cb"
| "call_act (Declare_exchange c ex ty p d a i args cb) = exchange_declare c ex ty p d a i args cb"
| "call_act (Delete_exchange c ex u cb) = exchange_delete c ex u cb"
| "call_act (Unbind_exchange c d src key args cb) = exchange_unbind c d src key args cb"
| "call_act (Flow c active cb) = flow c active cb"
| "call_act (Bind_queue c q ex key args cb) = queue_bind c q ex key args cb"
| "call_act (Declare_queue c q p d ex a args cb) = queue_declare c q p d ex a args cb"
| "call_act (Delete_queue c q u e cb) = queue_delete c q u e cb"
| "call_act (Purge_queue c q cb) = queue_purge c q cb"
| "call_act (Unbind_queue c q ex key args cb) = queue_unbind c q ex key args cb"
| "call_act (Commit c cb) = tx_commit c cb"
| "call_act (Rollback c cb) = tx_rollback c cb"
| "call_act (Select_tx c cb) = tx_select c cb"
| "call_act (Close_channel c code txt) = close_channel c code txt"
| "call_act (Open_channel n cb) = andThen (conn_channel n cb) (\<lambda>_. ret ())"
| "call_act (Update_secret x y cb) = update_secret x y cb"
| "call_act (Close_connection code txt) = conn_close code txt"
| "call_act (Conn_on_open cb) = conn_add_on_open_callback cb"
| "call_act (Conn_on_close cb) = conn_add_on_close_callback cb"
| "call_act (Conn_on_open_error cb rd) = conn_add_on_open_error_callback cb rd"
| "call_act (Conn_on_blocked cb) = conn_add_on_blocked_callback cb"
| "call_act (Conn_on_unblocked cb) = conn_add_on_unblocked_callback cb"

text \<open>The channel a call is made on.\<close>

fun call_channel :: "api_call \<Rightarrow> nat option" where
  "call_channel (Add_callback c _ _ _) = Some c" | "call_channel (Add_on_cancel c _) = Some c"
| "call_channel (Add_on_close c _) = Some c" | "call_channel (Add_on_flow c _) = Some c"
| "call_channel (Add_on_return c _) = Some c" | "call_channel (Ack c _ _) = Some c"
| "call_channel (Nack c _ _ _) = Some c" | "call_channel (Reject c _ _) = Some c"
| "call_channel (Cancel c _ _) = Some c" | "call_channel (Consume c _ _ _ _ _ _ _ _) = Some c"
| "call_channel (Get c _ _ _) = Some c" | "call_channel (Publish c _ _ _ _ _) = Some c"
| "call_channel (Qos c _ _ _ _) = Some c" | "call_channel (Recover c _ _) = Some c"
| "call_channel (Confirm c _ _) = Some c" | "call_channel (Bind_exchange c _ _ _ _ _) = Some c"
| "call_channel (Declare_exchange c _ _ _ _ _ _ _ _) = Some c" | "call_channel (Delete_exchange c _ _ _) = Some c"
| "call_channel (Unbind_exchange c _ _ _ _ _) = Some c" | "call_channel (Flow c _ _) = Some c"
| "call_channel (Bind_queue c _ _ _ _ _) = Some c" | "call_channel (Declare_queue c _ _ _ _ _ _ _) = Some c"
| "call_channel (Delete_queue c _ _ _ _) = Some c" | "call_channel (Purge_queue c _ _) = Some c"
| "call_channel (Unbind_queue c _ _ _ _ _) = Some c" | "call_channel (Commit c _) = Some c"
| "call_channel (Rollback c _) = Some c" | "call_channel (Select_tx c _) = Some c"
| "call_channel (Close_channel c _ _) = Some c"
| "call_channel _ = None"

text \<open>An application has the channels that have been made.\<close>

definition made :: "api_call \<Rightarrow> 'z conn \<Rightarrow> bool" where
  "made x s \<longleftrightarrow> (case call_channel x of None \<Rightarrow> True | Some c \<Rightarrow> c < length (objects (fst s)))"

section \<open>Applications\<close>

inductive calls_to :: "'z conn \<Rightarrow> 'z conn \<Rightarrow> bool" where
  calls_refl: "calls_to s s"
| calls_step: "\<lbrakk>calls_to s s'; made x s'\<rbrakk> \<Longrightarrow> calls_to s (snd (call_act x s'))"

definition well_behaved :: "'z application \<Rightarrow> bool" where
  "well_behaved A \<longleftrightarrow> (\<forall>cb n s. calls_to s (snd (react A cb n s))) \<and> (\<forall>f v s. calls_to s (snd (choose_heartbeat A f v s)))"

section \<open>Events\<close>

datatype conn_event = Input bytes | Stream_up | Stream_down "exn option" | Io_round | Time nat | Call api_call

definition io_round :: "'z conn \<Rightarrow> 'z conn" where
  "io_round s = snd (snd (process_timeouts perform (clock (fst s)) s))"

text \<open>
  Data come in over an established stream; the stream comes up once, and its end is reported once.
\<close>

fun conn_step :: "'z application \<Rightarrow> conn_event \<Rightarrow> 'z conn \<Rightarrow> 'z conn option" where
  "conn_step A (Input data_in) s =
     (if connection_state (fst s) \<in> {CONNECTION_CLOSED, CONNECTION_INIT} then None
      else Some (snd (data_available A data_in s)))"
| "conn_step A Stream_up s =
     (if connection_state (fst s) = CONNECTION_INIT then Some (snd (on_stream_connected s)) else None)"
| "conn_step A (Stream_down e) s =
     (if connection_state (fst s) = CONNECTION_CLOSED then None else Some (snd (on_stream_terminated A e s)))"
| "conn_step A Io_round s = Some (io_round s)"
| "conn_step A (Time d) s = Some (snd (change (\<lambda>w. w\<lparr>clock := clock w + int d\<rparr>) s))"
| "conn_step A (Call x) s = (if made x s then Some (snd (call_act x s)) else None)"

section \<open>A closed channel\<close>

text \<open>The calls that the channel answers in every state: registrations, and \<open>basic_get\<close>.\<close>

fun unguarded :: "api_call \<Rightarrow> bool" where
  "unguarded (Add_callback _ _ _ _) = True" | "unguarded (Add_on_cancel _ _) = True"
| "unguarded (Add_on_close _ _) = True" | "unguarded (Add_on_flow _ _) = True"
| "unguarded (Add_on_return _ _) = True" | "unguarded (Get _ _ _ _) = True"
| "unguarded _ = False"

lemma not_open [op_simps]:
  assumes "chan_state (objects (fst s) ! c) \<noteq> OPEN"
  shows "andThen (raise_if_not_open c) k s = (Inl ChannelWrongStateError, s)"
    "raise_if_not_open c s = (Inl ChannelWrongStateError, s)"
  using assms by (simp_all add: raise_if_not_open_def andThen_assoc op_simps)

lemma andThen_string_arg [op_simps]:
  "andThen (string_arg v) k s = (case v of PStr w \<Rightarrow> k () s | _ \<Rightarrow> (Inl (Python_Error TypeError), s))"
  by (simp add: string_arg_def op_simps split: pyval.split)

lemma close_channel_inert:
  "chan_state (objects (fst s) ! c) \<in> {CLOSING, CLOSED} \<Longrightarrow> close_channel c code txt s = (Inl ChannelWrongStateError, s)"
  by (auto simp: close_channel_def op_simps)

lemma andThen_unless_error [op_simps]:
  "andThen (query q) k s = k (q s) s"
  "andThen (unless_error v) k s = (case v of Inl e \<Rightarrow> (Inl (Python_Error e), s) | Inr x \<Rightarrow> k x s)"
  by (simp_all add: andThen_def unless_error_def op_simps split: sum.split)

text \<open>
  On a channel that is closing or closed every call, except registering a callback
  and \<open>basic_get\<close>, raises and changes nothing: nothing is sent, queued, or registered.
\<close>

theorem closed_channel_inert:
  assumes "call_channel x = Some c" "\<not> unguarded x" "chan_state (objects (fst s) ! c) \<in> {CLOSING, CLOSED}"
  shows "call_act x s = (Inl ChannelWrongStateError, s) \<or> call_act x s = (Inl (Python_Error TypeError), s)"
proof -
  have "chan_state (objects (fst s) ! c) \<noteq> OPEN" using assms(3) by auto
  then show ?thesis using assms
  by (cases x)
     (simp_all add: op_simps basic_ack_def basic_nack_def basic_reject_def basic_cancel_def basic_consume_def
    basic_publish_def basic_qos_def basic_recover_def confirm_delivery_def exchange_bind_def exchange_declare_def 
    exchange_delete_def exchange_unbind_def flow_def queue_bind_def queue_declare_def queue_delete_def
    queue_purge_def queue_unbind_def tx_commit_def tx_rollback_def tx_select_def close_channel_inert andThen_assoc split: pyval.split)
qed

text \<open>A connection that is open, with a channel that has been closed.\<close>

definition closed_endpoint :: "unit conn" where
  "closed_endpoint = ((fst (blank_connection [] new_Parameters))\<lparr>connection_state := CONNECTION_OPEN,
     objects := [(new_channel 1 None)\<lparr>chan_state := CLOSED\<rparr>]\<rparr>, new_timer)"

lemma closed_channel_inert_witness:
  "call_act (Publish 0 (PStr []) (PStr []) (PBytes []) None (PBool False)) closed_endpoint = (Inl ChannelWrongStateError, closed_endpoint)
   \<or> call_act (Publish 0 (PStr []) (PStr []) (PBytes []) None (PBool False)) closed_endpoint = (Inl (Python_Error TypeError), closed_endpoint)"
  by (rule closed_channel_inert[where c = 0]) (simp_all add: closed_endpoint_def)

text \<open>
  \<open>basic_get\<close> is not guarded: on a closed channel of an open connection it sends
  Basic.Get under the number of the channel, which the broker no longer knows.
\<close>

theorem closed_channel_gets:
  assumes "chan_state (objects (fst s) ! c) = CLOSED" "on_getok_callback (objects (fst s) ! c) = None"
    "c < length (objects (fst s))" "connection_state (fst s) \<noteq> CONNECTION_CLOSED"
    "marshal (Method_Frame (channel_number (objects (fst s) ! c))
       (Basic_Class (Basic_Get (PInt 0) (PStr q) auto_ack))) = Inr bs"
  shows "\<exists>s'. call_act (Get c (PStr q) cb auto_ack) s = (Inr (), s') \<and> emitted (fst s') = emitted (fst s) @ [bs]"
  using assms
  by (simp add: basic_get_def op_simps chan_send_def conn_send_method_def send_frame_def andThen_assoc del: marshal.simps)

lemma closed_channel_gets_witness:
  "\<exists>s'. call_act (Get 0 (PStr []) 7 (PBool False)) closed_endpoint = (Inr (), s') \<and> emitted (fst s') \<noteq> []"
proof -
  have "case marshal (Method_Frame 1 (Basic_Class (Basic_Get (PInt 0) (PStr []) (PBool False)))) of Inl _ \<Rightarrow> False | Inr _ \<Rightarrow> True"
    by code_simp
  then obtain bs where "marshal (Method_Frame 1 (Basic_Class (Basic_Get (PInt 0) (PStr []) (PBool False)))) = Inr bs"
    by (auto split: sum.splits)
  with closed_channel_gets[of closed_endpoint 0 "[]" "PBool False" bs 7] show ?thesis
    by (auto simp: closed_endpoint_def blank_connection_def new_channel_def simp del: marshal.simps)
qed

end
