(* ===== verification/Evolution.thy ===== *)
theory Evolution
  imports System
begin

text \<open>
  Every call and every event as a sequence of small steps. A small step sends one frame, calls the
  application once, touches one channel object or the dict of channels, sets the parameters, or
  leaves these alone. What extends the state, the fields of a layer on top of the connection, may
  change by the relation \<open>E\<close>. That each operation is such a sequence is proved once, with the rules
  of \<open>op_relation\<close>; invariants then follow by induction over the small steps.
\<close>

section \<open>Small steps\<close>

inductive small_step :: "('z endpoint_scheme \<Rightarrow> 'z endpoint_scheme \<Rightarrow> bool) \<Rightarrow> 'z conn \<Rightarrow> 'z conn \<Rightarrow> bool" for E where
  quiet: "\<lbrakk>emitted w' = emitted w; params w' = params w; channels w' = channels w; objects w' = objects w;
     user_log w' = user_log w; endpoint.more w' = endpoint.more w \<or> E w w'\<rbrakk> \<Longrightarrow> small_step E (w, t) (w', t')"
| sending: "marshal f = Inr bs \<Longrightarrow> small_step E (w, t) (output_marshaled_frames [bs] w, t)"
| telling: "small_step E (w, t) (w\<lparr>user_log := user_log w @ [(cb, n)]\<rparr>, t)"
| touching: "channel_number ch = channel_number (objects w ! c)
    \<Longrightarrow> small_step E (w, t) (w\<lparr>objects := (objects w)[c := ch]\<rparr>, t)"
| registering: "small_step E (w, t) (w\<lparr>objects := objects w @ [new_channel n on_open],
    channels := dict_set n (length (objects w)) (channels w)\<rparr>, t)"
| forgetting: "small_step E (w, t) (w\<lparr>channels := dict_del n (channels w)\<rparr>, t)"
| wiping: "small_step E (w, t) (w\<lparr>channels := []\<rparr>, t)"
| setting: "(params_ok (params w) \<Longrightarrow> params_ok p) \<Longrightarrow> small_step E (w, t) (w\<lparr>params := p\<rparr>, t)"

abbreviation small :: "('z endpoint_scheme \<Rightarrow> 'z endpoint_scheme \<Rightarrow> bool) \<Rightarrow> ('z, 'a) op \<Rightarrow> bool" where
  "small E \<equiv> holds (\<lambda>_. True) (small_step E)\<^sup>*\<^sup>*"

interpretation steps: op_relation "\<lambda>_. True" "(small_step E)\<^sup>*\<^sup>*" for E
  by unfold_locales (auto intro: rtranclp_trans)

named_theorems small_intros \<open>operations that are sequences of small steps\<close>

lemma small_change:
  "(\<And>w. emitted (u w) = emitted w \<and> params (u w) = params w \<and> channels (u w) = channels w
     \<and> objects (u w) = objects w \<and> user_log (u w) = user_log w
     \<and> (endpoint.more (u w) = endpoint.more w \<or> E w (u w))) \<Longrightarrow> small E (change u)"
  by (rule steps.change_intro) (auto intro!: r_into_rtranclp quiet)

lemma small_timers [small_intros]: "small E (adapter_call_later d cb)" "small E (adapter_remove_timeout i)"
  by (auto simp: holds_def adapter_call_later_def adapter_remove_timeout_def split: sum.split
      intro!: r_into_rtranclp quiet)

lemma small_send_frame [small_intros]: "small E (send_frame f)"
  unfolding holds_def
proof (intro allI impI)
  fix s :: "'a conn"
  obtain w t where s: "s = (w, t)" by (metis surj_pair)
  show "(small_step E)\<^sup>*\<^sup>* s (snd (send_frame f s))"
  proof (cases "marshal f")
    case (Inl e)
    then show ?thesis by (auto simp: send_frame_def act_simps simp del: marshal.simps)
  next
    case (Inr bs)
    then have "snd (send_frame f s) = s \<or> snd (send_frame f s) = (output_marshaled_frames [bs] w, t)"
      unfolding s by (auto simp: send_frame_def act_simps change_def simp del: marshal.simps)
    then show ?thesis using sending[OF Inr, of _ w t] s by auto
  qed
qed

section \<open>Timers and the heartbeat\<close>

lemma small_heartbeat [small_intros]:
  "small E (attach c)" "small E (start_send_timer c)" "small E (start_check_timer c)" "small E (stop c)" "small E (send_heartbeat_frame c)"
  unfolding attach_def start_send_timer_def start_check_timer_def stop_def send_heartbeat_frame_def
  by (intro op_intros small_intros small_change; simp)+


lemma small_heartbeat_life [small_intros]:
  "small E remove_heartbeat" "small E (new_checker n)"
  unfolding remove_heartbeat_def new_checker_def
  by (intro op_intros small_intros small_change; simp)+

lemma small_heartbeat_ends [small_intros]: "small E (terminate_stream e)" "small E (create_heartbeat_checker h)" "small E (send_heartbeat c)"
    "small E (on_connection_blocked n)" "small E on_connection_unblocked"
  unfolding terminate_stream_def create_heartbeat_checker_def send_heartbeat_def on_connection_blocked_def on_connection_unblocked_def
  by (intro op_intros small_intros small_change; simp)+

lemma small_timeouts [small_intros]: "small E (check_heartbeat c)" "small E on_blocked_connection_timeout"
  unfolding check_heartbeat_def on_blocked_connection_timeout_def close_connection_def Let_def
  by (intro op_intros small_intros small_change; simp)+

lemma small_callback: "small E (callback_act cb)"
  by (cases cb) (simp_all, (intro op_intros small_intros)+)

lemma small_perform: "perform cb s = (e, s') \<Longrightarrow> (small_step E)\<^sup>*\<^sup>* s s'"
  using holdsD[OF small_callback[of _ cb], of s] by (auto simp: perform_def split: prod.splits sum.splits)

lemma small_timer_only: "(small_step E)\<^sup>*\<^sup>* (w, t) (w, t')"
  by (intro r_into_rtranclp quiet) simp_all

lemma small_call_ready: "call_ready perform ready s = (e, called, s') \<Longrightarrow> (small_step E)\<^sup>*\<^sup>* s s'"
proof (induction ready arbitrary: s e called s')
  case (Cons i ready)
  obtain w t where s: "s = (w, t)" by (metis surj_pair)
  show ?case
  proof (cases "action t i")
    case None
    with Cons.prems s have "call_ready perform ready (w, t\<lparr>num_cancellations := num_cancellations t - 1\<rparr>) = (e, called, s')"
      by simp
    from rtranclp_trans[OF small_timer_only Cons.IH[OF this]] s show ?thesis by simp
  next
    case (Some cb)
    obtain e1 w1 t1 where p: "perform cb (w, t) = (e1, w1, t1)" by (metis prod_cases3)
    note 1 = small_perform[OF p]
    show ?thesis
    proof (cases e1)
      case None
      obtain e2 c2 s2 where r: "call_ready perform ready (w1, t1\<lparr>action := (action t1)(i := None)\<rparr>) = (e2, c2, s2)"
        by (metis prod_cases3)
      from Cons.IH[OF r] small_timer_only have "(small_step E)\<^sup>*\<^sup>* (w1, t1) s2" by (rule rtranclp_trans[rotated])
      with 1 Cons.prems s Some p None r show ?thesis by (auto intro: rtranclp_trans)
    qed (use 1 Cons.prems s Some p in auto)
  qed
qed simp

lemma small_round: "(small_step E)\<^sup>*\<^sup>* s (io_round s)"
proof -
  obtain w t where s: "s = (w, t)" by (metis surj_pair)
  show ?thesis
  proof (cases "timeout_heap t = None \<or> timeout_heap t = Some []")
    case True
    with s show ?thesis by (auto simp: io_round_def process_timeouts_def)
  next
    case False
    then obtain heap where h: "timeout_heap t = Some heap" "heap \<noteq> []" by auto
    obtain ready t1 where o: "off_heap (clock w) t = (ready, t1)" by (metis surj_pair)
    obtain e c w2 t2 where r: "call_ready perform ready (w, t1) = (e, c, w2, t2)" by (metis prod_cases4)
    have "\<exists>t3. io_round s = (w2, t3)"
      by (simp add: io_round_def s process_timeouts_eq[OF h o] r split: option.split sum.split)
    with small_call_ready[OF r] s show ?thesis
      by (metis small_timer_only rtranclp_trans)
  qed
qed

section \<open>Sending and channels\<close>

lemma small_output: "traverseE marshal fs = Inr bs \<Longrightarrow> (small_step E)\<^sup>*\<^sup>* (w, t) (output_marshaled_frames bs w, t)"
proof (induction fs arbitrary: bs w)
  case (Cons f fs)
  then obtain b bs' where b: "marshal f = Inr b" "traverseE marshal fs = Inr bs'" "bs = b # bs'"
    by (cases "marshal f"; cases "traverseE marshal fs") (auto simp del: marshal.simps)
  have "small_step E (w, t) (output_marshaled_frames [b] w, t)" using b(1) by (rule sending)
  with Cons.IH[OF b(2)] b(3) show ?case
    by (auto simp: output_marshaled_frames_def intro: converse_rtranclp_into_rtranclp)
qed (auto simp: output_marshaled_frames_def)

lemma small_send_message [small_intros]: "small E (conn_send_message n m props body)"
  unfolding holds_def
proof (intro allI impI)
  fix s :: "'a conn"
  obtain w t where s: "s = (w, t)" by (metis surj_pair)
  show "(small_step E)\<^sup>*\<^sup>* s (snd (conn_send_message n m props body s))"
  proof (cases "body_max_length w")
    case None
    with s small_output[of "[Method_Frame n m, Header_Frame n (int (length body)) props]" _ E w t] show ?thesis
      by (auto simp: conn_send_message_def simp del: marshal.simps traverseE.simps split: sum.split)
  next
    case (Some k)
    show ?thesis
    proof (cases "send_message k n m props body w")
      case (Inl e)
      with s Some show ?thesis by (cases e) (simp_all add: conn_send_message_def)
    next
      case (Inr w')
      then obtain fs bs where "traverseE marshal fs = Inr bs" "w' = output_marshaled_frames bs w"
        by (rule send_message_frames)
      with s Some Inr small_output[of fs bs E w t] show ?thesis by (simp add: conn_send_message_def)
    qed
  qed
qed

lemma small_set_chan: "(\<And>ch. channel_number (f ch) = channel_number ch) \<Longrightarrow> small E (set_chan c f)"
  unfolding set_chan_def by (rule steps.change_intro) (auto intro!: r_into_rtranclp touching)

lemma small_sending [small_intros]:
  "small E (add_callback n key h once caller args)" "small E (set_connection_state st)" "small E (conn_send_method n m content)"
  unfolding add_callback_def set_connection_state_def conn_send_method_def
  by (intro op_intros small_intros small_change; simp)+

lemma small_rpc_parts [small_intros]:
  "small E (conn_rpc n m h replies)" "small E (set_state c st)" "small E (raise_if_not_open c)"
  "small E (chan_add c key cb once caller args)" "small E (chan_send c m content)"
  unfolding conn_rpc_def set_state_def raise_if_not_open_def chan_add_def chan_send_def
  by (intro op_intros small_intros small_change small_set_chan; simp)+

lemma small_register [small_intros]: "small E (register_reply c h r)"
  unfolding register_reply_def by (intro op_intros small_intros)

lemma small_transmit [small_intros]: "small E (transmit c rq)"
  unfolding transmit_def by (intro op_intros small_intros small_set_chan; simp)

lemma small_rpc [small_intros]: "small E (rpc c rq)"
  unfolding rpc_def by (intro op_intros small_intros small_set_chan; simp)


lemma pyval_intro [op_intros]:
  "\<lbrakk>\<And>x. small E (f x); \<And>v. small E (g v)\<rbrakk> \<Longrightarrow> small E (case w of PStr x \<Rightarrow> f x | _ \<Rightarrow> g w)"
  "\<lbrakk>\<And>x. small E (f' x); small E m\<rbrakk> \<Longrightarrow> small E (case w of PDict x \<Rightarrow> f' x | _ \<Rightarrow> m)"
  by (auto split: pyval.split)

lemma sum_intro [op_intros]: "\<lbrakk>\<And>x. small E (f x); \<And>y. small E (g y)\<rbrakk> \<Longrightarrow> small E (case v of Inl x \<Rightarrow> f x | Inr y \<Rightarrow> g y)"
  by (cases v) auto

lemma list_intro [op_intros]: "\<lbrakk>small E m; \<And>x xs. small E (f x xs)\<rbrakk> \<Longrightarrow> small E (case v of [] \<Rightarrow> m | x # xs \<Rightarrow> f x xs)"
  by (cases v) auto

lemma small_registrations [small_intros]:
  "small E (add_callback_for c cb replies once)" "small E (add_on_cancel_callback c cb)" "small E (add_on_close_callback c cb)"
  "small E (add_on_flow_callback c cb)" "small E (add_on_return_callback c cb)"
  unfolding add_callback_for_def add_on_cancel_callback_def add_on_close_callback_def add_on_flow_callback_def
    add_on_return_callback_def
  by (intro op_intros small_intros small_set_chan; simp)+

lemma small_arguments [small_intros]:
  "small E (zero_or_greater v)" "small E (capability name)"
  unfolding zero_or_greater_def capability_def by (intro op_intros)+

lemma small_body_bytes [small_intros]: "small E (body_bytes v)"
  unfolding body_bytes_def by (cases v; simp only: pyval.case; intro op_intros)

lemma small_request [small_intros]: "small E (request c m cb replies)"
  unfolding request_def by (intro small_intros)

lemma small_basic [small_intros]:
  "small E (basic_ack c t m)" "small E (basic_nack c t m r)" "small E (basic_reject c t r)" "small E (basic_cancel c tag cb)"
  "small E (basic_consume c q f auto_ack ex tag args cb g)" "small E (basic_get c q f auto_ack)"
  "small E (basic_publish c exch key body props mandatory)" "small E (basic_qos c sz n g cb)" "small E (basic_recover c r cb)"
  unfolding basic_ack_def basic_nack_def basic_reject_def basic_cancel_def basic_consume_def basic_get_def basic_publish_def
    basic_qos_def basic_recover_def Let_def
  by (intro op_intros small_intros small_set_chan; simp)+

lemma small_methods [small_intros]:
  "small E (confirm_delivery c f cb)" "small E (exchange_bind c d src key args cb)"
  "small E (exchange_declare c ex ty p d a i args cb)" "small E (exchange_delete c ex u cb)"
  "small E (exchange_unbind c d src key args cb)" "small E (flow c active cb)" "small E (queue_bind c q ex key args cb)"
  "small E (queue_declare c q p d ex' a args cb)" "small E (queue_delete c q u e cb)" "small E (queue_purge c q cb)"
  "small E (queue_unbind c q ex key args cb)" "small E (tx_commit c cb)" "small E (tx_rollback c cb)" "small E (tx_select c cb)"
  unfolding confirm_delivery_def exchange_bind_def exchange_declare_def exchange_delete_def exchange_unbind_def flow_def
    queue_bind_def queue_declare_def queue_delete_def queue_purge_def queue_unbind_def tx_commit_def tx_rollback_def
    tx_select_def Let_def
  by (intro op_intros small_intros small_set_chan; simp)+

lemma small_add_callbacks [small_intros]: "small E (add_callbacks c)"
  unfolding add_callbacks_def sequence.simps by (intro op_intros small_intros)

lemma small_open_close [small_intros]:
  "small E (open_channel c)" "small E (cancel_unless_cancelled c tag)" "small E (close_channel c code txt)"
  unfolding open_channel_def cancel_unless_cancelled_def close_channel_def
  by (intro op_intros small_intros small_set_chan; simp)+

section \<open>The connection\<close>

lemma small_wipe [small_intros]: "small E (change wipe)"
proof (rule steps.change_intro)
  fix w :: "'a endpoint_scheme" and t
  have "small_step E (w, t) (w\<lparr>channels := []\<rparr>, t)" by (rule wiping)
  moreover have "small_step E (w\<lparr>channels := []\<rparr>, t) (wipe w, t)" by (rule quiet) (simp_all add: wipe_def)
  ultimately show "(small_step E)\<^sup>*\<^sup>* (w, t) (wipe w, t)" by auto
qed

lemma small_construction [small_intros]:
  "small E add_connection_start_callback" "small E add_connection_tune_callback" "small E drop_blocked_timer" "small E fresh_partial"
  "small E (add_conn_callback key h)"
  unfolding add_connection_start_callback_def add_connection_tune_callback_def drop_blocked_timer_def fresh_partial_def
    add_conn_callback_def
  by (intro op_intros small_intros small_change; simp)+

lemma small_conn_callbacks [small_intros]:
  "small E (add_blocked_callback p)" "small E (add_unblocked_callback p)" "small E (conn_add_on_open_callback cb)"
  "small E (conn_add_on_close_callback cb)" "small E (conn_add_on_open_error_callback cb rd)"
  unfolding add_blocked_callback_def add_unblocked_callback_def conn_add_on_open_callback_def conn_add_on_close_callback_def
    conn_add_on_open_error_callback_def
  by (intro op_intros small_intros small_change; simp)+

lemma small_conn_blocked [small_intros]:
  "small E (conn_add_on_blocked_callback cb)" "small E (conn_add_on_unblocked_callback cb)" "small E init_connection_state"
  unfolding conn_add_on_blocked_callback_def conn_add_on_unblocked_callback_def init_connection_state_def
  by (intro op_intros small_intros)+

lemma small_register_channel [small_intros]: "small E (register_channel n on_open)"
  unfolding register_channel_def holds_def
  by (auto simp: op_simps intro!: r_into_rtranclp registering)

lemma small_conn_channel [small_intros]: "small E (conn_channel n on_open)"
  unfolding conn_channel_def by (intro op_intros small_intros)

lemma small_conn_close [small_intros]:
  "small E (send_connection_close code txt)" "small E on_close_ready" "small E (close_one code txt n)" "small E (close_channels code txt)"
  "small E (update_secret x y cb)"
  unfolding send_connection_close_def on_close_ready_def close_one_def close_channels_def update_secret_def
  by (intro op_intros small_intros)+

lemma small_forget [small_intros]: "small E (change (\<lambda>w. w\<lparr>channels := dict_del n (channels w)\<rparr>))"
  by (rule steps.change_intro) (intro r_into_rtranclp forgetting)

lemma small_conn_life [small_intros]:
  "small E (conn_close code txt)" "small E (on_channel_cleanup c)" "small E on_stream_connected"
  "small E (send_connection_start_ok ty resp)" "small E send_connection_tune_ok" "small E send_connection_open"
  unfolding conn_close_def on_channel_cleanup_def on_stream_connected_def send_connection_start_ok_def
    send_connection_tune_ok_def send_connection_open_def
  by (intro op_intros small_intros small_change; simp)+


section \<open>Applications and handlers\<close>

lemma small_call: "small E (call_act x)"
  by (cases x; simp only: call_act.simps; intro op_intros small_intros)

lemma small_calls: "calls_to s s' \<Longrightarrow> (small_step E)\<^sup>*\<^sup>* s s'"
proof (induction rule: calls_to.induct)
  case (calls_step s s' x)
  have "(small_step E)\<^sup>*\<^sup>* s' (snd (call_act x s'))" using small_call[of _ x] unfolding holds_def by blast
  with calls_step.IH show ?case by (rule rtranclp_trans)
qed simp

definition tame :: "('z endpoint_scheme \<Rightarrow> 'z endpoint_scheme \<Rightarrow> bool) \<Rightarrow> 'z application \<Rightarrow> bool" where
  "tame E A \<longleftrightarrow> (\<forall>cb n. small E (react A cb n)) \<and> (\<forall>f v. small E (choose_heartbeat A f v))"

lemma well_behaved_tame: "well_behaved A \<Longrightarrow> tame E A"
  by (auto simp: well_behaved_def tame_def holds_def small_calls)

lemma small_call_app [small_intros]:
  assumes "tame E A"
  shows "small E (call_app A cb n)"
proof -
  have "small E (change (\<lambda>w. w\<lparr>user_log := user_log w @ [(cb, n)]\<rparr>))"
    by (rule steps.change_intro) (intro r_into_rtranclp telling)
  moreover have "small E (react A cb n)" using assms by (simp add: tame_def)
  ultimately show ?thesis unfolding call_app_def by (intro op_intros)
qed

lemma small_dispatch [small_intros]: "(\<And>h. small E (f h)) \<Longrightarrow> small E (dispatch n key caller arg f)"
  by (rule steps.dispatch_intro) (auto intro!: r_into_rtranclp quiet)

lemma small_attr [small_intros]: "small E (chan_dispatch c key f)" if "\<And>h. small E (f h)"
  unfolding chan_dispatch_def using that by (intro op_intros small_intros)

lemma small_call_event [small_intros]: "tame E A \<Longrightarrow> small E (call_event A n h)"
  unfolding call_event_def by (cases h; simp only: handler.case; (cases n; simp only: notice.case)?; intro op_intros small_intros)

lemma small_call_cleanup [small_intros]: "small E (call_cleanup A c h)"
  unfolding call_cleanup_def by (cases h; simp only: handler.case; intro op_intros small_intros)

lemma small_cleanup_channel [small_intros]: "small E (cleanup_channel A c)"
  unfolding cleanup_channel_def by (intro op_intros small_intros small_change small_set_chan; simp)

lemma small_transition [small_intros]: "tame E A \<Longrightarrow> small E (transition_to_closed A c)"
  unfolding transition_to_closed_def by (intro op_intros small_intros)

lemma small_close_meta [small_intros]: "tame E A \<Longrightarrow> small E (on_close_meta A c reason)"
  unfolding on_close_meta_def by (intro op_intros small_intros small_set_chan; simp)

lemma small_drain [small_intros]: "tame E A \<Longrightarrow> small E (drain_blocked n A c)"
proof (induction n)
  case (Suc n)
  have round: "small E (case rq of (Channel_Class (Channel_Close _ _ _ _), _) \<Rightarrow>
      andThen (chan c closing_reason) (\<lambda>reason. on_close_meta A c reason) | _ \<Rightarrow> ret ())" for rq :: request
    using Suc.prems
    by (cases rq) (auto split: meth.split channel_method.split intro: op_intros small_intros)
  show ?case unfolding drain_blocked.simps
    by (intro op_intros small_intros small_set_chan round Suc) simp_all
qed (simp add: steps.basic_intro)


lemma small_attr_field [small_intros]: "small E (attr name m)"
  by (rule steps.basic_intro)

lemma small_release [small_intros]: "small E (release_blocked n c)"
proof (induction n)
  case (Suc n)
  show ?case unfolding release_blocked.simps
    by (intro op_intros small_intros small_set_chan Suc.IH) simp_all
qed (simp add: steps.basic_intro)

lemma small_channel_parts [small_intros]:
  "small E (on_synchronous_complete c)" "small E (cleanup_consumer_ref c tag)"
  unfolding on_synchronous_complete_def cleanup_consumer_ref_def
  by (intro op_intros small_intros small_set_chan; simp)+

lemma small_remote_close [small_intros]: "tame E A \<Longrightarrow> small E (drain_blocked_methods_on_remote_close A c)"
  unfolding drain_blocked_methods_on_remote_close_def by (intro op_intros small_intros)

lemma small_channel_events [small_intros]:
  "tame E A \<Longrightarrow> small E (on_close_from_broker A c m)" "tame E A \<Longrightarrow> small E (on_openok A c)" "tame E A \<Longrightarrow> small E (on_flowok A c m)"
  unfolding on_close_from_broker_def on_openok_def on_flowok_def
  by (intro op_intros small_intros small_set_chan; simp)+

lemma small_chan_callback [small_intros]: "tame E A \<Longrightarrow> small E (chan_callback A c h m)"
  by (cases h; simp only: chan_callback.simps; intro op_intros small_intros small_set_chan; simp)

lemma small_content [small_intros]:
  "tame E A \<Longrightarrow> small E (on_deliver A c m props body)" "tame E A \<Longrightarrow> small E (on_getok A c m props body)"
  "tame E A \<Longrightarrow> small E (on_return A c m props body)"
  unfolding on_deliver_def on_getok_def on_return_def
  by (intro op_intros small_intros small_set_chan; simp)+

lemma small_on_content [small_intros]: "tame E A \<Longrightarrow> small E (on_content A c r)"
  unfolding on_content_def
  by (auto split: option.split frame.split meth.split basic_method.split prod.split intro: op_intros small_intros)

lemma small_content_frame [small_intros]: "tame E A \<Longrightarrow> small E (handle_content_frame A c f)"
  unfolding handle_content_frame_def
  by (intro op_intros small_intros small_set_chan)
    (auto split: content_error.split intro: op_intros small_intros)

lemma small_start_parts [small_intros]:
  "small E (check_for_protocol_mismatch m)" "small E (set_server_information m)"
  unfolding check_for_protocol_mismatch_def set_server_information_def
  by (intro op_intros small_intros small_change; simp)+

lemma small_setting: "(\<And>w. params_ok (params w) \<Longrightarrow> params_ok (f w)) \<Longrightarrow> small E (change (\<lambda>w. w\<lparr>params := f w\<rparr>))"
  by (rule steps.change_intro) (auto intro!: r_into_rtranclp setting)

lemma small_credentials [small_intros]: "small E (get_credentials m)"
  unfolding get_credentials_def
  by (intro op_intros small_intros small_setting) (simp add: params_ok_def)

lemma small_start [small_intros]: "small E (on_connection_start m)"
  unfolding on_connection_start_def by (intro op_intros small_intros)


lemma small_set_params: "(\<And>p p'. \<lbrakk>f p = Inr p'; params_ok p\<rbrakk> \<Longrightarrow> params_ok p') \<Longrightarrow> small E (set_params f)"
  unfolding holds_def
proof (intro allI impI)
  fix s :: "'a conn"
  assume ok: "\<And>p p'. \<lbrakk>f p = Inr p'; params_ok p\<rbrakk> \<Longrightarrow> params_ok p'"
  obtain w t where s: "s = (w, t)" by (metis surj_pair)
  show "(small_step E)\<^sup>*\<^sup>* s (snd (set_params f s))"
    using setting[of w _ _ t] ok[of "params w"] s by (auto simp: set_params_eq split: sum.split intro!: r_into_rtranclp)
qed

lemma negotiated_setters_keep: "keeps_ok (\<lambda>p. set_channel_max (g p) p)" "keeps_ok (\<lambda>p. set_frame_max (g p) p)"
  using checked_setters_keep(1,2) unfolding keeps_ok_def by blast+

lemma small_setters [small_intros]:
  "small E (set_params (set_heartbeat a))" "small E (set_params (\<lambda>p. set_channel_max (g p) p))" "small E (set_params (\<lambda>p. set_frame_max (g p) p))"
  using set_heartbeat_keeps negotiated_setters_keep unfolding keeps_ok_def by (blast intro: small_set_params)+

lemma small_choice [small_intros]: "tame E A \<Longrightarrow> small E (choose_heartbeat A f v)"
  by (simp add: tame_def)

lemma heartbeat_intro [op_intros]:
  "\<lbrakk>\<And>i. small E (f i); \<And>k. small E (g k)\<rbrakk> \<Longrightarrow> small E (case x of Seconds i \<Rightarrow> f i | Heartbeat_callback k \<Rightarrow> g k)"
  by (cases x) auto

lemma small_tune [small_intros]: "tame E A \<Longrightarrow> small E (tune_heartbeat A v)"
  unfolding tune_heartbeat_def by (intro op_intros small_intros)

lemma small_connection_events [small_intros]:
  "tame E A \<Longrightarrow> small E (on_connection_tune A m)" "tame E A \<Longrightarrow> small E (on_connection_open_ok A m)"
  "small E (on_connection_close_from_broker m)" "small E on_blocked"
  unfolding on_connection_tune_def on_connection_open_ok_def on_connection_close_from_broker_def on_blocked_def
  by (intro op_intros small_intros small_change; simp)+

lemma small_frame_callback [small_intros]: "tame E A \<Longrightarrow> small E (frame_callback A m h)"
  unfolding frame_callback_def by (cases h; simp only: handler.case; intro op_intros small_intros)

lemma small_process_callbacks [small_intros]: "tame E A \<Longrightarrow> small E (process_callbacks A f)"
  unfolding process_callbacks_def by (cases f; simp only: frame.case; intro op_intros small_intros)

lemma small_deliver_frame [small_intros]: "tame E A \<Longrightarrow> small E (deliver_frame_to_channel A n f)" "small E heartbeat_received"
  unfolding deliver_frame_to_channel_def heartbeat_received_def
  by (intro op_intros small_intros small_change; simp)+

lemma small_process_frame [small_intros]: "tame E A \<Longrightarrow> small E (process_frame A f)"
  by (cases f; simp only: process_frame.simps frame.case; intro op_intros small_intros small_change; simp)

lemma small_read_frames [small_intros]: "tame E A \<Longrightarrow> small E (read_frames n A)"
proof (induction n)
  case (Suc n)
  then show ?case unfolding read_frames.simps
    by (intro op_intros small_intros small_change Suc.IH) simp_all
qed (simp add: steps.basic_intro)

lemma small_data_available [small_intros]: "tame E A \<Longrightarrow> small E (data_available A data_in)"
  unfolding data_available_def by (intro op_intros small_intros small_change; simp)

section \<open>The end of the stream\<close>

lemma small_remove_callbacks [small_intros]: "small E (remove_callbacks names)"
  unfolding remove_callbacks_def by (intro op_intros small_change; simp)

lemma small_close_meta_one [small_intros]: "tame E A \<Longrightarrow> small E (close_meta_one A n)"
  unfolding close_meta_one_def by (intro op_intros small_intros)

lemma small_terminated [small_intros]: "tame E A \<Longrightarrow> small E (on_stream_terminated A e)"
  unfolding on_stream_terminated_def by (intro op_intros small_intros small_change; simp)

lemma smallD: "small E m \<Longrightarrow> (small_step E)\<^sup>*\<^sup>* s (snd (m s))"
  by (simp only: holds_def)

lemma conn_step_small:
  assumes "well_behaved A" "conn_step A e s = Some s'"
  shows "(small_step E)\<^sup>*\<^sup>* s s'"
proof -
  have t: "tame E A" using assms(1) by (rule well_behaved_tame)
  have tick: "small E (change (\<lambda>w. w\<lparr>clock := clock w + int d\<rparr>))" for d by (rule small_change) simp
  obtain w t where "s = (w, t)" by (metis surj_pair)
  with assms(2) show ?thesis
    using small_round smallD[OF small_data_available[OF t]] smallD[OF small_conn_life(3)] smallD[OF small_terminated[OF t]]
      smallD[OF tick] smallD[OF small_call]
    by (cases e) (auto simp del: split_paired_All split: if_splits)
qed


section \<open>What never goes wrong\<close>

text \<open>The dict of channels: one entry for a number, and the object registered for it has it.\<close>

definition registry_ok :: "'z endpoint_scheme \<Rightarrow> bool" where
  "registry_ok w \<longleftrightarrow> distinct (map fst (channels w))
     \<and> list_all (\<lambda>(n, c). c < length (objects w) \<and> channel_number (objects w ! c) = n) (channels w)"

definition sound :: "'z conn \<Rightarrow> bool" where
  "sound s \<longleftrightarrow> params_ok (params (fst s)) \<and> registry_ok (fst s)
     \<and> list_all (\<lambda>bs. \<exists>f. marshal f = Inr bs) (emitted (fst s))"

lemma output_single: "output_marshaled_frames [bs] w
    = w\<lparr>bytes_sent := bytes_sent w + length bs, frames_sent := frames_sent w + 1, emitted := emitted w @ [bs]\<rparr>"
  by (simp add: output_marshaled_frames_def output_frame_def)

lemma set_dict_set: "x \<in> set (dict_set k v d) \<Longrightarrow> x = (k, v) \<or> x \<in> set d"
  by (induction d) (auto split: if_splits)

lemma registry_register:
  assumes "registry_ok w"
  shows "registry_ok (w\<lparr>objects := objects w @ [new_channel n on_open],
    channels := dict_set n (length (objects w)) (channels w)\<rparr>)"
  using assms
  by (auto simp: registry_ok_def distinct_dict_set list_all_iff nth_append new_channel_def dest!: set_dict_set)

lemma number_touch:
  assumes "channel_number ch = channel_number (xs ! c)"
  shows "channel_number (xs[c := ch] ! b) = channel_number (xs ! b)"
  using assms by (cases "b = c \<and> c < length xs") (auto simp: nth_list_update_neq list_update_beyond)

lemma numbers_touch:
  "channel_number ch = channel_number (xs ! c) \<Longrightarrow> map channel_number (xs[c := ch]) = map channel_number xs"
  by (rule nth_equalityI) (simp_all add: number_touch)

lemma registry_touch:
  assumes "registry_ok w" "channel_number ch = channel_number (objects w ! c)"
  shows "registry_ok (w\<lparr>objects := (objects w)[c := ch]\<rparr>)"
  using number_touch[OF assms(2)] assms(1) by (simp add: registry_ok_def)

lemma sound_small: "\<lbrakk>small_step E s s'; sound s\<rbrakk> \<Longrightarrow> sound s'"
proof (induction rule: small_step.induct)
  case (sending f bs w t)
  then have "\<exists>f. marshal f = Inr bs" by blast
  with sending.prems show ?case by (simp add: sound_def registry_ok_def output_single del: marshal.simps)
next
  case (touching ch w c t)
  with registry_touch[of w ch c] show ?case by (simp add: sound_def)
next
  case (registering w t n on_open)
  with registry_register[of w n on_open] show ?case by (simp add: sound_def)
next
  case (forgetting w t n)
  have "list_all P (dict_del n (channels w))" if "list_all P (channels w)" for P
    using that by (auto simp: dict_del_def list_all_iff)
  with forgetting show ?case by (auto simp: sound_def registry_ok_def distinct_dict_del)
qed (auto simp: sound_def registry_ok_def)

lemma sound_smalls: "(small_step E)\<^sup>*\<^sup>* s s' \<Longrightarrow> sound s \<Longrightarrow> sound s'"
  by (induction rule: rtranclp_induct) (auto dest: sound_small)

lemma small_connection_init: "small E (connection_init on_open on_error on_close)"
  unfolding connection_init_def sequence.simps
  by (cases on_open; cases on_close; simp only: option.case; intro op_intros small_intros)

lemma new_connection_sound:
  assumes "params_ok p"
  shows "sound (new_connection version p on_open on_error on_close)"
proof -
  have "sound (blank_connection version p)" using assms by (simp add: sound_def blank_connection_def registry_ok_def)
  with sound_smalls[OF smallD[OF small_connection_init]] show ?thesis unfolding new_connection_def by blast
qed

interpretation endpoint: invariant_system "new_connection version p on_open on_error on_close" "conn_step A"
    "\<lambda>s. well_behaved A \<and> params_ok p \<longrightarrow> sound s"
  for version p on_open on_error on_close A
  by unfold_locales (use new_connection_sound conn_step_small sound_smalls in blast)+

text \<open>
  C5 (invariant). Whatever the broker sends, the application calls in its callbacks and between
  them, and the timers do: the limits of the connection stay in the range of AMQP, the dict of
  channels has each number once, with an object of that number, and everything that has been sent
  is a sequence of whole marshalled frames.
\<close>

theorem endpoint_sound:
  assumes "well_behaved A" "params_ok p" "reach (new_connection version p on_open on_error on_close) (conn_step A) s"
  shows "params_ok (params (fst s)) \<and> registry_ok (fst s) \<and> list_all (\<lambda>bs. \<exists>f. marshal f = Inr bs) (emitted (fst s))"
  using endpoint.inv_reach[OF assms(3)] assms(1,2) by (simp add: sound_def)

text \<open>An application that opens a channel as soon as the connection is open.\<close>

definition eager_app :: "unit application" where
  "eager_app = \<lparr>react = \<lambda>_ n. (case n of Connection_Opened \<Rightarrow> call_act (Open_channel None None) | _ \<Rightarrow> ret ()),
     choose_heartbeat = \<lambda>_ v. ret (Value v)\<rparr>"

lemma eager_app_well_behaved: "well_behaved eager_app"
proof -
  have "calls_to s (snd (react eager_app cb n s))" for cb n s
  proof (cases "n = Connection_Opened")
    case True
    have "calls_to s (snd (call_act (Open_channel None None) s))"
      by (rule calls_step[OF calls_refl]) (simp add: made_def)
    with True show ?thesis by (simp add: eager_app_def)
  next
    case False
    then show ?thesis by (cases n) (simp_all add: eager_app_def op_simps calls_refl)
  qed
  moreover have "calls_to s (snd (choose_heartbeat eager_app f v s))" for f v s
    by (simp add: eager_app_def op_simps calls_refl)
  ultimately show ?thesis by (simp add: well_behaved_def)
qed

lemma endpoint_sound_witness:
  "\<exists>s. run (conn_step eager_app) [Stream_up, Time 5, Io_round] (new_connection [] new_Parameters (Some 1) None None) = Some s
    \<and> emitted (fst s) = [[65, 77, 81, 80, 0, 0, 9, 1]] \<and> registry_ok (fst s)"
proof -
  let ?s0 = "new_connection [] new_Parameters (Some 1) None None"
  have marshal: "marshal (new_ProtocolHeader None None None) = Inr [65, 77, 81, 80, 0, 0, 9, 1]" by code_simp
  have s0: "connection_state (fst ?s0) = CONNECTION_INIT" "emitted (fst ?s0) = []" "snd ?s0 = new_timer"
    by (simp_all add: new_connection_def connection_init_def init_connection_state_def blank_connection_def op_simps
      add_connection_start_callback_def add_conn_callback_def conn_add_on_open_callback_def conn_add_on_close_callback_def
      set_connection_state_def wipe_def new_Parameters_def andThen_assoc)
  obtain s where s: "run (conn_step eager_app) [Stream_up, Time 5, Io_round] ?s0 = Some s"
    "emitted (fst s) = [[65, 77, 81, 80, 0, 0, 9, 1]]"
    using s0 marshal
    by (simp add: on_stream_connected_def set_connection_state_def op_simps send_frame_def io_round_def process_timeouts_def
        new_timer_def output_single del: marshal.simps)
  have "reach ?s0 (conn_step eager_app) s" using s(1) by (rule run_reach) (rule reach_init)
  from endpoint_sound[OF eager_app_well_behaved new_Parameters_ok this] s show ?thesis by blast
qed

definition extends :: "'z conn \<Rightarrow> 'z conn \<Rightarrow> bool" where
  "extends s s' \<longleftrightarrow> (\<exists>bss. emitted (fst s') = emitted (fst s) @ bss) \<and> (\<exists>ns. user_log (fst s') = user_log (fst s) @ ns)
     \<and> (\<exists>nums. map channel_number (objects (fst s')) = map channel_number (objects (fst s)) @ nums)"

lemma extends_small: "small_step E s s' \<Longrightarrow> extends s s'"
  by (induction rule: small_step.induct) (auto simp: extends_def output_single numbers_touch)

lemma extends_smalls: "(small_step E)\<^sup>*\<^sup>* s s' \<Longrightarrow> extends s s'"
proof (induction rule: rtranclp_induct)
  case (step y z)
  with extends_small[OF step.hyps(2)] show ?case unfolding extends_def by (metis append.assoc)
qed (simp add: extends_def)

text \<open>
  What has happened stays: every event only adds to what has been sent and to the
  calls of application callbacks, and a channel object keeps its number.
\<close>

theorem history_kept:
  assumes "well_behaved A" "conn_step A e s = Some s'"
  shows "extends s s'"
  using conn_step_small[OF assms] by (rule extends_smalls)

lemma history_kept_witness:
  "\<exists>s'. conn_step eager_app Stream_up (new_connection [] new_Parameters (Some 1) None None) = Some s'
    \<and> extends (new_connection [] new_Parameters (Some 1) None None) s'"
proof -
  let ?s0 = "new_connection [] new_Parameters (Some 1) None None"
  have "connection_state (fst ?s0) = CONNECTION_INIT"
    by (simp add: new_connection_def connection_init_def op_simps set_connection_state_def andThen_assoc init_connection_state_def
      add_connection_start_callback_def add_conn_callback_def conn_add_on_open_callback_def blank_connection_def wipe_def new_Parameters_def)
  then obtain s' where "conn_step eager_app Stream_up ?s0 = Some s'" by simp
  with history_kept[OF eager_app_well_behaved this] show ?thesis by blast
qed

end
