(* ===== verification/Closing.thy ===== *)
theory Closing
  imports Evolution
begin

text \<open>
  How channels and the connection close: the application is told, what the channel holds is
  released, and the connection's close waits for its last channel.
\<close>

section \<open>The end of a channel\<close>

lemma extends_refl: "extends s s"
  by (simp add: extends_def)

lemma extends_trans: "\<lbrakk>extends s t; extends t u\<rbrakk> \<Longrightarrow> extends s u"
  unfolding extends_def by (metis append.assoc)

lemma extends_op: "\<lbrakk>small E m; m s = (r, s')\<rbrakk> \<Longrightarrow> extends s s'"
  using extends_smalls[OF smallD] by (metis snd_conv)

lemma extends_number:
  assumes "extends s s'" "c < length (objects (fst s))"
  shows "c < length (objects (fst s')) \<and> channel_number (objects (fst s') ! c) = channel_number (objects (fst s) ! c)"
proof -
  obtain nums where n: "map channel_number (objects (fst s')) = map channel_number (objects (fst s)) @ nums"
    using assms(1) by (auto simp: extends_def)
  then have "length (objects (fst s')) = length (objects (fst s)) + length nums"
    by (metis length_append length_map)
  with assms(2) have c: "c < length (objects (fst s'))" by simp
  have "map channel_number (objects (fst s')) ! c = channel_number (objects (fst s) ! c)"
    unfolding n using assms(2) by (simp add: nth_append)
  with c show ?thesis by simp
qed

text \<open>What the cleanup releases: the consumers and every registration under the channel's number.\<close>

lemma same_log_send: "holds (\<lambda>_. True) same_log (send_frame f)"
  unfolding send_frame_def
  by (intro op_intros same_log_change) (simp add: output_single)

lemma same_log_close_ready: "holds (\<lambda>_. True) same_log on_close_ready"
  unfolding on_close_ready_def send_connection_close_def conn_rpc_def conn_send_method_def
  by (simp only: option.case; intro op_intros same_log_basic same_log_send)

lemma same_log_cleanup: "holds (\<lambda>_. True) same_log (call_cleanup A c h)"
  unfolding call_cleanup_def on_channel_cleanup_def
  by (cases h; simp only: handler.case; intro op_intros same_log_change same_log_close_ready; simp)

lemma same_log_cleanup_channel: "holds (\<lambda>_. True) same_log (cleanup_channel A c)"
  unfolding cleanup_channel_def chan_dispatch_def set_chan_def
  by (intro op_intros same_log_change silent.dispatch_intro same_log_cleanup) (simp_all add: same_log_def)

lemma cleanup_channel_releases:
  assumes "cleanup_channel A c s = (r, s')" "c < length (objects (fst s))"
  defines "n \<equiv> channel_number (objects (fst s) ! c)"
  shows "user_log (fst s') = user_log (fst s)"
    "r = Inr () \<Longrightarrow> consumers (objects (fst s') ! c) = [] \<and> (\<forall>k. entries (py_str n) k (callback_stack (fst s')) = None)"
proof -
  show "user_log (fst s') = user_log (fst s)"
    using holdsD[OF same_log_cleanup_channel _ assms(1)] by (simp add: same_log_def)
  assume r: "r = Inr ()"
  obtain r1 s1 where 1: "chan_dispatch c ''_on_channel_cleanup'' (call_cleanup A c) s = (r1, s1)" by (metis surj_pair)
  have "small (=) (chan_dispatch c ''_on_channel_cleanup'' (call_cleanup A c))" by (intro small_intros)
  from this 1 have "extends s s1" by (rule extends_op)
  note c1 = extends_number[OF this assms(2)]
  show "consumers (objects (fst s') ! c) = [] \<and> (\<forall>k. entries (py_str n) k (callback_stack (fst s')) = None)"
  proof (cases r1)
    case (Inl e)
    with 1 assms(1) r show ?thesis by (simp add: cleanup_channel_def andThen_def)
  next
    case (Inr b)
    with 1 have "cleanup_channel A c s = andThen (set_chan c (\<lambda>ch. ch\<lparr>consumers := []\<rparr>)) (\<lambda>_.
       andThen (chan c channel_number) (\<lambda>n.
       change (\<lambda>w. w\<lparr>callback_stack := snd (cleanup (py_str n) (callback_stack w))\<rparr>))) s1"
      by (simp add: cleanup_channel_def andThen_done)
    with assms(1) c1 show ?thesis by (auto simp: op_simps n_def entries_cleanup_prefix)
  qed
qed


text \<open>A channel that is about to end, with a callback for it.\<close>

definition ending_endpoint :: "unit conn" where
  "ending_endpoint = ((fst (blank_connection [] new_Parameters))\<lparr>connection_state := CONNECTION_OPEN,
     objects := [(new_channel 1 None)\<lparr>chan_state := OPEN, closing_reason := Some ConnectionBlockedTimeout\<rparr>],
     callback_stack := add (py_str 1) ''_on_channel_close'' (Application 9) False (Some 1) None new_stack\<rparr>, new_timer)"

lemma passive_app_fine: "well_behaved passive_app" "polite passive_app"
  by (auto simp: well_behaved_def polite_def passive_app_def op_simps calls_refl)


section \<open>The connection's close waits for the channels\<close>

text \<open>What closing the channels does to the connection: it sends no frame of class Connection.\<close>

fun is_connection_class :: "meth \<Rightarrow> bool" where
  "is_connection_class (Connection_Class m) = True" | "is_connection_class _ = False"

definition plain_frames :: "bytes list \<Rightarrow> bool" where
  "plain_frames bss \<longleftrightarrow> list_all (\<lambda>bs. \<exists>n m. \<not> is_connection_class m \<and> marshal (Method_Frame n m) = Inr bs) bss"

definition channels_talk :: "'z conn \<Rightarrow> 'z conn \<Rightarrow> bool" where
  "channels_talk s s' \<longleftrightarrow> channels (fst s') = channels (fst s) \<and> opened (fst s') = opened (fst s)
     \<and> connection_state (fst s') = connection_state (fst s)
     \<and> (\<exists>bss. emitted (fst s') = emitted (fst s) @ bss \<and> plain_frames bss)"

lemma channels_talk_trans:
  assumes "channels_talk s t" "channels_talk t u"
  shows "channels_talk s u"
proof -
  obtain b1 b2 where "emitted (fst t) = emitted (fst s) @ b1" "plain_frames b1"
    "emitted (fst u) = emitted (fst t) @ b2" "plain_frames b2" using assms unfolding channels_talk_def by blast
  then have "emitted (fst u) = emitted (fst s) @ (b1 @ b2)" "plain_frames (b1 @ b2)" by (simp_all add: plain_frames_def)
  then have "\<exists>bss. emitted (fst u) = emitted (fst s) @ bss \<and> plain_frames bss" by blast
  with assms show ?thesis by (simp add: channels_talk_def)
qed

interpretation talk: op_relation "\<lambda>_. True" channels_talk
proof unfold_locales
  show "channels_talk s s" for s by (auto simp: channels_talk_def plain_frames_def intro!: exI[of _ "[]"])
qed (auto intro: channels_talk_trans)

lemma talk_change:
  "(\<And>w. channels (f w) = channels w \<and> opened (f w) = opened w \<and> connection_state (f w) = connection_state w \<and> emitted (f w) = emitted w)
    \<Longrightarrow> holds (\<lambda>_. True) channels_talk (change f)"
  by (simp add: holds_def channels_talk_def plain_frames_def op_simps)

lemma talk_basic:
  "holds (\<lambda>_. True) channels_talk (set_chan c f)" "holds (\<lambda>_. True) channels_talk (chan_add c key h once caller args)"
  unfolding set_chan_def chan_add_def add_callback_def by (intro op_intros talk_change; simp)+

lemma talk_send:
  assumes "\<not> is_connection_class m"
  shows "holds (\<lambda>_. True) channels_talk (chan_send c m None)"
  unfolding holds_def
proof (intro allI impI)
  fix s :: "'z conn"
  let ?f = "Method_Frame (channel_number (objects (fst s) ! c)) m"
  obtain r s' where r: "chan_send c m None s = (r, s')" by (metis surj_pair)
  then have "send_frame ?f s = (r, s')" by (simp add: chan_send_def conn_send_method_def op_simps)
  with send_frame_only[where f = ?f and s = s]
  have "s' = s \<or> (\<exists>bs. marshal ?f = Inr bs \<and> s' = (output_marshaled_frames [bs] (fst s), snd s))"
    by (cases r) (simp_all del: marshal.simps)
  then show "channels_talk s (snd (chan_send c m None s))"
  proof (elim disjE exE conjE)
    fix bs assume bs: "marshal ?f = Inr bs" and s': "s' = (output_marshaled_frames [bs] (fst s), snd s)"
    have "\<exists>n m. \<not> is_connection_class m \<and> marshal (Method_Frame n m) = Inr bs" using assms bs by blast
    then have "plain_frames [bs]" by (simp add: plain_frames_def del: marshal.simps)
    with s' r show ?thesis by (simp add: channels_talk_def output_single)
  qed (use r in \<open>simp add: talk.refl\<close>)
qed

lemma talk_rpc:
  assumes "\<not> is_connection_class m"
  shows "holds (\<lambda>_. True) channels_talk (rpc c (m, h, replies))"
  unfolding rpc_def transmit_def register_reply_def raise_if_not_open_def prod.case
  by (intro op_intros talk_basic talk_send assms)

lemma talk_close_channel: "holds (\<lambda>_. True) channels_talk (close_channel c code txt)"
  unfolding close_channel_def cancel_unless_cancelled_def basic_cancel_def raise_if_not_open_def set_state_def
  by (intro op_intros talk_basic talk_rpc) simp_all

lemma talk_close_channels: "holds (\<lambda>_. True) channels_talk (close_channels code txt)"
  unfolding close_channels_def close_one_def by (intro op_intros talk_close_channel)


definition one_channel :: "unit conn" where
  "one_channel = ((fst (blank_connection [] new_Parameters))\<lparr>connection_state := CONNECTION_OPEN, opened := True,
     channels := [(1, 0)], objects := [(new_channel 1 None)\<lparr>chan_state := CLOSING\<rparr>]\<rparr>, new_timer)"


text \<open>
  A channel that has ended leaves the connection's dict. While the connection is
  closing, the last one lets Connection.Close go out, with the reason the application gave, and
  any other sends nothing.
\<close>

theorem last_channel_closes_connection:
  assumes "connection_state (fst s) = CONNECTION_CLOSING" "conn_error (fst s) = Some (ConnectionClosedByClient code txt)"
    "on_channel_cleanup c s = (r, s')"
  defines "left \<equiv> dict_del (channel_number (objects (fst s) ! c)) (channels (fst s))"
  shows "channels (fst s') = left
    \<and> (if left = []
       then r = Inr () \<longrightarrow> sends [Method_Frame 0 (Connection_Class (Connection_Close code txt (PInt 0) (PInt 0)))] s s'
       else r = Inr () \<and> emitted (fst s') = emitted (fst s))"
proof -
  let ?s1 = "((fst s)\<lparr>channels := left\<rparr>, snd s)"
  have eq: "on_channel_cleanup c s = (if left = [] then on_close_ready ?s1 else (Inr (), ?s1))"
    using assms(1) by (simp add: on_channel_cleanup_def op_simps left_def)
  show ?thesis
  proof (cases "left = []")
    case False
    with eq assms(3) have "r = Inr ()" "s' = ?s1" by simp_all
    with False show ?thesis by simp
  next
    case True
    let ?f = "Method_Frame 0 (Connection_Class (Connection_Close code txt (PInt 0) (PInt 0)))"
    let ?s2 = "((fst ?s1)\<lparr>callback_stack := add (py_str 0) ''Connection.CloseOk'' On_connection_close_ok True None None
      (callback_stack (fst ?s1))\<rparr>, snd ?s1)"
    have "send_frame ?f ?s2 = (r, s')"
      using eq assms True by (simp add: on_close_ready_def op_simps send_connection_close_def conn_rpc_def conn_send_method_def andThen_assoc)
    from send_frame_only[where f = ?f and s = ?s2, unfolded this]
    show ?thesis using True
      by (cases r) (auto simp: sends_def output_single simp del: marshal.simps)
  qed
qed

lemma last_channel_closes_connection_witness:
  "channels (fst (snd (on_channel_cleanup 0 ((fst one_channel)\<lparr>connection_state := CONNECTION_CLOSING,
     conn_error := Some (ConnectionClosedByClient (PInt 200) (PStr []))\<rparr>, new_timer)))) = []"
proof -
  let ?s = "((fst one_channel)\<lparr>connection_state := CONNECTION_CLOSING,
     conn_error := Some (ConnectionClosedByClient (PInt 200) (PStr []))\<rparr>, new_timer)"
  obtain r s' where r: "on_channel_cleanup 0 ?s = (r, s')" by (metis surj_pair)
  have "connection_state (fst ?s) = CONNECTION_CLOSING" "conn_error (fst ?s) = Some (ConnectionClosedByClient (PInt 200) (PStr []))"
    by simp_all
  from last_channel_closes_connection[OF this r] r show ?thesis
    by (simp add: one_channel_def blank_connection_def new_channel_def dict_del_def)
qed

end
