(* ===== verification/Adapter.thy ===== *)
theory Adapter
  imports Closing
begin

text \<open>
  \<open>BaseConnection\<close> of \<open>adapters/base_connection.py\<close>: between the transport and \<open>Connection\<close>. What the
  transport calls is here; what \<open>Connection\<close> calls of the adapter, to write and to end the stream,
  shows in \<open>emitted\<close> and \<open>disconnects\<close>.
\<close>

text \<open>\<open>failed\<close>: the transport has begun to fail, after an exception in \<open>_proto_data_received\<close>.\<close>

record adapter = endpoint +
  has_transport :: bool
  got_eof :: bool
  failed :: bool

type_synonym 'z stack_conn = "'z adapter_scheme \<times> conn_callback timer"

definition proto_connection_made :: "('z adapter_ext, unit) op" where
  "proto_connection_made =
     andThen (change (\<lambda>w. w\<lparr>has_transport := True\<rparr>)) (\<lambda>_. on_stream_connected)"

text \<open>\<open>_init_connection_state\<close>, which ends \<open>_on_stream_terminated\<close>, also resets the adapter.\<close>

definition lost_error :: "bool \<Rightarrow> exn option \<Rightarrow> exn option" where
  "lost_error eof error = (case error of
     None \<Rightarrow> if eof then Some StreamLostError else None
   | Some _ \<Rightarrow> Some StreamLostError)"

definition proto_connection_lost :: "'z adapter_ext application \<Rightarrow> exn option \<Rightarrow> ('z adapter_ext, unit) op" where
  "proto_connection_lost A error =
     andThen (change (\<lambda>w. w\<lparr>has_transport := False\<rparr>)) (\<lambda>_.
     andThen (get got_eof) (\<lambda>eof.
     andThen (on_stream_terminated A (lost_error eof error)) (\<lambda>_.
     change (\<lambda>w. w\<lparr>has_transport := False, got_eof := False\<rparr>))))"

definition proto_eof_received :: "('z adapter_ext, bool) op" where
  "proto_eof_received = andThen (change (\<lambda>w. w\<lparr>got_eof := True\<rparr>)) (\<lambda>_. ret False)"

definition proto_data_received :: "'z adapter_ext application \<Rightarrow> bytes \<Rightarrow> ('z adapter_ext, unit) op" where
  "proto_data_received A data_in = data_available A data_in"

text \<open>
  What the transport does with them: data are given to the protocol while the stream is neither
  failed nor aborted, and an exception makes it fail.
\<close>

definition socket_data :: "'z adapter_ext application \<Rightarrow> bytes \<Rightarrow> ('z adapter_ext, unit) op" where
  "socket_data A data_in =
     andThen (get (\<lambda>w. has_transport w \<and> disconnects w = 0 \<and> \<not> failed w)) (\<lambda>live.
     if \<not> live then ret ()
     else try_except (proto_data_received A data_in) (\<lambda>_. change (\<lambda>w. w\<lparr>failed := True\<rparr>)))"

end
