(* ===== verification/Blocking.thy ===== *)
theory Blocking
  imports Adapter
begin

text \<open>
  \<open>BlockingConnection\<close> of \<open>adapters/blocking_connection.py\<close>, on top of the connection. A blocking
  call runs the I/O loop until one of its waiters is ready. What the loop will bring, the
  rounds of input, output and time, is part of the state, and a call that uses up all of
  them without becoming ready is \<open>None\<close>: it still waits. Callbacks of the blocking layer, the hooks,
  are the application of the connection below; callbacks of the user are a parameter, blocking
  actions of their own, and only run when events are dispatched.
\<close>

section \<open>\<open>_CallbackResult\<close>\<close>

datatype held = Unset | One notice | Many "notice list"

record result =
  is_ready :: bool
  held_values :: held

definition new_result :: result where
  "new_result = \<lparr>is_ready = False, held_values = Unset\<rparr>"

definition signal_once :: "result \<Rightarrow> py_error + result" where
  "signal_once r = (if is_ready r then Inl AssertionError else Inr (r\<lparr>is_ready := True\<rparr>))"

definition set_value_once :: "notice \<Rightarrow> result \<Rightarrow> py_error + result" where
  "set_value_once n r = bindE (signal_once r) (\<lambda>r. Inr (r\<lparr>held_values := One n\<rparr>))"

definition append_element :: "notice \<Rightarrow> result \<Rightarrow> py_error + result" where
  "append_element n r =
     (case held_values r of
        Many ns \<Rightarrow> Inr \<lparr>is_ready = True, held_values = Many (ns @ [n])\<rparr>
      | _ \<Rightarrow> if is_ready r then Inl AssertionError else Inr \<lparr>is_ready = True, held_values = Many [n]\<rparr>)"

definition result_value :: "result \<Rightarrow> py_error + notice" where
  "result_value r = (case held_values r of One n \<Rightarrow> if is_ready r then Inr n else Inl AssertionError | _ \<Rightarrow> Inl AssertionError)"

definition result_elements :: "result \<Rightarrow> py_error + notice list" where
  "result_elements r =
     (case held_values r of
        Many ns \<Rightarrow> if is_ready r \<and> ns \<noteq> [] then Inr ns else Inl AssertionError
      | _ \<Rightarrow> Inl AssertionError)"

section \<open>Events and state\<close>

text \<open>\<open>_TimerEvt\<close> with its \<open>timer_id\<close>, \<open>_ConnectionBlockedEvt\<close>, \<open>_ConnectionUnblockedEvt\<close>\<close>

datatype conn_evt = Timer_evt nat nat | Blocked_evt nat meth | Unblocked_evt nat meth

text \<open>\<open>_ConsumerDeliveryEvt\<close>, \<open>_ConsumerCancellationEvt\<close>, \<open>_ReturnedMessageEvt\<close>\<close>

datatype channel_evt =
  Delivery_evt meth basic_properties bytes
| Cancellation_evt meth
| Returned_evt nat meth basic_properties bytes

datatype consumer_state = SETTING_UP | CONSUMER_ACTIVE | TEARING_DOWN | CANCELLED_BY_BROKER

text \<open>\<open>_ConsumerInfo\<close>: a consumer has a callback, or its events go to the generator of \<open>consume\<close>.\<close>

record consumer_info =
  auto_acks :: pyval
  message_callback :: "nat option"
  consumer_state :: consumer_state

record generator_info =
  generator_params :: "pyval \<times> pyval \<times> pyval"
  generator_tag :: pyval
  generator_events :: "channel_evt list"

record blocking_channel =
  consumer_infos :: "(pyval \<times> consumer_info) list"
  queue_consumer_generator :: "generator_info option"
  delivery_confirmation :: bool
  message_confirmation_result :: result
  pending_events :: "channel_evt list"
  puback_return :: "(meth \<times> basic_properties \<times> bytes) option"
  reason_closed :: "exn option"
  basic_consume_ok_result :: result
  basic_getempty_result :: result

definition new_blocking_channel :: blocking_channel where
  "new_blocking_channel = \<lparr>consumer_infos = [], queue_consumer_generator = None, delivery_confirmation = False,
     message_confirmation_result = new_result, pending_events = [], puback_return = None, reason_closed = None,
     basic_consume_ok_result = new_result, basic_getempty_result = new_result\<rparr>"

text \<open>
  The bound methods that the blocking layer registers with the connection below, and the lambda of
  \<open>add_on_return_callback\<close>, a new object each time. \<open>User\<close> is a callback of the user that
  is registered there under a key that only the blocking layer processes.
\<close>

datatype hook =
  Signal_result nat | Set_result nat | Set_closed_result
| On_consumer_cancelled_by_broker nat | Signal_consume_ok nat | Set_getempty nat | On_channel_closed nat
| On_consumer_message_delivery nat | On_puback_message_returned nat | Set_message_confirmation nat
| Return_lambda nat nat nat | On_blocked_event nat | On_unblocked_event nat | User nat

text \<open>
  What comes while the I/O loop runs once: data, the end of the input, the end of the stream, frames
  that leave the write buffer, a callback posted by another thread, time.
\<close>

datatype io = Received bytes | Eof | Lost "exn option" | Written nat | Posted nat | Elapsed nat

datatype timer_call = Timer_ready nat nat | Context_ready nat

text \<open>What user callbacks are called with; \<open>served\<close> records the calls.\<close>

datatype user_notice =
  Delivered nat meth basic_properties bytes
| Cancelled nat meth
| Returned nat meth basic_properties bytes
| Timer_expired
| Blocked_by_broker meth
| Unblocked_by_broker meth

text \<open>
  \<open>cookies\<close>: the blocking channels by the channel object they wrap. \<open>drained\<close>: how many of the
  frames in \<open>emitted\<close> the transport has written. \<open>local_results\<close>: the results made for one call.
\<close>

record blocking_connection = adapter +
  hooks :: "hook list"
  local_results :: "result list"
  rounds :: "io list list"
  event_dispatch_suspend_depth :: int
  ready_events :: "conn_evt list"
  channels_pending_dispatch :: "int list"
  closed_result :: result
  cookies :: "(nat \<times> blocking_channel) list"
  drained :: nat
  user_timers :: "timer_call timer"
  posted_callbacks :: "nat list"
  served :: "(nat \<times> user_notice) list"

type_synonym blocking_more = "unit blocking_connection_ext adapter_ext"
type_synonym bconn = "blocking_more conn"
type_synonym 'a bop = "(blocking_more, 'a) op"
type_synonym 'a blk = "bconn \<Rightarrow> ((exn + 'a) \<times> bconn) option"

section \<open>Blocking actions\<close>

definition do_op :: "'a bop \<Rightarrow> 'a blk" where
  "do_op m s = Some (m s)"

definition wait_then :: "'a blk \<Rightarrow> ('a \<Rightarrow> 'b blk) \<Rightarrow> 'b blk" where
  "wait_then m f s = Option.bind (m s) (\<lambda>(r, s). case r of Inl e \<Rightarrow> Some (Inl e, s) | Inr x \<Rightarrow> f x s)"

definition pass :: "'a \<Rightarrow> 'a blk" where
  "pass x = do_op (ret x)"

definition finally_do :: "'a blk \<Rightarrow> unit bop \<Rightarrow> 'a blk" where
  "finally_do m f s = Option.bind (m s) (\<lambda>(r, s). case f s of (Inl e, s) \<Rightarrow> Some (Inl e, s) | (Inr _, s) \<Rightarrow> Some (r, s))"

definition on_error :: "'a blk \<Rightarrow> (exn \<Rightarrow> 'a blk) \<Rightarrow> 'a blk" where
  "on_error m h s = Option.bind (m s) (\<lambda>(r, s). case r of Inl e \<Rightarrow> h e s | Inr x \<Rightarrow> Some (Inr x, s))"

fun each :: "('a \<Rightarrow> unit blk) \<Rightarrow> 'a list \<Rightarrow> unit blk" where
  "each f [] = pass ()"
| "each f (x # xs) = wait_then (f x) (\<lambda>_. each f xs)"

text \<open>A loop: the body goes on with a value, or leaves the loop with one. One that does not end is \<open>None\<close>.\<close>

partial_function (option) iterate :: "('a \<Rightarrow> ('a + 'b) blk) \<Rightarrow> 'a \<Rightarrow> 'b blk" where
  "iterate f a s = Option.bind (f a s) (\<lambda>(r, s).
     case r of
       Inl e \<Rightarrow> Some (Inl e, s)
     | Inr (Inl a) \<Rightarrow> iterate f a s
     | Inr (Inr b) \<Rightarrow> Some (Inr b, s))"

lemma iterate_step [code]:
  "iterate f a s =
     (case f a s of
        None \<Rightarrow> None
      | Some y \<Rightarrow> (case y of (r, s') \<Rightarrow>
          (case r of
             Inl e \<Rightarrow> Some (Inl e, s')
           | Inr x \<Rightarrow> (case x of Inl a' \<Rightarrow> iterate f a' s' | Inr b \<Rightarrow> Some (Inr b, s')))))"
  by (subst iterate.simps) (auto split: option.split prod.split sum.split)

definition while_do :: "(bconn \<Rightarrow> bool) \<Rightarrow> unit blk \<Rightarrow> unit blk" where
  "while_do b body = iterate (\<lambda>_ s. if b s then wait_then body (\<lambda>_. pass (Inl ())) s else Some (Inr (Inr ()), s)) ()"

text \<open>The user's callbacks, by number, and a heartbeat choice that is a callable.\<close>

record user =
  user_code :: "nat \<Rightarrow> user_notice \<Rightarrow> unit blk"
  heartbeat_choice :: "nat \<Rightarrow> pyval \<Rightarrow> arg"

definition call_user :: "user \<Rightarrow> nat \<Rightarrow> user_notice \<Rightarrow> unit blk" where
  "call_user U cb n = wait_then (do_op (change (\<lambda>w. w\<lparr>served := served w @ [(cb, n)]\<rparr>))) (\<lambda>_. user_code U cb n)"

section \<open>Access\<close>

definition the_channel :: "nat \<Rightarrow> blocking_connection \<Rightarrow> blocking_channel" where
  "the_channel c w = (case map_of (cookies w) c of Some b \<Rightarrow> b | None \<Rightarrow> new_blocking_channel)"

definition bchan :: "nat \<Rightarrow> (blocking_channel \<Rightarrow> 'a) \<Rightarrow> 'a bop" where
  "bchan c f = get (\<lambda>w. f (the_channel c w))"

definition set_bchan :: "nat \<Rightarrow> (blocking_channel \<Rightarrow> blocking_channel) \<Rightarrow> unit bop" where
  "set_bchan c f = change (\<lambda>w. w\<lparr>cookies := dict_set c (f (the_channel c w)) (cookies w)\<rparr>)"

definition upd_result :: "nat \<Rightarrow> (result \<Rightarrow> py_error + result) \<Rightarrow> unit bop" where
  "upd_result i f =
     andThen (get (\<lambda>w. f (local_results w ! i))) (\<lambda>r.
     andThen (unless_error r) (\<lambda>r. change (\<lambda>w. w\<lparr>local_results := (local_results w)[i := r]\<rparr>)))"

definition upd_chan_result :: "nat \<Rightarrow> (blocking_channel \<Rightarrow> py_error + blocking_channel) \<Rightarrow> unit bop" where
  "upd_chan_result c f =
     andThen (bchan c f) (\<lambda>b. andThen (unless_error b) (\<lambda>b. set_bchan c (\<lambda>_. b)))"

text \<open>Equal bound methods are one callback for the connection below.\<close>

definition intern :: "hook \<Rightarrow> nat bop" where
  "intern h =
     andThen (get hooks) (\<lambda>hs.
     case find (\<lambda>i. hs ! i = h) [0..<length hs] of
       Some i \<Rightarrow> ret i
     | None \<Rightarrow> andThen (change (\<lambda>w. w\<lparr>hooks := hs @ [h]\<rparr>)) (\<lambda>_. ret (length hs)))"

section \<open>Hooks\<close>

definition request_channel_dispatch :: "int \<Rightarrow> unit bop" where
  "request_channel_dispatch number =
     change (\<lambda>w. w\<lparr>channels_pending_dispatch :=
       (if number \<in> set (channels_pending_dispatch w) then channels_pending_dispatch w
        else channels_pending_dispatch w @ [number])\<rparr>)"

definition number_of_channel :: "nat \<Rightarrow> int bop" where
  "number_of_channel c = chan c channel_number"

definition add_pending_event :: "nat \<Rightarrow> channel_evt \<Rightarrow> unit bop" where
  "add_pending_event c evt =
     andThen (set_bchan c (\<lambda>b. b\<lparr>pending_events := pending_events b @ [evt]\<rparr>)) (\<lambda>_.
     andThen (number_of_channel c) request_channel_dispatch)"

definition cleanup_blocking_channel :: "nat \<Rightarrow> unit bop" where
  "cleanup_blocking_channel c =
     set_bchan c (\<lambda>b. b\<lparr>message_confirmation_result := new_result, pending_events := [], consumer_infos := [],
       queue_consumer_generator := None\<rparr>)"

definition on_channel_closed :: "nat \<Rightarrow> exn \<Rightarrow> unit bop" where
  "on_channel_closed c reason =
     andThen (set_bchan c (\<lambda>b. b\<lparr>reason_closed := Some reason\<rparr>)) (\<lambda>_.
     if isinstance reason C_ChannelClosedByBroker
     then andThen (cleanup_blocking_channel c) (\<lambda>_.
          andThen (number_of_channel c) (\<lambda>n. request_channel_dispatch (- n)))
     else ret ())"

definition on_consumer_generator_event :: "nat \<Rightarrow> channel_evt \<Rightarrow> unit bop" where
  "on_consumer_generator_event c evt =
     andThen (bchan c queue_consumer_generator) (\<lambda>g.
     case g of
       None \<Rightarrow> raise (Python_Error AttributeError)
     | Some g \<Rightarrow>
         andThen (set_bchan c (\<lambda>b. b\<lparr>queue_consumer_generator := Some (g\<lparr>generator_events := generator_events g @ [evt]\<rparr>)\<rparr>)) (\<lambda>_.
         andThen (number_of_channel c) (\<lambda>n. request_channel_dispatch (- n))))"

definition consumer_event :: "nat \<Rightarrow> consumer_info \<Rightarrow> channel_evt \<Rightarrow> unit bop" where
  "consumer_event c info evt =
     (if message_callback info = None then on_consumer_generator_event c evt else add_pending_event c evt)"

definition on_consumer_cancelled_by_broker :: "nat \<Rightarrow> meth \<Rightarrow> unit bop" where
  "on_consumer_cancelled_by_broker c m =
     andThen (attr ''consumer_tag'' m) (\<lambda>tag.
     andThen (bchan c (\<lambda>b. map_of (consumer_infos b) tag)) (\<lambda>found.
     case found of
       None \<Rightarrow> raise (Python_Error KeyError)
     | Some info \<Rightarrow>
         andThen (if consumer_state info = TEARING_DOWN then ret ()
                  else set_bchan c (\<lambda>b. b\<lparr>consumer_infos :=
                         dict_set tag (info\<lparr>consumer_state := CANCELLED_BY_BROKER\<rparr>) (consumer_infos b)\<rparr>)) (\<lambda>_.
         consumer_event c info (Cancellation_evt m))))"

definition on_consumer_message_delivery :: "nat \<Rightarrow> meth \<Rightarrow> basic_properties \<Rightarrow> bytes \<Rightarrow> unit bop" where
  "on_consumer_message_delivery c m props body =
     andThen (attr ''consumer_tag'' m) (\<lambda>tag.
     andThen (bchan c (\<lambda>b. map_of (consumer_infos b) tag)) (\<lambda>found.
     case found of
       None \<Rightarrow> raise (Python_Error KeyError)
     | Some info \<Rightarrow> consumer_event c info (Delivery_evt m props body)))"

text \<open>Each hook is registered for one kind of call; with any other its argument count is wrong.\<close>

definition run_hook :: "hook \<Rightarrow> notice \<Rightarrow> unit bop" where
  "run_hook h n =
     (case (h, n) of
        (Signal_result i, _) \<Rightarrow> upd_result i signal_once
      | (Set_result i, _) \<Rightarrow> upd_result i (set_value_once n)
      | (Set_closed_result, _) \<Rightarrow>
          andThen (get (\<lambda>w. set_value_once n (closed_result w))) (\<lambda>r.
          andThen (unless_error r) (\<lambda>r. change (\<lambda>w. w\<lparr>closed_result := r\<rparr>)))
      | (Signal_consume_ok c, _) \<Rightarrow> upd_chan_result c (\<lambda>b.
          bindE (signal_once (basic_consume_ok_result b)) (\<lambda>r. Inr (b\<lparr>basic_consume_ok_result := r\<rparr>)))
      | (Set_getempty c, _) \<Rightarrow> upd_chan_result c (\<lambda>b.
          bindE (set_value_once n (basic_getempty_result b)) (\<lambda>r. Inr (b\<lparr>basic_getempty_result := r\<rparr>)))
      | (Set_message_confirmation c, _) \<Rightarrow> upd_chan_result c (\<lambda>b.
          bindE (set_value_once n (message_confirmation_result b)) (\<lambda>r. Inr (b\<lparr>message_confirmation_result := r\<rparr>)))
      | (On_consumer_cancelled_by_broker c, Frame_Notice m) \<Rightarrow> on_consumer_cancelled_by_broker c m
      | (On_channel_closed c, Channel_Closed _ e) \<Rightarrow> on_channel_closed c e
      | (On_consumer_message_delivery c, Message _ m props body) \<Rightarrow> on_consumer_message_delivery c m props body
      | (On_puback_message_returned c, Message _ m props body) \<Rightarrow>
          set_bchan c (\<lambda>b. b\<lparr>puback_return := Some (m, props, body)\<rparr>)
      | (Return_lambda c cb _, Message _ m props body) \<Rightarrow> add_pending_event c (Returned_evt cb m props body)
      | (On_blocked_event cb, Frame_Notice m) \<Rightarrow>
          change (\<lambda>w. w\<lparr>ready_events := ready_events w @ [Blocked_evt cb m]\<rparr>)
      | (On_unblocked_event cb, Frame_Notice m) \<Rightarrow>
          change (\<lambda>w. w\<lparr>ready_events := ready_events w @ [Unblocked_evt cb m]\<rparr>)
      | _ \<Rightarrow> raise (Python_Error TypeError))"

definition blocking_app :: "user \<Rightarrow> blocking_more application" where
  "blocking_app U = \<lparr>react = \<lambda>k n. andThen (get (\<lambda>w. hooks w ! k)) (\<lambda>h. run_hook h n),
     choose_heartbeat = \<lambda>f v. ret (heartbeat_choice U f v)\<rparr>"

end
