(* ===== verification/Blocking_Loop.thy ===== *)
theory Blocking_Loop
  imports Blocking
begin

text \<open>
  How \<open>BlockingConnection\<close> runs the I/O loop and dispatches events: \<open>_flush_output\<close>,
  \<open>process_data_events\<close> and what they call, the timers, and the operations of the connection.
  The loop's timer is in two parts: what \<open>Connection\<close> and what the blocking layer have asked for. The
  callbacks of the latter only set results and append events.
\<close>

section \<open>One round of the I/O loop\<close>

definition run_timer_call :: "(exn, timer_call, bconn) runner" where
  "run_timer_call cb st = (case st of (s, t) \<Rightarrow>
     (case (case cb of
         Timer_ready f i \<Rightarrow> change (\<lambda>w. w\<lparr>ready_events := ready_events w @ [Timer_evt f i]\<rparr>) s
       | Context_ready i \<Rightarrow> upd_result i signal_once s) of
        (Inl e, s) \<Rightarrow> (Some e, s, t)
      | (Inr _, s) \<Rightarrow> (None, s, t)))"

definition outcome :: "(exn + py_error) option \<Rightarrow> exn + unit" where
  "outcome e = (case e of None \<Rightarrow> Inr () | Some (Inl e) \<Rightarrow> Inl e | Some (Inr e) \<Rightarrow> Inl (Python_Error e))"

definition user_timeouts :: "unit bop" where
  "user_timeouts s =
     (case process_timeouts run_timer_call (clock (fst s)) (s, user_timers (fst s)) of
        (e, _, (w, t), ut) \<Rightarrow> (outcome e, (w\<lparr>user_timers := ut\<rparr>, t)))"

definition connection_timeouts :: "unit bop" where
  "connection_timeouts s = (case process_timeouts perform (clock (fst s)) s of (e, _, s) \<Rightarrow> (outcome e, s))"

text \<open>\<open>_adapter_call_later\<close> for a callback of the blocking layer; the handle is the position of the timeout.\<close>

definition user_call_later :: "int \<Rightarrow> (nat \<Rightarrow> timer_call) \<Rightarrow> nat bop" where
  "user_call_later delay cb =
     andThen (get (\<lambda>w. call_later (clock w) delay (cb (next_timeout (user_timers w))) (user_timers w))) (\<lambda>r.
     andThen (unless_error r) (\<lambda>(i, t). andThen (change (\<lambda>w. w\<lparr>user_timers := t\<rparr>)) (\<lambda>_. ret i)))"

text \<open>\<open>BlockingConnection.call_later\<close>, \<open>add_callback_threadsafe\<close>, \<open>remove_timeout\<close>\<close>

definition blocking_call_later :: "int \<Rightarrow> nat \<Rightarrow> nat bop" where
  "blocking_call_later delay cb = user_call_later delay (Timer_ready cb)"

definition blocking_add_callback_threadsafe :: "nat \<Rightarrow> unit bop" where
  "blocking_add_callback_threadsafe cb =
     andThen (get connection_state) (\<lambda>st.
     if st = CONNECTION_CLOSED then raise ConnectionWrongStateError
     else change (\<lambda>w. w\<lparr>posted_callbacks := posted_callbacks w @ [cb]\<rparr>))"

fun is_timer_evt :: "nat \<Rightarrow> conn_evt \<Rightarrow> bool" where
  "is_timer_evt i (Timer_evt _ j) = (i = j)"
| "is_timer_evt i _ = False"

fun drop_first :: "('a \<Rightarrow> bool) \<Rightarrow> 'a list \<Rightarrow> 'a list" where
  "drop_first p [] = []"
| "drop_first p (x # xs) = (if p x then xs else x # drop_first p xs)"

definition blocking_remove_timeout :: "nat \<Rightarrow> unit bop" where
  "blocking_remove_timeout i =
     change (\<lambda>w. w\<lparr>user_timers := remove_timeout i (user_timers w),
       ready_events := drop_first (is_timer_evt i) (ready_events w)\<rparr>)"

text \<open>\<open>_on_threadsafe_callback\<close> for those posted before the loop calls them\<close>

fun run_posted :: "nat \<Rightarrow> unit bop" where
  "run_posted 0 = ret ()"
| "run_posted (Suc n) =
     andThen (get posted_callbacks) (\<lambda>cbs.
     case cbs of
       [] \<Rightarrow> ret ()
     | cb # cbs \<Rightarrow>
         andThen (change (\<lambda>w. w\<lparr>posted_callbacks := cbs\<rparr>)) (\<lambda>_.
         andThen (blocking_call_later 0 cb) (\<lambda>_. run_posted n)))"

definition ioloop_process_timeouts :: "unit bop" where
  "ioloop_process_timeouts =
     andThen (get (\<lambda>w. length (posted_callbacks w))) (\<lambda>n.
     andThen (run_posted n) (\<lambda>_. andThen user_timeouts (\<lambda>_. connection_timeouts)))"

text \<open>
  The end of the input makes the transport abort, so no data come after it; a callback is posted
  while the connection is open, or the posting thread gets the exception.
\<close>

fun run_io :: "user \<Rightarrow> io \<Rightarrow> unit bop" where
  "run_io U (Received data_in) = socket_data (blocking_app U) data_in"
| "run_io U Eof =
     andThen (get has_transport) (\<lambda>up.
     if up then andThen proto_eof_received (\<lambda>_. change (\<lambda>w. w\<lparr>failed := True\<rparr>)) else ret ())"
| "run_io U (Lost error) =
     andThen (get has_transport) (\<lambda>up. if up then proto_connection_lost (blocking_app U) error else ret ())"
| "run_io U (Written n) = change (\<lambda>w. w\<lparr>drained := min (length (emitted w)) (drained w + n)\<rparr>)"
| "run_io U (Posted cb) = try_except (blocking_add_callback_threadsafe cb) (\<lambda>_. ret ())"
| "run_io U (Elapsed n) = change (\<lambda>w. w\<lparr>clock := clock w + int n\<rparr>)"

text \<open>An exception leaves the rest of the round for the next.\<close>

fun leave_in_round :: "io list \<Rightarrow> io list list \<Rightarrow> io list list" where
  "leave_in_round xs [] = []"
| "leave_in_round xs (_ # rs) = xs # rs"

fun run_ios :: "user \<Rightarrow> io list \<Rightarrow> unit bop" where
  "run_ios U [] = change (\<lambda>w. w\<lparr>rounds := tl (rounds w)\<rparr>)"
| "run_ios U (x # xs) =
     andThen (change (\<lambda>w. w\<lparr>rounds := leave_in_round xs (rounds w)\<rparr>)) (\<lambda>_.
     andThen (run_io U x) (\<lambda>_. run_ios U xs))"

text \<open>\<open>ioloop.poll(); ioloop.process_timeouts()\<close>: without a round to come it waits for ever.\<close>

definition poll :: "user \<Rightarrow> unit blk" where
  "poll U s =
     (case rounds (fst s) of
        [] \<Rightarrow> None
      | ios # _ \<Rightarrow> do_op (andThen (run_ios U ios) (\<lambda>_. ioloop_process_timeouts)) s)"

section \<open>\<open>_flush_output\<close>\<close>

type_synonym waiter = "bconn \<Rightarrow> bool"

definition result_ready :: "nat \<Rightarrow> waiter" where
  "result_ready i s = is_ready (local_results (fst s) ! i)"

definition output_written :: "waiter" where
  "output_written s \<longleftrightarrow> \<not> has_transport (fst s) \<or> drained (fst s) = length (emitted (fst s))"

definition is_done :: "waiter list \<Rightarrow> waiter" where
  "is_done waiters s \<longleftrightarrow> is_ready (closed_result (fst s))
     \<or> (output_written s \<and> (waiters = [] \<or> list_ex (\<lambda>ready. ready s) waiters))"

text \<open>\<open>BlockingConnection._cleanup\<close> with \<open>ioloop.close\<close>\<close>

definition blocking_cleanup :: "unit bop" where
  "blocking_cleanup s = (Inr (),
     ((fst s)\<lparr>user_timers := close_timer (user_timers (fst s)), posted_callbacks := [], ready_events := [],
        closed_result := new_result\<rparr>, close_timer (snd s)))"

definition closed_error :: "exn bop" where
  "closed_error =
     andThen (get (\<lambda>w. result_value (closed_result w))) (\<lambda>r.
     andThen (unless_error r) (\<lambda>n.
     case n of Connection_Closed e \<Rightarrow> ret e | _ \<Rightarrow> raise (Python_Error AttributeError)))"

definition raise_unless_by_client :: "unit bop" where
  "raise_unless_by_client =
     andThen closed_error (\<lambda>e. if isinstance e C_ConnectionClosedByClient then ret () else raise e)"

definition conn_flush :: "user \<Rightarrow> waiter list \<Rightarrow> unit blk" where
  "conn_flush U waiters =
     wait_then (do_op (get connection_state)) (\<lambda>st.
     if st = CONNECTION_CLOSED then do_op (raise ConnectionWrongStateError)
     else wait_then (while_do (\<lambda>s. \<not> is_done waiters s) (poll U)) (\<lambda>_.
          wait_then (do_op (get (\<lambda>w. is_ready (closed_result w)))) (\<lambda>closed.
          if closed then do_op (try_finally raise_unless_by_client blocking_cleanup) else pass ())))"

section \<open>Results made for one call\<close>

definition new_local :: "nat bop" where
  "new_local =
     andThen (get (\<lambda>w. length (local_results w))) (\<lambda>i.
     andThen (change (\<lambda>w. w\<lparr>local_results := local_results w @ [new_result]\<rparr>)) (\<lambda>_. ret i))"

definition with_result :: "(nat \<Rightarrow> 'a blk) \<Rightarrow> 'a blk" where
  "with_result f =
     wait_then (do_op new_local) (\<lambda>i. finally_do (f i) (upd_result i (\<lambda>_. Inr new_result)))"

definition local_value :: "nat \<Rightarrow> notice bop" where
  "local_value i = andThen (get (\<lambda>w. result_value (local_results w ! i))) unless_error"

text \<open>\<open>_IoloopTimerContext\<close>\<close>

definition with_timer :: "int \<Rightarrow> (nat \<Rightarrow> 'a blk) \<Rightarrow> 'a blk" where
  "with_timer duration f =
     wait_then (do_op new_local) (\<lambda>i.
     wait_then (do_op (user_call_later duration (\<lambda>_. Context_ready i))) (\<lambda>handle.
     finally_do (f i)
       (andThen (get (\<lambda>w. is_ready (local_results w ! i))) (\<lambda>ready.
        if ready then ret ()
        else change (\<lambda>w. w\<lparr>user_timers := remove_timeout handle (user_timers w)\<rparr>)))))"

section \<open>Dispatching\<close>

text \<open>\<open>_acquire_event_dispatch\<close>\<close>

definition with_dispatch :: "(bool \<Rightarrow> 'a blk) \<Rightarrow> 'a blk" where
  "with_dispatch f =
     wait_then (do_op (change (\<lambda>w. w\<lparr>event_dispatch_suspend_depth := event_dispatch_suspend_depth w + 1\<rparr>))) (\<lambda>_.
     finally_do (wait_then (do_op (get (\<lambda>w. event_dispatch_suspend_depth w = 1))) f)
       (change (\<lambda>w. w\<lparr>event_dispatch_suspend_depth := event_dispatch_suspend_depth w - 1\<rparr>)))"

definition dispatch_evt :: "user \<Rightarrow> conn_evt \<Rightarrow> unit blk" where
  "dispatch_evt U evt =
     (case evt of
        Timer_evt cb _ \<Rightarrow> call_user U cb Timer_expired
      | Blocked_evt cb m \<Rightarrow> call_user U cb (Blocked_by_broker m)
      | Unblocked_evt cb m \<Rightarrow> call_user U cb (Unblocked_by_broker m))"

fun dispatch_ready :: "user \<Rightarrow> nat \<Rightarrow> unit blk" where
  "dispatch_ready U 0 = pass ()"
| "dispatch_ready U (Suc n) =
     wait_then (do_op (get ready_events)) (\<lambda>evts.
     case evts of
       [] \<Rightarrow> pass ()
     | evt # evts \<Rightarrow>
         wait_then (do_op (change (\<lambda>w. w\<lparr>ready_events := evts\<rparr>))) (\<lambda>_.
         wait_then (dispatch_evt U evt) (\<lambda>_. dispatch_ready U n)))"

definition dispatch_connection_events :: "user \<Rightarrow> unit blk" where
  "dispatch_connection_events U =
     wait_then (do_op (get ready_events)) (\<lambda>evts.
     if evts = [] then pass ()
     else with_dispatch (\<lambda>acquired.
       if \<not> acquired then pass ()
       else wait_then (do_op (get ready_events)) (\<lambda>evts. dispatch_ready U (length evts))))"

text \<open>
  \<open>BlockingChannel._dispatch_events\<close>. The cancelled consumer's callbacks are registered under a key
  of their own by the blocking channel, which is no caller that a registration asks for.
\<close>

definition call_cancelled :: "user \<Rightarrow> nat \<Rightarrow> meth \<Rightarrow> handler \<Rightarrow> unit blk" where
  "call_cancelled U c m h =
     (case h of
        Application k \<Rightarrow>
          wait_then (do_op (get (\<lambda>w. hooks w ! k))) (\<lambda>hk.
          case hk of User cb \<Rightarrow> call_user U cb (Cancelled c m) | _ \<Rightarrow> do_op (raise (Python_Error TypeError)))
      | _ \<Rightarrow> do_op (raise (Python_Error TypeError)))"

definition process_cancelled :: "user \<Rightarrow> nat \<Rightarrow> meth \<Rightarrow> unit blk" where
  "process_cancelled U c m =
     wait_then (do_op (number_of_channel c)) (\<lambda>n.
     wait_then (do_op (get (\<lambda>w. process_event (py_str n) ''blocking_channel_consumer_cancelled''
       (Suc (length (objects w) + c)) (Some (Arg_Object (method_dict m))) (callback_stack w)))) (\<lambda>(_, hs, st).
     wait_then (do_op (change (\<lambda>w. w\<lparr>callback_stack := st\<rparr>))) (\<lambda>_. each (call_cancelled U c m) hs)))"

definition serve :: "user \<Rightarrow> nat \<Rightarrow> channel_evt \<Rightarrow> unit blk" where
  "serve U c evt =
     (case evt of
        Delivery_evt m props body \<Rightarrow>
          wait_then (do_op (attr ''consumer_tag'' m)) (\<lambda>tag.
          wait_then (do_op (bchan c (\<lambda>b. map_of (consumer_infos b) tag))) (\<lambda>found.
          case found of
            None \<Rightarrow> do_op (raise (Python_Error KeyError))
          | Some info \<Rightarrow>
              (case message_callback info of
                 None \<Rightarrow> do_op (raise (Python_Error TypeError))
               | Some cb \<Rightarrow> call_user U cb (Delivered c m props body))))
      | Cancellation_evt m \<Rightarrow>
          wait_then (do_op (attr ''consumer_tag'' m)) (\<lambda>tag.
          wait_then (do_op (bchan c (\<lambda>b. map_of (consumer_infos b) tag))) (\<lambda>found.
          if found = None then do_op (raise (Python_Error KeyError))
          else wait_then (do_op (set_bchan c (\<lambda>b. b\<lparr>consumer_infos := dict_del tag (consumer_infos b)\<rparr>))) (\<lambda>_.
               process_cancelled U c m)))
      | Returned_evt cb m props body \<Rightarrow> call_user U cb (Returned c m props body))"

definition has_pending :: "nat \<Rightarrow> waiter" where
  "has_pending c s \<longleftrightarrow> pending_events (the_channel c (fst s)) \<noteq> []"

definition serve_next :: "user \<Rightarrow> nat \<Rightarrow> unit blk" where
  "serve_next U c =
     wait_then (do_op (bchan c pending_events)) (\<lambda>evts.
     case evts of
       [] \<Rightarrow> do_op (raise (Python_Error IndexError))
     | evt # evts \<Rightarrow>
         wait_then (do_op (set_bchan c (\<lambda>b. b\<lparr>pending_events := evts\<rparr>))) (\<lambda>_. serve U c evt))"

definition dispatch_events :: "user \<Rightarrow> nat \<Rightarrow> unit blk" where
  "dispatch_events U c = while_do (has_pending c) (serve_next U c)"

text \<open>A channel without a cookie was not made by the blocking layer.\<close>

definition check_cookie :: "nat \<Rightarrow> unit bop" where
  "check_cookie c =
     andThen (get (\<lambda>w. map_of (cookies w) c)) (\<lambda>b.
     if b = None then raise (Python_Error AttributeError) else ret ())"

definition dispatch_channel :: "user \<Rightarrow> int \<Rightarrow> unit blk" where
  "dispatch_channel U number =
     (if number < 0 then pass ()
      else wait_then (do_op (get (\<lambda>w. map_of (channels w) number))) (\<lambda>found.
        case found of
          None \<Rightarrow> pass ()
        | Some c \<Rightarrow>
            wait_then (do_op (chan c chan_state)) (\<lambda>st.
            if st \<noteq> OPEN then pass ()
            else wait_then (do_op (check_cookie c)) (\<lambda>_. dispatch_events U c))))"

text \<open>The numbers are a set in the code, which goes through them in some order; here in that of the requests.\<close>

definition dispatch_channel_events :: "user \<Rightarrow> unit blk" where
  "dispatch_channel_events U =
     wait_then (do_op (get channels_pending_dispatch)) (\<lambda>numbers.
     if numbers = [] then pass ()
     else with_dispatch (\<lambda>acquired.
       if \<not> acquired then pass ()
       else wait_then (do_op (get channels_pending_dispatch)) (\<lambda>candidates.
            wait_then (do_op (change (\<lambda>w. w\<lparr>channels_pending_dispatch := []\<rparr>))) (\<lambda>_.
            each (dispatch_channel U) candidates))))"

definition common_terminator :: "bool \<Rightarrow> waiter" where
  "common_terminator acquired s \<longleftrightarrow> acquired \<and> (channels_pending_dispatch (fst s) \<noteq> [] \<or> ready_events (fst s) \<noteq> [])"

definition process_data_events :: "user \<Rightarrow> int option \<Rightarrow> unit blk" where
  "process_data_events U time_limit =
     wait_then (with_dispatch (\<lambda>acquired.
       case time_limit of
         None \<Rightarrow> conn_flush U [common_terminator acquired]
       | Some limit \<Rightarrow> with_timer limit (\<lambda>i. conn_flush U [result_ready i, common_terminator acquired]))) (\<lambda>_.
     wait_then (dispatch_connection_events U) (\<lambda>_.
     dispatch_channel_events U))"

definition sleep :: "user \<Rightarrow> int \<Rightarrow> unit blk" where
  "sleep U duration =
     wait_then (do_op (assert (duration \<ge> 0))) (\<lambda>_.
     wait_then (do_op (get clock)) (\<lambda>now.
     iterate (\<lambda>time_limit.
       wait_then (process_data_events U (Some time_limit)) (\<lambda>_.
       wait_then (do_op (get clock)) (\<lambda>later.
       let time_limit = now + duration - later in
       pass (if time_limit \<le> 0 then Inr () else Inl time_limit)))) duration))"

end
