(* ===== verification/Blocking_Channel.thy ===== *)
theory Blocking_Channel
  imports Blocking_Loop
begin

text \<open>
  \<open>BlockingChannel\<close>: what its methods do with the channel they wrap, and the operations of
  \<open>BlockingConnection\<close> that concern channels. The channel object below is the first argument; the
  consumer tag that \<open>_generate_consumer_tag\<close> makes of a random UUID is the argument \<open>generated\<close>.
\<close>

section \<open>Construction\<close>

text \<open>\<open>BlockingChannel.__init__\<close> with the cookie\<close>

definition new_blocking_channel_for :: "nat \<Rightarrow> unit bop" where
  "new_blocking_channel_for c =
     andThen (change (\<lambda>w. w\<lparr>cookies := dict_set c new_blocking_channel (cookies w)\<rparr>)) (\<lambda>_.
     andThen (intern (On_consumer_cancelled_by_broker c)) (\<lambda>k.
     andThen (add_on_cancel_callback c k) (\<lambda>_.
     andThen (intern (Signal_consume_ok c)) (\<lambda>k.
     andThen (add_callback_for c k [(''Basic.ConsumeOk'', None)] False) (\<lambda>_.
     andThen (intern (On_channel_closed c)) (\<lambda>k.
     andThen (add_on_close_callback c k) (\<lambda>_.
     andThen (intern (Set_getempty c)) (\<lambda>k.
     add_callback_for c k [(''Basic.GetEmpty'', None)] False))))))))"

section \<open>Waiting\<close>

definition closed_waiter :: "nat \<Rightarrow> waiter" where
  "closed_waiter c s \<longleftrightarrow> chan_state (objects (fst s) ! c) = CLOSED"

definition raise_if_closed_by_broker :: "nat \<Rightarrow> unit bop" where
  "raise_if_closed_by_broker c =
     andThen (chan c chan_state) (\<lambda>st.
     andThen (bchan c reason_closed) (\<lambda>reason.
     case reason of
       Some e \<Rightarrow> if st = CLOSED \<and> isinstance e C_ChannelClosedByBroker then raise e else ret ()
     | None \<Rightarrow> ret ()))"

definition channel_flush :: "user \<Rightarrow> nat \<Rightarrow> waiter list \<Rightarrow> unit blk" where
  "channel_flush U c waiters =
     wait_then (do_op (chan c chan_state)) (\<lambda>st.
     wait_then (do_op (if st = CLOSED then raise_if_not_open c else ret ())) (\<lambda>_.
     wait_then (conn_flush U (closed_waiter c # (if waiters = [] then [\<lambda>_. True] else waiters))) (\<lambda>_.
     do_op (raise_if_closed_by_broker c))))"

text \<open>Methods that wait for their reply: for its arrival, or for its value\<close>

definition await_signal :: "user \<Rightarrow> nat \<Rightarrow> (nat \<Rightarrow> unit bop) \<Rightarrow> unit blk" where
  "await_signal U c send =
     with_result (\<lambda>i.
       wait_then (do_op (andThen (intern (Signal_result i)) send)) (\<lambda>_. channel_flush U c [result_ready i]))"

definition await_value :: "user \<Rightarrow> nat \<Rightarrow> (nat \<Rightarrow> unit bop) \<Rightarrow> notice blk" where
  "await_value U c send =
     with_result (\<lambda>i.
       wait_then (do_op (andThen (intern (Set_result i)) send)) (\<lambda>_.
       wait_then (channel_flush U c [result_ready i]) (\<lambda>_. do_op (local_value i))))"

definition frame_of :: "notice \<Rightarrow> meth bop" where
  "frame_of n = (case n of Frame_Notice m \<Rightarrow> ret m | _ \<Rightarrow> raise (Python_Error AttributeError))"

definition await_frame :: "user \<Rightarrow> nat \<Rightarrow> (nat \<Rightarrow> unit bop) \<Rightarrow> meth blk" where
  "await_frame U c send = wait_then (await_value U c send) (\<lambda>n. do_op (frame_of n))"

definition send_and_flush :: "user \<Rightarrow> nat \<Rightarrow> unit bop \<Rightarrow> unit blk" where
  "send_and_flush U c send = wait_then (do_op send) (\<lambda>_. channel_flush U c [])"

section \<open>Methods with a reply\<close>

definition blocking_flow :: "user \<Rightarrow> nat \<Rightarrow> pyval \<Rightarrow> pyval blk" where
  "blocking_flow U c active =
     wait_then (await_value U c (\<lambda>k. flow c active (Some k))) (\<lambda>n.
     case n of Flow_Active v \<Rightarrow> pass v | _ \<Rightarrow> do_op (raise (Python_Error AttributeError)))"

definition blocking_basic_qos :: "user \<Rightarrow> nat \<Rightarrow> pyval \<Rightarrow> pyval \<Rightarrow> pyval \<Rightarrow> unit blk" where
  "blocking_basic_qos U c prefetch_size prefetch_count global_qos =
     await_signal U c (\<lambda>k. basic_qos c prefetch_size prefetch_count global_qos (Some k))"

definition blocking_basic_recover :: "user \<Rightarrow> nat \<Rightarrow> pyval \<Rightarrow> unit blk" where
  "blocking_basic_recover U c requeue = await_signal U c (\<lambda>k. basic_recover c requeue (Some k))"

definition blocking_exchange_declare ::
    "user \<Rightarrow> nat \<Rightarrow> pyval \<Rightarrow> exchange_type + pyval \<Rightarrow> pyval \<Rightarrow> pyval \<Rightarrow> pyval \<Rightarrow> pyval \<Rightarrow> pyval \<Rightarrow> meth blk" where
  "blocking_exchange_declare U c exch ex_type passive durable auto_delete internal arguments_value =
     wait_then (do_op (string_arg exch)) (\<lambda>_.
     await_frame U c (\<lambda>k. exchange_declare c exch ex_type passive durable auto_delete internal arguments_value (Some k)))"

definition blocking_exchange_delete :: "user \<Rightarrow> nat \<Rightarrow> pyval \<Rightarrow> pyval \<Rightarrow> meth blk" where
  "blocking_exchange_delete U c exch if_unused = await_frame U c (\<lambda>k. exchange_delete c exch if_unused (Some k))"

definition blocking_exchange_bind :: "user \<Rightarrow> nat \<Rightarrow> pyval \<Rightarrow> pyval \<Rightarrow> pyval \<Rightarrow> pyval \<Rightarrow> meth blk" where
  "blocking_exchange_bind U c destination source routing_key arguments_value =
     wait_then (do_op (string_arg destination)) (\<lambda>_.
     wait_then (do_op (string_arg source)) (\<lambda>_.
     await_frame U c (\<lambda>k. exchange_bind c destination source routing_key arguments_value (Some k))))"

definition blocking_exchange_unbind :: "user \<Rightarrow> nat \<Rightarrow> pyval \<Rightarrow> pyval \<Rightarrow> pyval \<Rightarrow> pyval \<Rightarrow> meth blk" where
  "blocking_exchange_unbind U c destination source routing_key arguments_value =
     await_frame U c (\<lambda>k. exchange_unbind c destination source routing_key arguments_value (Some k))"

definition blocking_queue_declare :: "user \<Rightarrow> nat \<Rightarrow> pyval \<Rightarrow> pyval \<Rightarrow> pyval \<Rightarrow> pyval \<Rightarrow> pyval \<Rightarrow> pyval \<Rightarrow> meth blk" where
  "blocking_queue_declare U c queue passive durable exclusive auto_delete arguments_value =
     wait_then (do_op (string_arg queue)) (\<lambda>_.
     await_frame U c (\<lambda>k. queue_declare c queue passive durable exclusive auto_delete arguments_value (Some k)))"

definition blocking_queue_delete :: "user \<Rightarrow> nat \<Rightarrow> pyval \<Rightarrow> pyval \<Rightarrow> pyval \<Rightarrow> meth blk" where
  "blocking_queue_delete U c queue if_unused if_empty =
     await_frame U c (\<lambda>k. queue_delete c queue if_unused if_empty (Some k))"

definition blocking_queue_purge :: "user \<Rightarrow> nat \<Rightarrow> pyval \<Rightarrow> meth blk" where
  "blocking_queue_purge U c queue = await_frame U c (\<lambda>k. queue_purge c queue (Some k))"

definition blocking_queue_bind :: "user \<Rightarrow> nat \<Rightarrow> pyval \<Rightarrow> pyval \<Rightarrow> pyval \<Rightarrow> pyval \<Rightarrow> meth blk" where
  "blocking_queue_bind U c queue exch routing_key arguments_value =
     wait_then (do_op (string_arg queue)) (\<lambda>_.
     wait_then (do_op (string_arg exch)) (\<lambda>_.
     await_frame U c (\<lambda>k. queue_bind c queue exch routing_key arguments_value (Some k))))"

definition blocking_queue_unbind :: "user \<Rightarrow> nat \<Rightarrow> pyval \<Rightarrow> pyval \<Rightarrow> pyval \<Rightarrow> pyval \<Rightarrow> meth blk" where
  "blocking_queue_unbind U c queue exch routing_key arguments_value =
     wait_then (do_op (string_arg queue)) (\<lambda>_.
     await_frame U c (\<lambda>k. queue_unbind c queue exch routing_key arguments_value (Some k)))"

definition blocking_tx_select :: "user \<Rightarrow> nat \<Rightarrow> meth blk" where
  "blocking_tx_select U c = await_frame U c (\<lambda>k. tx_select c (Some k))"

definition blocking_tx_commit :: "user \<Rightarrow> nat \<Rightarrow> meth blk" where
  "blocking_tx_commit U c = await_frame U c (\<lambda>k. tx_commit c (Some k))"

definition blocking_tx_rollback :: "user \<Rightarrow> nat \<Rightarrow> meth blk" where
  "blocking_tx_rollback U c = await_frame U c (\<lambda>k. tx_rollback c (Some k))"

section \<open>Methods without a reply\<close>

definition blocking_basic_ack :: "user \<Rightarrow> nat \<Rightarrow> pyval \<Rightarrow> pyval \<Rightarrow> unit blk" where
  "blocking_basic_ack U c delivery_tag multiple = send_and_flush U c (basic_ack c delivery_tag multiple)"

definition blocking_basic_nack :: "user \<Rightarrow> nat \<Rightarrow> pyval \<Rightarrow> pyval \<Rightarrow> pyval \<Rightarrow> unit blk" where
  "blocking_basic_nack U c delivery_tag multiple requeue = send_and_flush U c (basic_nack c delivery_tag multiple requeue)"

definition blocking_basic_reject :: "user \<Rightarrow> nat \<Rightarrow> pyval \<Rightarrow> pyval \<Rightarrow> unit blk" where
  "blocking_basic_reject U c delivery_tag requeue = send_and_flush U c (basic_reject c delivery_tag requeue)"

section \<open>Publishing\<close>

definition take_puback_return :: "nat \<Rightarrow> (meth \<times> basic_properties \<times> bytes) list bop" where
  "take_puback_return c =
     andThen (bchan c puback_return) (\<lambda>r.
     case r of
       None \<Rightarrow> ret []
     | Some m \<Rightarrow> andThen (set_bchan c (\<lambda>b. b\<lparr>puback_return := None\<rparr>)) (\<lambda>_. ret [m]))"

definition settle_publish :: "nat \<Rightarrow> unit bop" where
  "settle_publish c =
     andThen (bchan c (\<lambda>b. result_value (message_confirmation_result b))) (\<lambda>r.
     andThen (unless_error r) (\<lambda>n.
     andThen (frame_of n) (\<lambda>m.
     case m of
       Basic_Class (Basic_Nack _ _ _) \<Rightarrow> andThen (take_puback_return c) (\<lambda>ms. raise (NackError ms))
     | Basic_Class (Basic_Ack _ _) \<Rightarrow>
         andThen (take_puback_return c) (\<lambda>ms. if ms = [] then ret () else raise (UnroutableError ms))
     | _ \<Rightarrow> raise (Python_Error AssertionError))))"

definition reset_confirmation :: "nat \<Rightarrow> unit bop" where
  "reset_confirmation c = set_bchan c (\<lambda>b. b\<lparr>message_confirmation_result := new_result\<rparr>)"

definition confirmed_waiter :: "nat \<Rightarrow> waiter" where
  "confirmed_waiter c s = is_ready (message_confirmation_result (the_channel c (fst s)))"

definition blocking_basic_publish ::
    "user \<Rightarrow> nat \<Rightarrow> pyval \<Rightarrow> pyval \<Rightarrow> pyval \<Rightarrow> basic_properties option \<Rightarrow> pyval \<Rightarrow> unit blk" where
  "blocking_basic_publish U c exch routing_key body props mandatory =
     wait_then (do_op (bchan c delivery_confirmation)) (\<lambda>confirms.
     if confirms
     then finally_do
       (wait_then (do_op (basic_publish c exch routing_key body props mandatory)) (\<lambda>_.
        wait_then (channel_flush U c [confirmed_waiter c]) (\<lambda>_.
        do_op (settle_publish c))))
       (reset_confirmation c)
     else send_and_flush U c (basic_publish c exch routing_key body props mandatory))"

definition blocking_confirm_delivery :: "user \<Rightarrow> nat \<Rightarrow> unit blk" where
  "blocking_confirm_delivery U c =
     wait_then (do_op (bchan c delivery_confirmation)) (\<lambda>already.
     if already then pass ()
     else wait_then (await_signal U c (\<lambda>k.
            andThen (intern (Set_message_confirmation c)) (\<lambda>ack. confirm_delivery c ack (Some k)))) (\<lambda>_.
          wait_then (do_op (set_bchan c (\<lambda>b. b\<lparr>delivery_confirmation := True\<rparr>))) (\<lambda>_.
          do_op (andThen (intern (On_puback_message_returned c)) (add_on_return_callback c)))))"

section \<open>Getting\<close>

definition reset_getempty :: "nat \<Rightarrow> unit bop" where
  "reset_getempty c = set_bchan c (\<lambda>b. b\<lparr>basic_getempty_result := new_result\<rparr>)"

definition getempty_waiter :: "nat \<Rightarrow> waiter" where
  "getempty_waiter c s = is_ready (basic_getempty_result (the_channel c (fst s)))"

definition got_message :: "nat \<Rightarrow> nat \<Rightarrow> (meth \<times> basic_properties \<times> bytes) option bop" where
  "got_message c i =
     andThen (get (\<lambda>w. is_ready (local_results w ! i))) (\<lambda>got.
     if got
     then andThen (local_value i) (\<lambda>n.
       case n of Message _ m props body \<Rightarrow> ret (Some (m, props, body)) | _ \<Rightarrow> raise (Python_Error AttributeError))
     else andThen (bchan c (\<lambda>b. is_ready (basic_getempty_result b))) (\<lambda>empty.
          andThen (assert empty) (\<lambda>_. ret None)))"

definition blocking_basic_get :: "user \<Rightarrow> nat \<Rightarrow> pyval \<Rightarrow> pyval \<Rightarrow> (meth \<times> basic_properties \<times> bytes) option blk" where
  "blocking_basic_get U c queue auto_ack =
     wait_then (do_op (bchan c (\<lambda>b. is_ready (basic_getempty_result b)))) (\<lambda>empty.
     wait_then (do_op (assert (\<not> empty))) (\<lambda>_.
     wait_then (do_op (string_arg queue)) (\<lambda>_.
     with_result (\<lambda>i.
     finally_do
       (wait_then (do_op (andThen (intern (Set_result i)) (\<lambda>k. basic_get c queue k auto_ack))) (\<lambda>_.
        wait_then (channel_flush U c [result_ready i, getempty_waiter c]) (\<lambda>_.
        do_op (got_message c i))))
       (reset_getempty c)))))"

section \<open>Consumers\<close>

definition new_consumer_info :: "pyval \<Rightarrow> nat option \<Rightarrow> consumer_info" where
  "new_consumer_info auto_ack cb = \<lparr>auto_acks = auto_ack, message_callback = cb, consumer_state = SETTING_UP\<rparr>"

definition consumer_known :: "nat \<Rightarrow> pyval \<Rightarrow> bool bop" where
  "consumer_known c tag = bchan c (\<lambda>b. map_of (consumer_infos b) tag \<noteq> None)"

definition wake_dispatch :: "nat \<Rightarrow> unit bop" where
  "wake_dispatch c = andThen (number_of_channel c) (\<lambda>n. request_channel_dispatch (- n))"

definition forget_consumer :: "nat \<Rightarrow> pyval \<Rightarrow> unit bop" where
  "forget_consumer c tag =
     andThen (consumer_known c tag) (\<lambda>known.
     if known
     then andThen (set_bchan c (\<lambda>b. b\<lparr>consumer_infos := dict_del tag (consumer_infos b)\<rparr>)) (\<lambda>_. wake_dispatch c)
     else ret ())"

definition set_consumer_state :: "nat \<Rightarrow> pyval \<Rightarrow> consumer_state \<Rightarrow> unit bop" where
  "set_consumer_state c tag st =
     set_bchan c (\<lambda>b. case map_of (consumer_infos b) tag of
       None \<Rightarrow> b
     | Some info \<Rightarrow> b\<lparr>consumer_infos := dict_set tag (info\<lparr>consumer_state := st\<rparr>) (consumer_infos b)\<rparr>)"

definition consume_ok_waiter :: "nat \<Rightarrow> waiter" where
  "consume_ok_waiter c s = is_ready (basic_consume_ok_result (the_channel c (fst s)))"

definition activate_consumer :: "nat \<Rightarrow> pyval \<Rightarrow> unit bop" where
  "activate_consumer c tag =
     andThen (bchan c (\<lambda>b. map_of (consumer_infos b) tag)) (\<lambda>found.
     case found of
       None \<Rightarrow> raise (Python_Error KeyError)
     | Some info \<Rightarrow> if consumer_state info = SETTING_UP then set_consumer_state c tag CONSUMER_ACTIVE else ret ())"

text \<open>\<open>_basic_consume_impl\<close>; without a callback the events go to the generator.\<close>

definition basic_consume_impl ::
    "user \<Rightarrow> nat \<Rightarrow> pyval \<Rightarrow> pyval \<Rightarrow> pyval \<Rightarrow> pyval \<Rightarrow> pyval \<Rightarrow> nat option \<Rightarrow> pyval \<Rightarrow> pyval blk" where
  "basic_consume_impl U c queue auto_ack exclusive consumer_tag arguments_value cb generated =
     (let tag = (if truthy consumer_tag then consumer_tag else generated) in
      wait_then (do_op (consumer_known c tag)) (\<lambda>known.
      if known then do_op (raise (DuplicateConsumerTag tag))
      else
        wait_then (do_op (set_bchan c (\<lambda>b. b\<lparr>consumer_infos := dict_set tag (new_consumer_info auto_ack cb) (consumer_infos b)\<rparr>))) (\<lambda>_.
        wait_then (on_error
          (finally_do
            (wait_then (do_op (andThen (intern (On_consumer_message_delivery c)) (\<lambda>k.
                 basic_consume c queue k auto_ack exclusive tag arguments_value None generated))) (\<lambda>tag'.
             wait_then (do_op (assert (tag' = tag))) (\<lambda>_.
             channel_flush U c [consume_ok_waiter c])))
            (set_bchan c (\<lambda>b. b\<lparr>basic_consume_ok_result := new_result\<rparr>)))
          (\<lambda>e. do_op (andThen (forget_consumer c tag) (\<lambda>_. raise e)))) (\<lambda>_.
        wait_then (do_op (activate_consumer c tag)) (\<lambda>_. pass tag)))))"

definition blocking_basic_consume ::
    "user \<Rightarrow> nat \<Rightarrow> pyval \<Rightarrow> nat \<Rightarrow> pyval \<Rightarrow> pyval \<Rightarrow> pyval \<Rightarrow> pyval \<Rightarrow> pyval \<Rightarrow> pyval blk" where
  "blocking_basic_consume U c queue on_message_callback auto_ack exclusive consumer_tag arguments_value generated =
     wait_then (do_op (string_arg queue)) (\<lambda>_.
     basic_consume_impl U c queue auto_ack exclusive consumer_tag arguments_value (Some on_message_callback) generated)"

text \<open>\<open>_remove_pending_deliveries\<close>: the messages of a consumer, and what is left.\<close>

fun concerns :: "pyval \<Rightarrow> channel_evt \<Rightarrow> bool" where
  "concerns tag (Delivery_evt m _ _) = (map_of (method_dict m) ''consumer_tag'' = Some tag)"
| "concerns tag (Cancellation_evt m) = (map_of (method_dict m) ''consumer_tag'' = Some tag)"
| "concerns tag (Returned_evt _ _ _ _) = False"

fun is_delivery :: "channel_evt \<Rightarrow> bool" where
  "is_delivery (Delivery_evt _ _ _) = True"
| "is_delivery _ = False"

fun split_pending :: "pyval \<Rightarrow> channel_evt list \<Rightarrow> channel_evt list \<times> channel_evt list" where
  "split_pending tag [] = ([], [])"
| "split_pending tag (evt # evts) =
     (let (messages, remaining) = split_pending tag evts in
      if concerns tag evt then (if is_delivery evt then evt # messages else messages, remaining)
      else (messages, evt # remaining))"

definition remove_pending_deliveries :: "nat \<Rightarrow> pyval \<Rightarrow> channel_evt list bop" where
  "remove_pending_deliveries c tag =
     andThen (bchan c (\<lambda>b. split_pending tag (pending_events b))) (\<lambda>(messages, remaining).
     andThen (set_bchan c (\<lambda>b. b\<lparr>pending_events := remaining\<rparr>)) (\<lambda>_. ret messages))"

definition reject_message :: "nat \<Rightarrow> channel_evt \<Rightarrow> unit bop" where
  "reject_message c evt =
     (case evt of
        Delivery_evt m _ _ \<Rightarrow> andThen (attr ''delivery_tag'' m) (\<lambda>tag. basic_reject c tag (PBool True))
      | _ \<Rightarrow> raise (Python_Error AttributeError))"

fun message_of :: "channel_evt \<Rightarrow> meth \<times> basic_properties \<times> bytes" where
  "message_of (Delivery_evt m props body) = (m, props, body)"
| "message_of (Returned_evt _ m props body) = (m, props, body)"
| "message_of (Cancellation_evt m) = (m, new_properties, [])"

definition cancelled_waiter :: "nat \<Rightarrow> pyval \<Rightarrow> waiter" where
  "cancelled_waiter c tag s \<longleftrightarrow> map_of (consumers (objects (fst s) ! c)) tag = None"

definition send_cancel :: "nat \<Rightarrow> pyval \<Rightarrow> pyval \<Rightarrow> nat \<Rightarrow> unit bop" where
  "send_cancel c tag auto_ack k =
     andThen (if truthy auto_ack then ret ()
        else andThen (remove_pending_deliveries c tag) (\<lambda>messages. sequence (map (reject_message c) messages))) (\<lambda>_.
     basic_cancel c tag (Some k))"

definition check_cancellable :: "nat \<Rightarrow> pyval \<Rightarrow> consumer_info \<Rightarrow> unit bop" where
  "check_cancellable c tag info =
     andThen (assert (consumer_state info \<in> {CONSUMER_ACTIVE, CANCELLED_BY_BROKER})) (\<lambda>_.
     andThen (chan c (\<lambda>ch. map_of (consumers ch) tag \<noteq> None)) (\<lambda>registered.
     assert (consumer_state info = CANCELLED_BY_BROKER \<or> registered)))"

definition unprocessed_messages :: "nat \<Rightarrow> pyval \<Rightarrow> pyval \<Rightarrow> (meth \<times> basic_properties \<times> bytes) list bop" where
  "unprocessed_messages c tag auto_ack =
     andThen (remove_pending_deliveries c tag) (\<lambda>messages.
     if truthy auto_ack then ret (map message_of messages)
     else andThen (assert (messages = [])) (\<lambda>_. ret []))"

definition blocking_basic_cancel :: "user \<Rightarrow> nat \<Rightarrow> pyval \<Rightarrow> (meth \<times> basic_properties \<times> bytes) list blk" where
  "blocking_basic_cancel U c tag =
     wait_then (do_op (bchan c (\<lambda>b. map_of (consumer_infos b) tag))) (\<lambda>found.
     case found of
       None \<Rightarrow> pass []
     | Some info \<Rightarrow>
         finally_do
           (wait_then (do_op (check_cancellable c tag info)) (\<lambda>_.
            wait_then (do_op (set_consumer_state c tag TEARING_DOWN)) (\<lambda>_.
            wait_then (with_result (\<lambda>i.
              wait_then (do_op (andThen (intern (Signal_result i)) (send_cancel c tag (auto_acks info)))) (\<lambda>_.
              channel_flush U c [result_ready i, cancelled_waiter c tag]))) (\<lambda>_.
            do_op (unprocessed_messages c tag (auto_acks info))))))
           (forget_consumer c tag))"

section \<open>The generator \<open>consume\<close>\<close>

definition ends_with_cancellation :: "channel_evt list \<Rightarrow> bool" where
  "ends_with_cancellation evts \<longleftrightarrow> (case rev evts of Cancellation_evt _ # _ \<Rightarrow> True | _ \<Rightarrow> False)"

definition get_waiting_message_count :: "nat \<Rightarrow> nat bop" where
  "get_waiting_message_count c =
     bchan c (\<lambda>b. case queue_consumer_generator b of
       None \<Rightarrow> 0
     | Some g \<Rightarrow>
         if ends_with_cancellation (generator_events g) then length (generator_events g) - 1
         else length (generator_events g))"

definition set_generator :: "nat \<Rightarrow> generator_info option \<Rightarrow> unit bop" where
  "set_generator c g = set_bchan c (\<lambda>b. b\<lparr>queue_consumer_generator := g\<rparr>)"

text \<open>\<open>cancel\<close> rejects from the deque of the generator it has found, while none replaces it.\<close>

fun reject_waiting :: "nat \<Rightarrow> nat \<Rightarrow> generator_info \<Rightarrow> unit bop" where
  "reject_waiting 0 c g = ret ()"
| "reject_waiting (Suc n) c g =
     (case generator_events g of
        [] \<Rightarrow> raise (Python_Error IndexError)
      | evt # evts \<Rightarrow>
          andThen (set_generator c (Some (g\<lparr>generator_events := evts\<rparr>))) (\<lambda>_.
          andThen (reject_message c evt) (\<lambda>_. reject_waiting n c (g\<lparr>generator_events := evts\<rparr>))))"

definition cancel_generator :: "user \<Rightarrow> nat \<Rightarrow> nat blk" where
  "cancel_generator U c =
     wait_then (do_op (bchan c queue_consumer_generator)) (\<lambda>found.
     case found of
       None \<Rightarrow> pass 0
     | Some g \<Rightarrow>
         finally_do
           (wait_then (do_op (if truthy (fst (snd (generator_params g))) then ret ()
               else andThen (get_waiting_message_count c) (\<lambda>n. reject_waiting n c g))) (\<lambda>_.
            wait_then (blocking_basic_cancel U c (generator_tag g)) (\<lambda>_. pass 0)))
           (set_generator c None))"

definition channel_process_data_events :: "user \<Rightarrow> nat \<Rightarrow> int option \<Rightarrow> unit blk" where
  "channel_process_data_events U c time_limit =
     wait_then (process_data_events U time_limit) (\<lambda>_. do_op (raise_if_closed_by_broker c))"

text \<open>The generator up to its loop, and one \<open>next()\<close> of it: every \<open>yield\<close> goes on at the head of the loop.\<close>

definition start_generator :: "user \<Rightarrow> nat \<Rightarrow> pyval \<Rightarrow> pyval \<Rightarrow> pyval \<Rightarrow> pyval \<Rightarrow> pyval \<Rightarrow> unit blk" where
  "start_generator U c queue auto_ack exclusive arguments_value generated =
     wait_then (do_op (raise_if_not_open c)) (\<lambda>_.
     wait_then (do_op (bchan c queue_consumer_generator)) (\<lambda>found.
     case found of
       Some g \<Rightarrow>
         if (queue, auto_ack, exclusive) \<noteq> generator_params g then do_op (raise (Python_Error ValueError)) else pass ()
     | None \<Rightarrow>
         wait_then (do_op (set_generator c (Some \<lparr>generator_params = (queue, auto_ack, exclusive),
           generator_tag = generated, generator_events = []\<rparr>))) (\<lambda>_.
         on_error
           (wait_then (basic_consume_impl U c queue auto_ack exclusive generated arguments_value None generated) (\<lambda>_. pass ()))
           (\<lambda>e. do_op (andThen (set_generator c None) (\<lambda>_. raise e))))))"

datatype generator_item = Item "meth \<times> basic_properties \<times> bytes" | Inactive | Stopped

definition generator_idle :: "nat \<Rightarrow> waiter" where
  "generator_idle c s \<longleftrightarrow>
     (case queue_consumer_generator (the_channel c (fst s)) of None \<Rightarrow> False | Some g \<Rightarrow> generator_events g = [])"

text \<open>The inner loop: \<open>True\<close> when the time is over.\<close>

definition wait_inactive :: "user \<Rightarrow> nat \<Rightarrow> int \<Rightarrow> bool blk" where
  "wait_inactive U c inactivity_timeout =
     wait_then (do_op (get clock)) (\<lambda>now.
     iterate (\<lambda>delta s.
       if \<not> generator_idle c s then Some (Inr (Inr False), s)
       else wait_then (channel_process_data_events U c (Some delta)) (\<lambda>_ s.
         if \<not> generator_idle c s then Some (Inr (Inr False), s)
         else let delta = now + inactivity_timeout - clock (fst s) in
              Some (Inr (if delta \<le> 0 then Inr True else Inl delta), s)) s) inactivity_timeout)"

definition next_item :: "user \<Rightarrow> nat \<Rightarrow> int option \<Rightarrow> generator_item blk" where
  "next_item U c inactivity_timeout =
     iterate (\<lambda>_.
       wait_then (do_op (bchan c queue_consumer_generator)) (\<lambda>found.
       case found of
         None \<Rightarrow> pass (Inr Stopped)
       | Some g \<Rightarrow>
           (case generator_events g of
              evt # evts \<Rightarrow>
                wait_then (do_op (set_generator c (Some (g\<lparr>generator_events := evts\<rparr>)))) (\<lambda>_.
                (case evt of
                   Cancellation_evt _ \<Rightarrow>
                     wait_then (do_op (set_generator c None)) (\<lambda>_. pass (Inr Stopped))
                 | _ \<Rightarrow> pass (Inr (Item (message_of evt)))))
            | [] \<Rightarrow>
                (case inactivity_timeout of
                   None \<Rightarrow> wait_then (channel_process_data_events U c None) (\<lambda>_. pass (Inl ()))
                 | Some limit \<Rightarrow>
                     wait_then (wait_inactive U c limit) (\<lambda>over. pass (if over then Inr Inactive else Inl ())))))) ()"

section \<open>Starting and stopping\<close>

definition cancel_all_consumers :: "user \<Rightarrow> nat \<Rightarrow> unit blk" where
  "cancel_all_consumers U c =
     wait_then (do_op (bchan c consumer_infos)) (\<lambda>infos.
     if infos = [] then pass ()
     else wait_then (do_op (bchan c queue_consumer_generator)) (\<lambda>g.
       wait_then (if g = None then pass 0 else cancel_generator U c) (\<lambda>_.
       wait_then (do_op (bchan c consumer_infos)) (\<lambda>infos.
       each (\<lambda>tag. wait_then (blocking_basic_cancel U c tag) (\<lambda>_. pass ())) (map fst infos)))))"

definition has_consumers :: "nat \<Rightarrow> waiter" where
  "has_consumers c s \<longleftrightarrow> consumer_infos (the_channel c (fst s)) \<noteq> []"

definition start_consuming :: "user \<Rightarrow> nat \<Rightarrow> unit blk" where
  "start_consuming U c =
     wait_then (with_dispatch (\<lambda>dispatch_allowed. if dispatch_allowed then pass () else do_op (raise ReentrancyError))) (\<lambda>_.
     wait_then (do_op (raise_if_not_open c)) (\<lambda>_.
     while_do (has_consumers c) (channel_process_data_events U c None)))"

definition stop_consuming :: "user \<Rightarrow> nat \<Rightarrow> pyval \<Rightarrow> unit blk" where
  "stop_consuming U c consumer_tag =
     (if truthy consumer_tag then wait_then (blocking_basic_cancel U c consumer_tag) (\<lambda>_. pass ())
      else cancel_all_consumers U c)"

definition blocking_close_channel :: "user \<Rightarrow> nat \<Rightarrow> pyval \<Rightarrow> pyval \<Rightarrow> unit blk" where
  "blocking_close_channel U c reply_code reply_text =
     wait_then (do_op (raise_if_not_open c)) (\<lambda>_.
     finally_do
       (wait_then (cancel_all_consumers U c) (\<lambda>_.
        wait_then (do_op (close_channel c reply_code reply_text)) (\<lambda>_.
        channel_flush U c [closed_waiter c])))
       (cleanup_blocking_channel c))"

text \<open>The callbacks for cancelled consumers and for returned messages\<close>

definition blocking_add_on_cancel_callback :: "nat \<Rightarrow> nat \<Rightarrow> unit bop" where
  "blocking_add_on_cancel_callback c cb =
     andThen (intern (User cb)) (\<lambda>k. chan_add c ''blocking_channel_consumer_cancelled'' (Application k) False None None)"

definition blocking_add_on_return_callback :: "nat \<Rightarrow> nat \<Rightarrow> unit bop" where
  "blocking_add_on_return_callback c cb =
     andThen (get (\<lambda>w. length (hooks w))) (\<lambda>k.
     andThen (change (\<lambda>w. w\<lparr>hooks := hooks w @ [Return_lambda c cb k]\<rparr>)) (\<lambda>_. add_on_return_callback c k))"

section \<open>The connection\<close>

text \<open>What \<open>__init__\<close> does with the connection that the workflow has brought up.\<close>

definition blocking_init :: "unit bop" where
  "blocking_init = andThen (intern Set_closed_result) conn_add_on_close_callback"

definition blocking_add_on_blocked_callback :: "nat \<Rightarrow> unit bop" where
  "blocking_add_on_blocked_callback cb = andThen (intern (On_blocked_event cb)) conn_add_on_blocked_callback"

definition blocking_add_on_unblocked_callback :: "nat \<Rightarrow> unit bop" where
  "blocking_add_on_unblocked_callback cb = andThen (intern (On_unblocked_event cb)) conn_add_on_unblocked_callback"

definition blocking_new_channel :: "user \<Rightarrow> int option \<Rightarrow> nat blk" where
  "blocking_new_channel U number =
     with_result (\<lambda>i.
       wait_then (do_op (andThen (intern (Set_result i)) (\<lambda>k. conn_channel number (Some k)))) (\<lambda>c.
       wait_then (do_op (new_blocking_channel_for c)) (\<lambda>_.
       wait_then (channel_flush U c [result_ready i]) (\<lambda>_. pass c))))"

definition blocking_update_secret :: "user \<Rightarrow> pyval \<Rightarrow> pyval \<Rightarrow> unit blk" where
  "blocking_update_secret U new_secret reason =
     wait_then (do_op new_local) (\<lambda>i.
     wait_then (do_op (andThen (intern (Signal_result i)) (\<lambda>k. update_secret new_secret reason (Some k)))) (\<lambda>_.
     conn_flush U [result_ready i]))"

definition close_if_open :: "user \<Rightarrow> pyval \<Rightarrow> pyval \<Rightarrow> nat \<Rightarrow> unit blk" where
  "close_if_open U reply_code reply_text c =
     wait_then (do_op (check_cookie c)) (\<lambda>_.
     wait_then (do_op (chan c chan_state)) (\<lambda>st.
     if st \<noteq> OPEN then pass ()
     else on_error (blocking_close_channel U c reply_code reply_text)
            (\<lambda>e. if isinstance e C_ChannelClosed then pass () else do_op (raise e))))"

definition closed_result_ready :: waiter where
  "closed_result_ready s = is_ready (closed_result (fst s))"

definition blocking_close :: "user \<Rightarrow> pyval \<Rightarrow> pyval \<Rightarrow> unit blk" where
  "blocking_close U reply_code reply_text =
     wait_then (do_op (get connection_state)) (\<lambda>st.
     if st \<noteq> CONNECTION_OPEN then do_op (raise ConnectionWrongStateError)
     else wait_then (do_op (get channels)) (\<lambda>chans.
       wait_then (each (close_if_open U reply_code reply_text) (map snd chans)) (\<lambda>_.
       wait_then (do_op (conn_close reply_code reply_text)) (\<lambda>_.
       conn_flush U [closed_result_ready]))))"

end
