(* ===== verification/Blocking_Safety.thy ===== *)
theory Blocking_Safety
  imports Blocking_Channel
begin

text \<open>
  What the blocking layer guarantees: callbacks of the user are only called while events are
  dispatched, never while a call waits for its reply and never from within one another; waiting
  ends with what has been waited for; below it all, the connection keeps its invariant.
\<close>

text \<open>States are pairs; they stay whole.\<close>

declare split_paired_All [simp del] split_paired_Ex [simp del]

section \<open>Loops\<close>

lemma iterate_rule:
  assumes run: "iterate f a s = Some (r, s')" and start: "J a s"
    and body: "\<And>a s r s'. \<lbrakk>J a s; f a s = Some (r, s')\<rbrakk>
      \<Longrightarrow> case r of Inl e \<Rightarrow> Q (Inl e) s' | Inr (Inl a) \<Rightarrow> J a s' | Inr (Inr b) \<Rightarrow> Q (Inr b) s'"
  shows "Q r s'"
proof -
  let ?P = "\<lambda>g a s y. (\<forall>a s r s'. J a s \<longrightarrow> g a s = Some (r, s')
      \<longrightarrow> (case r of Inl e \<Rightarrow> Q (Inl e) s' | Inr (Inl a) \<Rightarrow> J a s' | Inr (Inr b) \<Rightarrow> Q (Inr b) s'))
    \<longrightarrow> J a s \<longrightarrow> Q (fst y) (snd y)"
  have "?P f a s (r, s')"
  proof (rule iterate.raw_induct[where P = ?P, OF _ run], intro impI)
    fix it g a s y
    assume IH: "\<And>g a s y. it g a s = Some y \<Longrightarrow> ?P g a s y"
      and eq: "Option.bind (g a s) (\<lambda>(r, s). case r of Inl e \<Rightarrow> Some (Inl e, s)
        | Inr (Inl a) \<Rightarrow> it g a s | Inr (Inr b) \<Rightarrow> Some (Inr b, s)) = Some y"
      and step: "\<forall>a s r s'. J a s \<longrightarrow> g a s = Some (r, s')
        \<longrightarrow> (case r of Inl e \<Rightarrow> Q (Inl e) s' | Inr (Inl a) \<Rightarrow> J a s' | Inr (Inr b) \<Rightarrow> Q (Inr b) s')"
      and j: "J a s"
    obtain r1 s1 where 1: "g a s = Some (r1, s1)" using eq by (cases "g a s") auto
    with step j have c: "case r1 of Inl e \<Rightarrow> Q (Inl e) s1 | Inr (Inl a) \<Rightarrow> J a s1 | Inr (Inr b) \<Rightarrow> Q (Inr b) s1" by blast
    show "Q (fst y) (snd y)"
    proof (cases r1)
      case (Inl e)
      with eq 1 c show ?thesis by auto
    next
      case r: (Inr x)
      show ?thesis
      proof (cases x)
        case (Inl a')
        with eq 1 r have "it g a' s1 = Some y" by simp
        from IH[OF this] step c r Inl show ?thesis by simp
      qed (use eq 1 c r in auto)
    qed
  qed
  with body start show ?thesis by simp
qed

lemma wait_then_Some:
  "wait_then m f s = Some (r, s') \<longleftrightarrow>
     (\<exists>e. m s = Some (Inl e, s') \<and> r = Inl e) \<or> (\<exists>x s1. m s = Some (Inr x, s1) \<and> f x s1 = Some (r, s'))"
proof (cases "m s")
  case (Some y)
  then show ?thesis by (cases y; cases "fst y") (auto simp: wait_then_def)
qed (simp add: wait_then_def)

lemma finally_do_Some:
  "finally_do m f s = Some (r, s') \<longleftrightarrow> (\<exists>r1 s1. m s = Some (r1, s1)
     \<and> ((\<exists>e. f s1 = (Inl e, s') \<and> r = Inl e) \<or> (f s1 = (Inr (), s') \<and> r = r1)))"
proof (cases "m s")
  case (Some y)
  obtain r1 s1 where "y = (r1, s1)" by (metis surj_pair)
  moreover obtain r2 s2 where "f s1 = (r2, s2)" by (metis surj_pair)
  ultimately show ?thesis using Some by (cases r2) (auto simp: finally_do_def)
qed (simp add: finally_do_def)

lemma on_error_Some:
  "on_error m h s = Some (r, s') \<longleftrightarrow>
     (\<exists>x. m s = Some (Inr x, s') \<and> r = Inr x) \<or> (\<exists>e s1. m s = Some (Inl e, s1) \<and> h e s1 = Some (r, s'))"
proof (cases "m s")
  case (Some y)
  then show ?thesis by (cases y; cases "fst y") (auto simp: on_error_def)
qed (simp add: on_error_def)

lemma while_rule:
  assumes run: "while_do b body s = Some (r, s')" and start: "J s"
    and body: "\<And>s r s'. \<lbrakk>J s; b s; body s = Some (r, s')\<rbrakk> \<Longrightarrow> J s'"
  shows "J s' \<and> (r = Inr () \<longrightarrow> \<not> b s')"
  using run unfolding while_do_def
proof (rule iterate_rule[where J = "\<lambda>_. J"])
  fix a :: unit and s r s'
  assume "J s" "(if b s then wait_then body (\<lambda>_. pass (Inl ())) s else Some (Inr (Inr ()), s)) = Some (r, s')"
  then show "case r of Inl e \<Rightarrow> J s' \<and> (Inl e = Inr () \<longrightarrow> \<not> b s')
    | Inr (Inl a) \<Rightarrow> J s' | Inr (Inr x) \<Rightarrow> J s' \<and> (Inr x = Inr () \<longrightarrow> \<not> b s')"
    by (auto simp: wait_then_Some pass_def do_op_def op_simps split: if_splits intro: body)
qed (rule start)

section \<open>Relations that blocking actions keep\<close>

definition blk_holds :: "(bconn \<Rightarrow> bool) \<Rightarrow> (bconn \<Rightarrow> bconn \<Rightarrow> bool) \<Rightarrow> 'a blk \<Rightarrow> bool" where
  "blk_holds P R m \<longleftrightarrow> (\<forall>s r s'. P s \<longrightarrow> m s = Some (r, s') \<longrightarrow> R s s')"

lemma blk_holdsD: "\<lbrakk>blk_holds P R m; P s; m s = Some (r, s')\<rbrakk> \<Longrightarrow> R s s'"
  by (auto simp: blk_holds_def)

lemma blk_holdsI: "(\<And>s r s'. \<lbrakk>P s; m s = Some (r, s')\<rbrakk> \<Longrightarrow> R s s') \<Longrightarrow> blk_holds P R m"
  by (auto simp: blk_holds_def)

named_theorems blk_intros \<open>composed blocking actions that keep a relation\<close>

locale blk_relation = op_relation P R for P :: "bconn \<Rightarrow> bool" and R :: "bconn \<Rightarrow> bconn \<Rightarrow> bool"
begin

lemma do_op_intro [blk_intros]: "holds P R m \<Longrightarrow> blk_holds P R (do_op m)"
  by (rule blk_holdsI) (auto simp: do_op_def dest: holdsD)

lemma pass_intro [blk_intros]: "blk_holds P R (pass x)"
  unfolding pass_def by (intro do_op_intro basic_intro)

lemma wait_then_intro [blk_intros]:
  assumes m: "blk_holds P R m" and f: "\<And>x. blk_holds P R (f x)"
  shows "blk_holds P R (wait_then m f)"
proof (rule blk_holdsI)
  fix s r s' assume s: "P s" and run: "wait_then m f s = Some (r, s')"
  from run consider e where "m s = Some (Inl e, s')" | x s1 where "m s = Some (Inr x, s1)" "f x s1 = Some (r, s')"
    by (auto simp: wait_then_Some)
  then show "R s s'"
  proof cases
    case 1
    then show ?thesis by (rule blk_holdsD[OF m s])
  next
    case (2 x s1)
    have R1: "R s s1" using blk_holdsD[OF m s 2(1)] .
    from trans[OF R1 blk_holdsD[OF f stable[OF s R1] 2(2)]] show ?thesis .
  qed
qed

lemma finally_do_intro [blk_intros]:
  assumes m: "blk_holds P R m" and f: "holds P R f"
  shows "blk_holds P R (finally_do m f)"
proof (rule blk_holdsI)
  fix s r s' assume s: "P s" and run: "finally_do m f s = Some (r, s')"
  then obtain r1 s1 r2 where 1: "m s = Some (r1, s1)" and 2: "f s1 = (r2, s')"
    by (auto simp: finally_do_Some)
  have R1: "R s s1" using blk_holdsD[OF m s 1] .
  from trans[OF R1 holdsD[OF f stable[OF s R1] 2]] show "R s s'" .
qed

lemma on_error_intro [blk_intros]:
  assumes m: "blk_holds P R m" and f: "\<And>e. blk_holds P R (f e)"
  shows "blk_holds P R (on_error m f)"
proof (rule blk_holdsI)
  fix s r s' assume s: "P s" and run: "on_error m f s = Some (r, s')"
  then consider x where "m s = Some (Inr x, s')" | e s1 where "m s = Some (Inl e, s1)" "f e s1 = Some (r, s')"
    by (auto simp: on_error_Some)
  then show "R s s'"
  proof cases
    case 1
    then show ?thesis by (rule blk_holdsD[OF m s])
  next
    case (2 e s1)
    have R1: "R s s1" using blk_holdsD[OF m s 2(1)] .
    from trans[OF R1 blk_holdsD[OF f stable[OF s R1] 2(2)]] show ?thesis .
  qed
qed

lemma blk_if_intro [blk_intros]:
  "\<lbrakk>b \<Longrightarrow> blk_holds P R m; \<not> b \<Longrightarrow> blk_holds P R m'\<rbrakk> \<Longrightarrow> blk_holds P R (if b then m else m')"
  by simp

lemma blk_option_intro [blk_intros]:
  "\<lbrakk>blk_holds P R m; \<And>x. blk_holds P R (f x)\<rbrakk> \<Longrightarrow> blk_holds P R (case v of None \<Rightarrow> m | Some x \<Rightarrow> f x)"
  by (cases v) auto

lemma blk_list_intro [blk_intros]:
  "\<lbrakk>blk_holds P R m; \<And>x xs. blk_holds P R (f x xs)\<rbrakk> \<Longrightarrow> blk_holds P R (case v of [] \<Rightarrow> m | x # xs \<Rightarrow> f x xs)"
  by (cases v) auto

lemma blk_prod_intro [blk_intros]: "(\<And>x y. blk_holds P R (f x y)) \<Longrightarrow> blk_holds P R (case v of (x, y) \<Rightarrow> f x y)"
  by (cases v) auto

lemma each_intro [blk_intros]: "(\<And>x. blk_holds P R (f x)) \<Longrightarrow> blk_holds P R (each f xs)"
  by (induction xs) (simp_all add: pass_intro wait_then_intro)

lemma iterate_intro:
  assumes f: "\<And>a. blk_holds P R (f a)"
  shows "blk_holds P R (iterate f a)"
proof (rule blk_holdsI)
  fix s r s' assume s: "P s" and run: "iterate f a s = Some (r, s')"
  from run show "R s s'"
  proof (rule iterate_rule[where J = "\<lambda>_ t. R s t" and Q = "\<lambda>_ t. R s t"])
    fix a t r t' assume "R s t" "f a t = Some (r, t')"
    then have "R s t'" using blk_holdsD[OF f stable[OF s]] trans by blast
    then show "case r of Inl e \<Rightarrow> R s t' | Inr (Inl a) \<Rightarrow> R s t' | Inr (Inr b) \<Rightarrow> R s t'"
      by (simp split: sum.split)
  qed (rule refl)
qed

lemma while_intro [blk_intros]: "blk_holds P R m \<Longrightarrow> blk_holds P R (while_do b m)"
  unfolding while_do_def
  by (rule iterate_intro, rule blk_holdsI)
    (auto simp: wait_then_Some pass_def do_op_def op_simps refl dest: blk_holdsD split: if_splits)

lemma with_result_intro [blk_intros]:
  "\<lbrakk>holds P R new_local; \<And>i f. holds P R (upd_result i f); \<And>i. blk_holds P R (m i)\<rbrakk> \<Longrightarrow> blk_holds P R (with_result m)"
  unfolding with_result_def by (intro blk_intros)

end

section \<open>Hooks leave the dispatching alone\<close>

definition undisturbed :: "blocking_connection \<Rightarrow> blocking_connection \<Rightarrow> bool" where
  "undisturbed w w' \<longleftrightarrow> served w' = served w
     \<and> event_dispatch_suspend_depth w' = event_dispatch_suspend_depth w
     \<and> length (rounds w') \<le> length (rounds w)"

interpretation waiting: blk_relation "\<lambda>_. True" "(small_step undisturbed)\<^sup>*\<^sup>*"
  by unfold_locales

abbreviation waits :: "'a bop \<Rightarrow> bool" where
  "waits \<equiv> small undisturbed"

abbreviation blk_waits :: "'a blk \<Rightarrow> bool" where
  "blk_waits \<equiv> blk_holds (\<lambda>_. True) (small_step undisturbed)\<^sup>*\<^sup>*"

named_theorems wait_intros \<open>actions that leave the dispatching alone\<close>

lemma waits_fields [wait_intros]:
  "waits (change (\<lambda>w. w\<lparr>hooks := f1 w\<rparr>))" "waits (change (\<lambda>w. w\<lparr>local_results := f2 w\<rparr>))"
  "waits (change (\<lambda>w. w\<lparr>ready_events := f4 w\<rparr>))"
  "waits (change (\<lambda>w. w\<lparr>channels_pending_dispatch := f5 w\<rparr>))" "waits (change (\<lambda>w. w\<lparr>closed_result := f6 w\<rparr>))"
  "waits (change (\<lambda>w. w\<lparr>cookies := f7 w\<rparr>))" "waits (change (\<lambda>w. w\<lparr>drained := f8 w\<rparr>))"
  "waits (change (\<lambda>w. w\<lparr>user_timers := f9 w\<rparr>))" "waits (change (\<lambda>w. w\<lparr>posted_callbacks := f10 w\<rparr>))"
  "waits (change (\<lambda>w. w\<lparr>has_transport := f11 w\<rparr>))" "waits (change (\<lambda>w. w\<lparr>got_eof := f12 w\<rparr>))"
  "waits (change (\<lambda>w. w\<lparr>failed := f13 w\<rparr>))" "waits (change (\<lambda>w. w\<lparr>clock := f14 w\<rparr>))"
  by (rule small_change; simp add: undisturbed_def)+


lemma waits_access [wait_intros]:
  "waits (bchan c f)" "waits (set_bchan c g)" "waits (number_of_channel c)" "waits (request_channel_dispatch n)"
  unfolding bchan_def set_bchan_def number_of_channel_def request_channel_dispatch_def
  by (intro op_intros wait_intros)+

lemma waits_results [wait_intros]:
  "waits (upd_result i f)" "waits (upd_chan_result c g)" "waits (intern h)" "waits new_local" "waits (local_value i)"
  unfolding upd_result_def upd_chan_result_def intern_def new_local_def local_value_def
  by (intro op_intros wait_intros)+

lemma waits_events [wait_intros]:
  "waits (add_pending_event c evt)" "waits (cleanup_blocking_channel c)" "waits (on_consumer_generator_event c evt)"
  unfolding add_pending_event_def cleanup_blocking_channel_def on_consumer_generator_event_def
  by (intro op_intros wait_intros)+

lemma waits_consumer_events [wait_intros]:
  "waits (on_channel_closed c reason)" "waits (consumer_event c info evt)"
  unfolding on_channel_closed_def consumer_event_def
  by (intro op_intros wait_intros)+

lemma waits_deliveries [wait_intros]:
  "waits (on_consumer_cancelled_by_broker c m)" "waits (on_consumer_message_delivery c m props body)"
  unfolding on_consumer_cancelled_by_broker_def on_consumer_message_delivery_def
  by (intro op_intros wait_intros)+

lemma waits_hook [wait_intros]: "waits (run_hook h n)"
  unfolding run_hook_def
  by (cases h; cases n; simp only: hook.case notice.case prod.case; intro op_intros wait_intros)

lemma hooks_tame: "tame undisturbed (blocking_app U)"
  by (auto simp: tame_def blocking_app_def intro!: op_intros wait_intros)

section \<open>Waiting leaves the dispatching alone\<close>

lemma waits_adapter [wait_intros]:
  "waits (proto_connection_lost (blocking_app U) e)" "waits proto_eof_received" "waits (socket_data (blocking_app U) d)"
  unfolding proto_connection_lost_def proto_eof_received_def socket_data_def proto_data_received_def
  by (intro op_intros wait_intros small_intros hooks_tame small_change; simp add: undisturbed_def)+


lemma waits_rounds [wait_intros]:
  "waits (change (\<lambda>w. w\<lparr>rounds := tl (rounds w)\<rparr>))" "waits (change (\<lambda>w. w\<lparr>rounds := leave_in_round xs (rounds w)\<rparr>))"
proof -
  have "length (leave_in_round xs rs) \<le> length rs" for rs by (cases rs) simp_all
  then show "waits (change (\<lambda>w. w\<lparr>rounds := tl (rounds w)\<rparr>))" "waits (change (\<lambda>w. w\<lparr>rounds := leave_in_round xs (rounds w)\<rparr>))"
    by (rule_tac [!] small_change) (simp_all add: undisturbed_def)
qed

lemma waits_timers [wait_intros]:
  "waits (user_call_later d cb)" "waits (blocking_call_later d k)" "waits (blocking_add_callback_threadsafe k)"
  "waits (run_posted n)"
proof -
  show 1: "waits (user_call_later d cb)" for d cb
    unfolding user_call_later_def by (intro op_intros wait_intros)
  show 2: "waits (blocking_call_later d k)" for d k unfolding blocking_call_later_def by (rule 1)
  show "waits (blocking_add_callback_threadsafe k)"
    unfolding blocking_add_callback_threadsafe_def by (intro op_intros wait_intros)
  show "waits (run_posted n)"
    by (induction n) (auto intro!: op_intros wait_intros 2)
qed

lemma waits_timer_call: "run_timer_call cb (s, t) = (e, s', t') \<Longrightarrow> (small_step undisturbed)\<^sup>*\<^sup>* s s'"
  by (cases cb) (auto simp: run_timer_call_def split: sum.splits prod.splits
      dest: holdsD[OF waits_fields(3) TrueI] holdsD[OF waits_results(1) TrueI])

lemma waits_call_ready: "call_ready run_timer_call ready (s, t) = (e, called, s', t') \<Longrightarrow> (small_step undisturbed)\<^sup>*\<^sup>* s s'"
proof (induction ready arbitrary: s t e called s' t')
  case (Cons i ready)
  show ?case
  proof (cases "action t i")
    case None
    with Cons.prems show ?thesis using Cons.IH by simp
  next
    case (Some cb)
    obtain e1 s1 t1 where p: "run_timer_call cb (s, t) = (e1, s1, t1)" by (metis prod_cases3)
    note 1 = waits_timer_call[OF p]
    show ?thesis
    proof (cases e1)
      case None
      obtain e2 c2 s2 t2 where r: "call_ready run_timer_call ready (s1, t1\<lparr>action := (action t1)(i := None)\<rparr>) = (e2, c2, s2, t2)"
        by (metis prod_cases4)
      from rtranclp_trans[OF 1 Cons.IH[OF r]] Cons.prems Some p None r show ?thesis by simp
    qed (use 1 Cons.prems Some p in simp)
  qed
qed simp

lemma waits_process_timeouts:
  assumes "process_timeouts run_timer_call now (s, t) = (e, called, s', t')"
  shows "(small_step undisturbed)\<^sup>*\<^sup>* s s'"
  using assms
  by (auto simp: process_timeouts_def split: option.splits if_splits prod.splits sum.splits dest: waits_call_ready)

lemma waits_user_timeouts [wait_intros]: "waits user_timeouts"
  unfolding holds_def
proof (intro allI impI)
  fix s :: bconn
  obtain e c s1 ut where p: "process_timeouts run_timer_call (clock (fst s)) (s, user_timers (fst s)) = (e, c, s1, ut)"
    by (metis prod_cases4)
  have "(small_step undisturbed)\<^sup>*\<^sup>* s1 ((fst s1)\<lparr>user_timers := ut\<rparr>, snd s1)"
    using smallD[OF waits_fields(8), of s1 "\<lambda>_. ut"] by (simp add: op_simps)
  with waits_process_timeouts[OF p] show "(small_step undisturbed)\<^sup>*\<^sup>* s (snd (user_timeouts s))"
    by (cases s1) (simp add: user_timeouts_def p)
qed

lemma waits_connection_timeouts [wait_intros]: "waits connection_timeouts"
  unfolding holds_def
proof (intro allI impI)
  fix s :: bconn
  have "snd (connection_timeouts s) = io_round s"
    by (simp add: connection_timeouts_def io_round_def split: prod.split)
  then show "(small_step undisturbed)\<^sup>*\<^sup>* s (snd (connection_timeouts s))" by (simp add: small_round)
qed

lemma waits_run_io [wait_intros]: "waits (run_io U x)"
  by (cases x; simp only: run_io.simps; intro op_intros wait_intros)

lemma waits_run_ios [wait_intros]: "waits (run_ios U xs)"
  by (induction xs) (auto intro!: op_intros wait_intros)

lemma waits_round [wait_intros]: "waits ioloop_process_timeouts"
  unfolding ioloop_process_timeouts_def by (intro op_intros wait_intros)

named_theorems flush_intros \<open>blocking actions that leave the dispatching alone\<close>

lemma waits_poll [flush_intros]: "blk_waits (poll U)"
proof (rule blk_holdsI)
  fix s r s' assume "poll U s = Some (r, s')"
  then obtain ios where "andThen (run_ios U ios) (\<lambda>_. ioloop_process_timeouts) s = (r, s')"
    by (auto simp: poll_def do_op_def split: list.splits)
  moreover have "waits (andThen (run_ios U ios) (\<lambda>_. ioloop_process_timeouts))" by (intro op_intros wait_intros)
  ultimately show "(small_step undisturbed)\<^sup>*\<^sup>* s s'" by (metis smallD snd_conv)
qed

lemma waits_cleanup [wait_intros]: "waits blocking_cleanup" "waits closed_error" "waits raise_unless_by_client"
proof -
  show "waits blocking_cleanup"
    unfolding holds_def
    by (auto simp: blocking_cleanup_def undisturbed_def intro!: r_into_rtranclp quiet)
  show 2: "waits closed_error"
    unfolding closed_error_def
    by (intro op_intros wait_intros) (auto split: notice.split intro!: op_intros)
  show "waits raise_unless_by_client"
    unfolding raise_unless_by_client_def by (intro op_intros 2)
qed

lemma waits_flush [flush_intros]: "blk_waits (conn_flush U ws)" "blk_waits (channel_flush U c vs)"
proof -
  show 1: "blk_waits (conn_flush U ws)" for ws
    unfolding conn_flush_def by (intro blk_intros flush_intros op_intros wait_intros)
  have "waits (raise_if_closed_by_broker c)"
    unfolding raise_if_closed_by_broker_def by (intro op_intros wait_intros)
  then show "blk_waits (channel_flush U c vs)"
    unfolding channel_flush_def by (intro blk_intros 1 op_intros wait_intros small_intros)
qed


section \<open>Methods leave the dispatching alone\<close>

lemma waits_closed_by_broker [wait_intros]: "waits (raise_if_closed_by_broker c)" "waits (frame_of n)"
  unfolding raise_if_closed_by_broker_def frame_of_def
  by (intro op_intros wait_intros, auto split: notice.split intro!: op_intros)+

lemma waits_awaiting [flush_intros]:
  assumes "\<And>k. waits (send k)"
  shows "blk_waits (await_signal U c send)" "blk_waits (await_value U c send)" "blk_waits (await_frame U c send)"
proof -
  show "blk_waits (await_signal U c send)" and 1: "blk_waits (await_value U c send)"
    unfolding await_signal_def await_value_def by (intro blk_intros flush_intros op_intros wait_intros assms)+
  show "blk_waits (await_frame U c send)"
    unfolding await_frame_def by (intro blk_intros 1 wait_intros)
qed

lemma waits_sending [flush_intros]: "waits send \<Longrightarrow> blk_waits (send_and_flush U c send)"
  unfolding send_and_flush_def by (intro blk_intros flush_intros)

lemma waits_replies [flush_intros]:
  "blk_waits (blocking_basic_qos U c sz n g)" "blk_waits (blocking_basic_recover U c r)"
  "blk_waits (blocking_exchange_declare U c ex ty p d a i args)" "blk_waits (blocking_exchange_delete U c ex u)"
  "blk_waits (blocking_exchange_bind U c dst src key args)" "blk_waits (blocking_exchange_unbind U c dst src key args)"
  "blk_waits (blocking_queue_declare U c q p d x a args)" "blk_waits (blocking_queue_delete U c q u e)"
  "blk_waits (blocking_queue_purge U c q)" "blk_waits (blocking_queue_bind U c q ex key args)"
  "blk_waits (blocking_queue_unbind U c q ex key args)" "blk_waits (blocking_tx_select U c)"
  "blk_waits (blocking_tx_commit U c)" "blk_waits (blocking_tx_rollback U c)"
  unfolding blocking_basic_qos_def blocking_basic_recover_def blocking_exchange_declare_def blocking_exchange_delete_def
    blocking_exchange_bind_def blocking_exchange_unbind_def blocking_queue_declare_def blocking_queue_delete_def
    blocking_queue_purge_def blocking_queue_bind_def blocking_queue_unbind_def blocking_tx_select_def
    blocking_tx_commit_def blocking_tx_rollback_def
  by (intro blk_intros flush_intros small_intros op_intros)+

lemma waits_flow [flush_intros]: "blk_waits (blocking_flow U c active)"
  unfolding blocking_flow_def
  by (intro blk_intros flush_intros small_intros) (auto split: notice.split intro!: blk_intros op_intros)

lemma waits_no_reply [flush_intros]:
  "blk_waits (blocking_basic_ack U c t m)" "blk_waits (blocking_basic_nack U c t m r)" "blk_waits (blocking_basic_reject U c t r)"
  unfolding blocking_basic_ack_def blocking_basic_nack_def blocking_basic_reject_def
  by (intro flush_intros small_intros)+

lemma waits_settle [wait_intros]:
  "waits (take_puback_return c)" "waits (settle_publish c)" "waits (reset_confirmation c)" "waits (reset_getempty c)"
  "waits (got_message c i)"
proof -
  show 1: "waits (take_puback_return c)" unfolding take_puback_return_def by (intro op_intros wait_intros)
  show "waits (settle_publish c)"
    unfolding settle_publish_def
    by (intro op_intros wait_intros) (auto split: meth.split basic_method.split intro!: op_intros 1)
  show "waits (reset_confirmation c)" "waits (reset_getempty c)"
    unfolding reset_confirmation_def reset_getempty_def by (intro wait_intros)+
  show "waits (got_message c i)"
    unfolding got_message_def
    by (intro op_intros wait_intros) (auto split: notice.split intro!: op_intros)
qed

lemma waits_publish [flush_intros]:
  "blk_waits (blocking_basic_publish U c ex key body props mandatory)" "blk_waits (blocking_confirm_delivery U c)"
  "blk_waits (blocking_basic_get U c q auto_ack)"
  unfolding blocking_basic_publish_def blocking_confirm_delivery_def blocking_basic_get_def
  by (intro blk_intros flush_intros op_intros wait_intros small_intros)+

lemma waits_consumer_state [wait_intros]:
  "waits (consumer_known c tag)" "waits (wake_dispatch c)" "waits (set_consumer_state c tag st)"
  "waits (remove_pending_deliveries c tag)" "waits (set_generator c g)" "waits (get_waiting_message_count c)"
  unfolding consumer_known_def wake_dispatch_def set_consumer_state_def remove_pending_deliveries_def set_generator_def
    get_waiting_message_count_def
  by (intro op_intros wait_intros)+

lemma waits_consumers [wait_intros]:
  "waits (forget_consumer c tag)" "waits (activate_consumer c tag)" "waits (reject_message c evt)"
  "waits (check_cancellable c tag info)" "waits (unprocessed_messages c tag auto_ack)"
  unfolding forget_consumer_def activate_consumer_def check_cancellable_def unprocessed_messages_def reject_message_def
  by ((cases evt; simp only: channel_evt.case)?; intro op_intros wait_intros small_intros)+

lemma waits_cancel [wait_intros]: "waits (send_cancel c tag auto_ack k)" "waits (reject_waiting n c g)"
proof -
  show "waits (send_cancel c tag auto_ack k)"
    unfolding send_cancel_def by (intro op_intros wait_intros small_intros)
  show "waits (reject_waiting n c g)"
    by (induction n arbitrary: g) (auto split: list.split intro!: op_intros wait_intros)
qed

lemma waits_consuming [flush_intros]:
  "blk_waits (basic_consume_impl U c q auto_ack ex tag args cb gen)" "blk_waits (blocking_basic_cancel U c tag)"
  unfolding basic_consume_impl_def blocking_basic_cancel_def Let_def
  by (intro blk_intros flush_intros op_intros wait_intros small_intros)+

lemma waits_generator [flush_intros]:
  "blk_waits (blocking_basic_consume U c q cb auto_ack ex tag args gen)" "blk_waits (cancel_generator U c)"
  "blk_waits (start_generator U c q auto_ack ex args gen)"
  unfolding blocking_basic_consume_def cancel_generator_def start_generator_def
  by (intro blk_intros flush_intros op_intros wait_intros small_intros)+

lemma waits_cancel_all [flush_intros]: "blk_waits (cancel_all_consumers U c)"
  unfolding cancel_all_consumers_def by (intro blk_intros flush_intros wait_intros)

lemma waits_stop [flush_intros]:
  "blk_waits (stop_consuming U c tag)" "blk_waits (blocking_close_channel U c code txt)"
  unfolding stop_consuming_def blocking_close_channel_def
  by (intro blk_intros flush_intros op_intros wait_intros small_intros)+

lemma waits_registering [wait_intros]:
  "waits (blocking_add_on_cancel_callback c k)" "waits (blocking_add_on_return_callback c k)"
  "waits (blocking_add_on_blocked_callback k)" "waits (blocking_add_on_unblocked_callback k)" "waits (check_cookie c)"
  "waits (new_blocking_channel_for c)" "waits (blocking_remove_timeout i)"
  unfolding blocking_add_on_cancel_callback_def blocking_add_on_return_callback_def blocking_add_on_blocked_callback_def
    blocking_add_on_unblocked_callback_def check_cookie_def new_blocking_channel_for_def blocking_remove_timeout_def
  by (intro op_intros wait_intros small_intros small_change; simp add: undisturbed_def)+

lemma waits_connection [flush_intros]:
  "blk_waits (blocking_new_channel U n)" "blk_waits (blocking_update_secret U x y)" "blk_waits (close_if_open U code txt c)"
  unfolding blocking_new_channel_def blocking_update_secret_def close_if_open_def
  by (intro blk_intros flush_intros op_intros wait_intros small_intros)+

lemma waits_close [flush_intros]: "blk_waits (blocking_close U code txt)"
  unfolding blocking_close_def by (intro blk_intros flush_intros op_intros small_intros)

end
