(* ===== verification/Blocking_Calls.thy ===== *)
theory Blocking_Calls
  imports Blocking_Safety
begin

text \<open>
  The methods of \<open>BlockingConnection\<close> and \<open>BlockingChannel\<close> as one type, \<open>blocking_call\<close>, and those
  that dispatch events, \<open>event_call\<close>; the properties that hold of every one of them.
\<close>

section \<open>Calls\<close>

datatype blocking_call =
  BFlow nat pyval | BQos nat pyval pyval pyval | BRecover nat pyval
| BDeclare_exchange nat pyval "exchange_type + pyval" pyval pyval pyval pyval pyval | BDelete_exchange nat pyval pyval
| BBind_exchange nat pyval pyval pyval pyval | BUnbind_exchange nat pyval pyval pyval pyval
| BDeclare_queue nat pyval pyval pyval pyval pyval pyval | BDelete_queue nat pyval pyval pyval | BPurge_queue nat pyval
| BBind_queue nat pyval pyval pyval pyval | BUnbind_queue nat pyval pyval pyval pyval
| BSelect nat | BCommit nat | BRollback nat
| BAck nat pyval pyval | BNack nat pyval pyval pyval | BReject nat pyval pyval
| BPublish nat pyval pyval pyval "basic_properties option" pyval | BConfirm nat | BGet nat pyval pyval
| BConsume nat pyval nat pyval pyval pyval pyval pyval | BCancel nat pyval | BStop nat pyval
| BStart_generator nat pyval pyval pyval pyval pyval | BCancel_generator nat
| BClose_channel nat pyval pyval | BOn_cancel nat nat | BOn_return nat nat
| BChannel "int option" | BUpdate_secret pyval pyval | BClose pyval pyval | BOn_blocked nat | BOn_unblocked nat
| BCall_later int nat | BAdd_callback nat | BRemove_timeout nat

definition ignore :: "'a blk \<Rightarrow> unit blk" where
  "ignore m = wait_then m (\<lambda>_. pass ())"

fun run_blocking :: "user \<Rightarrow> blocking_call \<Rightarrow> unit blk" where
  "run_blocking U (BFlow c active) = ignore (blocking_flow U c active)"
| "run_blocking U (BQos c sz n g) = blocking_basic_qos U c sz n g"
| "run_blocking U (BRecover c r) = blocking_basic_recover U c r"
| "run_blocking U (BDeclare_exchange c ex ty p d a i args) = ignore (blocking_exchange_declare U c ex ty p d a i args)"
| "run_blocking U (BDelete_exchange c ex u) = ignore (blocking_exchange_delete U c ex u)"
| "run_blocking U (BBind_exchange c dst src key args) = ignore (blocking_exchange_bind U c dst src key args)"
| "run_blocking U (BUnbind_exchange c dst src key args) = ignore (blocking_exchange_unbind U c dst src key args)"
| "run_blocking U (BDeclare_queue c q p d x a args) = ignore (blocking_queue_declare U c q p d x a args)"
| "run_blocking U (BDelete_queue c q u e) = ignore (blocking_queue_delete U c q u e)"
| "run_blocking U (BPurge_queue c q) = ignore (blocking_queue_purge U c q)"
| "run_blocking U (BBind_queue c q ex key args) = ignore (blocking_queue_bind U c q ex key args)"
| "run_blocking U (BUnbind_queue c q ex key args) = ignore (blocking_queue_unbind U c q ex key args)"
| "run_blocking U (BSelect c) = ignore (blocking_tx_select U c)"
| "run_blocking U (BCommit c) = ignore (blocking_tx_commit U c)"
| "run_blocking U (BRollback c) = ignore (blocking_tx_rollback U c)"
| "run_blocking U (BAck c t m) = blocking_basic_ack U c t m"
| "run_blocking U (BNack c t m r) = blocking_basic_nack U c t m r"
| "run_blocking U (BReject c t r) = blocking_basic_reject U c t r"
| "run_blocking U (BPublish c ex key body props mandatory) = blocking_basic_publish U c ex key body props mandatory"
| "run_blocking U (BConfirm c) = blocking_confirm_delivery U c"
| "run_blocking U (BGet c q auto_ack) = ignore (blocking_basic_get U c q auto_ack)"
| "run_blocking U (BConsume c q cb auto_ack ex tag args gen) = ignore (blocking_basic_consume U c q cb auto_ack ex tag args gen)"
| "run_blocking U (BCancel c tag) = ignore (blocking_basic_cancel U c tag)"
| "run_blocking U (BStop c tag) = stop_consuming U c tag"
| "run_blocking U (BStart_generator c q auto_ack ex args gen) = start_generator U c q auto_ack ex args gen"
| "run_blocking U (BCancel_generator c) = ignore (cancel_generator U c)"
| "run_blocking U (BClose_channel c code txt) = blocking_close_channel U c code txt"
| "run_blocking U (BOn_cancel c cb) = do_op (blocking_add_on_cancel_callback c cb)"
| "run_blocking U (BOn_return c cb) = do_op (blocking_add_on_return_callback c cb)"
| "run_blocking U (BChannel n) = ignore (blocking_new_channel U n)"
| "run_blocking U (BUpdate_secret x y) = blocking_update_secret U x y"
| "run_blocking U (BClose code txt) = blocking_close U code txt"
| "run_blocking U (BOn_blocked cb) = do_op (blocking_add_on_blocked_callback cb)"
| "run_blocking U (BOn_unblocked cb) = do_op (blocking_add_on_unblocked_callback cb)"
| "run_blocking U (BCall_later d cb) = ignore (do_op (blocking_call_later d cb))"
| "run_blocking U (BAdd_callback cb) = do_op (blocking_add_callback_threadsafe cb)"
| "run_blocking U (BRemove_timeout i) = do_op (blocking_remove_timeout i)"

datatype event_call = Process_data_events "int option" | Sleep int | Start_consuming nat | Next_item nat "int option"

fun run_events :: "user \<Rightarrow> event_call \<Rightarrow> unit blk" where
  "run_events U (Process_data_events limit) = process_data_events U limit"
| "run_events U (Sleep d) = sleep U d"
| "run_events U (Start_consuming c) = start_consuming U c"
| "run_events U (Next_item c limit) = ignore (next_item U c limit)"

section \<open>Waiting serves nothing\<close>

lemma waits_call: "blk_waits (run_blocking U x)"
  by (cases x; simp only: run_blocking.simps ignore_def; intro blk_intros flush_intros wait_intros)

lemma more_fields:
  fixes w w' :: blocking_connection
  assumes "endpoint.more w' = endpoint.more w"
  shows "served w' = served w" "event_dispatch_suspend_depth w' = event_dispatch_suspend_depth w" "rounds w' = rounds w"
  using assms by (cases w; cases w'; simp)+

lemma undisturbed_refl: "undisturbed w w"
  by (simp add: undisturbed_def)

lemma undisturbed_trans: "\<lbrakk>undisturbed w w'; undisturbed w' w''\<rbrakk> \<Longrightarrow> undisturbed w w''"
  by (auto simp: undisturbed_def)

lemma undisturbed_step: "small_step undisturbed s s' \<Longrightarrow> undisturbed (fst s) (fst s')"
proof (induction rule: small_step.induct)
  case (quiet w' w t t')
  then show ?case using more_fields[of w' w] by (auto simp: undisturbed_def)
qed (auto simp: undisturbed_def output_single)

lemma undisturbed_steps: "(small_step undisturbed)\<^sup>*\<^sup>* s s' \<Longrightarrow> undisturbed (fst s) (fst s')"
  by (induction rule: rtranclp_induct) (auto intro: undisturbed_refl undisturbed_trans undisturbed_step)

lemma call_steps: "run_blocking U x s = Some (r, s') \<Longrightarrow> (small_step undisturbed)\<^sup>*\<^sup>* s s'"
  using blk_holdsD[OF waits_call TrueI] .

text \<open>
  C7 (safety). A method that waits for the broker calls no callback of the user and leaves the
  dispatching state alone, whatever arrives meanwhile and however the call ends: messages, timers
  and cancellations that come in are kept for later. The connection below keeps its invariant and
  only adds to what it has sent.
\<close>

theorem waiting_calls_no_callback:
  assumes "run_blocking U x s = Some (r, s')"
  shows "served (fst s') = served (fst s) \<and> event_dispatch_suspend_depth (fst s') = event_dispatch_suspend_depth (fst s)
    \<and> (sound s \<longrightarrow> sound s') \<and> extends s s'"
  using undisturbed_steps[OF call_steps[OF assms]] sound_smalls[OF call_steps[OF assms]] extends_smalls[OF call_steps[OF assms]]
  by (simp add: undisturbed_def)

section \<open>Events are not dispatched from within a callback\<close>

definition in_callback :: "bconn \<Rightarrow> bool" where
  "in_callback s \<longleftrightarrow> event_dispatch_suspend_depth (fst s) \<ge> 1"

definition serves_nothing :: "bconn \<Rightarrow> bconn \<Rightarrow> bool" where
  "serves_nothing s s' \<longleftrightarrow> served (fst s') = served (fst s)
     \<and> event_dispatch_suspend_depth (fst s') = event_dispatch_suspend_depth (fst s)"

interpretation nested: blk_relation in_callback serves_nothing
  by unfold_locales (auto simp: in_callback_def serves_nothing_def)

lemma waits_nested: "blk_waits m \<Longrightarrow> blk_holds in_callback serves_nothing m"
proof (rule blk_holdsI)
  fix s r s' assume "blk_waits m" "m s = Some (r, s')"
  from undisturbed_steps[OF blk_holdsD[OF this(1) TrueI this(2)]] show "serves_nothing s s'"
    by (simp add: serves_nothing_def undisturbed_def)
qed

lemma op_nested: "waits m \<Longrightarrow> holds in_callback serves_nothing m"
  using undisturbed_steps[OF smallD] by (auto simp: holds_def serves_nothing_def undisturbed_def)

lemma with_dispatch_Some:
  assumes "with_dispatch f s = Some (r, s')"
  obtains s1 where "f (event_dispatch_suspend_depth (fst s) = 0)
      ((fst s)\<lparr>event_dispatch_suspend_depth := event_dispatch_suspend_depth (fst s) + 1\<rparr>, snd s) = Some (r, s1)"
    "s' = ((fst s1)\<lparr>event_dispatch_suspend_depth := event_dispatch_suspend_depth (fst s1) - 1\<rparr>, snd s1)"
  using assms by (auto simp: with_dispatch_def wait_then_Some finally_do_Some do_op_def op_simps)

lemma dispatch_nested:
  assumes "blk_holds in_callback serves_nothing (f False)"
  shows "blk_holds in_callback serves_nothing (with_dispatch f)"
proof (rule blk_holdsI)
  fix s r s' assume s: "in_callback s" and run: "with_dispatch f s = Some (r, s')"
  from run s obtain s1 where 1: "f False ((fst s)\<lparr>event_dispatch_suspend_depth := event_dispatch_suspend_depth (fst s) + 1\<rparr>, snd s)
      = Some (r, s1)" "s' = ((fst s1)\<lparr>event_dispatch_suspend_depth := event_dispatch_suspend_depth (fst s1) - 1\<rparr>, snd s1)"
    by (elim with_dispatch_Some) (simp add: in_callback_def)
  have "in_callback ((fst s)\<lparr>event_dispatch_suspend_depth := event_dispatch_suspend_depth (fst s) + 1\<rparr>, snd s)"
    using s by (simp add: in_callback_def)
  from blk_holdsD[OF assms this 1(1)] 1(2) show "serves_nothing s s'" by (simp add: serves_nothing_def)
qed

lemma timer_nested:
  "(\<And>i. blk_holds in_callback serves_nothing (f i)) \<Longrightarrow> blk_holds in_callback serves_nothing (with_timer d f)"
  unfolding with_timer_def
  by (intro nested.wait_then_intro nested.finally_do_intro nested.do_op_intro op_nested; (intro op_intros wait_intros)?)

lemma get_nested: "blk_holds in_callback serves_nothing (do_op (get f))"
  by (intro waits_nested blk_intros op_intros)

lemma process_nested: "blk_holds in_callback serves_nothing (process_data_events U limit)"
  unfolding process_data_events_def dispatch_connection_events_def dispatch_channel_events_def
  by (intro nested.wait_then_intro nested.blk_if_intro dispatch_nested nested.blk_option_intro timer_nested get_nested)
    (auto intro!: waits_nested flush_intros blk_intros nested.pass_intro)


lemma raise_nested: "blk_holds in_callback serves_nothing (do_op (raise_if_closed_by_broker c))"
  by (intro waits_nested blk_intros wait_intros)

lemma channel_process_nested: "blk_holds in_callback serves_nothing (channel_process_data_events U c limit)"
  unfolding channel_process_data_events_def by (intro nested.wait_then_intro process_nested raise_nested)

lemma sleep_nested: "blk_holds in_callback serves_nothing (sleep U d)"
  unfolding sleep_def Let_def
  by (intro nested.wait_then_intro nested.iterate_intro process_nested get_nested)
    (auto intro!: waits_nested blk_intros op_intros)

lemma open_nested: "blk_holds in_callback serves_nothing (do_op (raise_if_not_open c))"
  by (intro waits_nested waiting.do_op_intro small_intros)

lemma start_nested: "blk_holds in_callback serves_nothing (start_consuming U c)"
  unfolding start_consuming_def
  by (intro nested.wait_then_intro nested.while_intro dispatch_nested channel_process_nested open_nested)
    (auto intro!: waits_nested blk_intros op_intros)

lemma wait_inactive_nested: "blk_holds in_callback serves_nothing (wait_inactive U c limit)"
proof -
  have "blk_holds in_callback serves_nothing (\<lambda>s. if \<not> generator_idle c s then Some (Inr (Inr False), s)
       else wait_then (channel_process_data_events U c (Some delta)) (\<lambda>_ s.
         if \<not> generator_idle c s then Some (Inr (Inr False), s)
         else let delta = now + limit - clock (fst s) in
              Some (Inr (if delta \<le> 0 then Inr True else Inl delta), s)) s)" for now delta :: int
  proof (rule blk_holdsI)
    fix s r s'
    assume "in_callback s" "(if \<not> generator_idle c s then Some (Inr (Inr False), s)
       else wait_then (channel_process_data_events U c (Some delta)) (\<lambda>_ s.
         if \<not> generator_idle c s then Some (Inr (Inr False), s)
         else let delta = now + limit - clock (fst s) in
              Some (Inr (if delta \<le> 0 then Inr True else Inl delta), s)) s) = Some (r, s')"
    then show "serves_nothing s s'"
      using nested.refl[of s] by (auto simp: wait_then_Some Let_def split: if_splits dest: blk_holdsD[OF channel_process_nested])
  qed
  then show ?thesis
    unfolding wait_inactive_def by (intro nested.wait_then_intro nested.iterate_intro get_nested)
qed

lemma next_item_nested: "blk_holds in_callback serves_nothing (next_item U c limit)"
proof -
  have get: "blk_holds in_callback serves_nothing (do_op (bchan c f))"
    and set: "blk_holds in_callback serves_nothing (do_op (set_generator c g))" for f :: "blocking_channel \<Rightarrow> 'a" and g
    by (intro waits_nested blk_intros wait_intros)+
  have yield: "blk_holds in_callback serves_nothing (case evt of Cancellation_evt _ \<Rightarrow>
      wait_then (do_op (set_generator c None)) (\<lambda>_. pass (Inr Stopped)) | _ \<Rightarrow> pass (Inr (Item (message_of evt)) :: unit + generator_item))" for evt
    by (cases evt) (simp_all add: nested.pass_intro nested.wait_then_intro set)
  show ?thesis
    unfolding next_item_def
    by (intro nested.iterate_intro nested.wait_then_intro nested.blk_option_intro nested.blk_list_intro nested.pass_intro
        get set yield channel_process_nested wait_inactive_nested)
qed

lemma ignore_nested: "blk_holds in_callback serves_nothing m \<Longrightarrow> blk_holds in_callback serves_nothing (ignore m)"
  unfolding ignore_def by (intro nested.wait_then_intro nested.pass_intro)

lemma events_nested: "blk_holds in_callback serves_nothing (run_events U x)"
  by (cases x) (simp_all add: process_nested sleep_nested start_nested next_item_nested ignore_nested)


text \<open>
  \<open>start_consuming\<close> within a callback raises \<open>ReentrancyError\<close> and has no effect.
\<close>

theorem start_consuming_not_nested:
  assumes "event_dispatch_suspend_depth (fst s) \<ge> 1"
  shows "start_consuming U c s = Some (Inl ReentrancyError, s)"
  using assms by (simp add: start_consuming_def with_dispatch_def wait_then_def finally_do_def do_op_def op_simps pass_def)

end
