(* ===== verification/Blocking_Results.thy ===== *)
theory Blocking_Results
  imports Blocking_Calls
begin

text \<open>
  What the methods of the blocking layer leave behind: when waiting ends and when it does not,
  what a cancelled consumer, a confirmed message and a dispatched delivery come to.
\<close>

section \<open>When waiting ends\<close>

lemma leave_in_round_length: "length (leave_in_round xs rs) = length rs"
  by (cases rs) simp_all

lemma waits_rounds_le: "\<lbrakk>waits m; m s = (r, s')\<rbrakk> \<Longrightarrow> length (rounds (fst s')) \<le> length (rounds (fst s))"
proof -
  assume "waits m" "m s = (r, s')"
  from undisturbed_steps[OF holdsD[OF this(1) TrueI this(2)]] show ?thesis by (simp add: undisturbed_def)
qed

lemma run_ios_consumes:
  "\<lbrakk>run_ios U xs s = (Inr (), s'); rounds (fst s) \<noteq> []\<rbrakk> \<Longrightarrow> length (rounds (fst s')) < length (rounds (fst s))"
proof (induction xs arbitrary: s)
  case Nil
  then show ?case by (auto simp: op_simps)
next
  case (Cons x xs)
  let ?s = "((fst s)\<lparr>rounds := leave_in_round xs (rounds (fst s))\<rparr>, snd s)"
  obtain r s2 where 2: "run_io U x ?s = (r, s2)" by (metis surj_pair)
  with Cons.prems(1) have 3: "run_ios U xs s2 = (Inr (), s')" by (cases r) (auto simp: op_simps andThen_def)
  have le: "length (rounds (fst s2)) \<le> length (rounds (fst s))"
    using waits_rounds_le[OF waits_run_io 2] by (simp add: leave_in_round_length)
  show ?case
  proof (cases "rounds (fst s2) = []")
    case True
    with waits_rounds_le[OF waits_run_ios 3] Cons.prems(2) show ?thesis by simp
  next
    case False
    with Cons.IH[OF 3] le show ?thesis by simp
  qed
qed

lemma poll_consumes: "poll U s = Some (Inr (), s') \<Longrightarrow> length (rounds (fst s')) < length (rounds (fst s))"
proof -
  assume p: "poll U s = Some (Inr (), s')"
  then obtain ios rs where r: "rounds (fst s) = ios # rs"
      and a: "andThen (run_ios U ios) (\<lambda>_. ioloop_process_timeouts) s = (Inr (), s')"
    by (auto simp: poll_def do_op_def split: list.splits)
  from a obtain s1 where "run_ios U ios s = (Inr (), s1)" "ioloop_process_timeouts s1 = (Inr (), s')"
    by (auto simp: andThen_def split: prod.splits sum.splits)
  with run_ios_consumes[of U ios s s1] waits_rounds_le[OF waits_round] r show ?thesis by fastforce
qed

definition polled :: "user \<Rightarrow> bconn \<Rightarrow> bconn \<Rightarrow> bool" where
  "polled U = (\<lambda>s s'. poll U s = Some (Inr (), s'))\<^sup>*\<^sup>*"

lemma while_do_unfold:
  "while_do b body s = (if b s then wait_then body (\<lambda>_. while_do b body) s else Some (Inr (), s))"
proof (cases "b s")
  case True
  show ?thesis
  proof (cases "body s")
    case (Some y)
    with True show ?thesis
      by (cases y; cases "fst y")
        (simp_all add: while_do_def iterate.simps[of _ "()" s] wait_then_def pass_def do_op_def op_simps)
  qed (use True in \<open>simp add: while_do_def iterate.simps[of _ "()" s] wait_then_def\<close>)
qed (simp add: while_do_def iterate.simps[of _ "()" s])

lemma pump_ends:
  "while_do (\<lambda>s. \<not> done s) (poll U) s = None
    \<Longrightarrow> \<exists>s'. polled U s s' \<and> rounds (fst s') = [] \<and> \<not> done s'"
proof (induction "length (rounds (fst s))" arbitrary: s rule: less_induct)
  case less
  then have nd: "\<not> done s" by (auto simp: while_do_unfold[of _ _ s] split: if_splits)
  show ?case
  proof (cases "poll U s")
    case None
    then have "rounds (fst s) = []" by (auto simp: poll_def do_op_def split: list.splits)
    with nd show ?thesis by (auto simp: polled_def)
  next
    case (Some y)
    obtain r s1 where y: "y = (r, s1)" by (metis surj_pair)
    with less.prems nd Some have "r = Inr ()" and w: "while_do (\<lambda>s. \<not> done s) (poll U) s1 = None"
      by (cases r; auto simp: while_do_unfold[of _ _ s] wait_then_def)+
    with Some y have p: "poll U s = Some (Inr (), s1)" by simp
    from less.hyps[OF poll_consumes[OF p] w] obtain s' where "polled U s1 s'" "rounds (fst s') = []" "\<not> done s'" by blast
    with p show ?thesis by (auto simp: polled_def intro: converse_rtranclp_into_rtranclp)
  qed
qed


text \<open>
  C11 (functional). When \<open>_flush_output\<close> returns, all output is written, or the transport is gone,
  and one of the waiters is ready; or the user has closed the connection, and the loop is closed.
\<close>

theorem flush_returns_when_done:
  assumes "conn_flush U waiters s = Some (Inr (), s')"
  shows "output_written s' \<and> (waiters = [] \<or> list_ex (\<lambda>ready. ready s') waiters)
    \<or> (\<exists>s1 e. result_value (closed_result (fst s1)) = Inr (Connection_Closed e)
         \<and> isinstance e C_ConnectionClosedByClient \<and> s' = snd (blocking_cleanup s1))"
proof -
  from assms obtain s1 where pump: "while_do (\<lambda>s. \<not> is_done waiters s) (poll U) s = Some (Inr (), s1)"
    and rest: "(if is_ready (closed_result (fst s1)) then do_op (try_finally raise_unless_by_client blocking_cleanup)
      else pass ()) s1 = Some (Inr (), s')"
    by (auto simp: conn_flush_def wait_then_Some do_op_def op_simps split: if_splits)
  have d: "is_done waiters s1" using while_rule[OF pump, of "\<lambda>_. True"] by simp
  show ?thesis
  proof (cases "is_ready (closed_result (fst s1))")
    case False
    with rest have "s' = s1" by (simp add: pass_def do_op_def op_simps)
    with d False show ?thesis by (simp add: is_done_def)
  next
    case True
    with rest have "try_finally raise_unless_by_client blocking_cleanup s1 = (Inr (), s')" by (simp add: do_op_def)
    then obtain s2 where 2: "raise_unless_by_client s1 = (Inr (), s2)" "s' = snd (blocking_cleanup s2)"
      by (auto simp: try_finally_def blocking_cleanup_def split: prod.splits sum.splits)
    then have "s2 = s1 \<and> (\<exists>e. result_value (closed_result (fst s1)) = Inr (Connection_Closed e) \<and> isinstance e C_ConnectionClosedByClient)"
      by (cases "result_value (closed_result (fst s1))")
        (auto simp: raise_unless_by_client_def closed_error_def op_simps andThen_assoc unless_error_def split: notice.splits if_splits)
    with 2 show ?thesis by blast
  qed
qed

section \<open>Consumers\<close>

lemma split_pending_eq:
  "split_pending tag evts = (filter (\<lambda>e. concerns tag e \<and> is_delivery e) evts, filter (\<lambda>e. \<not> concerns tag e) evts)"
  by (induction evts) simp_all

lemma the_channel_set [simp]:
  "the_channel c (w\<lparr>cookies := dict_set c b (cookies w)\<rparr>) = b"
  by (simp add: the_channel_def map_of_dict_set)

lemma the_channel_pending [simp]: "the_channel c (w\<lparr>channels_pending_dispatch := x\<rparr>) = the_channel c w"
  by (simp add: the_channel_def)

text \<open>
  C13 (safety). A consumer that \<open>basic_cancel\<close> has cancelled is forgotten, and no delivery to it and no
  notice of its cancellation is left to dispatch.
\<close>

theorem cancel_leaves_nothing:
  assumes "map_of (consumer_infos (the_channel c (fst s))) tag \<noteq> None" "blocking_basic_cancel U c tag s = Some (Inr ms, s')"
  shows "map_of (consumer_infos (the_channel c (fst s'))) tag = None
    \<and> list_all (\<lambda>evt. \<not> concerns tag evt) (pending_events (the_channel c (fst s')))"
proof -
  from assms obtain info where "map_of (consumer_infos (the_channel c (fst s))) tag = Some info" by blast
  with assms(2) obtain s1 s2 where 1: "unprocessed_messages c tag (auto_acks info) s1 = (Inr ms, s2)"
    and 2: "forget_consumer c tag s2 = (Inr (), s')"
    by (auto simp: blocking_basic_cancel_def wait_then_Some finally_do_Some do_op_def bchan_def op_simps)
  from 1 have p: "list_all (\<lambda>evt. \<not> concerns tag evt) (pending_events (the_channel c (fst s2)))"
    by (auto simp: unprocessed_messages_def remove_pending_deliveries_def bchan_def set_bchan_def op_simps andThen_assoc
        split_pending_eq list_all_iff split: if_splits)
  with 2 show ?thesis
    by (auto simp: forget_consumer_def consumer_known_def wake_dispatch_def number_of_channel_def request_channel_dispatch_def
        bchan_def set_bchan_def op_simps andThen_assoc map_of_dict_del split: if_splits)
qed

text \<open>
  \<open>start_consuming\<close> returns only when no consumer is left.
\<close>

theorem start_consuming_returns_without_consumers:
  assumes "start_consuming U c s = Some (Inr (), s')"
  shows "consumer_infos (the_channel c (fst s')) = []"
proof -
  from assms obtain s1 where "while_do (has_consumers c) (channel_process_data_events U c None) s1 = Some (Inr (), s')"
    by (auto simp: start_consuming_def wait_then_Some)
  from while_rule[OF this, of "\<lambda>_. True"] show ?thesis by (simp add: has_consumers_def)
qed

section \<open>Publishing\<close>

text \<open>
  C12 (error). With confirmations, \<open>basic_publish\<close> returns only when the broker has acknowledged the
  message and has not returned it; otherwise it raises, \<open>NackError\<close> for a negative acknowledgement.
  Whatever happens, the next message starts with a fresh confirmation.
\<close>

theorem publish_returns_when_acknowledged:
  assumes "delivery_confirmation (the_channel c (fst s))"
    "blocking_basic_publish U c exch routing_key body props mandatory s = Some (r, s')"
  shows "message_confirmation_result (the_channel c (fst s')) = new_result
    \<and> (r = Inr () \<longrightarrow> (\<exists>s0 s1 tag multiple. basic_publish c exch routing_key body props mandatory s = (Inr (), s0)
         \<and> channel_flush U c [confirmed_waiter c] s0 = Some (Inr (), s1)
         \<and> result_value (message_confirmation_result (the_channel c (fst s1)))
             = Inr (Frame_Notice (Basic_Class (Basic_Ack tag multiple)))
         \<and> puback_return (the_channel c (fst s1)) = None))"
proof -
  let ?m = "wait_then (do_op (basic_publish c exch routing_key body props mandatory)) (\<lambda>_.
        wait_then (channel_flush U c [confirmed_waiter c]) (\<lambda>_. do_op (settle_publish c)))"
  from assms have "finally_do ?m (reset_confirmation c) s = Some (r, s')"
    by (auto simp: blocking_basic_publish_def wait_then_Some do_op_def bchan_def op_simps)
  then obtain s2 where m: "?m s = Some (r, s2)" and s': "s' = snd (reset_confirmation c s2)"
    by (auto simp: finally_do_Some reset_confirmation_def set_bchan_def op_simps)
  have reset: "message_confirmation_result (the_channel c (fst s')) = new_result"
    by (simp add: s' reset_confirmation_def set_bchan_def op_simps)
  have "\<exists>s0 s1 tag multiple. basic_publish c exch routing_key body props mandatory s = (Inr (), s0)
         \<and> channel_flush U c [confirmed_waiter c] s0 = Some (Inr (), s1)
         \<and> result_value (message_confirmation_result (the_channel c (fst s1)))
             = Inr (Frame_Notice (Basic_Class (Basic_Ack tag multiple)))
         \<and> puback_return (the_channel c (fst s1)) = None" if "r = Inr ()"
  proof -
    from m that obtain s0 s1 where 0: "basic_publish c exch routing_key body props mandatory s = (Inr (), s0)"
      "channel_flush U c [confirmed_waiter c] s0 = Some (Inr (), s1)" and st: "settle_publish c s1 = (Inr (), s2)"
      by (auto simp: wait_then_Some do_op_def)
    let ?v = "result_value (message_confirmation_result (the_channel c (fst s1)))"
    from st obtain tag multiple where "?v = Inr (Frame_Notice (Basic_Class (Basic_Ack tag multiple)))"
      "puback_return (the_channel c (fst s1)) = None"
      by (cases ?v) (auto simp: settle_publish_def frame_of_def take_puback_return_def bchan_def set_bchan_def op_simps andThen_assoc unless_error_def
          split: notice.splits meth.splits basic_method.splits option.splits if_splits)
    with 0 show ?thesis by blast
  qed
  with reset show ?thesis by blast
qed


section \<open>From the connection to the callback\<close>

text \<open>The callback of the consumer that a delivery names, if it has one.\<close>

definition callback_for :: "blocking_channel \<Rightarrow> meth \<Rightarrow> nat option" where
  "callback_for b m =
     Option.bind (map_of (method_dict m) ''consumer_tag'') (\<lambda>tag. Option.bind (map_of (consumer_infos b) tag) message_callback)"

text \<open>Callbacks of the user that return, and leave the consumers and their messages alone.\<close>

definition obedient :: "user \<Rightarrow> bool" where
  "obedient U \<longleftrightarrow> (\<forall>cb n s. \<exists>s'. user_code U cb n s = Some (Inr (), s')
     \<and> cookies (fst s') = cookies (fst s) \<and> served (fst s') = served (fst s))"

type_synonym addressed = "nat \<times> meth \<times> basic_properties \<times> bytes"

definition all_addressed :: "blocking_channel \<Rightarrow> addressed list \<Rightarrow> bool" where
  "all_addressed b = list_all (\<lambda>(cb, m, _, _). callback_for b m = Some cb)"

definition served_as :: "nat \<Rightarrow> addressed \<Rightarrow> nat \<times> user_notice" where
  "served_as c = (\<lambda>(cb, m, props, body). (cb, Delivered c m props body))"

definition delivery_of :: "addressed \<Rightarrow> channel_evt" where
  "delivery_of = (\<lambda>(_, m, props, body). Delivery_evt m props body)"

definition hand_over :: "nat \<Rightarrow> addressed \<Rightarrow> unit bop" where
  "hand_over c = (\<lambda>(_, m, props, body). on_consumer_message_delivery c m props body)"

lemma callback_for_Some:
  assumes "callback_for b m = Some cb"
  obtains tag info where "map_of (method_dict m) ''consumer_tag'' = Some tag" "map_of (consumer_infos b) tag = Some info"
    "message_callback info = Some cb"
  using assms by (auto simp: callback_for_def bind_eq_Some_conv)

lemma serve_delivery:
  assumes "callback_for (the_channel c (fst s)) m = Some cb"
  shows "serve U c (Delivery_evt m props body) s = call_user U cb (Delivered c m props body) s"
  by (rule callback_for_Some[OF assms]) (simp add: serve_def wait_then_def do_op_def attr_def bchan_def op_simps)

lemma dispatch_in_order:
  assumes ob: "obedient U"
  shows "\<lbrakk>pending_events (the_channel c (fst s)) = map delivery_of ms; all_addressed (the_channel c (fst s)) ms\<rbrakk>
    \<Longrightarrow> \<exists>s'. dispatch_events U c s = Some (Inr (), s') \<and> served (fst s') = served (fst s) @ map (served_as c) ms
      \<and> pending_events (the_channel c (fst s')) = []"
proof (induction ms arbitrary: s)
  case Nil
  then show ?case by (simp add: dispatch_events_def while_do_unfold[of _ _ s] has_pending_def)
next
  case (Cons x ms)
  obtain cb m props body where x: "x = (cb, m, props, body)" by (metis prod_cases4)
  let ?b = "(the_channel c (fst s))\<lparr>pending_events := map delivery_of ms\<rparr>"
  let ?s = "((fst s)\<lparr>cookies := dict_set c ?b (cookies (fst s))\<rparr>, snd s)"
  let ?t = "((fst ?s)\<lparr>served := served (fst ?s) @ [served_as c x]\<rparr>, snd ?s)"
  have cb: "callback_for (the_channel c (fst ?s)) m = Some cb"
    using Cons.prems(2) x by (simp add: all_addressed_def callback_for_def)
  obtain s1 where u: "user_code U cb (Delivered c m props body) ?t = Some (Inr (), s1)" "cookies (fst s1) = cookies (fst ?t)"
    "served (fst s1) = served (fst ?t)"
    using ob unfolding obedient_def by blast
  have serve: "serve_next U c s = Some (Inr (), s1)"
    using Cons.prems(1) x serve_delivery[OF cb, of U props body] u(1)
    by (simp add: serve_next_def wait_then_def do_op_def bchan_def set_bchan_def op_simps delivery_of_def call_user_def served_as_def)
  have same: "the_channel c (fst s1) = ?b" using u(2) by (simp add: the_channel_def map_of_dict_set)
  have "all_addressed ?b ms" using Cons.prems(2) by (simp add: all_addressed_def callback_for_def)
  with Cons.IH[of s1] same obtain s' where s': "dispatch_events U c s1 = Some (Inr (), s')"
    "served (fst s') = served (fst s1) @ map (served_as c) ms" "pending_events (the_channel c (fst s')) = []" by auto
  have "dispatch_events U c s = dispatch_events U c s1"
    using Cons.prems(1) serve by (simp add: dispatch_events_def while_do_unfold[of _ _ s] has_pending_def wait_then_def)
  with s' u(3) show ?case by simp
qed

lemma hand_over_appends:
  assumes "callback_for (the_channel c (fst s)) m = Some cb"
  shows "\<exists>s'. hand_over c (cb, m, props, body) s = (Inr (), s') \<and> served (fst s') = served (fst s)
    \<and> the_channel c (fst s') = (the_channel c (fst s))\<lparr>pending_events :=
        pending_events (the_channel c (fst s)) @ [Delivery_evt m props body]\<rparr>"
  by (rule callback_for_Some[OF assms])
    (simp add: hand_over_def on_consumer_message_delivery_def attr_def bchan_def set_bchan_def consumer_event_def
      add_pending_event_def number_of_channel_def request_channel_dispatch_def op_simps andThen_assoc)

lemma hand_over_all:
  "all_addressed (the_channel c (fst s)) ms \<Longrightarrow> \<exists>s'. sequence (map (hand_over c) ms) s = (Inr (), s')
    \<and> served (fst s') = served (fst s)
    \<and> the_channel c (fst s') = (the_channel c (fst s))\<lparr>pending_events :=
        pending_events (the_channel c (fst s)) @ map delivery_of ms\<rparr>"
proof (induction ms arbitrary: s)
  case (Cons x ms)
  obtain cb m props body where x: "x = (cb, m, props, body)" by (metis prod_cases4)
  with Cons.prems obtain s1 where 1: "hand_over c x s = (Inr (), s1)" "served (fst s1) = served (fst s)"
    "the_channel c (fst s1) = (the_channel c (fst s))\<lparr>pending_events :=
        pending_events (the_channel c (fst s)) @ [delivery_of x]\<rparr>"
    using hand_over_appends[of c s m cb props body] by (auto simp: all_addressed_def delivery_of_def)
  have "all_addressed (the_channel c (fst s1)) ms"
    using Cons.prems by (simp add: 1(3) all_addressed_def callback_for_def)
  with Cons.IH[of s1] 1 show ?case by (auto simp: andThen_done)
qed (simp add: op_simps)


end
