(* ===== verification/Blocking_Examples.thy ===== *)
theory Blocking_Examples
  imports Blocking_Results
begin

text \<open>A connection with one open channel, and the properties of the blocking layer applied to it.\<close>

section \<open>A connection\<close>

definition calm_user :: user where
  "calm_user = \<lparr>user_code = \<lambda>_ _. pass (), heartbeat_choice = \<lambda>_ v. Value v\<rparr>"

lemma calm_user_obedient: "obedient calm_user"
  by (simp add: obedient_def calm_user_def pass_def do_op_def op_simps)

definition sample_with :: "io list list \<Rightarrow> blocking_channel \<Rightarrow> bconn" where
  "sample_with comes b = (\<lparr>bytes_sent = 0, frames_sent = 0, emitted = [], connection_state = CONNECTION_OPEN,
     conn_error = None, heartbeat_checker = None, blocked_conn_timer = None, received_bytes = 0, disconnects = 0,
     clock = 0, params = new_Parameters, callback_stack = new_stack, partials = 0, channels = [(1, 0)],
     objects = [(new_channel 1 None)\<lparr>chan_state := OPEN\<rparr>], opened = True,
     body_max_length = Some 8, frame_buffer = [], frames_received = 0, server_properties = PNone,
     server_capabilities = PNone, known_hosts = PNone, python_version = [], user_log = [],
     has_transport = True, got_eof = False, failed = False,
     hooks = [], local_results = [], rounds = comes, event_dispatch_suspend_depth = 0, ready_events = [],
     channels_pending_dispatch = [], closed_result = new_result, cookies = [(0, b)], drained = 0,
     user_timers = new_timer, posted_callbacks = [], served = []\<rparr>, new_timer)"

definition outcome_is :: "('a \<Rightarrow> bconn \<Rightarrow> bool) \<Rightarrow> ((exn + 'a) \<times> bconn) option \<Rightarrow> bool" where
  "outcome_is Q x = (case x of Some (Inr y, s) \<Rightarrow> Q y s | _ \<Rightarrow> False)"

lemma outcome_isE:
  assumes "outcome_is Q x"
  obtains y s where "x = Some (Inr y, s)" "Q y s"
  using assms by (auto simp: outcome_is_def split: option.splits prod.splits sum.splits)

text \<open>A request and its reply\<close>

definition qos_answered :: bconn where
  "qos_answered = sample_with [[Written 1], [Received [1, 0, 1, 0, 0, 0, 4, 0, 60, 0, 11, 206]]] new_blocking_channel"

lemma waiting_calls_no_callback_witness:
  "\<exists>s'. run_blocking calm_user (BQos 0 (PInt 0) (PInt 1) (PBool False)) qos_answered = Some (Inr (), s')
    \<and> served (fst s') = [] \<and> extends qos_answered s'"
proof -
  have "outcome_is (\<lambda>_ _. True) (run_blocking calm_user (BQos 0 (PInt 0) (PInt 1) (PBool False)) qos_answered)" by code_simp
  then obtain s' where s': "run_blocking calm_user (BQos 0 (PInt 0) (PInt 1) (PBool False)) qos_answered = Some (Inr (), s')"
    by (rule outcome_isE) auto
  have "served (fst qos_answered) = []" by (simp add: qos_answered_def sample_with_def)
  with waiting_calls_no_callback[OF s'] s' show ?thesis by auto
qed

text \<open>A consumer with two messages pending\<close>

definition delivery_to :: "string \<Rightarrow> int \<Rightarrow> meth" where
  "delivery_to tag n = Basic_Class (Basic_Deliver (text_key tag) (PInt n) (PBool False) (PStr []) (PStr []))"

definition consumer_channel :: "consumer_state \<Rightarrow> blocking_channel" where
  "consumer_channel st = new_blocking_channel\<lparr>consumer_infos :=
     [(text_key ''a'', \<lparr>auto_acks = PBool True, message_callback = Some 7, consumer_state = st\<rparr>)]\<rparr>"

definition pending_channel :: "blocking_channel" where
  "pending_channel = (consumer_channel CANCELLED_BY_BROKER)\<lparr>pending_events :=
     [Delivery_evt (delivery_to ''a'' 1) new_properties [1], Delivery_evt (delivery_to ''a'' 2) new_properties [2],
      Cancellation_evt (Basic_Class (Basic_Cancel (text_key ''a'') (PBool True)))]\<rparr>"

definition dispatching :: "int \<Rightarrow> bconn \<Rightarrow> bconn" where
  "dispatching depth s = ((fst s)\<lparr>channels_pending_dispatch := [1], event_dispatch_suspend_depth := depth\<rparr>, snd s)"


lemma start_consuming_not_nested_witness:
  "start_consuming calm_user 0 (dispatching 1 (sample_with [] pending_channel))
    = (Some (Inl ReentrancyError, dispatching 1 (sample_with [] pending_channel)))"
  by (rule start_consuming_not_nested) (simp add: dispatching_def)


lemma flush_returns_when_done_witness:
  "\<exists>s'. conn_flush calm_user [\<lambda>s. clock (fst s) \<ge> 3] (sample_with [[Elapsed 2], [Elapsed 2], [Elapsed 2]] new_blocking_channel) = Some (Inr (), s')
    \<and> clock (fst s') = 4 \<and> output_written s'"
proof -
  let ?m = "conn_flush calm_user [\<lambda>s. clock (fst s) \<ge> 3] (sample_with [[Elapsed 2], [Elapsed 2], [Elapsed 2]] new_blocking_channel)"
  have "outcome_is (\<lambda>_ s. clock (fst s) = 4 \<and> is_ready (closed_result (fst s)) = False \<and> rounds (fst s) \<noteq> []
      \<and> timeout_heap (snd s) \<noteq> None) ?m" by code_simp
  then obtain s' where s': "?m = Some (Inr (), s')" "clock (fst s') = 4" "timeout_heap (snd s') \<noteq> None" by (rule outcome_isE) auto
  have "timeout_heap (close_timer t) = None" for t :: "conn_callback timer" by (simp add: close_timer_def split: option.split)
  with s'(3) have "\<not> (\<exists>s1 e. result_value (closed_result (fst s1)) = Inr (Connection_Closed e)
      \<and> isinstance e C_ConnectionClosedByClient \<and> s' = snd (blocking_cleanup s1))" by (auto simp: blocking_cleanup_def)
  with flush_returns_when_done[OF s'(1)] s' show ?thesis by blast
qed

lemma cancel_leaves_nothing_witness:
  "\<exists>s'. blocking_basic_cancel calm_user 0 (text_key ''a'') (sample_with [] pending_channel)
      = Some (Inr [(delivery_to ''a'' 1, new_properties, [1]), (delivery_to ''a'' 2, new_properties, [2])], s')
    \<and> list_all (\<lambda>evt. \<not> concerns (text_key ''a'') evt) (pending_events (the_channel 0 (fst s')))"
proof -
  let ?m = "blocking_basic_cancel calm_user 0 (text_key ''a'') (sample_with [] pending_channel)"
  have "outcome_is (\<lambda>ms _. ms = [(delivery_to ''a'' 1, new_properties, [1]), (delivery_to ''a'' 2, new_properties, [2])]) ?m"
    by code_simp
  then obtain s' where s': "?m = Some (Inr [(delivery_to ''a'' 1, new_properties, [1]), (delivery_to ''a'' 2, new_properties, [2])], s')"
    by (rule outcome_isE) auto
  have "map_of (consumer_infos (the_channel 0 (fst (sample_with [] pending_channel)))) (text_key ''a'') \<noteq> None" by code_simp
  from cancel_leaves_nothing[OF this s'] s' show ?thesis by blast
qed

lemma consuming_once:
  assumes "event_dispatch_suspend_depth (fst s) = 0" "chan_state (objects (fst s) ! c) = OPEN" "has_consumers c s"
    "channel_process_data_events U c None s = Some (Inr (), s')" "\<not> has_consumers c s'"
  shows "start_consuming U c s = Some (Inr (), s')"
proof -
  have "with_dispatch (\<lambda>a. if a then pass () else do_op (raise ReentrancyError)) s = Some (Inr (), s)"
    using assms(1) by (cases s) (simp add: with_dispatch_def wait_then_def finally_do_def do_op_def op_simps pass_def)
  moreover have "raise_if_not_open c s = (Inr (), s)" using assms(2) by (simp add: raise_if_not_open_def op_simps)
  moreover have "while_do (has_consumers c) (channel_process_data_events U c None) s = Some (Inr (), s')"
    using assms(3-5) by (simp add: while_do_unfold[of _ _ s] while_do_unfold[of _ _ s'] wait_then_def)
  ultimately show ?thesis by (simp add: start_consuming_def wait_then_def do_op_def)
qed

lemma start_consuming_returns_without_consumers_witness:
  "\<exists>s'. start_consuming calm_user 0 (dispatching 0 (sample_with [] pending_channel)) = Some (Inr (), s')
    \<and> consumer_infos (the_channel 0 (fst s')) = [] \<and> map fst (served (fst s')) = [7, 7]"
proof -
  let ?s = "dispatching 0 (sample_with [] pending_channel)"
  have "outcome_is (\<lambda>_ s. map fst (served (fst s)) = [7, 7] \<and> consumer_infos (the_channel 0 (fst s)) = []
      \<and> reason_closed (the_channel 0 (fst s)) = None) (process_data_events calm_user None ?s)" by code_simp
  then obtain s' where s': "process_data_events calm_user None ?s = Some (Inr (), s')" "map fst (served (fst s')) = [7, 7]"
    "consumer_infos (the_channel 0 (fst s')) = []" "reason_closed (the_channel 0 (fst s')) = None" by (rule outcome_isE) auto
  have "channel_process_data_events calm_user 0 None ?s = Some (Inr (), s')"
    using s'(4) by (simp add: channel_process_data_events_def wait_then_def s'(1) do_op_def raise_if_closed_by_broker_def bchan_def op_simps)
  moreover have "event_dispatch_suspend_depth (fst ?s) = 0" "chan_state (objects (fst ?s) ! 0) = OPEN" "has_consumers 0 ?s"
    by (simp_all add: has_consumers_def dispatching_def sample_with_def the_channel_def pending_channel_def consumer_channel_def)
  ultimately have run: "start_consuming calm_user 0 ?s = Some (Inr (), s')"
    using s'(3) by (intro consuming_once) (simp_all add: has_consumers_def)
  show ?thesis by (intro exI[of _ s'] conjI run s'(2) start_consuming_returns_without_consumers[OF run])
qed


text \<open>A message that the broker acknowledges\<close>

definition confirming :: bconn where
  "confirming = snd (andThen (intern (Set_message_confirmation 0)) (\<lambda>k. chan_add 0 ''Basic.Ack'' (Application k) False None None)
     (sample_with [[Written 2], [Received [1, 0, 1, 0, 0, 0, 13, 0, 60, 0, 80, 0, 0, 0, 0, 0, 0, 0, 1, 0, 206]]]
       (new_blocking_channel\<lparr>delivery_confirmation := True\<rparr>)))"

lemma publish_run:
  assumes "delivery_confirmation (the_channel c (fst s))" "basic_publish c exch routing_key body props mandatory s = (Inr (), s0)"
    "wait_then (channel_flush U c [confirmed_waiter c]) (\<lambda>_. do_op (settle_publish c)) s0 = Some (Inr (), s2)"
  shows "blocking_basic_publish U c exch routing_key body props mandatory s = Some (Inr (), snd (reset_confirmation c s2))"
proof -
  have first: "wait_then (do_op m) f s = (case m s of (Inl e, s') \<Rightarrow> Some (Inl e, s') | (Inr x, s') \<Rightarrow> f x s')"
    for m :: "'x bop" and f :: "'x \<Rightarrow> 'y blk" and s
    by (simp add: wait_then_def do_op_def)
  from assms show ?thesis
    by (simp add: blocking_basic_publish_def finally_do_def first bchan_def reset_confirmation_def set_bchan_def op_simps)
qed

definition published :: "bytes list" where
  "published = [[1, 0, 1, 0, 0, 0, 10, 0, 60, 0, 40, 0, 0, 0, 1, 113, 0, 206],
     [2, 0, 1, 0, 0, 0, 14, 0, 60, 0, 0, 0, 0, 0, 0, 0, 0, 0, 0, 0, 0, 206]]"

lemma publish_sent:
  "basic_publish 0 (PStr []) (text_key ''q'') (PBytes []) None (PBool False) confirming
    = (Inr (), output_marshaled_frames published (fst confirming), snd confirming)"
proof -
  have "be_bytes 2 0 = [0, 0]" by code_simp
  then have "flag_words 0 = Inr [[0, 0]]"
    by (simp add: flag_words.simps[of 0] pack_uint_def del: be_bytes.simps)
  then have "properties_encode new_properties = Inr [[0, 0]]"
    by (simp add: properties_encode_def attribute_steps_def new_properties_def)
  moreover have "be_bytes 2 60 = [0, 60]" "be_bytes 2 1 = [0, 1]" "be_bytes 4 14 = [0, 0, 0, 14]" "be_bytes 8 0 = [0, 0, 0, 0, 0, 0, 0, 0]"
    "be_bytes 1 2 = [2]" "be_bytes 2 0 = [0, 0]" by code_simp+
  ultimately have h: "marshal (Header_Frame 1 0 new_properties) = Inr (published ! 1)"
    by (simp add: marshal_pieces_def pack_uint_def FRAME_HEADER_def FRAME_END_def published_def del: be_bytes.simps)
  have p: "marshal (Method_Frame 1 (Basic_Class (Basic_Publish (PInt 0) (PStr []) (text_key ''q'') (PBool False) (PBool False))))
    = Inr (published ! 0)" unfolding published_def by code_simp
  have "body_frames 1 8 [] = Some []" by code_simp
  with p h have "send_message 8 1 (Basic_Class (Basic_Publish (PInt 0) (PStr []) (text_key ''q'') (PBool False) (PBool False)))
      new_properties [] w = Inr (output_marshaled_frames published w)" for w :: blocking_connection
    by (simp add: send_message_def published_def del: marshal.simps)
  moreover have "chan_state (objects (fst confirming) ! 0) = OPEN" "channel_number (objects (fst confirming) ! 0) = 1"
    "body_max_length (fst confirming) = Some 8"
    by code_simp+
  ultimately show ?thesis
    by (simp add: basic_publish_def raise_if_not_open_def body_bytes_def chan_send_def conn_send_method_def conn_send_message_def op_simps andThen_assoc)
qed

lemma publish_returns_when_acknowledged_witness:
  "\<exists>s' (s1 :: bconn) tag multiple. blocking_basic_publish calm_user 0 (PStr []) (text_key ''q'') (PBytes []) None (PBool False) confirming = Some (Inr (), s')
    \<and> result_value (message_confirmation_result (the_channel 0 (fst s1))) = Inr (Frame_Notice (Basic_Class (Basic_Ack tag multiple)))"
proof -
  let ?m = "blocking_basic_publish calm_user 0 (PStr []) (text_key ''q'') (PBytes []) None (PBool False) confirming"
  have on: "delivery_confirmation (the_channel 0 (fst confirming))" by code_simp
  let ?s0 = "(output_marshaled_frames published (fst confirming), snd confirming)"
  have "outcome_is (\<lambda>_ _. True) (wait_then (channel_flush calm_user 0 [confirmed_waiter 0]) (\<lambda>_. do_op (settle_publish 0)) ?s0)" by code_simp
  then obtain s2 where "wait_then (channel_flush calm_user 0 [confirmed_waiter 0]) (\<lambda>_. do_op (settle_publish 0)) ?s0 = Some (Inr (), s2)"
    by (rule outcome_isE) auto
  note run = publish_run[OF on publish_sent this]
  from conjunct2[OF publish_returns_when_acknowledged[OF on run]] obtain s1 :: bconn and tag multiple where
    "result_value (message_confirmation_result (the_channel 0 (fst s1))) = Inr (Frame_Notice (Basic_Class (Basic_Ack tag multiple)))"
    by auto
  with run show ?thesis by blast
qed

end
